(* ===== verification/Avn_Prelude.thy ===== *)
theory Avn_Prelude
  imports Main
begin

text \<open>
  Shared vocabulary of the development: the machine integers of the runtime with the
  arithmetic the pallets use on them, results with Rust's \<open>?\<close> operator, the vector
  operations of \<open>Vec\<close> and \<open>BoundedVec\<close>, and the binary search of the standard library
  with its contract.

  Integers are natural numbers with the width written out. A \<open>Balance\<close> is a \<open>u128\<close>, an
  era index, a count and a period index are \<open>u32\<close>. \<open>saturating_add\<close> stops at the
  maximum of the type, \<open>saturating_sub\<close> stops at 0 (which is subtraction on \<open>nat\<close>), and a
  plain \<open>+\<close> or \<open>-\<close> wraps around, since the release profile of the runtime does not switch
  overflow checks on.
\<close>

section \<open>Machine integers\<close>

type_synonym account = nat
type_synonym balance = nat
type_synonym era_index = nat

named_theorems arith_defs "definitions of the runtime's integer operations"

definition u32_max :: nat where
  "u32_max = 2 ^ 32 - 1"

definition u128_max :: nat where
  "u128_max = 2 ^ 128 - 1"

definition sat_add :: "balance \<Rightarrow> balance \<Rightarrow> balance" where
  "sat_add a b = min (a + b) u128_max"

definition sat_add32 :: "nat \<Rightarrow> nat \<Rightarrow> nat" where
  "sat_add32 a b = min (a + b) u32_max"

definition wrapping_add32 :: "nat \<Rightarrow> nat \<Rightarrow> nat" where
  "wrapping_add32 a b = (a + b) mod 2 ^ 32"

definition wrapping_sub32 :: "nat \<Rightarrow> nat \<Rightarrow> nat" where
  "wrapping_sub32 a b = (a + 2 ^ 32 - b) mod 2 ^ 32"

definition wrapping_add128 :: "nat \<Rightarrow> nat \<Rightarrow> nat" where
  "wrapping_add128 a b = (a + b) mod 2 ^ 128"

definition wrapping_sub128 :: "nat \<Rightarrow> nat \<Rightarrow> nat" where
  "wrapping_sub128 a b = (a + 2 ^ 128 - b) mod 2 ^ 128"

definition wrapping_mul128 :: "nat \<Rightarrow> nat \<Rightarrow> nat" where
  "wrapping_mul128 a b = (a * b) mod 2 ^ 128"

definition checked_add128 :: "nat \<Rightarrow> nat \<Rightarrow> nat option" where
  "checked_add128 a b = (if a + b \<le> u128_max then Some (a + b) else None)"

definition checked_sub128 :: "nat \<Rightarrow> nat \<Rightarrow> nat option" where
  "checked_sub128 a b = (if b \<le> a then Some (a - b) else None)"

section \<open>Results\<close>

text \<open>
  A \<open>Result\<close> is a sum with the error on the left. \<open>and_then\<close> is the \<open>?\<close> operator: the
  first error ends the computation and discards the state, as the storage layer does with
  the writes of a dispatchable that returns an error.
\<close>

fun and_then :: "'e + 'a \<Rightarrow> ('a \<Rightarrow> 'e + 'b) \<Rightarrow> 'e + 'b" where
  "and_then (Inl e) f = Inl e"
| "and_then (Inr x) f = f x"

fun ok_or :: "'a option \<Rightarrow> 'e \<Rightarrow> 'e + 'a" where
  "ok_or None e = Inl e"
| "ok_or (Some x) e = Inr x"

fun is_ok :: "'e + 'a \<Rightarrow> bool" where
  "is_ok (Inl e) = False"
| "is_ok (Inr x) = True"

text \<open>A \<open>for\<close> loop whose body may leave with an error.\<close>

fun try_fold :: "('x \<Rightarrow> 's \<Rightarrow> 'e + 's) \<Rightarrow> 'x list \<Rightarrow> 's \<Rightarrow> 'e + 's" where
  "try_fold f [] s = Inr s"
| "try_fold f (x # xs) s = and_then (f x s) (try_fold f xs)"

section \<open>Vectors\<close>

definition insert_at :: "nat \<Rightarrow> 'a \<Rightarrow> 'a list \<Rightarrow> 'a list" where
  "insert_at i x xs = take i xs @ x # drop i xs"

definition remove_at :: "nat \<Rightarrow> 'a list \<Rightarrow> 'a list" where
  "remove_at i xs = take i xs @ drop (Suc i) xs"

text \<open>A \<open>BoundedVec\<close> is a list whose length never passes the bound.\<close>

definition try_push :: "nat \<Rightarrow> 'a \<Rightarrow> 'a list \<Rightarrow> 'a list option" where
  "try_push bound x xs = (if length xs < bound then Some (xs @ [x]) else None)"

definition vec_try_insert :: "nat \<Rightarrow> nat \<Rightarrow> 'a \<Rightarrow> 'a list \<Rightarrow> 'a list option" where
  "vec_try_insert bound i x xs =
     (if length xs < bound then Some (insert_at i x xs) else None)"

definition truncate_from :: "nat \<Rightarrow> 'a list \<Rightarrow> 'a list" where
  "truncate_from bound xs = take bound xs"

text \<open>\<open>Iterator::position\<close>: the index of the first element that satisfies the predicate.\<close>

fun position :: "('a \<Rightarrow> bool) \<Rightarrow> 'a list \<Rightarrow> nat option" where
  "position P [] = None"
| "position P (x # xs) = (if P x then Some 0 else map_option Suc (position P xs))"

section \<open>Comparison and binary search\<close>

datatype ordering = Less | Equal | Greater

definition cmp :: "'k::linorder \<Rightarrow> 'k \<Rightarrow> ordering" where
  "cmp a b = (if a < b then Less else if a = b then Equal else Greater)"

text \<open>
  \<open>slice::binary_search_by\<close>: the loop halves the window \<open>[base, base + sz)\<close> and keeps
  \<open>base\<close> at an element that is not greater. \<open>Inr i\<close> is \<open>Ok(i)\<close>, an index where the
  comparison is \<open>Equal\<close>; \<open>Inl i\<close> is \<open>Err(i)\<close>, the place where such an element could be
  inserted.
\<close>

function bsearch_loop :: "('a \<Rightarrow> ordering) \<Rightarrow> 'a list \<Rightarrow> nat \<Rightarrow> nat \<Rightarrow> nat" where
  "bsearch_loop f xs base sz =
     (if sz \<le> 1 then base
      else (let half = sz div 2; mid = base + half in
            bsearch_loop f xs (if f (xs ! mid) = Greater then base else mid) (sz - half)))"
  by pat_completeness auto
termination
  by (relation "measure (\<lambda>(f, xs, base, sz). sz)") auto

definition binary_search_by :: "('a \<Rightarrow> ordering) \<Rightarrow> 'a list \<Rightarrow> nat + nat" where
  "binary_search_by f xs =
     (if xs = [] then Inl 0
      else (let base = bsearch_loop f xs 0 (length xs) in
            case f (xs ! base) of
              Equal \<Rightarrow> Inr base
            | Less \<Rightarrow> Inl (Suc base)
            | Greater \<Rightarrow> Inl base))"

declare bsearch_loop.simps [simp del]

section \<open>Lemmas on integers\<close>

lemma sat_add_exact [simp]: "a + b \<le> u128_max \<Longrightarrow> sat_add a b = a + b"
  by (simp add: sat_add_def)

lemma sat_add_le_max: "sat_add a b \<le> u128_max"
  by (simp add: sat_add_def)

lemma sat_add_le: "sat_add a b \<le> a + b"
  by (simp add: sat_add_def)

lemma sat_add_zero [simp]: "a \<le> u128_max \<Longrightarrow> sat_add a 0 = a"
  by (simp add: sat_add_def)

lemma sat_add32_exact [simp]: "a + b \<le> u32_max \<Longrightarrow> sat_add32 a b = a + b"
  by (simp add: sat_add32_def)

lemma wrapping_add32_exact: "a + b \<le> u32_max \<Longrightarrow> wrapping_add32 a b = a + b"
  by (simp add: wrapping_add32_def u32_max_def)

lemma wrapping_sub128_exact: "b \<le> a \<Longrightarrow> a \<le> u128_max \<Longrightarrow> wrapping_sub128 a b = a - b"
proof -
  assume "b \<le> a" "a \<le> u128_max"
  then have "a + 2 ^ 128 - b = (a - b) + 2 ^ 128" "a - b < 2 ^ 128"
    by (simp_all add: u128_max_def)
  then show ?thesis
    by (metis mod_add_self2 mod_less wrapping_sub128_def)
qed

section \<open>Lemmas on results\<close>

lemma and_then_Inr [simp]:
  "and_then m f = Inr y \<longleftrightarrow> (\<exists>x. m = Inr x \<and> f x = Inr y)"
  by (cases m) auto

lemma and_then_Inl:
  "and_then m f = Inl e \<longleftrightarrow> m = Inl e \<or> (\<exists>x. m = Inr x \<and> f x = Inl e)"
  by (cases m) auto

lemma ok_or_Inr [simp]: "ok_or m e = Inr x \<longleftrightarrow> m = Some x"
  by (cases m) auto

lemma ok_or_Inl [simp]: "ok_or m e = Inl e' \<longleftrightarrow> m = None \<and> e' = e"
  by (cases m) auto

lemma is_ok_iff: "is_ok m \<longleftrightarrow> (\<exists>x. m = Inr x)"
  by (cases m) auto

text \<open>An invariant of the body is an invariant of the loop.\<close>

lemma try_fold_invariant:
  assumes "try_fold f xs s = Inr s'" and "I s"
    and "\<And>x s s'. x \<in> set xs \<Longrightarrow> I s \<Longrightarrow> f x s = Inr s' \<Longrightarrow> I s'"
  shows "I s'"
  using assms by (induction xs arbitrary: s) auto

section \<open>Lemmas on vectors\<close>

lemma length_insert_at [simp]: "i \<le> length xs \<Longrightarrow> length (insert_at i x xs) = Suc (length xs)"
  by (simp add: insert_at_def)

lemma set_insert_at [simp]: "set (insert_at i x xs) = insert x (set xs)"
  by (metis insert_at_def Un_insert_right append_take_drop_id list.simps(15) set_append)

lemma length_remove_at [simp]: "i < length xs \<Longrightarrow> length (remove_at i xs) = length xs - 1"
  by (simp add: remove_at_def)

lemma remove_at_split: "i < length xs \<Longrightarrow> xs = take i xs @ xs ! i # drop (Suc i) xs"
  by (rule id_take_nth_drop)

lemma set_remove_at_subset: "set (remove_at i xs) \<subseteq> set xs"
  using set_take_subset set_drop_subset by (fastforce simp: remove_at_def)

lemma position_SomeD:
  "position P xs = Some i \<Longrightarrow> i < length xs \<and> P (xs ! i) \<and> (\<forall>j<i. \<not> P (xs ! j))"
proof (induction xs arbitrary: i)
  case Nil
  then show ?case by simp
next
  case (Cons x xs)
  then show ?case
    by (auto split: if_splits simp: less_Suc_eq_0_disj)
qed

lemma position_None: "position P xs = None \<longleftrightarrow> (\<forall>x\<in>set xs. \<not> P x)"
  by (induction xs) auto

section \<open>The contract of binary search\<close>

lemma cmp_simps [simp]:
  "cmp a b = Less \<longleftrightarrow> a < b"
  "cmp a b = Equal \<longleftrightarrow> a = b"
  "cmp a b = Greater \<longleftrightarrow> b < a"
  by (auto simp: cmp_def)

text \<open>
  The precondition of the search: along the slice the comparison goes from \<open>Less\<close> over
  \<open>Equal\<close> to \<open>Greater\<close>.
\<close>

definition partitioned :: "('a \<Rightarrow> ordering) \<Rightarrow> 'a list \<Rightarrow> bool" where
  "partitioned f xs \<longleftrightarrow>
     (\<forall>i j. i < j \<longrightarrow> j < length xs \<longrightarrow>
        (f (xs ! i) = Greater \<longrightarrow> f (xs ! j) = Greater) \<and>
        (f (xs ! j) = Less \<longrightarrow> f (xs ! i) = Less))"

lemma partitioned_Greater:
  "partitioned f xs \<Longrightarrow> f (xs ! i) = Greater \<Longrightarrow> i \<le> j \<Longrightarrow> j < length xs \<Longrightarrow>
     f (xs ! j) = Greater"
  unfolding partitioned_def by (metis le_neq_implies_less)

lemma partitioned_Less:
  "partitioned f xs \<Longrightarrow> f (xs ! j) = Less \<Longrightarrow> i \<le> j \<Longrightarrow> j < length xs \<Longrightarrow>
     f (xs ! i) = Less"
  unfolding partitioned_def by (metis le_neq_implies_less)

lemma bsearch_loop_inv:
  assumes "partitioned f xs" "1 \<le> sz" "base + sz \<le> length xs"
    and "\<forall>j. base + sz \<le> j \<longrightarrow> j < length xs \<longrightarrow> f (xs ! j) = Greater"
    and "base = 0 \<or> f (xs ! base) \<noteq> Greater"
  shows "let b = bsearch_loop f xs base sz in
     b < length xs \<and> (\<forall>j. b < j \<longrightarrow> j < length xs \<longrightarrow> f (xs ! j) = Greater) \<and>
     (b = 0 \<or> f (xs ! b) \<noteq> Greater)"
  using assms
proof (induction f xs base sz rule: bsearch_loop.induct)
  case (1 f xs base sz)
  show ?case
  proof (cases "sz \<le> 1")
    case True
    then have "bsearch_loop f xs base sz = base"
      by (simp add: bsearch_loop.simps)
    then show ?thesis
      unfolding Let_def using True "1.prems" by simp
  next
    case False
    define half where "half = sz div 2"
    define b where "b = (if f (xs ! (base + half)) = Greater then base else base + half)"
    have half: "1 \<le> half" "half < sz"
      using False by (auto simp: half_def)
    have step: "bsearch_loop f xs base sz = bsearch_loop f xs b (sz - half)"
      using False by (simp add: bsearch_loop.simps [of f xs base sz] half_def b_def Let_def)
    have "f (xs ! j) = Greater" if "b + (sz - half) \<le> j" "j < length xs" for j
    proof (cases "f (xs ! (base + half)) = Greater")
      case True
      then have "base + half \<le> j"
        using that half by (simp add: b_def half_def)
      then show ?thesis
        using partitioned_Greater [OF "1.prems"(1) True] that(2) by blast
    next
      case False
      then show ?thesis
        using that half "1.prems"(4) by (simp add: b_def)
    qed
    moreover have "b = 0 \<or> f (xs ! b) \<noteq> Greater"
      using "1.prems"(5) by (auto simp: b_def)
    moreover have "b + (sz - half) \<le> length xs"
      using "1.prems"(3) half by (auto simp: b_def)
    moreover have "1 \<le> sz - half"
      using half by simp
    ultimately show ?thesis
      unfolding step using "1.IH" [OF False half_def refl, folded b_def] "1.prems"(1) by blast
  qed
qed

lemma binary_search_Ok:
  "binary_search_by f xs = Inr i \<Longrightarrow> partitioned f xs \<Longrightarrow> i < length xs \<and> f (xs ! i) = Equal"
  using bsearch_loop_inv [of f xs "length xs" 0]
  by (auto simp: binary_search_by_def Let_def neq_Nil_conv Suc_le_eq split: if_splits ordering.splits)

lemma binary_search_Err:
  assumes "binary_search_by f xs = Inl i" "partitioned f xs"
  shows "i \<le> length xs \<and> (\<forall>j<i. f (xs ! j) = Less) \<and>
     (\<forall>j. i \<le> j \<longrightarrow> j < length xs \<longrightarrow> f (xs ! j) = Greater)"
proof (cases "xs = []")
  case True
  then show ?thesis
    using assms by (simp add: binary_search_by_def)
next
  case False
  define b where "b = bsearch_loop f xs 0 (length xs)"
  have b: "b < length xs" "\<forall>j. b < j \<longrightarrow> j < length xs \<longrightarrow> f (xs ! j) = Greater"
    "b = 0 \<or> f (xs ! b) \<noteq> Greater"
    using bsearch_loop_inv [of f xs "length xs" 0] assms(2) False
    by (auto simp: b_def Let_def Suc_le_eq)
  show ?thesis
  proof (cases "f (xs ! b)")
    case Less
    then have "i = Suc b"
      using assms(1) False by (simp add: binary_search_by_def b_def)
    moreover have "f (xs ! j) = Less" if "j < Suc b" for j
      using that partitioned_Less [OF assms(2) Less] b(1) by simp
    ultimately show ?thesis
      using b by auto
  next
    case Equal
    then show ?thesis
      using assms(1) False by (simp add: binary_search_by_def b_def)
  next
    case Greater
    then have "b = 0" "i = b"
      using assms(1) False b(3) by (auto simp: binary_search_by_def b_def)
    then show ?thesis
      using Greater b(2) by (auto simp: le_less)
  qed
qed

end
