(* ===== verification/Ordered_Set.thy ===== *)
theory Ordered_Set
  imports Avn_Prelude
begin

text \<open>
  The sorted vectors of \<open>pallets/parachain-staking/src/set.rs\<close>: \<open>OrderedSet\<close> over a
  \<open>Vec\<close> and \<open>BoundedOrderedSet\<close> over a \<open>BoundedVec\<close>. The element type's \<open>Ord\<close> is
  given by a key: the staking pallet compares a \<open>Bond\<close> by its owner only, so two bonds of
  one owner are the same element whatever their amounts.

  The interface \<open>keyed_set\<close> states what the operations promise over the abstract view, a
  finite map from keys to elements; its client lemmas (replacing an element always
  succeeds, even at capacity) are proved once and hold for both vectors.
\<close>

section \<open>Operations\<close>

definition ordered_search :: "('a \<Rightarrow> 'k::linorder) \<Rightarrow> 'k \<Rightarrow> 'a list \<Rightarrow> nat + nat" where
  "ordered_search key k xs = binary_search_by (\<lambda>p. cmp (key p) k) xs"

fun dedup :: "('a \<Rightarrow> 'k) \<Rightarrow> 'a list \<Rightarrow> 'a list" where
  "dedup key [] = []"
| "dedup key [x] = [x]"
| "dedup key (x # y # xs) =
     (if key x = key y then dedup key (x # xs) else x # dedup key (y # xs))"

definition ordered_set_from :: "('a \<Rightarrow> 'k::linorder) \<Rightarrow> 'a list \<Rightarrow> 'a list" where
  "ordered_set_from key v = dedup key (sort_key key v)"

definition ordered_set_insert ::
  "('a \<Rightarrow> 'k::linorder) \<Rightarrow> 'a \<Rightarrow> 'a list \<Rightarrow> bool \<times> 'a list" where
  "ordered_set_insert key x xs =
     (case ordered_search key (key x) xs of
        Inr _ \<Rightarrow> (False, xs)
      | Inl loc \<Rightarrow> (True, insert_at loc x xs))"

definition ordered_set_remove ::
  "('a \<Rightarrow> 'k::linorder) \<Rightarrow> 'k \<Rightarrow> 'a list \<Rightarrow> bool \<times> 'a list" where
  "ordered_set_remove key k xs =
     (case ordered_search key k xs of
        Inr loc \<Rightarrow> (True, remove_at loc xs)
      | Inl _ \<Rightarrow> (False, xs))"

definition ordered_set_contains :: "('a \<Rightarrow> 'k::linorder) \<Rightarrow> 'k \<Rightarrow> 'a list \<Rightarrow> bool" where
  "ordered_set_contains key k xs = is_ok (ordered_search key k xs)"

definition bounded_set_from :: "('a \<Rightarrow> 'k::linorder) \<Rightarrow> 'a list \<Rightarrow> 'a list" where
  "bounded_set_from key v = dedup key (sort_key key v)"

text \<open>\<open>None\<close> is \<open>Err(())\<close>: the element is new and the vector is full.\<close>

definition bounded_set_try_insert ::
  "nat \<Rightarrow> ('a \<Rightarrow> 'k::linorder) \<Rightarrow> 'a \<Rightarrow> 'a list \<Rightarrow> (bool \<times> 'a list) option" where
  "bounded_set_try_insert bound key x xs =
     (case ordered_search key (key x) xs of
        Inr _ \<Rightarrow> Some (False, xs)
      | Inl loc \<Rightarrow> map_option (\<lambda>ys. (True, ys)) (vec_try_insert bound loc x xs))"

definition bounded_set_remove ::
  "('a \<Rightarrow> 'k::linorder) \<Rightarrow> 'k \<Rightarrow> 'a list \<Rightarrow> bool \<times> 'a list" where
  "bounded_set_remove key k xs =
     (case ordered_search key k xs of
        Inr loc \<Rightarrow> (True, remove_at loc xs)
      | Inl _ \<Rightarrow> (False, xs))"

definition bounded_set_contains :: "('a \<Rightarrow> 'k::linorder) \<Rightarrow> 'k \<Rightarrow> 'a list \<Rightarrow> bool" where
  "bounded_set_contains key k xs = is_ok (ordered_search key k xs)"

section \<open>The invariant and the abstract view\<close>

definition keys_sorted :: "('a \<Rightarrow> 'k::linorder) \<Rightarrow> 'a list \<Rightarrow> bool" where
  "keys_sorted key xs \<longleftrightarrow> sorted_wrt (<) (map key xs)"

definition set_view :: "('a \<Rightarrow> 'k) \<Rightarrow> 'a list \<Rightarrow> 'k \<Rightarrow> 'a option" where
  "set_view key xs = map_of (map (\<lambda>x. (key x, x)) xs)"

lemma set_view_None: "set_view key xs k = None \<longleftrightarrow> k \<notin> key ` set xs"
  by (auto simp: set_view_def map_of_eq_None_iff image_image)

lemma set_viewD: "set_view key xs k = Some x \<Longrightarrow> x \<in> set xs \<and> key x = k"
  by (auto simp: set_view_def dest!: map_of_SomeD)

lemma keys_sorted_distinct: "keys_sorted key xs \<Longrightarrow> distinct (map key xs)"
  by (simp add: keys_sorted_def strict_sorted_iff)

lemma keys_sorted_inj: "keys_sorted key xs \<Longrightarrow> inj_on key (set xs)"
  using keys_sorted_distinct distinct_map by blast

lemma set_view_iff:
  "distinct (map key xs) \<Longrightarrow> set_view key xs k = Some x \<longleftrightarrow> x \<in> set xs \<and> key x = k"
  by (auto simp: set_view_def map_of_eq_Some_iff comp_def)

lemma keys_sorted_partitioned:
  "keys_sorted key xs \<Longrightarrow> partitioned (\<lambda>p. cmp (key p) k) xs"
  unfolding partitioned_def keys_sorted_def sorted_wrt_map
  by (auto dest!: sorted_wrt_nth_less dest: less_trans)

lemma ordered_search_Inr:
  assumes "ordered_search key k xs = Inr i" "keys_sorted key xs"
  shows "i < length xs" "key (xs ! i) = k"
  using binary_search_Ok [OF _ keys_sorted_partitioned [OF assms(2), of k]] assms(1)
  by (auto simp: ordered_search_def)

lemma ordered_search_Inl:
  assumes "ordered_search key k xs = Inl i" "keys_sorted key xs"
  shows "i \<le> length xs" "\<forall>x\<in>set (take i xs). key x < k" "\<forall>x\<in>set (drop i xs). k < key x"
proof -
  have *: "i \<le> length xs \<and> (\<forall>j<i. key (xs ! j) < k) \<and>
      (\<forall>j. i \<le> j \<longrightarrow> j < length xs \<longrightarrow> k < key (xs ! j))"
    using binary_search_Err [OF _ keys_sorted_partitioned [OF assms(2), of k]] assms(1)
    by (simp add: ordered_search_def)
  then show "i \<le> length xs" "\<forall>x\<in>set (take i xs). key x < k" "\<forall>x\<in>set (drop i xs). k < key x"
    by (auto simp: in_set_conv_nth)
qed

lemma ordered_search_found:
  assumes "keys_sorted key xs"
  shows "(\<exists>i. ordered_search key k xs = Inr i) \<longleftrightarrow> k \<in> key ` set xs"
proof (cases "ordered_search key k xs")
  case (Inl i)
  have "set xs = set (take i xs) \<union> set (drop i xs)"
    by (metis append_take_drop_id set_append)
  then show ?thesis
    using ordered_search_Inl(2,3) [OF Inl assms] Inl by auto
next
  case (Inr i)
  then show ?thesis
    using ordered_search_Inr [OF Inr assms] by auto
qed

lemma keys_sorted_insert_at:
  assumes "ordered_search key (key x) xs = Inl i" "keys_sorted key xs"
  shows "keys_sorted key (insert_at i x xs)"
proof -
  have "sorted_wrt (<) (map key (take i xs) @ map key (drop i xs))"
    using assms(2) by (simp add: keys_sorted_def flip: map_append)
  then show ?thesis
    using ordered_search_Inl [OF assms]
    by (fastforce simp: keys_sorted_def insert_at_def sorted_wrt_append)
qed

lemma keys_sorted_remove_at:
  assumes "i < length xs" "keys_sorted key xs"
  shows "keys_sorted key (remove_at i xs)" "set (remove_at i xs) = set xs - {xs ! i}"
proof -
  have split: "xs = take i xs @ xs ! i # drop (Suc i) xs"
    by (rule id_take_nth_drop [OF assms(1)])
  have "sorted_wrt (<) (map key (take i xs) @ key (xs ! i) # map key (drop (Suc i) xs))"
    using assms(2) split by (metis keys_sorted_def list.simps(9) map_append)
  then show "keys_sorted key (remove_at i xs)"
    by (auto simp: keys_sorted_def remove_at_def sorted_wrt_append)
  have "distinct xs"
    using keys_sorted_distinct [OF assms(2)] by (simp add: distinct_map)
  then have "distinct (take i xs @ xs ! i # drop (Suc i) xs)"
    using split by metis
  moreover have "set xs = set (take i xs @ xs ! i # drop (Suc i) xs)"
    using split by metis
  ultimately show "set (remove_at i xs) = set xs - {xs ! i}"
    by (auto simp: remove_at_def)
qed

lemma keys_sorted_view_eqI:
  assumes "keys_sorted key ys" "\<And>k x. x \<in> set ys \<and> key x = k \<longleftrightarrow> m k = Some x"
  shows "set_view key ys = m"
proof
  fix k
  show "set_view key ys k = m k"
  proof (cases "m k")
    case None
    then have "k \<notin> key ` set ys"
      using assms(2) by (metis imageE option.distinct(1))
    then show ?thesis
      using None set_view_None [of key ys k] by simp
  next
    case (Some x)
    then show ?thesis
      using assms set_view_iff [OF keys_sorted_distinct [OF assms(1)]] by metis
  qed
qed

lemma set_view_insert_at:
  assumes "ordered_search key (key x) xs = Inl i" "keys_sorted key xs"
  shows "set_view key (insert_at i x xs) = (set_view key xs)(key x \<mapsto> x)"
proof (rule keys_sorted_view_eqI [OF keys_sorted_insert_at [OF assms]])
  fix k y
  have "key x \<notin> key ` set xs"
    using ordered_search_found [OF assms(2)] assms(1) by (metis sum.distinct(1))
  then show "y \<in> set (insert_at i x xs) \<and> key y = k \<longleftrightarrow>
      ((set_view key xs)(key x \<mapsto> x)) k = Some y"
    using set_view_iff [OF keys_sorted_distinct [OF assms(2)]] by (auto simp: image_iff)
qed

lemma set_view_remove_at:
  assumes "ordered_search key k xs = Inr i" "keys_sorted key xs"
  shows "set_view key (remove_at i xs) = (set_view key xs)(k := None)"
proof -
  note i = ordered_search_Inr [OF assms]
  note rem = keys_sorted_remove_at [OF i(1) assms(2)]
  show ?thesis
  proof (rule keys_sorted_view_eqI [OF rem(1)])
    fix k' y
    have "y = xs ! i" if "y \<in> set xs" "key y = k"
      using inj_onD [OF keys_sorted_inj [OF assms(2)]] that i by (metis nth_mem)
    then show "y \<in> set (remove_at i xs) \<and> key y = k' \<longleftrightarrow>
        ((set_view key xs)(k := None)) k' = Some y"
      using set_view_iff [OF keys_sorted_distinct [OF assms(2)]] rem(2) i by auto
  qed
qed

section \<open>The interface and its clients\<close>

text \<open>
  What a client of a sorted vector relies on. \<open>try_ins\<close> reports whether the element was
  new, or refuses it when the vector is full; \<open>del\<close> reports whether the key was there;
  a key that was just removed can always be inserted again.
\<close>

locale keyed_set =
  fixes key :: "'a \<Rightarrow> 'k"
    and inv :: "'s \<Rightarrow> bool"
    and view :: "'s \<Rightarrow> 'k \<Rightarrow> 'a option"
    and mem :: "'k \<Rightarrow> 's \<Rightarrow> bool"
    and try_ins :: "'a \<Rightarrow> 's \<Rightarrow> (bool \<times> 's) option"
    and del :: "'k \<Rightarrow> 's \<Rightarrow> bool \<times> 's"
  assumes mem_view: "inv s \<Longrightarrow> mem k s \<longleftrightarrow> view s k \<noteq> None"
    and ins_old: "inv s \<Longrightarrow> view s (key x) \<noteq> None \<Longrightarrow> try_ins x s = Some (False, s)"
    and ins_new: "inv s \<Longrightarrow> view s (key x) = None \<Longrightarrow> try_ins x s = Some (b, s') \<Longrightarrow>
        b \<and> inv s' \<and> view s' = (view s)(key x \<mapsto> x)"
    and del_view: "inv s \<Longrightarrow> del k s = (b, s') \<Longrightarrow>
        (b \<longleftrightarrow> view s k \<noteq> None) \<and> inv s' \<and> view s' = (view s)(k := None)"
    and ins_after_del: "inv s \<Longrightarrow> view s (key x) \<noteq> None \<Longrightarrow> del (key x) s = (b, s') \<Longrightarrow>
        try_ins x s' \<noteq> None"
begin

lemma ins_inv: "inv s \<Longrightarrow> try_ins x s = Some (b, s') \<Longrightarrow> inv s'"
  using ins_old [of s x] ins_new [of s x b s'] by (cases "view s (key x)") auto

lemma ins_reports: "inv s \<Longrightarrow> try_ins x s = Some (b, s') \<Longrightarrow> b \<longleftrightarrow> \<not> mem (key x) s"
  using ins_old [of s x] ins_new [of s x b s'] mem_view [of s "key x"]
  by (cases "view s (key x)") auto

lemma ins_view:
  assumes "inv s" "try_ins x s = Some (b, s')"
  shows "view s' = (if b then (view s)(key x \<mapsto> x) else view s)"
  using assms ins_old [of s x] ins_new [of s x b s'] by (cases "view s (key x)") auto

lemma del_inv: "inv s \<Longrightarrow> inv (snd (del k s))"
  using del_view [of s k "fst (del k s)" "snd (del k s)"] by simp

lemma del_reports: "inv s \<Longrightarrow> fst (del k s) \<longleftrightarrow> mem k s"
  using del_view [of s k "fst (del k s)" "snd (del k s)"] mem_view by simp

lemma mem_after_del: "inv s \<Longrightarrow> \<not> mem k (snd (del k s))"
  using del_view [of s k "fst (del k s)" "snd (del k s)"] mem_view by simp

lemma mem_after_ins: "inv s \<Longrightarrow> try_ins x s = Some (b, s') \<Longrightarrow> mem (key x) s'"
  using ins_inv [of s x b s'] ins_view [of s x b s'] ins_reports [of s x b s']
    mem_view [of s' "key x"] mem_view [of s "key x"]
  by (cases b) auto

text \<open>Replacing the element of a key that is present succeeds whatever the capacity.\<close>

lemma replace_succeeds:
  assumes "inv s" "mem (key x) s"
  shows "\<exists>s'. try_ins x (snd (del (key x) s)) = Some (True, s') \<and> inv s' \<and>
    view s' = (view s)(key x \<mapsto> x)"
proof -
  obtain b s1 where del: "del (key x) s = (b, s1)"
    by fastforce
  have s1: "inv s1" "view s1 = (view s)(key x := None)"
    using del_view [OF assms(1) del] by auto
  obtain b' s2 where ins: "try_ins x s1 = Some (b', s2)"
    using ins_after_del [OF assms(1) _ del] mem_view [OF assms(1)] assms(2) by fastforce
  have "b' \<and> inv s2 \<and> view s2 = (view s1)(key x \<mapsto> x)"
    using ins_new [OF s1(1) _ ins] s1(2) by simp
  then show ?thesis
    using ins del s1(2) by auto
qed

end

definition bounded_inv :: "nat \<Rightarrow> ('a \<Rightarrow> 'k::linorder) \<Rightarrow> 'a list \<Rightarrow> bool" where
  "bounded_inv bound key xs \<longleftrightarrow> keys_sorted key xs \<and> length xs \<le> bound"

lemma ordered_set_laws:
  assumes "keys_sorted key s"
  shows "ordered_set_contains key k s \<longleftrightarrow> set_view key s k \<noteq> None"
    and "set_view key s (key x) \<noteq> None \<Longrightarrow> ordered_set_insert key x s = (False, s)"
    and "set_view key s (key x) = None \<Longrightarrow> ordered_set_insert key x s = (b, s') \<Longrightarrow>
        b \<and> keys_sorted key s' \<and> set_view key s' = (set_view key s)(key x \<mapsto> x) \<and>
        length s' = Suc (length s)"
    and "ordered_set_remove key k s = (b, s') \<Longrightarrow>
        (b \<longleftrightarrow> set_view key s k \<noteq> None) \<and> keys_sorted key s' \<and>
        set_view key s' = (set_view key s)(k := None) \<and> length s' \<le> length s \<and>
        (b \<longrightarrow> length s' < length s)"
proof -
  note found = ordered_search_found [OF assms]
  show "ordered_set_contains key k s \<longleftrightarrow> set_view key s k \<noteq> None"
    using found [of k] set_view_None [of key s k]
    by (simp add: ordered_set_contains_def is_ok_iff)
  show "ordered_set_insert key x s = (False, s)" if "set_view key s (key x) \<noteq> None"
    using that found [of "key x"] set_view_None [of key s "key x"]
    by (auto simp: ordered_set_insert_def)
  show "b \<and> keys_sorted key s' \<and> set_view key s' = (set_view key s)(key x \<mapsto> x) \<and>
      length s' = Suc (length s)"
    if "set_view key s (key x) = None" "ordered_set_insert key x s = (b, s')"
  proof (cases "ordered_search key (key x) s")
    case (Inl i)
    then show ?thesis
      using that(2) keys_sorted_insert_at [OF Inl assms] set_view_insert_at [OF Inl assms]
        ordered_search_Inl(1) [OF Inl assms]
      by (auto simp: ordered_set_insert_def)
  next
    case (Inr i)
    then show ?thesis
      using that(1) found [of "key x"] by (simp add: set_view_None)
  qed
  show "(b \<longleftrightarrow> set_view key s k \<noteq> None) \<and> keys_sorted key s' \<and>
      set_view key s' = (set_view key s)(k := None) \<and> length s' \<le> length s \<and>
      (b \<longrightarrow> length s' < length s)"
    if "ordered_set_remove key k s = (b, s')"
  proof (cases "ordered_search key k s")
    case (Inl i)
    then have "set_view key s k = None"
      using found [of k] by (metis set_view_None sum.distinct(1))
    then show ?thesis
      using that Inl assms by (auto simp: ordered_set_remove_def)
  next
    case (Inr i)
    then show ?thesis
      using that set_view_remove_at [OF Inr assms] ordered_search_Inr [OF Inr assms]
        keys_sorted_remove_at(1) [OF ordered_search_Inr(1) [OF Inr assms] assms]
        found [of k] set_view_None [of key s k]
      by (auto simp: ordered_set_remove_def)
  qed
qed

lemma bounded_try_insert_eq:
  "keys_sorted key s \<Longrightarrow> bounded_set_try_insert bound key x s =
     (if set_view key s (key x) \<noteq> None then Some (False, s)
      else if length s < bound then Some (ordered_set_insert key x s) else None)"
  using ordered_search_found [of key s "key x"] set_view_None [of key s "key x"]
  by (auto simp: bounded_set_try_insert_def ordered_set_insert_def vec_try_insert_def
      split: sum.splits)

lemma bounded_set_remove_eq: "bounded_set_remove = ordered_set_remove"
  by (intro ext) (simp add: bounded_set_remove_def ordered_set_remove_def)

lemma bounded_set_contains_eq: "bounded_set_contains = ordered_set_contains"
  by (intro ext) (simp add: bounded_set_contains_def ordered_set_contains_def)

interpretation oset: keyed_set key "keys_sorted key" "set_view key" "ordered_set_contains key"
  "\<lambda>x s. Some (ordered_set_insert key x s)" "ordered_set_remove key"
  for key :: "'a \<Rightarrow> 'k::linorder"
proof (unfold_locales, goal_cases)
  case (1 s k)
  then show ?case
    by (rule ordered_set_laws(1))
next
  case (2 s x)
  then show ?case
    by (simp add: ordered_set_laws(2))
next
  case (3 s x b s')
  then show ?case
    using ordered_set_laws(3) [of key s x b s'] by simp
next
  case (4 s k b s')
  then show ?case
    using ordered_set_laws(4) [of key s k b s'] by blast
next
  case (5 s x b s')
  then show ?case
    by simp
qed

interpretation bset: keyed_set key "bounded_inv bound key" "set_view key"
  "bounded_set_contains key" "bounded_set_try_insert bound key" "bounded_set_remove key"
  for bound :: nat and key :: "'a \<Rightarrow> 'k::linorder"
proof (unfold_locales, goal_cases)
  case (1 s k)
  then show ?case
    by (simp add: bounded_inv_def bounded_set_contains_eq ordered_set_laws(1))
next
  case (2 s x)
  then show ?case
    by (simp add: bounded_inv_def bounded_try_insert_eq)
next
  case (3 s x b s')
  then show ?case
    using ordered_set_laws(3) [of key s x b s']
    by (auto simp: bounded_inv_def bounded_try_insert_eq split: if_splits)
next
  case (4 s k b s')
  then show ?case
    using ordered_set_laws(4) [of key s k b s']
    by (auto simp: bounded_inv_def bounded_set_remove_eq)
next
  case (5 s x b s')
  then show ?case
    using ordered_set_laws(4) [of key s "key x" b s']
    by (auto simp: bounded_inv_def bounded_set_remove_eq bounded_try_insert_eq)
qed

lemma dedup_hd: "xs \<noteq> [] \<Longrightarrow> dedup key xs \<noteq> [] \<and> hd (dedup key xs) = hd xs"
  by (induction key xs rule: dedup.induct) auto

lemma dedup_key_set: "key ` set (dedup key xs) = key ` set xs"
  by (induction key xs rule: dedup.induct) auto

lemma keys_sorted_Cons: "keys_sorted key (x # xs) \<longleftrightarrow> (\<forall>y\<in>set xs. key x < key y) \<and> keys_sorted key xs"
  by (simp add: keys_sorted_def)

lemma dedup_sorted: "sorted (map key xs) \<Longrightarrow> keys_sorted key (dedup key xs)"
proof (induction key xs rule: dedup.induct)
  case (3 key x y xs)
  show ?case
  proof (cases "key x = key y")
    case True
    then show ?thesis using 3 by simp
  next
    case False
    then have less: "key x < key y" "\<forall>z\<in>set xs. key y \<le> key z"
      using "3.prems" by auto
    have "key x < k" if "k \<in> key ` set (dedup key (y # xs))" for k
      using that less unfolding dedup_key_set by auto
    then show ?thesis
      using 3 False by (simp add: keys_sorted_Cons)
  qed
qed (simp_all add: keys_sorted_def)

lemma ordered_set_from_inv: "keys_sorted key (ordered_set_from key v)"
  by (simp add: ordered_set_from_def dedup_sorted)

lemma ordered_set_from_mem:
  "ordered_set_contains key k (ordered_set_from key v) \<longleftrightarrow> k \<in> key ` set v"
  unfolding ordered_set_laws(1) [OF ordered_set_from_inv] set_view_None
  by (simp add: ordered_set_from_def dedup_key_set)

end
