(* ===== verification/Avn_Runtime.thy ===== *)
theory Avn_Runtime
  imports Avn_Prelude
begin

text \<open>
  What the pallets take from the runtime: origins, the errors of a dispatchable, storage
  maps as association lists, and the validity of unsigned transactions.
\<close>

section \<open>Origins and errors\<close>

datatype origin = Root | Signed account | Unsigned

datatype avn_error =
    NotAValidator
  | NoLocalAccounts
  | OffchainWorkerAlreadyRun
  | ErrorConvertingAccountId
  | ErrorConvertingBlockNumber
  | ErrorConvertingUtf8
  | ErrorDecodingHex
  | ErrorRecordingOffchainWorkerRun
  | NoValidatorsFound
  | UnexpectedStatusCode
  | InvalidResponse
  | InvalidVotingSession
  | InvalidContractAddress
  | DuplicateVote
  | InvalidVote
  | ErrorRecoveringPublicKeyFromSignature
  | InvalidECDSASignature
  | VectorBoundsExceeded
  | MaxValidatorsExceeded
  | ResponseFailed
  | RequestFailed
  | ErrorGettingFinalisedBlock
  | ErrorDecodingU32
  | AvnPanic

text \<open>The error of a dispatchable of a pallet with errors \<open>'e\<close>.\<close>

datatype 'e dispatch_error =
    BadOriginErr
  | OtherErr string
  | AvnErr avn_error
  | PalletErr 'e

definition root_only :: "origin \<Rightarrow> 'e dispatch_error + unit" where
  "root_only origin = (if origin = Root then Inr () else Inl BadOriginErr)"

definition signed_only :: "origin \<Rightarrow> 'e dispatch_error + account" where
  "signed_only origin = (case origin of Signed a \<Rightarrow> Inr a | _ \<Rightarrow> Inl BadOriginErr)"

definition unsigned_only :: "origin \<Rightarrow> 'e dispatch_error + unit" where
  "unsigned_only origin = (if origin = Unsigned then Inr () else Inl BadOriginErr)"

definition ensure :: "bool \<Rightarrow> 'e \<Rightarrow> 'e + unit" where
  "ensure b e = (if b then Inr () else Inl e)"

lemma ensure_simps [simp]: "ensure b e = Inr u \<longleftrightarrow> b" "ensure True e = Inr ()" "ensure False e = Inl e"
  by (auto simp: ensure_def)

lemma root_only_Inr [simp]: "root_only origin = Inr u \<longleftrightarrow> origin = Root"
  by (auto simp: root_only_def)

lemma signed_only_Inr [simp]: "signed_only origin = Inr who \<longleftrightarrow> origin = Signed who"
  by (cases origin) (auto simp: signed_only_def)

lemma unsigned_only_Inr [simp]: "unsigned_only origin = Inr u \<longleftrightarrow> origin = Unsigned"
  by (auto simp: unsigned_only_def)

lemma origin_checks [simp]:
  "root_only Root = Inr ()" "signed_only (Signed who) = Inr who" "unsigned_only Unsigned = Inr ()"
  by (simp_all add: root_only_def signed_only_def unsigned_only_def)

text \<open>The verdict on an unsigned transaction; a valid one carries the tag it provides.\<close>

datatype 'a validity = InvalidCustom nat | BadProof | InvalidCall | ValidWith 'a

section \<open>Block numbers\<close>

definition checked_add32 :: "nat \<Rightarrow> nat \<Rightarrow> nat option" where
  "checked_add32 a b = (if a + b \<le> u32_max then Some (a + b) else None)"

definition checked_sub32 :: "nat \<Rightarrow> nat \<Rightarrow> nat option" where
  "checked_sub32 a b = (if b \<le> a then Some (a - b) else None)"

definition wrapping_mul32 :: "nat \<Rightarrow> nat \<Rightarrow> nat" where
  "wrapping_mul32 a b = (a * b) mod 2 ^ 32"

definition u64_max :: nat where
  "u64_max = 2 ^ 64 - 1"

definition wrapping_add64 :: "nat \<Rightarrow> nat \<Rightarrow> nat" where
  "wrapping_add64 a b = (a + b) mod 2 ^ 64"

lemma checked_add32_Some [simp]: "checked_add32 a b = Some c \<longleftrightarrow> c = a + b \<and> a + b \<le> u32_max"
  by (auto simp: checked_add32_def)

lemma checked_sub32_Some [simp]: "checked_sub32 a b = Some c \<longleftrightarrow> c = a - b \<and> b \<le> a"
  by (auto simp: checked_sub32_def)

lemma wrapping_add64_exact: "a + b \<le> u64_max \<Longrightarrow> wrapping_add64 a b = a + b"
  by (simp add: wrapping_add64_def u64_max_def)

definition safe_add_block_numbers :: "nat \<Rightarrow> nat \<Rightarrow> unit + nat" where
  "safe_add_block_numbers left right = ok_or (checked_add32 left right) ()"

definition safe_sub_block_numbers :: "nat \<Rightarrow> nat \<Rightarrow> unit + nat" where
  "safe_sub_block_numbers left right = ok_or (checked_sub32 left right) ()"

text \<open>\<open>Result::map_err\<close>.\<close>

fun map_err :: "'f \<Rightarrow> 'e + 'a \<Rightarrow> 'f + 'a" where
  "map_err f (Inl e) = Inl f"
| "map_err f (Inr x) = Inr x"

lemma map_err_Inr [simp]: "map_err f r = Inr x \<longleftrightarrow> r = Inr x"
  by (cases r) auto

fun map_err_with :: "('e \<Rightarrow> 'f) \<Rightarrow> 'e + 'a \<Rightarrow> 'f + 'a" where
  "map_err_with f (Inl e) = Inl (f e)"
| "map_err_with f (Inr x) = Inr x"

lemma map_err_with_Inr [simp]: "map_err_with f r = Inr x \<longleftrightarrow> r = Inr x"
  by (cases r) auto

section \<open>Storage maps\<close>

fun alist_get :: "'k \<Rightarrow> ('k \<times> 'v) list \<Rightarrow> 'v option" where
  "alist_get k [] = None"
| "alist_get k ((k', v) # xs) = (if k = k' then Some v else alist_get k xs)"

fun alist_insert :: "'k \<Rightarrow> 'v \<Rightarrow> ('k \<times> 'v) list \<Rightarrow> ('k \<times> 'v) list" where
  "alist_insert k v [] = [(k, v)]"
| "alist_insert k v ((k', v') # xs) =
     (if k = k' then (k, v) # xs else (k', v') # alist_insert k v xs)"

definition alist_remove :: "'k \<Rightarrow> ('k \<times> 'v) list \<Rightarrow> ('k \<times> 'v) list" where
  "alist_remove k xs = filter (\<lambda>(k', _). k' \<noteq> k) xs"

lemma alist_get_None: "alist_get k xs = None \<longleftrightarrow> k \<notin> fst ` set xs"
  by (induction k xs rule: alist_get.induct) auto

lemma alist_get_insert:
  "alist_get k (alist_insert k' v xs) = (if k = k' then Some v else alist_get k xs)"
  by (induction k' v xs rule: alist_insert.induct) auto

lemma alist_get_mem: "alist_get k xs = Some v \<Longrightarrow> (k, v) \<in> set xs"
  by (induction k xs rule: alist_get.induct) (auto split: if_splits)

lemma alist_get_remove:
  "alist_get k (alist_remove k' xs) = (if k = k' then None else alist_get k xs)"
  by (induction xs) (auto simp: alist_remove_def)

lemma alist_insert_keys: "fst ` set (alist_insert k v xs) = insert k (fst ` set xs)"
  by (induction k v xs rule: alist_insert.induct) auto

lemma alist_insert_distinct:
  "distinct (map fst xs) \<Longrightarrow> distinct (map fst (alist_insert k v xs))"
proof (induction k v xs rule: alist_insert.induct)
  case (2 k v k' v' xs)
  have "k' \<notin> fst ` set (alist_insert k v xs)" if "k \<noteq> k'"
    using 2(2) that by (auto simp: alist_insert_keys)
  then show ?case
    using 2 by auto
qed simp

lemma alist_get_iff: "distinct (map fst xs) \<Longrightarrow> alist_get k xs = Some v \<longleftrightarrow> (k, v) \<in> set xs"
  by (induction k xs rule: alist_get.induct) (auto simp: rev_image_eqI)

end
