(* ===== verification/Avn_Signature.thy ===== *)
theory Avn_Signature
  imports Avn_Runtime
begin

text \<open>
  Calls made on behalf of a signer (\<open>Proof\<close> in \<open>primitives/avn-common/src/lib.rs\<close>). The pallets
  with such calls keep a nonce per account, which is part of what the account signs and moves
  on with every accepted call. The interface \<open>signed_calls\<close> states this; that a proof cannot be
  used twice is proved in it once, for every pallet.
\<close>

record signed_proof =
  proof_signer :: account
  proof_relayer :: account
  proof_signature :: nat

text \<open>
  \<open>proof_of\<close> gives the proof of a call, the account whose nonce it carries, and what is signed
  for each nonce.
\<close>

locale signed_calls =
  fixes verify :: "signed_proof \<Rightarrow> 'p \<Rightarrow> bool"
    and nonce_of :: "'s \<Rightarrow> account \<Rightarrow> nat"
    and exec :: "origin \<Rightarrow> 'k \<Rightarrow> 's \<Rightarrow> 'e + 's"
    and proof_of :: "'k \<Rightarrow> (signed_proof \<times> account \<times> (nat \<Rightarrow> 'p)) option"
  assumes binds_nonce: "proof_of k = Some (pf, who, payload) \<Longrightarrow> inj payload"
    and accepted: "proof_of k = Some (pf, who, payload) \<Longrightarrow> exec origin k s = Inr s' \<Longrightarrow>
      origin = Signed who \<and> verify pf (payload (nonce_of s who)) \<and>
      nonce_of s' = (nonce_of s)(who := (nonce_of s who + 1) mod 2 ^ 64)"
begin

lemma nonce_moves:
  assumes "proof_of k = Some (pf, who, payload)" "exec origin k s = Inr s'" and "nonce_of s who < 2 ^ 64"
  shows "nonce_of s' who \<noteq> nonce_of s who"
  using accepted [OF assms(1,2)] assms(3) by (cases "nonce_of s who + 1 = 2 ^ 64") auto

lemma not_replayed:
  assumes call: "proof_of k = Some (pf, who, payload)" and ok: "exec origin k s = Inr s'"
    and one: "\<And>p q. verify pf p \<Longrightarrow> verify pf q \<Longrightarrow> p = q"
    and small: "nonce_of s who < 2 ^ 64"
  shows "\<exists>e. exec origin' k s' = Inl e"
proof (cases "exec origin' k s'")
  case (Inr s'')
  have "payload (nonce_of s who) = payload (nonce_of s' who)"
    using one accepted [OF call ok] accepted [OF call Inr] by blast
  then have "nonce_of s who = nonce_of s' who"
    using binds_nonce [OF call] by (simp add: inj_eq)
  then show ?thesis
    using nonce_moves [OF call ok small] by simp
qed simp

end

end
