(* ===== verification/Staking_Types.thy ===== *)
theory Staking_Types
  imports Ordered_Set Avn_Signature
begin

text \<open>
  The data of the parachain staking pallet: the types of
  \<open>pallets/parachain-staking/src/types.rs\<close> and \<open>nomination_requests.rs\<close>, the errors and
  events of \<open>lib.rs\<close>, the pallet's storage as one record, and its \<open>Config\<close> as another.

  What the pallet reaches through \<open>Config\<close> and does not implement itself is a field of the
  configuration: the balances pallet (free balances, locks, transfers, deposits), the
  session registry, the \<open>Perbill\<close> arithmetic of \<open>sp_runtime\<close>, signature verification and the
  bridge. The balances pallet and the bridge have state of their own, the type \<open>'w\<close>; the
  storage record carries it in the field \<open>world\<close>.
\<close>

section \<open>Types of the pallet\<close>

record bond =
  owner :: account
  amount :: balance

definition from_owner :: "account \<Rightarrow> bond" where
  "from_owner a = \<lparr>owner = a, amount = 0\<rparr>"

datatype collator_status = Active | Idle | Leaving era_index

record collator_snapshot =
  snap_bond :: balance
  snap_nominations :: "bond list"
  snap_total :: balance

definition default_snapshot :: collator_snapshot where
  "default_snapshot = \<lparr>snap_bond = 0, snap_nominations = [], snap_total = 0\<rparr>"

record candidate_bond_less_request =
  cbl_amount :: balance
  cbl_when_executable :: era_index

record nominations =
  noms :: "bond list"
  noms_total :: balance

definition empty_nominations :: nominations where
  "empty_nominations = \<lparr>noms = [], noms_total = 0\<rparr>"

datatype capacity_status = Full | Empty | Partial

record candidate_metadata =
  cm_bond :: balance
  cm_nomination_count :: nat
  cm_total_counted :: balance
  cm_lowest_top :: balance
  cm_highest_bottom :: balance
  cm_lowest_bottom :: balance
  cm_top_capacity :: capacity_status
  cm_bottom_capacity :: capacity_status
  cm_request :: "candidate_bond_less_request option"
  cm_status :: collator_status

datatype nominator_added = AddedToTop balance | AddedToBottom

record nominator =
  nom_id :: account
  nom_nominations :: "bond list"
  nom_total :: balance
  nom_less_total :: balance

record era_info =
  era_current :: era_index
  era_first :: nat
  era_length :: nat

datatype bond_adjust = BondIncrease balance | BondDecrease

record collator_score =
  score_collator :: account
  score_points :: nat

record growth_info =
  number_of_accumulations :: nat
  total_stake_accumulated :: balance
  total_staker_reward :: balance
  total_points :: nat
  collator_scores :: "collator_score list"
  growth_tx_id :: "nat option"
  growth_triggered :: "bool option"

record growth_period_info =
  start_era_index :: era_index
  gp_index :: nat

datatype admin_settings =
    AdminDelay era_index
  | AdminMinCollatorStake balance
  | AdminMinTotalNominatorStake balance

record stake_info =
  stake_owner :: account
  free_amount :: balance
  reserved_amount :: balance

datatype nomination_action = Revoke balance | Decrease balance

fun action_amount :: "nomination_action \<Rightarrow> balance" where
  "action_amount (Revoke a) = a"
| "action_amount (Decrease a) = a"

fun is_revoke :: "nomination_action \<Rightarrow> bool" where
  "is_revoke (Revoke a) = True"
| "is_revoke (Decrease a) = False"

record scheduled_request =
  req_nominator :: account
  req_when_executable :: era_index
  req_action :: nomination_action

text \<open>The capacity of the nomination vectors (\<open>MaxNominations\<close>, \<open>MaxCloneableNominations\<close>)
  and of the score vector (\<open>CollatorMaxScores\<close>).\<close>

definition max_nominations :: nat where
  "max_nominations = 300"

definition collator_max_scores :: nat where
  "collator_max_scores = 10000"

definition max_growths_to_process :: nat where
  "max_growths_to_process = 10"

section \<open>Errors and events\<close>

text \<open>
  \<open>Panic\<close> stands for an \<open>expect\<close> or \<open>unwrap\<close> that fails and for a vector index out of
  range; \<open>OtherError\<close> for \<open>DispatchError::Other\<close>.
\<close>

datatype (plugins only: code) staking_error =
    NominatorDNE
  | CandidateDNE
  | NominationDNE
  | NominatorExists
  | CandidateExists
  | CandidateBondBelowMin
  | InsufficientBalance
  | NominatorBondBelowMin
  | NominationBelowMin
  | AlreadyOffline
  | AlreadyActive
  | NominatorAlreadyLeaving
  | NominatorNotLeaving
  | NominatorCannotLeaveYet
  | CandidateAlreadyLeaving
  | CandidateNotLeaving
  | CandidateLimitReached
  | CandidateCannotLeaveYet
  | CannotGoOnlineIfLeaving
  | ExceedMaxNominationsPerNominator
  | AlreadyNominatedCandidate
  | CannotSetBelowMin
  | EraLengthMustBeAtLeastTotalSelectedCollators
  | NoWritingSameValue
  | TooLowCandidateCountWeightHintJoinCandidates
  | TooLowCandidateCountWeightHintCancelLeaveCandidates
  | TooLowCandidateCountToLeaveCandidates
  | TooLowNominationCountToNominate
  | TooLowCandidateNominationCountToNominate
  | TooLowCandidateNominationCountToLeaveCandidates
  | TooLowNominationCountToLeaveNominators
  | PendingCandidateRequestsDNE
  | PendingCandidateRequestAlreadyExists
  | PendingCandidateRequestNotDueYet
  | PendingNominationRequestDNE
  | PendingNominationRequestAlreadyExists
  | PendingNominationRequestNotDueYet
  | CannotNominateLessThanOrEqualToLowestBottomWhenFull
  | PendingNominationRevoke
  | ErrorPayingCollator
  | GrowthAlreadyProcessed
  | SenderIsNotSigner
  | UnauthorizedSignedNominateTransaction
  | UnauthorizedSignedBondExtraTransaction
  | UnauthorizedSignedCandidateBondExtraTransaction
  | UnauthorizedSignedCandidateUnbondTransaction
  | UnauthorizedSignedUnbondTransaction
  | UnauthorizedSignedRemoveBondTransaction
  | UnauthorizedSignedScheduleLeaveNominatorsTransaction
  | UnauthorizedSignedExecuteLeaveNominatorsTransaction
  | UnauthorizedSignedExecuteNominationRequestTransaction
  | UnauthorizedSignedExecuteCandidateUnbondTransaction
  | AdminSettingsValueIsNotValid
  | CandidateSessionKeysNotFound
  | FailedToWithdrawFullAmount
  | GrowthDataNotFound
  | StakingNotAllowed
  | BadOrigin
  | LookupError
  | OtherError
  | Panic

datatype (plugins only: code) staking_event =
    NewEra nat era_index nat balance
  | JoinedCollatorCandidates account balance balance
  | CollatorChosen era_index account balance
  | CandidateBondLessRequested account balance era_index
  | CandidateBondedMore account balance balance
  | CandidateBondedLess account balance balance
  | CandidateWentOffline account
  | CandidateBackOnline account
  | CandidateScheduledExit era_index account era_index
  | CancelledCandidateExit account
  | CancelledCandidateBondLess account balance era_index
  | CandidateLeft account balance balance
  | NominationDecreaseScheduled account account balance era_index
  | NominationIncreased account account balance bool
  | NominationDecreased account account balance bool
  | NominatorExitScheduled era_index account era_index
  | NominationRevocationScheduled era_index account account era_index
  | NominatorLeft account balance
  | NominationRevoked account account balance
  | NominationKicked account account balance
  | NominatorExitCancelled account
  | CancelledNominationRequest account era_index nomination_action account
  | Nomination account balance account nominator_added
  | NominatorLeftCandidate account account balance balance
  | Rewarded account balance
  | ErrorPayingStakingReward account balance
  | TotalSelectedSet nat nat
  | BlocksPerEraSet era_index nat nat nat
  | NotEnoughFundsForEraPayment balance
  | CollatorPaid account balance nat
  | AdminSettingsUpdated admin_settings

datatype lock_id = COLLATOR_LOCK_ID | NOMINATOR_LOCK_ID

section \<open>Signed payloads\<close>

text \<open>
  The payload an account signs to have a call relayed: a context string, the relayer, the
  arguments and the signer's nonce, SCALE-encoded by \<open>proxy_methods.rs\<close>. The encoding is
  injective on these tuples, so the tuple stands for its bytes.
\<close>

datatype (plugins only: code) signed_payload =
    NominatePayload account "nat list" balance nat
  | BondExtraPayload account balance nat
  | CandidateBondExtraPayload account balance nat
  | ScheduleNominatorUnbondPayload account balance nat
  | ScheduleCandidateUnbondPayload account balance nat
  | ScheduleRevokeNominationPayload account account nat
  | ScheduleLeaveNominatorsPayload account nat
  | ExecuteLeaveNominatorsPayload account account nat
  | ExecuteNominationRequestPayload account account nat
  | ExecuteCandidateUnbondPayload account account nat

section \<open>Configuration\<close>

record 'w config =
  test_build :: bool
  min_blocks_per_era :: nat
  reward_payment_delay :: era_index
  min_selected_candidates :: nat
  max_top_nominations_per_candidate :: nat
  max_bottom_nominations_per_candidate :: nat
  max_nominations_per_nominator :: nat
  min_nomination_per_collator :: balance
  eras_per_growth_period :: nat
  reward_pot_account :: account
  max_candidates :: nat
  growth_enabled :: bool
  minimum_balance :: balance
  free_balance :: "'w \<Rightarrow> account \<Rightarrow> balance"
  set_lock :: "lock_id \<Rightarrow> account \<Rightarrow> balance \<Rightarrow> 'w \<Rightarrow> 'w"
  remove_lock :: "lock_id \<Rightarrow> account \<Rightarrow> 'w \<Rightarrow> 'w"
  transfer_keep_alive :: "account \<Rightarrow> account \<Rightarrow> balance \<Rightarrow> 'w \<Rightarrow> 'w option"
  deposit_into_existing :: "account \<Rightarrow> balance \<Rightarrow> 'w \<Rightarrow> ('w \<times> balance) option"
  drop_imbalance :: "balance \<Rightarrow> 'w \<Rightarrow> 'w"
  handle_dust :: "balance \<Rightarrow> 'w \<Rightarrow> 'w"
  is_registered :: "'w \<Rightarrow> account \<Rightarrow> bool"
  perbill_mul :: "nat \<Rightarrow> nat \<Rightarrow> balance \<Rightarrow> balance"
  lookup :: "nat \<Rightarrow> account option"
  verify_signature :: "signed_proof \<Rightarrow> signed_payload \<Rightarrow> bool"
  storage_key :: "account \<Rightarrow> nat"
  publish_growth :: "balance \<Rightarrow> balance \<Rightarrow> nat \<Rightarrow> 'w \<Rightarrow> (nat \<times> 'w) option"

definition is_staking_enabled :: "'w config \<Rightarrow> bool" where
  "is_staking_enabled C = test_build C"

section \<open>Storage\<close>

record 'w staking =
  delay :: era_index
  total_selected :: nat
  era :: era_info
  nominator_state :: "account \<Rightarrow> nominator option"
  candidate_info :: "account \<Rightarrow> candidate_metadata option"
  nomination_scheduled_requests :: "account \<Rightarrow> scheduled_request list"
  top_nominations :: "account \<Rightarrow> nominations option"
  bottom_nominations :: "account \<Rightarrow> nominations option"
  selected_candidates :: "account list"
  total :: balance
  candidate_pool :: "bond list"
  at_stake :: "era_index \<Rightarrow> (account \<times> collator_snapshot) list"
  delayed_payouts :: "era_index \<Rightarrow> balance option"
  staked :: "era_index \<Rightarrow> balance"
  points :: "era_index \<Rightarrow> nat"
  awarded_pts :: "era_index \<Rightarrow> (account \<times> nat) list"
  locked_era_payout :: balance
  growth_period :: growth_period_info
  growth :: "nat \<Rightarrow> growth_info option"
  processed_growth_periods :: "nat \<Rightarrow> bool"
  force_new_era :: bool
  min_collator_stake :: balance
  min_total_nominator_stake :: balance
  proxy_nonces :: "account \<Rightarrow> nat"
  last_triggered_growth_period :: nat
  published_growth :: "nat \<Rightarrow> nat option"
  block_number :: nat
  events :: "staking_event list"
  world :: 'w

definition ensure_root :: "origin \<Rightarrow> staking_error + unit" where
  "ensure_root origin = (if origin = Root then Inr () else Inl BadOrigin)"

definition ensure_signed :: "origin \<Rightarrow> staking_error + account" where
  "ensure_signed origin = (case origin of Signed a \<Rightarrow> Inr a | _ \<Rightarrow> Inl BadOrigin)"

definition deposit_event :: "staking_event \<Rightarrow> 'w staking \<Rightarrow> 'w staking" where
  "deposit_event e s = s\<lparr>events := events s @ [e]\<rparr>"

section \<open>The vector of nominations of a candidate\<close>

definition sort_greatest_to_least :: "nominations \<Rightarrow> nominations" where
  "sort_greatest_to_least n = n\<lparr>noms := sort_key (\<lambda>b. - int (amount b)) (noms n)\<rparr>"

text \<open>The \<open>while\<close> loop that steps over the nominations of the same amount.\<close>

function skip_equal :: "balance \<Rightarrow> bond list \<Rightarrow> nat \<Rightarrow> nat" where
  "skip_equal a xs new_index =
     (if new_index < length xs \<and> amount (xs ! new_index) = a
      then skip_equal a xs (Suc new_index) else new_index)"
  by pat_completeness auto
termination
  by (relation "measure (\<lambda>(a, xs, i). length xs - i)") auto

declare skip_equal.simps [simp del]

definition unwrap_or_same :: "'a list option \<Rightarrow> 'a list \<Rightarrow> 'a list" where
  "unwrap_or_same r xs = (case r of None \<Rightarrow> xs | Some ys \<Rightarrow> ys)"

definition insert_sorted_greatest_to_least :: "bond \<Rightarrow> nominations \<Rightarrow> nominations" where
  "insert_sorted_greatest_to_least nomination n =
     (let xs = noms n;
          push = unwrap_or_same (try_push max_nominations nomination xs) xs;
          insert = (\<lambda>i. unwrap_or_same (vec_try_insert max_nominations i nomination xs) xs);
          ys = (if xs \<noteq> [] \<and> amount (last xs) = amount nomination then push
                else case binary_search_by (\<lambda>x. cmp (amount nomination) (amount x)) xs of
                  Inr i \<Rightarrow>
                    (let j = skip_equal (amount nomination) xs (i + 1) in
                     if j \<le> length xs - 1 then insert j else push)
                | Inl i \<Rightarrow> insert i)
      in \<lparr>noms = ys, noms_total = sat_add (noms_total n) (amount nomination)\<rparr>)"

definition top_capacity :: "'w config \<Rightarrow> nominations \<Rightarrow> capacity_status" where
  "top_capacity C n =
     (if max_top_nominations_per_candidate C \<le> length (noms n) then Full
      else if noms n = [] then Empty else Partial)"

definition bottom_capacity :: "'w config \<Rightarrow> nominations \<Rightarrow> capacity_status" where
  "bottom_capacity C n =
     (if max_bottom_nominations_per_candidate C \<le> length (noms n) then Full
      else if noms n = [] then Empty else Partial)"

definition lowest_nomination_amount :: "nominations \<Rightarrow> balance" where
  "lowest_nomination_amount n = (if noms n = [] then 0 else amount (last (noms n)))"

definition highest_nomination_amount :: "nominations \<Rightarrow> balance" where
  "highest_nomination_amount n = (if noms n = [] then 0 else amount (hd (noms n)))"

section \<open>Eras, settings, growth records\<close>

definition era_info_new :: "era_index \<Rightarrow> nat \<Rightarrow> nat \<Rightarrow> era_info" where
  "era_info_new current first len =
     \<lparr>era_current = current, era_first = first, era_length = len\<rparr>"

definition should_update :: "era_info \<Rightarrow> nat \<Rightarrow> bool" where
  "should_update e now \<longleftrightarrow> era_length e \<le> wrapping_sub32 now (era_first e)"

definition era_info_update :: "nat \<Rightarrow> era_info \<Rightarrow> era_info" where
  "era_info_update now e = e\<lparr>era_current := sat_add32 (era_current e) 1, era_first := now\<rparr>"

definition growth_info_new :: "nat \<Rightarrow> growth_info" where
  "growth_info_new n =
     \<lparr>number_of_accumulations = n, total_stake_accumulated = 0, total_staker_reward = 0,
      total_points = 0, collator_scores = [], growth_tx_id = None, growth_triggered = None\<rparr>"

definition growth_info_default :: growth_info where
  "growth_info_default =
     \<lparr>number_of_accumulations = 0, total_stake_accumulated = 0, total_staker_reward = 0,
      total_points = 0, collator_scores = [], growth_tx_id = None, growth_triggered = None\<rparr>"

fun admin_settings_is_valid :: "'w config \<Rightarrow> admin_settings \<Rightarrow> bool" where
  "admin_settings_is_valid C (AdminDelay d) = (d > 0)"
| "admin_settings_is_valid C (AdminMinTotalNominatorStake s) =
     (s \<ge> min_nomination_per_collator C)"
| "admin_settings_is_valid C (AdminMinCollatorStake s) = True"

end
