(* ===== verification/Staking_Nominations.thy ===== *)
theory Staking_Nominations
  imports Staking_Types "HOL-Library.Multiset"
begin

text \<open>
  The nomination vectors of a candidate (\<open>impl Nominations\<close> in \<open>types.rs\<close>): the sorted
  insertion by binary search equals a stable insertion that puts a new nomination behind
  the existing ones of the same amount, and both it and the sort keep the vector ordered
  from the greatest to the least amount.
\<close>

section \<open>Reference definitions\<close>

definition greatest_to_least :: "bond list \<Rightarrow> bool" where
  "greatest_to_least xs \<longleftrightarrow> sorted_wrt (\<lambda>a b. amount b \<le> amount a) xs"

definition insert_first_come :: "bond \<Rightarrow> bond list \<Rightarrow> bond list" where
  "insert_first_come x xs =
     takeWhile (\<lambda>b. amount x \<le> amount b) xs @ x # dropWhile (\<lambda>b. amount x \<le> amount b) xs"

abbreviation sum_amounts :: "bond list \<Rightarrow> nat" where
  "sum_amounts xs \<equiv> sum_list (map amount xs)"

abbreviation owners :: "bond list \<Rightarrow> account list" where
  "owners xs \<equiv> map owner xs"

section \<open>Order\<close>

lemma greatest_to_least_Cons:
  "greatest_to_least (x # xs) \<longleftrightarrow> (\<forall>y\<in>set xs. amount y \<le> amount x) \<and> greatest_to_least xs"
  by (simp add: greatest_to_least_def)

lemma greatest_to_least_Nil [simp]: "greatest_to_least []"
  by (simp add: greatest_to_least_def)

lemma greatest_to_least_append:
  "greatest_to_least (xs @ ys) \<longleftrightarrow> greatest_to_least xs \<and> greatest_to_least ys \<and>
     (\<forall>x\<in>set xs. \<forall>y\<in>set ys. amount y \<le> amount x)"
  by (simp add: greatest_to_least_def sorted_wrt_append)

lemma greatest_to_least_nth:
  "greatest_to_least xs \<Longrightarrow> i \<le> j \<Longrightarrow> j < length xs \<Longrightarrow> amount (xs ! j) \<le> amount (xs ! i)"
  unfolding greatest_to_least_def
  using sorted_wrt_nth_less [of "\<lambda>a b. amount b \<le> amount a" xs i j]
  by (cases "i = j") auto

lemma greatest_to_least_filter:
  "greatest_to_least xs \<Longrightarrow> greatest_to_least (filter P xs)"
  by (simp add: greatest_to_least_def sorted_wrt_filter)

lemma greatest_to_least_butlast:
  "greatest_to_least xs \<Longrightarrow> greatest_to_least (butlast xs)"
  by (cases xs rule: rev_cases) (simp_all add: greatest_to_least_append)

lemma greatest_to_least_tl: "greatest_to_least xs \<Longrightarrow> greatest_to_least (tl xs)"
  by (cases xs) (simp_all add: greatest_to_least_Cons)

lemma greatest_to_least_last:
  "greatest_to_least xs \<Longrightarrow> x \<in> set xs \<Longrightarrow> amount (last xs) \<le> amount x"
  by (cases xs rule: rev_cases) (auto simp: greatest_to_least_append)

lemma greatest_to_least_hd:
  "greatest_to_least xs \<Longrightarrow> x \<in> set xs \<Longrightarrow> amount x \<le> amount (hd xs)"
  by (cases xs) (auto simp: greatest_to_least_Cons)

lemma sort_greatest_to_least_sorted:
  "greatest_to_least (noms (sort_greatest_to_least n))"
proof -
  have "sorted (map (\<lambda>b. - int (amount b)) (noms (sort_greatest_to_least n)))"
    by (simp add: sort_greatest_to_least_def)
  then show ?thesis
    by (simp add: greatest_to_least_def sorted_map)
qed

lemma sort_greatest_to_least_simps [simp]:
  "noms_total (sort_greatest_to_least n) = noms_total n"
  "set (noms (sort_greatest_to_least n)) = set (noms n)"
  "length (noms (sort_greatest_to_least n)) = length (noms n)"
  "sum_amounts (noms (sort_greatest_to_least n)) = sum_amounts (noms n)"
  "distinct (owners (noms (sort_greatest_to_least n))) = distinct (owners (noms n))"
proof -
  let ?s = "sort_key (\<lambda>b. - int (amount b)) (noms n)"
  have "mset (map amount ?s) = mset (map amount (noms n))"
    by simp
  then show "sum_amounts (noms (sort_greatest_to_least n)) = sum_amounts (noms n)"
    by (simp add: sort_greatest_to_least_def sum_mset_sum_list [symmetric])
  have "mset (owners ?s) = mset (owners (noms n))"
    by simp
  then show "distinct (owners (noms (sort_greatest_to_least n))) = distinct (owners (noms n))"
    unfolding sort_greatest_to_least_def by (metis (no_types, lifting) mset_eq_imp_distinct_iff
        nominations.select_convs(1) nominations.surjective nominations.update_convs(1))
qed (simp_all add: sort_greatest_to_least_def)

section \<open>Sorted insertion\<close>

lemma skip_equal_spec:
  assumes "skip_equal a xs i = j" "i \<le> length xs"
  shows "i \<le> j \<and> j \<le> length xs \<and> (\<forall>k. i \<le> k \<longrightarrow> k < j \<longrightarrow> amount (xs ! k) = a) \<and>
    (j < length xs \<longrightarrow> amount (xs ! j) \<noteq> a)"
  using assms
proof (induction a xs i rule: skip_equal.induct)
  case (1 a xs i)
  show ?case
  proof (cases "i < length xs \<and> amount (xs ! i) = a")
    case True
    then have "skip_equal a xs (Suc i) = j"
      using "1.prems"(1) by (simp add: skip_equal.simps [of a xs i])
    then have IH: "Suc i \<le> j \<and> j \<le> length xs \<and>
        (\<forall>k. Suc i \<le> k \<longrightarrow> k < j \<longrightarrow> amount (xs ! k) = a) \<and> (j < length xs \<longrightarrow> amount (xs ! j) \<noteq> a)"
      using "1.IH" [OF True] True by simp
    then have "amount (xs ! k) = a" if "i \<le> k" "k < j" for k
      using that True by (cases "k = i") (auto simp: Suc_le_eq)
    then show ?thesis
      using IH by simp
  next
    case False
    then have "j = i"
      using "1.prems"(1) skip_equal.simps [of a xs i] by presburger
    then show ?thesis
      using False "1.prems"(2) by auto
  qed
qed

lemma insert_at_first_come:
  assumes "greatest_to_least xs" "i \<le> length xs" "\<forall>j<i. amount x \<le> amount (xs ! j)"
    and "i < length xs \<Longrightarrow> amount (xs ! i) < amount x"
  shows "insert_at i x xs = insert_first_come x xs"
proof -
  have tw: "takeWhile (\<lambda>b. amount x \<le> amount b) xs = take i xs"
    using assms by (intro takeWhile_eq_take_P_nth) auto
  then have "dropWhile (\<lambda>b. amount x \<le> amount b) xs = drop i xs"
    using assms(2) by (simp add: dropWhile_eq_drop)
  then show ?thesis
    using tw by (simp add: insert_first_come_def insert_at_def)
qed

lemma push_first_come:
  assumes "greatest_to_least xs" "\<forall>j<length xs. amount x \<le> amount (xs ! j)"
  shows "xs @ [x] = insert_first_come x xs"
  using insert_at_first_come [of xs "length xs" x] assms by (simp add: insert_at_def)

lemma amounts_partitioned:
  "greatest_to_least xs \<Longrightarrow> partitioned (\<lambda>y. cmp a (amount y)) xs"
  unfolding partitioned_def cmp_simps
  by (meson greatest_to_least_nth less_imp_le le_less_trans less_le_trans)

text \<open>The routine of the pallet is the stable insertion, as long as there is room.\<close>

lemma insert_sorted_eq:
  assumes sorted: "greatest_to_least (noms n)" and room: "length (noms n) < max_nominations"
  shows "insert_sorted_greatest_to_least x n =
    \<lparr>noms = insert_first_come x (noms n), noms_total = sat_add (noms_total n) (amount x)\<rparr>"
proof -
  let ?xs = "noms n"
  let ?search = "binary_search_by (\<lambda>y. cmp (amount x) (amount y)) ?xs"
  note part = amounts_partitioned [OF sorted, of "amount x"]
  have at: "unwrap_or_same (vec_try_insert max_nominations i x ?xs) ?xs = insert_at i x ?xs" for i
    using room by (simp add: unwrap_or_same_def vec_try_insert_def)
  have push: "unwrap_or_same (try_push max_nominations x ?xs) ?xs = ?xs @ [x]"
    using room by (simp add: unwrap_or_same_def try_push_def)
  show ?thesis
  proof (cases "?xs \<noteq> [] \<and> amount (last ?xs) = amount x")
    case True
    then have "\<forall>j<length ?xs. amount x \<le> amount (?xs ! j)"
      using greatest_to_least_last [OF sorted] by (metis nth_mem)
    then show ?thesis
      using True push_first_come [OF sorted, of x]
      by (simp add: insert_sorted_greatest_to_least_def push)
  next
    case not_last: False
    show ?thesis
    proof (cases ?search)
      case (Inl i)
      have i: "i \<le> length ?xs" "\<forall>j<i. amount x < amount (?xs ! j)"
        "\<forall>j. i \<le> j \<longrightarrow> j < length ?xs \<longrightarrow> amount (?xs ! j) < amount x"
        using binary_search_Err [OF Inl part] by simp_all
      have "insert_at i x ?xs = insert_first_come x ?xs"
        using i by (intro insert_at_first_come [OF sorted]) (auto simp: less_imp_le)
      then show ?thesis
        using not_last Inl by (auto simp: insert_sorted_greatest_to_least_def at Let_def)
    next
      case (Inr i)
      then have i: "i < length ?xs" "amount (?xs ! i) = amount x"
        using binary_search_Ok [OF Inr part] by auto
      define j where "j = skip_equal (amount x) ?xs (Suc i)"
      have j: "Suc i \<le> j" "j \<le> length ?xs"
        "\<forall>k. Suc i \<le> k \<longrightarrow> k < j \<longrightarrow> amount (?xs ! k) = amount x"
        "j < length ?xs \<Longrightarrow> amount (?xs ! j) \<noteq> amount x"
        using skip_equal_spec [OF j_def [symmetric]] i(1) by auto
      have before: "\<forall>k<j. amount x \<le> amount (?xs ! k)"
      proof (intro allI impI)
        fix k assume "k < j"
        then show "amount x \<le> amount (?xs ! k)"
          using greatest_to_least_nth [OF sorted, of k i] i j(3) by (cases "k \<le> i") auto
      qed
      have after: "amount (?xs ! j) < amount x" if "j < length ?xs"
        using that j(4) greatest_to_least_nth [OF sorted, of i j] i(2) j(1) by auto
      have "insert_at j x ?xs = insert_first_come x ?xs"
        using insert_at_first_come [OF sorted j(2) before after] .
      moreover have "\<not> j \<le> length ?xs - 1 \<Longrightarrow> insert_at j x ?xs = ?xs @ [x]"
        using j(2) by (simp add: insert_at_def)
      ultimately show ?thesis
        using not_last Inr
        by (auto simp: insert_sorted_greatest_to_least_def at push Let_def j_def [symmetric])
    qed
  qed
qed

lemma insert_first_come_split:
  obtains t d where "xs = t @ d" "insert_first_come x xs = t @ x # d"
    "\<forall>y\<in>set t. amount x \<le> amount y" "d \<noteq> [] \<Longrightarrow> amount (hd d) < amount x"
proof (rule that)
  let ?P = "\<lambda>b. amount x \<le> amount b"
  show "xs = takeWhile ?P xs @ dropWhile ?P xs"
    by simp
  show "insert_first_come x xs = takeWhile ?P xs @ x # dropWhile ?P xs"
    by (simp add: insert_first_come_def)
  show "\<forall>y\<in>set (takeWhile ?P xs). amount x \<le> amount y"
    using set_takeWhileD by fastforce
  show "dropWhile ?P xs \<noteq> [] \<Longrightarrow> amount (hd (dropWhile ?P xs)) < amount x"
    using hd_dropWhile [of ?P xs] by simp
qed

lemma insert_first_come_set [simp]: "set (insert_first_come x xs) = insert x (set xs)"
  by (rule insert_first_come_split [of xs x]) auto

lemma insert_first_come_length [simp]: "length (insert_first_come x xs) = Suc (length xs)"
  by (rule insert_first_come_split [of xs x]) auto

lemma insert_first_come_not_Nil [simp]: "insert_first_come x xs \<noteq> []"
  by (simp add: insert_first_come_def)

lemma insert_first_come_sum [simp]:
  "sum_amounts (insert_first_come x xs) = amount x + sum_amounts xs"
  by (rule insert_first_come_split [of xs x]) auto

lemma insert_first_come_distinct [simp]:
  "distinct (owners (insert_first_come x xs)) \<longleftrightarrow>
     distinct (owners xs) \<and> owner x \<notin> set (owners xs)"
  by (rule insert_first_come_split [of xs x]) auto

lemma insert_first_come_sorted:
  assumes "greatest_to_least xs"
  shows "greatest_to_least (insert_first_come x xs)"
proof -
  obtain t d where td: "xs = t @ d" "insert_first_come x xs = t @ x # d"
    "\<forall>y\<in>set t. amount x \<le> amount y" "d \<noteq> [] \<Longrightarrow> amount (hd d) < amount x"
    using insert_first_come_split [of xs x] by metis
  have "amount y \<le> amount x" if "y \<in> set d" for y
  proof -
    have "greatest_to_least d"
      using assms td(1) by (simp add: greatest_to_least_append)
    then have "amount y \<le> amount (hd d)"
      using that by (rule greatest_to_least_hd)
    moreover have "d \<noteq> []"
      using that by auto
    ultimately show ?thesis
      using td(4) by simp
  qed
  then show ?thesis
    using assms td by (auto simp: greatest_to_least_append greatest_to_least_Cons)
qed

end
