(* ===== verification/Staking_Nominator.thy ===== *)
theory Staking_Nominator
  imports Staking_Nominations
begin

text \<open>
  A nominator's own record (\<open>impl Nominator\<close> in \<open>types.rs\<close>), the pallet helpers it uses
  (stakable balances, \<open>update_active\<close>), and the helpers of \<open>nomination_requests.rs\<close> that
  work on one list of scheduled requests.

  A method that changes \<open>self\<close> takes the record and returns the changed one; a method that
  also writes storage takes the storage and returns it changed.
\<close>

section \<open>Pallet helpers\<close>

definition is_nominator :: "account \<Rightarrow> 'w staking \<Rightarrow> bool" where
  "is_nominator acc s \<longleftrightarrow> nominator_state s acc \<noteq> None"

definition is_candidate :: "account \<Rightarrow> 'w staking \<Rightarrow> bool" where
  "is_candidate acc s \<longleftrightarrow> candidate_info s acc \<noteq> None"

definition is_selected_candidate :: "account \<Rightarrow> 'w staking \<Rightarrow> bool" where
  "is_selected_candidate acc s \<longleftrightarrow> is_ok (ordered_search id acc (selected_candidates s))"

definition get_nominator_stakable_free_balance ::
  "'w config \<Rightarrow> account \<Rightarrow> 'w staking \<Rightarrow> balance" where
  "get_nominator_stakable_free_balance C acc s =
     (let balance = free_balance C (world s) acc in
      case nominator_state s acc of
        Some state \<Rightarrow> balance - nom_total state
      | None \<Rightarrow> balance)"

definition get_collator_stakable_free_balance ::
  "'w config \<Rightarrow> account \<Rightarrow> 'w staking \<Rightarrow> balance" where
  "get_collator_stakable_free_balance C acc s =
     (let balance = free_balance C (world s) acc in
      case candidate_info s acc of
        Some info \<Rightarrow> balance - cm_bond info
      | None \<Rightarrow> balance)"

text \<open>A failed insertion is only logged, and the pool without the candidate is stored.\<close>

definition update_active :: "'w config \<Rightarrow> account \<Rightarrow> balance \<Rightarrow> 'w staking \<Rightarrow> 'w staking" where
  "update_active C candidate new_total s =
     (let candidates = snd (bounded_set_remove owner candidate (candidate_pool s));
          candidates' =
            (case bounded_set_try_insert (max_candidates C) owner
                    \<lparr>owner = candidate, amount = new_total\<rparr> candidates of
               Some (_, xs) \<Rightarrow> xs
             | None \<Rightarrow> candidates)
      in s\<lparr>candidate_pool := candidates'\<rparr>)"

section \<open>Nominator\<close>

definition nominator_new :: "account \<Rightarrow> account \<Rightarrow> balance \<Rightarrow> nominator" where
  "nominator_new who collator amt =
     \<lparr>nom_id = who,
      nom_nominations =
        bounded_set_from owner (truncate_from max_nominations [\<lparr>owner = collator, amount = amt\<rparr>]),
      nom_total = amt, nom_less_total = 0\<rparr>"

definition adjust_bond_lock ::
  "'w config \<Rightarrow> nominator \<Rightarrow> bond_adjust \<Rightarrow> 'w staking \<Rightarrow> staking_error + 'w staking" where
  "adjust_bond_lock C self adj s =
     (let lock = (if nom_total self = 0
                  then s\<lparr>world := remove_lock C NOMINATOR_LOCK_ID (nom_id self) (world s)\<rparr>
                  else s\<lparr>world := set_lock C NOMINATOR_LOCK_ID (nom_id self) (nom_total self)
                           (world s)\<rparr>)
      in case adj of
           BondIncrease amt \<Rightarrow>
             if get_nominator_stakable_free_balance C (nom_id self) s < amt
             then Inl InsufficientBalance
             else if nom_total self < amt then Inl OtherError
             else Inr lock
         | BondDecrease \<Rightarrow> Inr lock)"

definition total_sub_if ::
  "'w config \<Rightarrow> balance \<Rightarrow> (balance \<Rightarrow> staking_error + unit) \<Rightarrow> nominator \<Rightarrow> 'w staking \<Rightarrow>
     staking_error + nominator \<times> 'w staking" where
  "total_sub_if C amt check self s =
     (let new_total = nom_total self - amt in
      and_then (check new_total) (\<lambda>_.
        let self' = self\<lparr>nom_total := new_total\<rparr> in
        and_then (adjust_bond_lock C self' BondDecrease s) (\<lambda>s'. Inr (self', s'))))"

definition total_add ::
  "'w config \<Rightarrow> balance \<Rightarrow> nominator \<Rightarrow> 'w staking \<Rightarrow> staking_error + nominator \<times> 'w staking" where
  "total_add C amt self s =
     (let self' = self\<lparr>nom_total := sat_add (nom_total self) amt\<rparr> in
      and_then (adjust_bond_lock C self' (BondIncrease amt) s) (\<lambda>s'. Inr (self', s')))"

definition total_sub ::
  "'w config \<Rightarrow> balance \<Rightarrow> nominator \<Rightarrow> 'w staking \<Rightarrow> staking_error + nominator \<times> 'w staking" where
  "total_sub C amt self s =
     (let self' = self\<lparr>nom_total := nom_total self - amt\<rparr> in
      and_then (adjust_bond_lock C self' BondDecrease s) (\<lambda>s'. Inr (self', s')))"

text \<open>\<open>Nominator::add_nomination\<close>; the \<open>unwrap\<close> panics when the vector is full.\<close>

definition nominator_add_nomination ::
  "bond \<Rightarrow> nominator \<Rightarrow> staking_error + bool \<times> nominator" where
  "nominator_add_nomination b self =
     (case bounded_set_try_insert max_nominations owner b (nom_nominations self) of
        None \<Rightarrow> Inl Panic
      | Some (True, xs) \<Rightarrow>
          Inr (True, self\<lparr>nom_nominations := xs,
                          nom_total := sat_add (nom_total self) (amount b)\<rparr>)
      | Some (False, xs) \<Rightarrow> Inr (False, self))"

text \<open>The loop of \<open>rm_nomination\<close>: copies every bond but the collator's into a new set.\<close>

fun rm_nomination_loop ::
  "account \<Rightarrow> bond list \<Rightarrow> balance option \<Rightarrow> bond list \<Rightarrow>
     staking_error + balance option \<times> bond list" where
  "rm_nomination_loop collator [] amt acc = Inr (amt, acc)"
| "rm_nomination_loop collator (x # xs) amt acc =
     (if owner x = collator then rm_nomination_loop collator xs (Some (amount x)) acc
      else case bounded_set_try_insert max_nominations owner x acc of
             None \<Rightarrow> Inl Panic
           | Some (_, acc') \<Rightarrow> rm_nomination_loop collator xs amt acc')"

text \<open>\<open>Nominator::rm_nomination\<close>: the remaining total, or \<open>None\<close> when there was no bond.\<close>

definition nominator_rm_nomination ::
  "'w config \<Rightarrow> account \<Rightarrow> nominator \<Rightarrow> 'w staking \<Rightarrow>
     staking_error + balance option \<times> nominator \<times> 'w staking" where
  "nominator_rm_nomination C collator self s =
     and_then (rm_nomination_loop collator (nom_nominations self) None []) (\<lambda>(amt, xs).
       case amt of
         Some bal \<Rightarrow>
           and_then (total_sub C bal (self\<lparr>nom_nominations := xs\<rparr>) s) (\<lambda>(self', s').
             Inr (Some (nom_total self'), self', s'))
       | None \<Rightarrow> Inr (None, self, s))"

definition get_bond_amount :: "account \<Rightarrow> nominator \<Rightarrow> balance option" where
  "get_bond_amount collator self =
     map_option amount (find (\<lambda>b. owner b = collator) (nom_nominations self))"

section \<open>One list of scheduled requests\<close>

definition cancel_request_with_state ::
  "account \<Rightarrow> nominator \<Rightarrow> scheduled_request list \<Rightarrow>
     (scheduled_request \<times> nominator \<times> scheduled_request list) option" where
  "cancel_request_with_state nominator state reqs =
     (case position (\<lambda>r. req_nominator r = nominator) reqs of
        None \<Rightarrow> None
      | Some i \<Rightarrow>
          Some (reqs ! i,
                state\<lparr>nom_less_total := nom_less_total state - action_amount (req_action (reqs ! i))\<rparr>,
                remove_at i reqs))"

definition nomination_remove_request_with_state ::
  "account \<Rightarrow> account \<Rightarrow> nominator \<Rightarrow> 'w staking \<Rightarrow> nominator \<times> 'w staking" where
  "nomination_remove_request_with_state collator nominator state s =
     (let reqs = nomination_scheduled_requests s collator in
      case position (\<lambda>r. req_nominator r = nominator) reqs of
        Some i \<Rightarrow>
          (state\<lparr>nom_less_total := nom_less_total state - action_amount (req_action (reqs ! i))\<rparr>,
           s\<lparr>nomination_scheduled_requests :=
               (nomination_scheduled_requests s)(collator := remove_at i reqs)\<rparr>)
      | None \<Rightarrow> (state, s))"

definition nomination_request_exists :: "account \<Rightarrow> account \<Rightarrow> 'w staking \<Rightarrow> bool" where
  "nomination_request_exists collator nominator s =
     list_ex (\<lambda>r. req_nominator r = nominator) (nomination_scheduled_requests s collator)"

definition nomination_request_revoke_exists :: "account \<Rightarrow> account \<Rightarrow> 'w staking \<Rightarrow> bool" where
  "nomination_request_revoke_exists collator nominator s =
     list_ex (\<lambda>r. req_nominator r = nominator \<and> is_revoke (req_action r))
       (nomination_scheduled_requests s collator)"

end
