(* ===== verification/Staking_Candidate.thy ===== *)
theory Staking_Candidate
  imports Staking_Nominator
begin

text \<open>
  A candidate's record and its two vectors of nominations (\<open>impl CandidateMetadata\<close> in
  \<open>types.rs\<close>). The top vector holds the nominations that count towards the candidate's
  stake, at most \<open>max_top_nominations_per_candidate\<close> of them; the bottom vector holds the
  next ones, and the lowest bottom nomination is kicked out when a higher one arrives.
\<close>

section \<open>Status and self bond\<close>

definition candidate_metadata_new :: "balance \<Rightarrow> candidate_metadata" where
  "candidate_metadata_new b =
     \<lparr>cm_bond = b, cm_nomination_count = 0, cm_total_counted = b, cm_lowest_top = 0,
      cm_highest_bottom = 0, cm_lowest_bottom = 0, cm_top_capacity = Empty,
      cm_bottom_capacity = Empty, cm_request = None, cm_status = Active\<rparr>"

definition is_active :: "candidate_metadata \<Rightarrow> bool" where
  "is_active self \<longleftrightarrow> cm_status self = Active"

definition is_leaving :: "candidate_metadata \<Rightarrow> bool" where
  "is_leaving self \<longleftrightarrow> (case cm_status self of Leaving _ \<Rightarrow> True | _ \<Rightarrow> False)"

definition schedule_leave ::
  "candidate_metadata \<Rightarrow> 'w staking \<Rightarrow>
     staking_error + candidate_metadata \<times> era_index \<times> era_index" where
  "schedule_leave self s =
     (if is_leaving self then Inl CandidateAlreadyLeaving
      else let now = era_current (era s);
               due = wrapping_add32 now (delay s)
           in Inr (self\<lparr>cm_status := Leaving due\<rparr>, now, due))"

definition can_leave :: "candidate_metadata \<Rightarrow> 'w staking \<Rightarrow> staking_error + unit" where
  "can_leave self s =
     (case cm_status self of
        Leaving due \<Rightarrow>
          if due \<le> era_current (era s) then Inr () else Inl CandidateCannotLeaveYet
      | _ \<Rightarrow> Inl CandidateNotLeaving)"

definition cm_go_offline :: "candidate_metadata \<Rightarrow> candidate_metadata" where
  "cm_go_offline self = self\<lparr>cm_status := Idle\<rparr>"

definition cm_go_online :: "candidate_metadata \<Rightarrow> candidate_metadata" where
  "cm_go_online self = self\<lparr>cm_status := Active\<rparr>"

definition cm_bond_extra ::
  "'w config \<Rightarrow> account \<Rightarrow> balance \<Rightarrow> candidate_metadata \<Rightarrow> 'w staking \<Rightarrow>
     staking_error + candidate_metadata \<times> 'w staking" where
  "cm_bond_extra C who extra self s =
     (if get_collator_stakable_free_balance C who s < extra then Inl InsufficientBalance
      else let bond' = sat_add (cm_bond self) extra;
               self' = self\<lparr>cm_bond := bond',
                            cm_total_counted := sat_add (cm_total_counted self) extra\<rparr>;
               s' = s\<lparr>total := sat_add (total s) extra,
                      world := set_lock C COLLATOR_LOCK_ID who bond' (world s)\<rparr>
           in Inr (self', deposit_event (CandidateBondedMore who extra bond') s'))"

definition schedule_unbond ::
  "balance \<Rightarrow> candidate_metadata \<Rightarrow> 'w staking \<Rightarrow>
     staking_error + candidate_metadata \<times> era_index" where
  "schedule_unbond reduction self s =
     (if cm_request self \<noteq> None then Inl PendingCandidateRequestAlreadyExists
      else if cm_bond self \<le> reduction then Inl CandidateBondBelowMin
      else if cm_bond self - reduction < min_collator_stake s then Inl CandidateBondBelowMin
      else let due = wrapping_add32 (era_current (era s)) (delay s)
           in Inr (self\<lparr>cm_request := Some \<lparr>cbl_amount = reduction, cbl_when_executable = due\<rparr>\<rparr>,
                   due))"

definition execute_unbond ::
  "'w config \<Rightarrow> account \<Rightarrow> candidate_metadata \<Rightarrow> 'w staking \<Rightarrow>
     staking_error + candidate_metadata \<times> 'w staking" where
  "execute_unbond C who self s =
     and_then (ok_or (cm_request self) PendingCandidateRequestsDNE) (\<lambda>request.
       if era_current (era s) < cbl_when_executable request
       then Inl PendingCandidateRequestNotDueYet
       else let amt = cbl_amount request;
                bond' = cm_bond self - amt;
                total_counted' = cm_total_counted self - amt;
                self' = self\<lparr>cm_bond := bond', cm_total_counted := total_counted',
                             cm_request := None\<rparr>;
                s1 = s\<lparr>total := total s - amt,
                       world := set_lock C COLLATOR_LOCK_ID who bond' (world s)\<rparr>;
                s2 = (if is_active self' then update_active C who total_counted' s1 else s1)
            in Inr (self', deposit_event (CandidateBondedLess who amt bond') s2))"

definition cancel_unbond ::
  "account \<Rightarrow> candidate_metadata \<Rightarrow> 'w staking \<Rightarrow>
     staking_error + candidate_metadata \<times> 'w staking" where
  "cancel_unbond who self s =
     and_then (ok_or (cm_request self) PendingCandidateRequestsDNE) (\<lambda>request.
       Inr (self\<lparr>cm_request := None\<rparr>,
            deposit_event
              (CancelledCandidateBondLess who (cbl_amount request) (cbl_when_executable request)) s))"

section \<open>Cached data about the nominations\<close>

definition reset_top_data ::
  "'w config \<Rightarrow> account \<Rightarrow> nominations \<Rightarrow> candidate_metadata \<Rightarrow> 'w staking \<Rightarrow>
     candidate_metadata \<times> 'w staking" where
  "reset_top_data C candidate tops self s =
     (let self' = self\<lparr>cm_lowest_top := lowest_nomination_amount tops,
                       cm_top_capacity := top_capacity C tops,
                       cm_total_counted := sat_add (cm_bond self) (noms_total tops)\<rparr>
      in (self',
          if cm_total_counted self \<noteq> cm_total_counted self' \<and> is_active self'
          then update_active C candidate (cm_total_counted self') s else s))"

definition reset_bottom_data ::
  "'w config \<Rightarrow> nominations \<Rightarrow> candidate_metadata \<Rightarrow> candidate_metadata" where
  "reset_bottom_data C bots self =
     self\<lparr>cm_lowest_bottom := lowest_nomination_amount bots,
          cm_highest_bottom := highest_nomination_amount bots,
          cm_bottom_capacity := bottom_capacity C bots\<rparr>"

section \<open>Adding a nomination\<close>

text \<open>
  Kicks the nomination \<open>kicked\<close> of the bottom vector: its owner's record loses the bond
  and the scheduled request, and the owner leaves when it was their only nomination.
\<close>

definition kick_nominator ::
  "'w config \<Rightarrow> account \<Rightarrow> bond \<Rightarrow> 'w staking \<Rightarrow> staking_error + 'w staking" where
  "kick_nominator C candidate kicked s =
     and_then (ok_or (nominator_state s (owner kicked)) Panic) (\<lambda>state.
       let leaving = (length (nom_nominations state) = 1) in
       and_then (nominator_rm_nomination C candidate state s) (\<lambda>(_, state1, s1).
         let (state2, s2) =
               nomination_remove_request_with_state candidate (owner kicked) state1 s1;
             s3 = deposit_event (NominationKicked (owner kicked) candidate (amount kicked)) s2
         in if leaving
            then Inr (deposit_event (NominatorLeft (owner kicked) (amount kicked))
                   (s3\<lparr>nominator_state := (nominator_state s3)(owner kicked := None)\<rparr>))
            else Inr (s3\<lparr>nominator_state := (nominator_state s3)(owner kicked \<mapsto> state2)\<rparr>)))"

definition add_bottom_nomination ::
  "'w config \<Rightarrow> bool \<Rightarrow> account \<Rightarrow> bond \<Rightarrow> candidate_metadata \<Rightarrow> 'w staking \<Rightarrow>
     staking_error + candidate_metadata \<times> 'w staking" where
  "add_bottom_nomination C bumped_from_top candidate nomination self s =
     and_then (ok_or (bottom_nominations s candidate) Panic) (\<lambda>bots.
       and_then
         (if length (noms bots) = max_bottom_nominations_per_candidate C
          then if noms bots = [] then Inl Panic
               else let kicked = last (noms bots) in
                    and_then (kick_nominator C candidate kicked s) (\<lambda>s'.
                      Inr (False,
                           bots\<lparr>noms := butlast (noms bots),
                                  noms_total := noms_total bots - amount kicked\<rparr>, s'))
          else Inr (\<not> bumped_from_top, bots, s))
         (\<lambda>(increase_nomination_count, bottom1, s1).
           let self1 = (if increase_nomination_count
                        then self\<lparr>cm_nomination_count := sat_add32 (cm_nomination_count self) 1\<rparr>
                        else self);
               bottom2 = insert_sorted_greatest_to_least nomination bottom1
           in Inr (reset_bottom_data C bottom2 self1,
                   s1\<lparr>bottom_nominations := (bottom_nominations s1)(candidate \<mapsto> bottom2)\<rparr>)))"

definition add_top_nomination ::
  "'w config \<Rightarrow> account \<Rightarrow> bond \<Rightarrow> candidate_metadata \<Rightarrow> 'w staking \<Rightarrow>
     staking_error + candidate_metadata \<times> balance option \<times> 'w staking" where
  "add_top_nomination C candidate nomination self s =
     and_then (ok_or (top_nominations s candidate) Panic) (\<lambda>tops.
       and_then
         (if length (noms tops) = max_top_nominations_per_candidate C
          then if noms tops = [] then Inl Panic
               else let new_bottom = last (noms tops);
                        less_total_staked =
                          (if cm_bottom_capacity self = Full then Some (cm_lowest_bottom self)
                           else None)
                    in and_then (add_bottom_nomination C True candidate new_bottom self s)
                         (\<lambda>(self', s').
                           Inr (self', less_total_staked,
                                tops\<lparr>noms := butlast (noms tops),
                                    noms_total := noms_total tops - amount new_bottom\<rparr>, s'))
          else Inr (self, None, tops, s))
         (\<lambda>(self1, less_total_staked, top1, s1).
           let top2 = insert_sorted_greatest_to_least nomination top1;
               (self2, s2) = reset_top_data C candidate top2 self1 s1;
               self3 = (if less_total_staked = None
                        then self2\<lparr>cm_nomination_count := sat_add32 (cm_nomination_count self2) 1\<rparr>
                        else self2)
           in Inr (self3, less_total_staked,
                   s2\<lparr>top_nominations := (top_nominations s2)(candidate \<mapsto> top2)\<rparr>)))"

definition cm_add_nomination ::
  "'w config \<Rightarrow> account \<Rightarrow> bond \<Rightarrow> candidate_metadata \<Rightarrow> 'w staking \<Rightarrow>
     staking_error + candidate_metadata \<times> nominator_added \<times> balance option \<times> 'w staking" where
  "cm_add_nomination C candidate nomination self s =
     (case cm_top_capacity self of
        Full \<Rightarrow>
          if cm_lowest_top self < amount nomination
          then and_then (add_top_nomination C candidate nomination self s)
                 (\<lambda>(self', reduction, s'). Inr (self', AddedToTop (cm_total_counted self'), reduction, s'))
          else if cm_bottom_capacity self = Full \<and> amount nomination \<le> cm_lowest_bottom self
          then Inl CannotNominateLessThanOrEqualToLowestBottomWhenFull
          else let reduction = (if cm_bottom_capacity self = Full then Some (cm_lowest_bottom self)
                           else None)
               in and_then (add_bottom_nomination C False candidate nomination self s)
                    (\<lambda>(self', s'). Inr (self', AddedToBottom, reduction, s'))
      | _ \<Rightarrow>
          and_then (add_top_nomination C candidate nomination self s)
            (\<lambda>(self', reduction, s'). Inr (self', AddedToTop (cm_total_counted self'), None, s')))"

section \<open>Removing a nomination\<close>

text \<open>
  The closures of the filters remember the last bond of the nominator they meet.
\<close>

definition last_owned :: "account \<Rightarrow> bond list \<Rightarrow> bond option" where
  "last_owned nominator xs =
     (case filter (\<lambda>d. owner d = nominator) xs of [] \<Rightarrow> None | ys \<Rightarrow> Some (last ys))"

definition without_owner :: "account \<Rightarrow> bond list \<Rightarrow> bond list" where
  "without_owner nominator xs =
     truncate_from max_nominations (filter (\<lambda>d. owner d \<noteq> nominator) xs)"

definition rm_top_nomination ::
  "'w config \<Rightarrow> account \<Rightarrow> account \<Rightarrow> candidate_metadata \<Rightarrow> 'w staking \<Rightarrow>
     staking_error + candidate_metadata \<times> bool \<times> 'w staking" where
  "rm_top_nomination C candidate nominator self s =
     and_then (ok_or (top_nominations s candidate) Panic) (\<lambda>tops.
     and_then (ok_or (last_owned nominator (noms tops)) NominationDNE) (\<lambda>actual.
       let top1 = tops\<lparr>noms := without_owner nominator (noms tops),
                      noms_total := noms_total tops - amount actual\<rparr>
       in and_then
         (if cm_bottom_capacity self \<noteq> Empty
          then and_then (ok_or (bottom_nominations s candidate) Panic) (\<lambda>bots.
                 if noms bots = [] then Inl Panic
                 else let highest = hd (noms bots);
                          bottom1 = bots\<lparr>noms := tl (noms bots),
                                           noms_total := noms_total bots - amount highest\<rparr>
                      in Inr (reset_bottom_data C bottom1 self,
                              insert_sorted_greatest_to_least highest top1,
                              s\<lparr>bottom_nominations :=
                                  (bottom_nominations s)(candidate \<mapsto> bottom1)\<rparr>))
          else Inr (self, top1, s))
         (\<lambda>(self1, top2, s1).
           let (self2, s2) = reset_top_data C candidate top2 self1 s1;
               self3 = self2\<lparr>cm_nomination_count := cm_nomination_count self2 - 1\<rparr>
           in Inr (self3, cm_total_counted self = cm_total_counted self3,
                   s2\<lparr>top_nominations := (top_nominations s2)(candidate \<mapsto> top2)\<rparr>))))"

definition rm_bottom_nomination ::
  "'w config \<Rightarrow> account \<Rightarrow> account \<Rightarrow> candidate_metadata \<Rightarrow> 'w staking \<Rightarrow>
     staking_error + candidate_metadata \<times> bool \<times> 'w staking" where
  "rm_bottom_nomination C candidate nominator self s =
     and_then (ok_or (bottom_nominations s candidate) Panic) (\<lambda>bots.
     and_then (ok_or (last_owned nominator (noms bots)) NominationDNE) (\<lambda>actual.
       let bottom1 = bots\<lparr>noms := without_owner nominator (noms bots),
                            noms_total := noms_total bots - amount actual\<rparr>;
           self1 = reset_bottom_data C bottom1 self;
           self2 = self1\<lparr>cm_nomination_count := cm_nomination_count self1 - 1\<rparr>
       in Inr (self2, False,
               s\<lparr>bottom_nominations := (bottom_nominations s)(candidate \<mapsto> bottom1)\<rparr>)))"

definition rm_nomination_if_exists ::
  "'w config \<Rightarrow> account \<Rightarrow> account \<Rightarrow> balance \<Rightarrow> candidate_metadata \<Rightarrow> 'w staking \<Rightarrow>
     staking_error + candidate_metadata \<times> bool \<times> 'w staking" where
  "rm_nomination_if_exists C candidate nominator amt self s =
     (let amount_geq_lowest_top = cm_lowest_top self \<le> amt;
          top_is_not_full = cm_top_capacity self \<noteq> Full;
          lowest_top_eq_highest_bottom = (cm_lowest_top self = cm_highest_bottom self)
      in if top_is_not_full \<or> amount_geq_lowest_top \<and> \<not> lowest_top_eq_highest_bottom
         then rm_top_nomination C candidate nominator self s
         else if amount_geq_lowest_top \<and> lowest_top_eq_highest_bottom
         then let result = rm_top_nomination C candidate nominator self s in
              (case result of
                 Inl e \<Rightarrow> if e = NominationDNE then rm_bottom_nomination C candidate nominator self s
                          else result
               | Inr _ \<Rightarrow> result)
         else rm_bottom_nomination C candidate nominator self s)"

section \<open>Increasing a nomination\<close>

definition change_amount :: "account \<Rightarrow> (balance \<Rightarrow> balance) \<Rightarrow> bond list \<Rightarrow> bond list" where
  "change_amount nominator f xs =
     truncate_from max_nominations
       (map (\<lambda>d. if owner d \<noteq> nominator then d else \<lparr>owner = owner d, amount = f (amount d)\<rparr>) xs)"

definition increase_top_nomination ::
  "'w config \<Rightarrow> account \<Rightarrow> account \<Rightarrow> balance \<Rightarrow> candidate_metadata \<Rightarrow> 'w staking \<Rightarrow>
     staking_error + candidate_metadata \<times> bool \<times> 'w staking" where
  "increase_top_nomination C candidate nominator extra self s =
     and_then (ok_or (top_nominations s candidate) Panic) (\<lambda>tops.
       if nominator \<notin> set (owners (noms tops)) then Inl NominationDNE
       else let top1 = sort_greatest_to_least
                  (tops\<lparr>noms := change_amount nominator (\<lambda>a. sat_add a extra) (noms tops),
                       noms_total := sat_add (noms_total tops) extra\<rparr>);
                (self1, s1) = reset_top_data C candidate top1 self s
            in Inr (self1, True,
                    s1\<lparr>top_nominations := (top_nominations s1)(candidate \<mapsto> top1)\<rparr>))"

definition increase_bottom_nomination ::
  "'w config \<Rightarrow> account \<Rightarrow> account \<Rightarrow> balance \<Rightarrow> balance \<Rightarrow> candidate_metadata \<Rightarrow> 'w staking \<Rightarrow>
     staking_error + candidate_metadata \<times> bool \<times> 'w staking" where
  "increase_bottom_nomination C candidate nominator bnd extra self s =
     and_then (ok_or (bottom_nominations s candidate) CandidateDNE) (\<lambda>bots.
       and_then
         (if cm_lowest_top self < sat_add bnd extra
          then and_then (ok_or (last_owned nominator (noms bots)) NominationDNE) (\<lambda>d.
               let nomination = \<lparr>owner = owner d, amount = sat_add (amount d) extra\<rparr>;
                   bottom1 = bots\<lparr>noms := without_owner nominator (noms bots),
                                    noms_total := noms_total bots - bnd\<rparr>
               in and_then (ok_or (top_nominations s candidate) Panic) (\<lambda>tops.
                  and_then
                    (if top_capacity C tops = Full
                     then if noms tops = [] then Inl Panic
                          else let new_bottom = last (noms tops)
                               in Inr (tops\<lparr>noms := butlast (noms tops),
                                           noms_total := noms_total tops - amount new_bottom\<rparr>,
                                       insert_sorted_greatest_to_least new_bottom bottom1)
                     else Inr (tops, bottom1))
                    (\<lambda>(top1, bottom2).
                      let top2 = insert_sorted_greatest_to_least nomination top1;
                          (self1, s1) = reset_top_data C candidate top2 self s
                      in Inr (self1, True, bottom2,
                              s1\<lparr>top_nominations := (top_nominations s1)(candidate \<mapsto> top2)\<rparr>))))
          else if nominator \<notin> set (owners (noms bots)) then Inl NominationDNE
          else Inr (self, False,
                    sort_greatest_to_least
                      (bots\<lparr>noms := change_amount nominator (\<lambda>a. sat_add a extra) (noms bots),
                              noms_total := sat_add (noms_total bots) extra\<rparr>), s))
         (\<lambda>(self2, in_top_after, bottom3, s2).
           Inr (reset_bottom_data C bottom3 self2, in_top_after,
                s2\<lparr>bottom_nominations := (bottom_nominations s2)(candidate \<mapsto> bottom3)\<rparr>)))"

definition cm_increase_nomination ::
  "'w config \<Rightarrow> account \<Rightarrow> account \<Rightarrow> balance \<Rightarrow> balance \<Rightarrow> candidate_metadata \<Rightarrow> 'w staking \<Rightarrow>
     staking_error + candidate_metadata \<times> bool \<times> 'w staking" where
  "cm_increase_nomination C candidate nominator bnd extra self s =
     (let lowest_top_eq_highest_bottom = (cm_lowest_top self = cm_highest_bottom self);
          bond_geq_lowest_top = cm_lowest_top self \<le> bnd
      in if bond_geq_lowest_top \<and> \<not> lowest_top_eq_highest_bottom
         then increase_top_nomination C candidate nominator extra self s
         else if bond_geq_lowest_top \<and> lowest_top_eq_highest_bottom
         then let result = increase_top_nomination C candidate nominator extra self s in
              (case result of
                 Inl e \<Rightarrow> if e = NominationDNE then increase_bottom_nomination C candidate nominator bnd extra self s
                          else result
               | Inr _ \<Rightarrow> result)
         else increase_bottom_nomination C candidate nominator bnd extra self s)"

section \<open>Decreasing a nomination\<close>

definition decrease_top_nomination ::
  "'w config \<Rightarrow> account \<Rightarrow> account \<Rightarrow> balance \<Rightarrow> balance \<Rightarrow> candidate_metadata \<Rightarrow> 'w staking \<Rightarrow>
     staking_error + candidate_metadata \<times> bool \<times> 'w staking" where
  "decrease_top_nomination C candidate nominator bnd reduction self s =
     (let bond_after_less_than_highest_bottom = bnd - reduction < cm_highest_bottom self;
          full_top_and_nonempty_bottom =
            (cm_top_capacity self = Full \<and> cm_bottom_capacity self \<noteq> Empty)
      in and_then (ok_or (top_nominations s candidate) CandidateDNE) (\<lambda>tops.
         and_then
           (if bond_after_less_than_highest_bottom \<and> full_top_and_nonempty_bottom
            then and_then (ok_or (last_owned nominator (noms tops)) NominationDNE) (\<lambda>d.
                 let nomination = \<lparr>owner = owner d, amount = amount d - reduction\<rparr>;
                     top1 = tops\<lparr>noms := without_owner nominator (noms tops),
                                noms_total :=
                                  foldl (\<lambda>t d. if owner d \<noteq> nominator then t else t - amount d)
                                    (noms_total tops) (noms tops)\<rparr>
                 in and_then (ok_or (bottom_nominations s candidate) Panic) (\<lambda>bots.
                    if noms bots = [] then Inl Panic
                    else let highest = hd (noms bots);
                             bottom1 = bots\<lparr>noms := tl (noms bots),
                                              noms_total := noms_total bots - amount highest\<rparr>;
                             top2 = insert_sorted_greatest_to_least highest top1;
                             bottom2 = insert_sorted_greatest_to_least nomination bottom1
                         in Inr (reset_bottom_data C bottom2 self, False, top2,
                                 s\<lparr>bottom_nominations :=
                                     (bottom_nominations s)(candidate \<mapsto> bottom2)\<rparr>)))
            else if nominator \<notin> set (owners (noms tops)) then Inl NominationDNE
            else Inr (self, True,
                      sort_greatest_to_least
                        (tops\<lparr>noms := change_amount nominator (\<lambda>a. a - reduction) (noms tops),
                             noms_total := noms_total tops - reduction\<rparr>), s))
           (\<lambda>(self1, in_top_after, top3, s1).
             let (self2, s2) = reset_top_data C candidate top3 self1 s1
             in Inr (self2, in_top_after,
                     s2\<lparr>top_nominations := (top_nominations s2)(candidate \<mapsto> top3)\<rparr>))))"

text \<open>The total of the bottom vector is not touched here.\<close>

definition decrease_bottom_nomination ::
  "'w config \<Rightarrow> account \<Rightarrow> account \<Rightarrow> balance \<Rightarrow> candidate_metadata \<Rightarrow> 'w staking \<Rightarrow>
     staking_error + candidate_metadata \<times> bool \<times> 'w staking" where
  "decrease_bottom_nomination C candidate nominator reduction self s =
     and_then (ok_or (bottom_nominations s candidate) Panic) (\<lambda>bots.
       if nominator \<notin> set (owners (noms bots)) then Inl NominationDNE
       else let bottom1 = sort_greatest_to_least
                  (bots\<lparr>noms := change_amount nominator (\<lambda>a. a - reduction) (noms bots)\<rparr>)
            in Inr (reset_bottom_data C bottom1 self, False,
                    s\<lparr>bottom_nominations := (bottom_nominations s)(candidate \<mapsto> bottom1)\<rparr>))"

definition cm_decrease_nomination ::
  "'w config \<Rightarrow> account \<Rightarrow> account \<Rightarrow> balance \<Rightarrow> balance \<Rightarrow> candidate_metadata \<Rightarrow> 'w staking \<Rightarrow>
     staking_error + candidate_metadata \<times> bool \<times> 'w staking" where
  "cm_decrease_nomination C candidate nominator bnd reduction self s =
     (let lowest_top_eq_highest_bottom = (cm_lowest_top self = cm_highest_bottom self);
          bond_geq_lowest_top = cm_lowest_top self \<le> bnd
      in if bond_geq_lowest_top \<and> \<not> lowest_top_eq_highest_bottom
         then decrease_top_nomination C candidate nominator bnd reduction self s
         else if bond_geq_lowest_top \<and> lowest_top_eq_highest_bottom
         then let result = decrease_top_nomination C candidate nominator bnd reduction self s in
              (case result of
                 Inl e \<Rightarrow> if e = NominationDNE then decrease_bottom_nomination C candidate nominator reduction self s
                          else result
               | Inr _ \<Rightarrow> result)
         else decrease_bottom_nomination C candidate nominator reduction self s)"

end
