(* ===== verification/Staking_Book.thy ===== *)
theory Staking_Book
  imports Staking_Candidate
begin

text \<open>
  The book of a candidate is its record with its two nomination vectors. The invariant
  \<open>book_ok\<close> says that the two vectors are one ranking cut at the capacity of the top vector,
  and that every cached number of the record is the one a recomputation gives. Each operation
  of \<open>impl CandidateMetadata\<close> is shown to be total on the nominations the book holds, to keep
  the invariant, and to implement the obvious update of the finite map from nominators to
  stakes.
\<close>

section \<open>Specification\<close>

definition limits_ok :: "'w config \<Rightarrow> bool" where
  "limits_ok C \<longleftrightarrow>
     0 < max_top_nominations_per_candidate C \<and> max_top_nominations_per_candidate C \<le> max_nominations \<and>
     0 < max_bottom_nominations_per_candidate C \<and>
     max_bottom_nominations_per_candidate C \<le> max_nominations"

definition ranked :: "'w config \<Rightarrow> bond list \<Rightarrow> bond list \<Rightarrow> bool" where
  "ranked C t b \<longleftrightarrow>
     greatest_to_least (t @ b) \<and> distinct (owners (t @ b)) \<and>
     length t \<le> max_top_nominations_per_candidate C \<and>
     length b \<le> max_bottom_nominations_per_candidate C \<and>
     (b \<noteq> [] \<longrightarrow> length t = max_top_nominations_per_candidate C)"

definition refresh ::
  "'w config \<Rightarrow> nominations \<Rightarrow> nominations \<Rightarrow> candidate_metadata \<Rightarrow> candidate_metadata" where
  "refresh C t b m =
     m\<lparr>cm_nomination_count := length (noms t) + length (noms b),
       cm_total_counted := cm_bond m + noms_total t,
       cm_lowest_top := lowest_nomination_amount t,
       cm_highest_bottom := highest_nomination_amount b,
       cm_lowest_bottom := lowest_nomination_amount b,
       cm_top_capacity := top_capacity C t,
       cm_bottom_capacity := bottom_capacity C b\<rparr>"

definition book_ok ::
  "'w config \<Rightarrow> candidate_metadata \<Rightarrow> nominations \<Rightarrow> nominations \<Rightarrow> bool" where
  "book_ok C m t b \<longleftrightarrow>
     ranked C (noms t) (noms b) \<and> m = refresh C t b m \<and>
     noms_total t = sum_amounts (noms t) \<and> sum_amounts (noms b) \<le> noms_total b \<and>
     cm_bond m + sum_amounts (noms t) + sum_amounts (noms b) \<le> u128_max"

definition stakes :: "bond list \<Rightarrow> account \<Rightarrow> balance option" where
  "stakes xs = map_of (map (\<lambda>d. (owner d, amount d)) xs)"

definition book_stakes :: "nominations \<Rightarrow> nominations \<Rightarrow> account \<Rightarrow> balance option" where
  "book_stakes t b = stakes (noms t @ noms b)"

definition pool_put :: "'w config \<Rightarrow> account \<Rightarrow> balance \<Rightarrow> bond list \<Rightarrow> bond list" where
  "pool_put C c x pool =
     (let candidates = snd (bounded_set_remove owner c pool)
      in case bounded_set_try_insert (max_candidates C) owner \<lparr>owner = c, amount = x\<rparr> candidates of
           Some (_, xs) \<Rightarrow> xs
         | None \<Rightarrow> candidates)"

definition pool_after ::
  "'w config \<Rightarrow> account \<Rightarrow> bool \<Rightarrow> balance \<Rightarrow> balance \<Rightarrow> bond list \<Rightarrow> bond list" where
  "pool_after C c active x x' pool = (if x \<noteq> x' \<and> active then pool_put C c x' pool else pool)"

definition set_book ::
  "account \<Rightarrow> nominations \<Rightarrow> nominations \<Rightarrow> bond list \<Rightarrow> 'w staking \<Rightarrow> 'w staking" where
  "set_book c t b pool s =
     s\<lparr>top_nominations := (top_nominations s)(c \<mapsto> t),
       bottom_nominations := (bottom_nominations s)(c \<mapsto> b),
       candidate_pool := pool\<rparr>"

text \<open>The storage after an operation on the book of \<open>c\<close> that leaves it as \<open>t\<close> and \<open>b\<close>.\<close>

definition rewrite_book ::
  "'w config \<Rightarrow> account \<Rightarrow> nominations \<Rightarrow> nominations \<Rightarrow> candidate_metadata \<Rightarrow> 'w staking \<Rightarrow>
     'w staking" where
  "rewrite_book C c t b m s =
     set_book c t b (pool_after C c (is_active m) (cm_total_counted m) (cm_bond m + noms_total t)
       (candidate_pool s)) s"

text \<open>\<open>book_update\<close> is what a successful operation on the book of \<open>c\<close> does: it sets the stake of
  the nominator \<open>n\<close> to \<open>v\<close>.\<close>

definition book_update ::
  "'w config \<Rightarrow> account \<Rightarrow> nominations \<Rightarrow> nominations \<Rightarrow> candidate_metadata \<Rightarrow> 'w staking \<Rightarrow>
     account \<Rightarrow> balance option \<Rightarrow> staking_error + candidate_metadata \<times> bool \<times> 'w staking \<Rightarrow> bool" where
  "book_update C c t b m s n v result \<longleftrightarrow>
     (\<exists>t' b' flag. result = Inr (refresh C t' b' m, flag, rewrite_book C c t' b' m s) \<and>
        book_ok C (refresh C t' b' m) t' b' \<and> book_stakes t' b' = (book_stakes t b)(n := v))"

text \<open>The moves between and inside the vectors.\<close>

definition cut :: "bond \<Rightarrow> nominations \<Rightarrow> nominations" where
  "cut d n = \<lparr>noms = filter (\<lambda>y. owner y \<noteq> owner d) (noms n), noms_total = noms_total n - amount d\<rparr>"

definition join_in :: "bond \<Rightarrow> nominations \<Rightarrow> nominations" where
  "join_in d n =
     \<lparr>noms = insert_first_come d (noms n), noms_total = sat_add (noms_total n) (amount d)\<rparr>"

definition tail :: "nominations \<Rightarrow> nominations" where
  "tail n = \<lparr>noms = tl (noms n), noms_total = noms_total n - amount (hd (noms n))\<rparr>"

definition initial :: "nominations \<Rightarrow> nominations" where
  "initial n = \<lparr>noms = butlast (noms n), noms_total = noms_total n - amount (last (noms n))\<rparr>"

definition remove_top :: "bond \<Rightarrow> nominations \<Rightarrow> nominations \<Rightarrow> nominations \<times> nominations" where
  "remove_top d t b =
     (if noms b = [] then (cut d t, b) else (join_in (hd (noms b)) (cut d t), tail b))"

definition changed :: "bond \<Rightarrow> (balance \<Rightarrow> balance) \<Rightarrow> bond" where
  "changed d f = \<lparr>owner = owner d, amount = f (amount d)\<rparr>"

definition adjust :: "bond \<Rightarrow> (balance \<Rightarrow> balance) \<Rightarrow> balance \<Rightarrow> nominations \<Rightarrow> nominations" where
  "adjust d f tot n =
     sort_greatest_to_least (n\<lparr>noms := change_amount (owner d) f (noms n), noms_total := tot\<rparr>)"

text \<open>A bottom nomination that grows above the lowest top nomination changes places with it, and
  a top nomination that shrinks below the highest bottom nomination does too.\<close>

definition promote :: "bond \<Rightarrow> bond \<Rightarrow> nominations \<Rightarrow> nominations \<Rightarrow> nominations \<times> nominations" where
  "promote d e t b = (join_in e (initial t), join_in (last (noms t)) (cut d b))"

definition demote :: "bond \<Rightarrow> bond \<Rightarrow> nominations \<Rightarrow> nominations \<Rightarrow> nominations \<times> nominations" where
  "demote d e t b = (join_in (hd (noms b)) (cut d t), join_in e (tail b))"

text \<open>
  \<open>admit\<close> is the policy: a nomination goes to the top when there is room or it beats the lowest
  top nomination, else to the bottom when there is room or it beats the lowest bottom
  nomination, which is then kicked; otherwise it is refused.
\<close>

definition shed :: "'w config \<Rightarrow> nominations \<Rightarrow> bond option \<times> nominations" where
  "shed C b = (if length (noms b) = max_bottom_nominations_per_candidate C
               then (Some (last (noms b)), initial b) else (None, b))"

definition admit ::
  "'w config \<Rightarrow> bond \<Rightarrow> nominations \<Rightarrow> nominations \<Rightarrow>
     (nominations \<times> nominations \<times> bond option) option" where
  "admit C x t b =
     (if length (noms t) < max_top_nominations_per_candidate C then Some (join_in x t, b, None)
      else let (kicked, b1) = shed C b in
           if amount (last (noms t)) < amount x
           then Some (join_in x (initial t), join_in (last (noms t)) b1, kicked)
           else if kicked \<noteq> None \<and> amount x \<le> amount (last (noms b)) then None
           else Some (t, join_in x b1, kicked))"

definition kick :: "'w config \<Rightarrow> account \<Rightarrow> bond option \<Rightarrow> 'w staking \<Rightarrow> staking_error + 'w staking" where
  "kick C c kicked s = (case kicked of None \<Rightarrow> Inr s | Some k \<Rightarrow> kick_nominator C c k s)"

definition after_kick :: "bond option \<Rightarrow> (account \<Rightarrow> balance option) \<Rightarrow> account \<Rightarrow> balance option" where
  "after_kick kicked stk = (case kicked of None \<Rightarrow> stk | Some k \<Rightarrow> stk(owner k := None))"

definition goes_to_top :: "'w config \<Rightarrow> bond \<Rightarrow> nominations \<Rightarrow> bool" where
  "goes_to_top C x t \<longleftrightarrow>
     length (noms t) < max_top_nominations_per_candidate C \<or> amount (last (noms t)) < amount x"

definition admitted ::
  "'w config \<Rightarrow> account \<Rightarrow> bond \<Rightarrow> nominations \<Rightarrow> nominations \<Rightarrow> candidate_metadata \<Rightarrow> 'w staking \<Rightarrow>
     staking_error + candidate_metadata \<times> nominator_added \<times> balance option \<times> 'w staking" where
  "admitted C c x t b m s =
     (case admit C x t b of
        None \<Rightarrow> Inl CannotNominateLessThanOrEqualToLowestBottomWhenFull
      | Some (t', b', kicked) \<Rightarrow>
          and_then (kick C c kicked s) (\<lambda>s1.
            Inr (refresh C t' b' m,
                 if goes_to_top C x t then AddedToTop (cm_bond m + noms_total t') else AddedToBottom,
                 map_option amount kicked, rewrite_book C c t' b' m s1)))"

section \<open>Stakes\<close>

lemma stakes_iff:
  "distinct (owners xs) \<Longrightarrow> stakes xs n = Some a \<longleftrightarrow> (\<exists>d\<in>set xs. owner d = n \<and> amount d = a)"
  unfolding stakes_def by (subst map_of_eq_Some_iff) (auto simp: comp_def)

lemma stakes_None: "stakes xs n = None \<longleftrightarrow> n \<notin> set (owners xs)"
  by (auto simp: stakes_def map_of_eq_None_iff image_image)

lemma stakes_updI:
  assumes "distinct (owners xs)" "distinct (owners ys)"
    and other: "\<And>d. owner d \<noteq> k \<Longrightarrow> d \<in> set ys \<longleftrightarrow> d \<in> set xs"
    and at: "\<And>a. v = Some a \<longleftrightarrow> (\<exists>d\<in>set ys. owner d = k \<and> amount d = a)"
  shows "stakes ys = (stakes xs)(k := v)"
proof
  fix n
  have "stakes ys n = Some a \<longleftrightarrow> ((stakes xs)(k := v)) n = Some a" for a
    using other at by (cases "n = k") (auto simp: stakes_iff [OF assms(1)] stakes_iff [OF assms(2)])
  then show "stakes ys n = ((stakes xs)(k := v)) n"
    by (metis option.exhaust)
qed

lemma stakes_remove:
  assumes "distinct (owners xs)" "distinct (owners ys)" "d \<in> set xs" "set ys = set xs - {d}"
  shows "stakes ys = (stakes xs)(owner d := None)"
proof (rule stakes_updI [OF assms(1,2)])
  have "inj_on owner (set xs)"
    using assms(1) by (simp add: distinct_map)
  then show "None = Some a \<longleftrightarrow> (\<exists>e\<in>set ys. owner e = owner d \<and> amount e = a)" for a
    using assms(3,4) inj_onD by fastforce
qed (use assms in auto)

lemma stakes_replace:
  assumes "distinct (owners xs)" "distinct (owners ys)" "d \<in> set xs" "owner e = owner d"
    and "set ys = insert e (set xs - {d})"
  shows "stakes ys = (stakes xs)(owner d \<mapsto> amount e)"
proof (rule stakes_updI [OF assms(1,2)])
  have "inj_on owner (set ys)"
    using assms(2) by (simp add: distinct_map)
  then have "f = e" if "f \<in> set ys" "owner f = owner d" for f
    using assms(4,5) that inj_onD [of owner "set ys" f e] by simp
  then show "Some (amount e) = Some a \<longleftrightarrow> (\<exists>f\<in>set ys. owner f = owner d \<and> amount f = a)" for a
    using assms(4,5) by auto
qed (use assms in auto)

lemma stakes_insert:
  assumes "distinct (owners xs)" "distinct (owners ys)" "owner e \<notin> set (owners xs)"
    and "set ys = insert e (set xs)"
  shows "stakes ys = (stakes xs)(owner e \<mapsto> amount e)"
  using assms by (intro stakes_updI) (auto simp: image_iff)

section \<open>The vectors as one ranking\<close>

lemma rankedD:
  assumes "ranked C t b"
  shows "greatest_to_least t" "greatest_to_least b" "distinct (owners t)" "distinct (owners b)"
    "x \<in> set t \<Longrightarrow> y \<in> set b \<Longrightarrow> amount y \<le> amount x"
    "x \<in> set t \<Longrightarrow> y \<in> set b \<Longrightarrow> owner x \<noteq> owner y"
    "length t \<le> max_top_nominations_per_candidate C"
    "length b \<le> max_bottom_nominations_per_candidate C"
  using assms by (auto simp: ranked_def greatest_to_least_append)

lemma rankedI:
  assumes "greatest_to_least t" "greatest_to_least b" "distinct (owners t)" "distinct (owners b)"
    and "\<And>x y. x \<in> set t \<Longrightarrow> y \<in> set b \<Longrightarrow> amount y \<le> amount x \<and> owner x \<noteq> owner y"
    and "length t \<le> max_top_nominations_per_candidate C"
    and "length b \<le> max_bottom_nominations_per_candidate C"
    and "b \<noteq> [] \<Longrightarrow> length t = max_top_nominations_per_candidate C"
  shows "ranked C t b"
proof -
  have "set (owners t) \<inter> set (owners b) = {}"
    using assms(5) by fastforce
  then show ?thesis
    using assms by (auto simp: ranked_def greatest_to_least_append)
qed

lemma ranked_add_top:
  assumes "ranked C t []" "length t < max_top_nominations_per_candidate C"
    and "owner x \<notin> set (owners t)"
  shows "ranked C (insert_first_come x t) []"
  using assms rankedD [OF assms(1)] by (intro rankedI) (auto simp: insert_first_come_sorted)

lemma ranked_add_bottom:
  assumes "ranked C t b" "length t = max_top_nominations_per_candidate C"
    and "length b < max_bottom_nominations_per_candidate C"
    and "owner x \<notin> set (owners (t @ b))" "\<forall>y\<in>set t. amount x \<le> amount y"
  shows "ranked C t (insert_first_come x b)"
  using assms rankedD [OF assms(1)]
  by (intro rankedI) (auto simp: insert_first_come_sorted image_iff)

lemma ranked_butlast: "ranked C t b \<Longrightarrow> ranked C t (butlast b)"
  by (cases b rule: rev_cases) (auto simp: ranked_def greatest_to_least_append)

text \<open>The lowest top nomination \<open>w\<close> makes room for a higher one and leads the bottom.\<close>

lemma ranked_push_down:
  assumes r: "ranked C (t @ [w]) b" and full: "length (t @ [w]) = max_top_nominations_per_candidate C"
    and room: "length b < max_bottom_nominations_per_candidate C"
    and fresh: "owner x \<notin> set (owners (t @ w # b))" and gt: "amount w \<le> amount x"
  shows "ranked C (insert_first_come x t) (insert_first_come w b)"
proof -
  note d = rankedD [OF r]
  have w: "amount w \<le> amount y" "owner w \<noteq> owner y" if "y \<in> set t" for y
    using d(1) d(3) that by (auto simp: greatest_to_least_append)
  show ?thesis
  proof (rule rankedI)
    show "greatest_to_least (insert_first_come x t)" "greatest_to_least (insert_first_come w b)"
      using d by (auto simp: greatest_to_least_append intro: insert_first_come_sorted)
    show "distinct (owners (insert_first_come x t))" "distinct (owners (insert_first_come w b))"
      using d(3,4) d(6) [of w] fresh by auto
    fix p q assume p: "p \<in> set (insert_first_come x t)" and q: "q \<in> set (insert_first_come w b)"
    have "amount q \<le> amount w"
      using q d(5) [of w q] by auto
    moreover have "amount w \<le> amount p"
      using p gt w by auto
    moreover have "owner p \<noteq> owner q"
      using p q fresh w(2) [of p] d(6) [of p q] by (auto simp: image_iff)
    ultimately show "amount q \<le> amount p \<and> owner p \<noteq> owner q"
      by simp
  qed (use full room in auto)
qed

lemma owner_filter_distinct:
  assumes "distinct (owners xs)" "d \<in> set xs"
  shows "set (filter (\<lambda>y. owner y \<noteq> owner d) xs) = set xs - {d}"
    "Suc (length (filter (\<lambda>y. owner y \<noteq> owner d) xs)) = length xs"
    "sum_amounts (filter (\<lambda>y. owner y \<noteq> owner d) xs) + amount d = sum_amounts xs"
    "filter (\<lambda>y. owner y = owner d) xs = [d]"
proof -
  obtain ys zs where xs: "xs = ys @ d # zs"
    using assms(2) by (meson split_list)
  have "owner d \<notin> set (owners ys)" "owner d \<notin> set (owners zs)"
    using assms(1) xs by auto
  then have f: "filter (\<lambda>y. owner y \<noteq> owner d) ys = ys" "filter (\<lambda>y. owner y \<noteq> owner d) zs = zs"
    "filter (\<lambda>y. owner y = owner d) ys = []" "filter (\<lambda>y. owner y = owner d) zs = []"
    by (auto simp: filter_id_conv filter_empty_conv image_iff)
  have "d \<notin> set ys" "d \<notin> set zs"
    using assms(1) xs by (auto simp: image_iff)
  then show "set (filter (\<lambda>y. owner y \<noteq> owner d) xs) = set xs - {d}"
    using f xs by auto
  show "Suc (length (filter (\<lambda>y. owner y \<noteq> owner d) xs)) = length xs"
    "sum_amounts (filter (\<lambda>y. owner y \<noteq> owner d) xs) + amount d = sum_amounts xs"
    "filter (\<lambda>y. owner y = owner d) xs = [d]"
    using f xs by auto
qed

lemma ranked_rm_top:
  assumes r: "ranked C t []" and "t' = filter P t"
  shows "ranked C t' []"
  using rankedD [OF r] assms(2)
  by (intro rankedI) (auto simp: greatest_to_least_filter distinct_map_filter
      intro: order_trans [OF length_filter_le])

lemma ranked_rm_bottom:
  assumes r: "ranked C t b"
  shows "ranked C t (filter P b)"
  using rankedD [OF r] r
  by (intro rankedI) (auto simp: greatest_to_least_filter distinct_map_filter ranked_def
      intro: order_trans [OF length_filter_le])

text \<open>The highest bottom nomination \<open>h\<close> takes the place a top nomination leaves.\<close>

lemma ranked_bump_up:
  assumes r: "ranked C t (h # b)" and t': "set t' \<subseteq> set t" "greatest_to_least t'"
    "distinct (owners t')" "Suc (length t') = length t"
  shows "ranked C (insert_first_come h t') b"
proof -
  note d = rankedD [OF r]
  have "owner h \<noteq> owner p" if "p \<in> set t'" for p
    using d(6) [of p h] that t'(1) by auto
  then have fresh: "owner h \<notin> set (owners t')"
    by (auto simp: image_iff)
  show ?thesis
  proof (rule rankedI)
    show "distinct (owners (insert_first_come h t'))"
      using fresh t'(3) by simp
    fix p q assume "p \<in> set (insert_first_come h t')" "q \<in> set b"
    then show "amount q \<le> amount p \<and> owner p \<noteq> owner q"
      using d(2) d(4) d(5) [of p q] d(6) [of p q] t'(1)
      by (auto simp: greatest_to_least_Cons image_iff)
  qed (use d t' r in \<open>auto simp: insert_first_come_sorted greatest_to_least_Cons ranked_def\<close>)
qed


section \<open>Caches\<close>

lemma refresh_simps [simp]:
  "cm_bond (refresh C t b m) = cm_bond m"
  "cm_status (refresh C t b m) = cm_status m"
  "cm_request (refresh C t b m) = cm_request m"
  "is_active (refresh C t b m) = is_active m"
  "cm_total_counted (refresh C t b m) = cm_bond m + noms_total t"
  "cm_nomination_count (refresh C t b m) = length (noms t) + length (noms b)"
  "cm_lowest_top (refresh C t b m) = lowest_nomination_amount t"
  "cm_lowest_bottom (refresh C t b m) = lowest_nomination_amount b"
  "cm_highest_bottom (refresh C t b m) = highest_nomination_amount b"
  "cm_top_capacity (refresh C t b m) = top_capacity C t"
  "cm_bottom_capacity (refresh C t b m) = bottom_capacity C b"
  "refresh C t b (refresh C t' b' m) = refresh C t b m"
  by (simp_all add: refresh_def is_active_def)

lemma book_okD:
  assumes "book_ok C m t b"
  shows "ranked C (noms t) (noms b)"
    "cm_total_counted m = cm_bond m + noms_total t"
    "cm_nomination_count m = length (noms t) + length (noms b)"
    "cm_lowest_top m = lowest_nomination_amount t"
    "cm_lowest_bottom m = lowest_nomination_amount b"
    "cm_highest_bottom m = highest_nomination_amount b"
    "cm_top_capacity m = top_capacity C t"
    "cm_bottom_capacity m = bottom_capacity C b"
    "noms_total t = sum_amounts (noms t)" "sum_amounts (noms b) \<le> noms_total b"
    "cm_bond m + sum_amounts (noms t) + sum_amounts (noms b) \<le> u128_max"
proof -
  have m: "m = refresh C t b m"
    using assms by (simp add: book_ok_def)
  show "cm_total_counted m = cm_bond m + noms_total t"
    "cm_nomination_count m = length (noms t) + length (noms b)"
    "cm_lowest_top m = lowest_nomination_amount t"
    "cm_lowest_bottom m = lowest_nomination_amount b"
    "cm_highest_bottom m = highest_nomination_amount b"
    "cm_top_capacity m = top_capacity C t"
    "cm_bottom_capacity m = bottom_capacity C b"
    by (subst m, simp)+
qed (use assms in \<open>auto simp: book_ok_def\<close>)

lemma book_ok_refresh:
  assumes "ranked C (noms t) (noms b)" "noms_total t = sum_amounts (noms t)"
    and "sum_amounts (noms b) \<le> noms_total b"
    and "cm_bond m + sum_amounts (noms t) + sum_amounts (noms b) \<le> u128_max"
  shows "book_ok C (refresh C t b m) t b"
  using assms by (simp add: book_ok_def)

lemma update_active_eq:
  "update_active C c x s = s\<lparr>candidate_pool := pool_put C c x (candidate_pool s)\<rparr>"
  by (simp add: update_active_def pool_put_def Let_def)

lemma reset_top_data_eq:
  assumes "cm_bond m + noms_total t \<le> u128_max"
  shows "reset_top_data C c t m s =
    (m\<lparr>cm_lowest_top := lowest_nomination_amount t, cm_top_capacity := top_capacity C t,
        cm_total_counted := cm_bond m + noms_total t\<rparr>,
     s\<lparr>candidate_pool := pool_after C c (is_active m) (cm_total_counted m)
         (cm_bond m + noms_total t) (candidate_pool s)\<rparr>)"
  using assms
  by (simp add: reset_top_data_def pool_after_def update_active_eq Let_def is_active_def)

lemma reset_bottom_data_simps [simp]:
  "cm_bond (reset_bottom_data C b m) = cm_bond m"
  "cm_total_counted (reset_bottom_data C b m) = cm_total_counted m"
  "is_active (reset_bottom_data C b m) = is_active m"
  by (simp_all add: reset_bottom_data_def is_active_def)

lemma candidate_metadata_eqI:
  "cm_bond m = cm_bond m' \<Longrightarrow> cm_nomination_count m = cm_nomination_count m' \<Longrightarrow>
   cm_total_counted m = cm_total_counted m' \<Longrightarrow> cm_lowest_top m = cm_lowest_top m' \<Longrightarrow>
   cm_highest_bottom m = cm_highest_bottom m' \<Longrightarrow> cm_lowest_bottom m = cm_lowest_bottom m' \<Longrightarrow>
   cm_top_capacity m = cm_top_capacity m' \<Longrightarrow> cm_bottom_capacity m = cm_bottom_capacity m' \<Longrightarrow>
   cm_request m = cm_request m' \<Longrightarrow> cm_status m = cm_status m' \<Longrightarrow>
   m = (m' :: candidate_metadata)"
  by simp

lemma top_capacity_iff:
  "top_capacity C t = Full \<longleftrightarrow> max_top_nominations_per_candidate C \<le> length (noms t)"
  "0 < max_top_nominations_per_candidate C \<Longrightarrow> top_capacity C t = Empty \<longleftrightarrow> noms t = []"
  by (auto simp: top_capacity_def)

lemma bottom_capacity_iff:
  "bottom_capacity C t = Full \<longleftrightarrow> max_bottom_nominations_per_candidate C \<le> length (noms t)"
  "0 < max_bottom_nominations_per_candidate C \<Longrightarrow> bottom_capacity C t = Empty \<longleftrightarrow> noms t = []"
  by (auto simp: bottom_capacity_def)

lemma last_owned_mem:
  assumes "distinct (owners xs)" "d \<in> set xs"
  shows "last_owned (owner d) xs = Some d"
  using owner_filter_distinct(4) [OF assms] by (simp add: last_owned_def)

lemma last_owned_None: "last_owned n xs = None \<longleftrightarrow> n \<notin> set (owners xs)"
proof -
  have "last_owned n xs = None \<longleftrightarrow> filter (\<lambda>d. owner d = n) xs = []"
    by (simp add: last_owned_def split: list.split)
  then show ?thesis
    by (auto simp: filter_empty_conv)
qed

lemma without_owner_eq:
  "length xs \<le> max_nominations \<Longrightarrow> without_owner n xs = filter (\<lambda>d. owner d \<noteq> n) xs"
  by (simp add: without_owner_def truncate_from_def order_trans [OF length_filter_le])

section \<open>Removing a nomination\<close>

lemma sat_add_mono: "a \<le> x \<Longrightarrow> a + y \<le> u128_max \<Longrightarrow> a + y \<le> sat_add x y"
  by (simp add: sat_add_def)

lemma remove_top_ok:
  assumes ok: "book_ok C m t b" and d: "d \<in> set (noms t)" and tb: "remove_top d t b = (t', b')"
  shows "book_ok C (refresh C t' b' m) t' b'"
    "book_stakes t' b' = (book_stakes t b)(owner d := None)"
proof -
  note k = book_okD [OF ok]
  note r = rankedD [OF k(1)]
  note f = owner_filter_distinct [OF r(3) d]
  let ?t1 = "filter (\<lambda>y. owner y \<noteq> owner d) (noms t)"
  have sub: "set ?t1 \<subseteq> set (noms t)" "greatest_to_least ?t1" "distinct (owners ?t1)"
    using r by (auto simp: greatest_to_least_filter distinct_map_filter)
  have ranked': "ranked C (noms t') (noms b')"
  proof (cases "noms b")
    case Nil
    then show ?thesis
      using tb k(1) ranked_rm_top [of C "noms t"] by (auto simp: remove_top_def cut_def)
  next
    case (Cons h bs)
    then show ?thesis
      using tb ranked_bump_up [OF _ sub f(2)] k(1)
      by (auto simp: remove_top_def cut_def join_in_def tail_def)
  qed
  have sums: "noms_total t' = sum_amounts (noms t')" "sum_amounts (noms b') \<le> noms_total b'"
    "sum_amounts (noms t') + sum_amounts (noms b') + amount d
       = sum_amounts (noms t) + sum_amounts (noms b)"
    using tb f(3) k(9-11)
    by (cases "noms b"; auto simp: remove_top_def cut_def join_in_def tail_def)+
  show "book_ok C (refresh C t' b' m) t' b'"
    using ranked' sums k(11) by (intro book_ok_refresh) auto
  have "d \<notin> set (noms b)"
    using r(6) [OF d, of d] by auto
  then have "set (noms t' @ noms b') = set (noms t @ noms b) - {d}"
    using tb by (cases "noms b")
      (auto simp: remove_top_def cut_def join_in_def tail_def f(1) simp del: set_filter)
  then show "book_stakes t' b' = (book_stakes t b)(owner d := None)"
    unfolding book_stakes_def using k(1) ranked' d
    by (intro stakes_remove) (auto simp: ranked_def)
qed


lemma join_in_eq:
  assumes "greatest_to_least (noms n)" "length (noms n) < max_nominations"
  shows "insert_sorted_greatest_to_least x n = join_in x n"
  using assms by (simp add: insert_sorted_eq join_in_def)

lemma rm_top_nomination_eq:
  assumes ok: "book_ok C m t b" and lim: "limits_ok C"
    and at: "top_nominations s c = Some t" "bottom_nominations s c = Some b"
    and d: "d \<in> set (noms t)" and tb: "remove_top d t b = (t', b')"
  shows "rm_top_nomination C c (owner d) m s =
    Inr (refresh C t' b' m, cm_total_counted m = cm_bond m + noms_total t',
         rewrite_book C c t' b' m s)"
proof -
  note k = book_okD [OF ok]
  note r = rankedD [OF k(1)]
  note f = owner_filter_distinct [OF r(3) d]
  note k' = book_okD [OF remove_top_ok(1) [OF ok d tb], simplified]
  have small: "length (noms t) \<le> max_nominations" "noms_total t \<le> u128_max"
    using lim r(7) k(9,11) by (auto simp: limits_ok_def)
  have cut: "t\<lparr>noms := without_owner (owner d) (noms t), noms_total := noms_total t - amount d\<rparr>
      = cut d t"
    using small by (simp add: without_owner_eq cut_def)
  have tot: "cm_bond m + noms_total t' \<le> u128_max"
    using k'(9,11) by simp
  have same: "(bottom_nominations s)(c \<mapsto> b) = bottom_nominations s"
    using at by (simp add: fun_upd_idem)
  show ?thesis
  proof (cases "noms b")
    case Nil
    then have tb': "t' = cut d t" "b' = b" and e: "bottom_capacity C b = Empty"
      using tb lim by (auto simp: remove_top_def bottom_capacity_def limits_ok_def)
    have "length (noms t) - Suc 0 = length (noms t')"
      using f(2) by (simp add: tb' cut_def)
    then show ?thesis
      using Nil e k(2-8) tot at tb' same
      by (simp add: rm_top_nomination_def last_owned_mem [OF r(3) d] cut reset_top_data_eq
          rewrite_book_def set_book_def refresh_def Let_def)
  next
    case (Cons h bs)
    have tb': "t' = join_in h (cut d t)" "b' = tail b"
      using Cons tb by (auto simp: remove_top_def)
    have "insert_sorted_greatest_to_least h (cut d t) = t'"
      unfolding tb' using r(1) f(2) small(1)
      by (intro join_in_eq) (auto simp: cut_def greatest_to_least_filter)
    moreover have "bottom_capacity C b \<noteq> Empty"
      using Cons lim by (simp add: bottom_capacity_iff limits_ok_def)
    moreover have "length (noms t) + length bs = length (noms t') + length (noms b')"
      using f(2) Cons by (simp add: tb' cut_def join_in_def tail_def)
    moreover have "b\<lparr>noms := bs, noms_total := noms_total b - amount h\<rparr> = b'"
      using Cons by (simp add: tb' tail_def)
    ultimately show ?thesis
      using Cons k(2-8) tot at
      by (simp add: rm_top_nomination_def last_owned_mem [OF r(3) d] cut reset_top_data_eq
          rewrite_book_def set_book_def refresh_def reset_bottom_data_def is_active_def Let_def)
  qed
qed


lemma remove_bottom_ok:
  assumes ok: "book_ok C m t b" and d: "d \<in> set (noms b)"
  shows "book_ok C (refresh C t (cut d b) m) t (cut d b)"
    "book_stakes t (cut d b) = (book_stakes t b)(owner d := None)"
proof -
  note k = book_okD [OF ok]
  note r = rankedD [OF k(1)]
  note f = owner_filter_distinct [OF r(4) d]
  have ranked': "ranked C (noms t) (noms (cut d b))"
    using ranked_rm_bottom [OF k(1)] by (simp add: cut_def)
  then show "book_ok C (refresh C t (cut d b) m) t (cut d b)"
    using f(3) k(9-11) by (intro book_ok_refresh) (auto simp: cut_def)
  have "d \<notin> set (noms t)"
    using r(6) [of d d] d by auto
  then have "set (noms t @ noms (cut d b)) = set (noms t @ noms b) - {d}"
    by (auto simp: cut_def f(1) simp del: set_filter)
  then show "book_stakes t (cut d b) = (book_stakes t b)(owner d := None)"
    unfolding book_stakes_def using k(1) ranked' d
    by (intro stakes_remove) (auto simp: ranked_def)
qed

lemma rm_bottom_nomination_eq:
  assumes ok: "book_ok C m t b" and lim: "limits_ok C"
    and at: "top_nominations s c = Some t" "bottom_nominations s c = Some b"
    and d: "d \<in> set (noms b)"
  shows "rm_bottom_nomination C c (owner d) m s =
    Inr (refresh C t (cut d b) m, False, rewrite_book C c t (cut d b) m s)"
proof -
  note k = book_okD [OF ok]
  note r = rankedD [OF k(1)]
  note f = owner_filter_distinct [OF r(4) d]
  have cut: "b\<lparr>noms := without_owner (owner d) (noms b), noms_total := noms_total b - amount d\<rparr>
      = cut d b"
    using r(8) lim by (simp add: without_owner_eq cut_def limits_ok_def)
  have "length (noms t) + length (noms b) - Suc 0 = length (noms t) + length (noms (cut d b))"
    using f(2) by (simp add: cut_def)
  moreover have "(top_nominations s)(c \<mapsto> t) = top_nominations s"
    using at by (simp add: fun_upd_idem)
  ultimately show ?thesis
    using k(2-8) at
    by (simp add: rm_bottom_nomination_def last_owned_mem [OF r(4) d] cut rewrite_book_def
        set_book_def pool_after_def refresh_def reset_bottom_data_def Let_def)
qed

lemma rm_top_nomination_DNE:
  "top_nominations s c = Some t \<Longrightarrow> n \<notin> set (owners (noms t)) \<Longrightarrow>
   rm_top_nomination C c n m s = Inl NominationDNE"
  using last_owned_None [of n "noms t"] by (simp add: rm_top_nomination_def)

text \<open>What the caches tell about the place of a nomination.\<close>

lemma in_top_place:
  assumes "book_ok C m t b" "d \<in> set (noms t)"
  shows "cm_lowest_top m \<le> amount d"
  using assms book_okD(4) [OF assms(1)] greatest_to_least_last [OF rankedD(1) [OF book_okD(1)]]
  by (auto simp: lowest_nomination_amount_def)

lemma in_bottom_place:
  assumes ok: "book_ok C m t b" and lim: "limits_ok C" and d: "d \<in> set (noms b)"
  shows "cm_top_capacity m = Full" "owner d \<notin> set (owners (noms t))"
    "cm_bottom_capacity m \<noteq> Empty" "amount d \<le> cm_highest_bottom m"
    "cm_highest_bottom m \<le> cm_lowest_top m" "noms t \<noteq> []"
proof -
  note k = book_okD [OF ok]
  note r = rankedD [OF k(1)]
  have ne: "noms b \<noteq> []" "length (noms t) = max_top_nominations_per_candidate C"
    using d k(1) by (auto simp: ranked_def)
  then show t: "noms t \<noteq> []"
    using lim by (auto simp: limits_ok_def)
  show "cm_top_capacity m = Full" "cm_bottom_capacity m \<noteq> Empty"
    using ne k(7,8) lim by (auto simp: top_capacity_iff bottom_capacity_iff limits_ok_def)
  show "amount d \<le> cm_highest_bottom m"
    using greatest_to_least_hd [OF r(2) d] ne k(6) by (simp add: highest_nomination_amount_def)
  show "cm_highest_bottom m \<le> cm_lowest_top m"
    using ne t k(4,6) r(5) [of "last (noms t)" "hd (noms b)"]
    by (simp add: highest_nomination_amount_def lowest_nomination_amount_def)
  have "owner e \<noteq> owner d" if "e \<in> set (noms t)" for e
    using r(6) [OF that d] .
  then show "owner d \<notin> set (owners (noms t))"
    by force
qed

lemma book_stakesE:
  assumes "book_ok C m t b" "book_stakes t b n = Some a"
  obtains d where "d \<in> set (noms t) \<or> d \<in> set (noms b)" "owner d = n" "amount d = a"
  using assms book_okD(1) [OF assms(1)]
  by (auto simp: book_stakes_def ranked_def stakes_iff)

lemma book_updateI:
  "result = Inr (refresh C t' b' m, flag, rewrite_book C c t' b' m s) \<Longrightarrow>
   book_ok C (refresh C t' b' m) t' b' \<Longrightarrow> book_stakes t' b' = (book_stakes t b)(n := v) \<Longrightarrow>
   book_update C c t b m s n v result"
  by (auto simp: book_update_def)

lemma rm_nomination_update:
  assumes ok: "book_ok C m t b" and lim: "limits_ok C"
    and at: "top_nominations s c = Some t" "bottom_nominations s c = Some b"
    and has: "book_stakes t b n = Some a"
  shows "book_update C c t b m s n None (rm_nomination_if_exists C c n a m s)"
proof -
  obtain d where d: "d \<in> set (noms t) \<or> d \<in> set (noms b)" "owner d = n" "amount d = a"
    using book_stakesE [OF ok has] by blast
  show ?thesis
  proof (cases "d \<in> set (noms t)")
    case True
    obtain t' b' where tb: "remove_top d t b = (t', b')"
      by (cases "remove_top d t b")
    have "rm_nomination_if_exists C c n a m s =
        Inr (refresh C t' b' m, cm_total_counted m = cm_bond m + noms_total t',
             rewrite_book C c t' b' m s)"
      using in_top_place [OF ok True] rm_top_nomination_eq [OF ok lim at True tb] d
      by (simp add: rm_nomination_if_exists_def Let_def)
    then show ?thesis
      using remove_top_ok [OF ok True tb] d by (intro book_updateI) simp_all
  next
    case False
    then have db: "d \<in> set (noms b)"
      using d by simp
    note p = in_bottom_place [OF ok lim db]
    have "rm_nomination_if_exists C c n a m s = rm_bottom_nomination C c n m s"
      using p d rm_top_nomination_DNE [OF at(1) p(2)]
      by (auto simp: rm_nomination_if_exists_def Let_def)
    then show ?thesis
      using rm_bottom_nomination_eq [OF ok lim at db] remove_bottom_ok [OF ok db] d
      by (intro book_updateI [where flag = False]) simp_all
  qed
qed

end
