(* ===== verification/Staking_Book_Change.thy ===== *)
theory Staking_Book_Change
  imports Staking_Book
begin

text \<open>
  Increasing and decreasing a nomination of a candidate's book (\<open>increase_nomination\<close>,
  \<open>decrease_nomination\<close> and their top and bottom variants in \<open>types.rs\<close>): the stake of the
  nominator changes by the amount asked for, in whichever vector it is, and the invariant of
  the book is kept.
\<close>

section \<open>Increasing and decreasing a nomination\<close>

lemma changed_simps [simp]: "owner (changed d f) = owner d" "amount (changed d f) = f (amount d)"
  by (simp_all add: changed_def)

lemma change_amount_props:
  fixes f :: "balance \<Rightarrow> balance"
  assumes "distinct (owners xs)" "d \<in> set xs" "length xs \<le> max_nominations"
  defines "ys \<equiv> change_amount (owner d) f xs"
  shows "set ys = insert (changed d f) (set xs - {d})" "owners ys = owners xs"
    "length ys = length xs" "sum_amounts ys + amount d = sum_amounts xs + f (amount d)"
proof -
  obtain ps qs where xs: "xs = ps @ d # qs"
    using assms(2) by (meson split_list)
  let ?g = "\<lambda>e. if owner e \<noteq> owner d then e else \<lparr>owner = owner e, amount = f (amount e)\<rparr>"
  have "owner d \<notin> set (owners ps)" "owner d \<notin> set (owners qs)"
    using assms(1) xs by auto
  then have "map ?g ps = ps" "map ?g qs = qs"
    by (auto intro!: map_idI simp: image_iff)
  then have ys: "ys = ps @ changed d f # qs"
    using assms(3) xs by (simp add: ys_def change_amount_def truncate_from_def changed_def)
  have "d \<notin> set ps" "d \<notin> set qs"
    using assms(1) xs by (auto simp: image_iff)
  then show "set ys = insert (changed d f) (set xs - {d})"
    using xs ys by auto
  show "owners ys = owners xs" "length ys = length xs"
    "sum_amounts ys + amount d = sum_amounts xs + f (amount d)"
    using xs ys by auto
qed

lemma adjust_props:
  assumes "distinct (owners (noms n))" "d \<in> set (noms n)" "length (noms n) \<le> max_nominations"
  shows "set (noms (adjust d f tot n)) = insert (changed d f) (set (noms n) - {d})"
    "distinct (owners (noms (adjust d f tot n)))"
    "length (noms (adjust d f tot n)) = length (noms n)"
    "sum_amounts (noms (adjust d f tot n)) + amount d = sum_amounts (noms n) + f (amount d)"
    "greatest_to_least (noms (adjust d f tot n))" "noms_total (adjust d f tot n) = tot"
  using change_amount_props [OF assms, of f] assms(1)
  by (simp_all add: adjust_def sort_greatest_to_least_sorted)

lemma adjust_top_ok:
  assumes ok: "book_ok C m t b" and lim: "limits_ok C" and d: "d \<in> set (noms t)"
    and above: "\<And>y. y \<in> set (noms b) \<Longrightarrow> amount y \<le> f (amount d)"
    and tot: "tot + amount d = noms_total t + f (amount d)"
    and max: "cm_bond m + sum_amounts (noms t) + sum_amounts (noms b) + f (amount d)
        \<le> u128_max + amount d"
  defines "t' \<equiv> adjust d f tot t"
  shows "book_ok C (refresh C t' b m) t' b"
    "book_stakes t' b = (book_stakes t b)(owner d \<mapsto> f (amount d))"
proof -
  note k = book_okD [OF ok]
  note r = rankedD [OF k(1)]
  have small: "length (noms t) \<le> max_nominations"
    using r(7) lim by (simp add: limits_ok_def)
  note a = adjust_props [OF r(3) d small, of f tot, folded t'_def]
  have ranked': "ranked C (noms t') (noms b)"
  proof (rule rankedI)
    fix x y assume x: "x \<in> set (noms t')" and y: "y \<in> set (noms b)"
    then show "amount y \<le> amount x \<and> owner x \<noteq> owner y"
      using a(1) above [OF y] r(5) [of x y] r(6) [of x y] r(6) [OF d y] by auto
  qed (use a r k(1) in \<open>auto simp: ranked_def\<close>)
  show "book_ok C (refresh C t' b m) t' b"
    using ranked' a(4,6) k(9,10) tot max by (intro book_ok_refresh) auto
  have "d \<notin> set (noms b)"
    using r(6) [OF d, of d] by auto
  then have "set (noms t' @ noms b) = insert (changed d f) (set (noms t @ noms b) - {d})"
    using a(1) by auto
  then have "stakes (noms t' @ noms b)
      = (stakes (noms t @ noms b))(owner d \<mapsto> amount (changed d f))"
    using ranked' k(1) d by (intro stakes_replace) (auto simp: ranked_def)
  then show "book_stakes t' b = (book_stakes t b)(owner d \<mapsto> f (amount d))"
    by (simp add: book_stakes_def)
qed

lemma adjust_bottom_ok:
  assumes ok: "book_ok C m t b" and lim: "limits_ok C" and d: "d \<in> set (noms b)"
    and below: "\<And>x. x \<in> set (noms t) \<Longrightarrow> f (amount d) \<le> amount x"
    and tot: "noms_total b + f (amount d) \<le> tot + amount d
        \<or> sum_amounts (noms b) + f (amount d) \<le> tot + amount d"
    and max: "cm_bond m + sum_amounts (noms t) + sum_amounts (noms b) + f (amount d)
        \<le> u128_max + amount d"
  defines "b' \<equiv> adjust d f tot b"
  shows "book_ok C (refresh C t b' m) t b'"
    "book_stakes t b' = (book_stakes t b)(owner d \<mapsto> f (amount d))"
proof -
  note k = book_okD [OF ok]
  note r = rankedD [OF k(1)]
  have small: "length (noms b) \<le> max_nominations"
    using r(8) lim by (simp add: limits_ok_def)
  note a = adjust_props [OF r(4) d small, of f tot, folded b'_def]
  have ranked': "ranked C (noms t) (noms b')"
  proof (rule rankedI)
    fix x y assume x: "x \<in> set (noms t)" and y: "y \<in> set (noms b')"
    then show "amount y \<le> amount x \<and> owner x \<noteq> owner y"
      using a(1) below [OF x] r(5) [of x y] r(6) [of x y] r(6) [OF x d] by auto
  qed (use a r k(1) d in \<open>auto simp: ranked_def\<close>)
  show "book_ok C (refresh C t b' m) t b'"
    using ranked' a(4,6) k(9,10) tot max by (intro book_ok_refresh) auto
  have "d \<notin> set (noms t)"
    using r(6) [of d d] d by auto
  then have "set (noms t @ noms b') = insert (changed d f) (set (noms t @ noms b) - {d})"
    using a(1) by auto
  then have "stakes (noms t @ noms b')
      = (stakes (noms t @ noms b))(owner d \<mapsto> amount (changed d f))"
    using ranked' k(1) d by (intro stakes_replace) (auto simp: ranked_def)
  then show "book_stakes t b' = (book_stakes t b)(owner d \<mapsto> f (amount d))"
    by (simp add: book_stakes_def)
qed


lemma book_small:
  assumes "book_ok C m t b" "limits_ok C"
  shows "length (noms t) \<le> max_nominations" "length (noms b) \<le> max_nominations"
    "cm_bond m + noms_total t \<le> u128_max"
  using assms(2) rankedD(7,8) [OF book_okD(1) [OF assms(1)]] book_okD(9,11) [OF assms(1)]
  by (auto simp: limits_ok_def)

lemma owner_mem: "d \<in> set xs \<Longrightarrow> owner d \<in> set (owners xs)"
  by simp

lemma store_top_eq:
  assumes "book_ok C m t b" "bottom_nominations s c = Some b"
    and "length (noms t') = length (noms t)" "cm_bond m + noms_total t' \<le> u128_max"
    and "reset_top_data C c t' m s = (m1, s1)"
  shows "m1 = refresh C t' b m"
    "s1\<lparr>top_nominations := (top_nominations s1)(c \<mapsto> t')\<rparr> = rewrite_book C c t' b m s"
proof -
  have "(bottom_nominations s)(c \<mapsto> b) = bottom_nominations s"
    using assms(2) by (simp add: fun_upd_idem)
  then show "m1 = refresh C t' b m"
    "s1\<lparr>top_nominations := (top_nominations s1)(c \<mapsto> t')\<rparr> = rewrite_book C c t' b m s"
    using assms(3-5) book_okD [OF assms(1)]
    by (auto simp: reset_top_data_eq refresh_def rewrite_book_def set_book_def)
qed

lemma increase_top_nomination_eq:
  assumes ok: "book_ok C m t b" and lim: "limits_ok C"
    and at: "top_nominations s c = Some t" "bottom_nominations s c = Some b"
    and d: "d \<in> set (noms t)" and max: "cm_bond m + noms_total t + extra \<le> u128_max"
  defines "t' \<equiv> adjust d (\<lambda>a. sat_add a extra) (noms_total t + extra) t"
  shows "increase_top_nomination C c (owner d) extra m s =
    Inr (refresh C t' b m, True, rewrite_book C c t' b m s)"
proof -
  note small = book_small [OF ok lim]
  note a = adjust_props [OF rankedD(3) [OF book_okD(1) [OF ok]] d small(1)]
  obtain m1 s1 where r: "reset_top_data C c t' m s = (m1, s1)"
    by (cases "reset_top_data C c t' m s")
  have "length (noms t') = length (noms t)" "cm_bond m + noms_total t' \<le> u128_max"
    using a max by (auto simp: t'_def)
  note st = store_top_eq [OF ok at(2) this r]
  have "sat_add (noms_total t) extra = noms_total t + extra"
    using max by simp
  then show ?thesis
    using at(1) owner_mem [OF d] r st
    by (simp add: increase_top_nomination_def adjust_def [symmetric] t'_def Let_def)
qed

lemma increase_top_nomination_DNE:
  "top_nominations s c = Some t \<Longrightarrow> n \<notin> set (owners (noms t)) \<Longrightarrow>
   increase_top_nomination C c n extra m s = Inl NominationDNE"
  by (simp add: increase_top_nomination_def)

lemma promote_ok:
  assumes ok: "book_ok C m t b" and lim: "limits_ok C" and d: "d \<in> set (noms b)"
    and e: "owner e = owner d" "amount (last (noms t)) \<le> amount e" "amount d \<le> amount e"
    and max: "cm_bond m + sum_amounts (noms t) + sum_amounts (noms b) + amount e
        \<le> u128_max + amount d"
    and tb: "promote d e t b = (t', b')"
  shows "book_ok C (refresh C t' b' m) t' b'"
    "book_stakes t' b' = (book_stakes t b)(owner d \<mapsto> amount e)"
    "length (noms t') = length (noms t)" "length (noms b') = length (noms b)"
proof -
  note k = book_okD [OF ok]
  note r = rankedD [OF k(1)]
  note f = owner_filter_distinct [OF r(4) d]
  note p = in_bottom_place [OF ok lim d]
  obtain ts w where t: "noms t = ts @ [w]"
    using p(6) by (cases "noms t" rule: rev_cases) auto
  have tb': "noms t' = insert_first_come e ts"
    "noms_total t' = sat_add (noms_total t - amount w) (amount e)"
    "noms b' = insert_first_come w (filter (\<lambda>y. owner y \<noteq> owner d) (noms b))"
    "noms_total b' = sat_add (noms_total b - amount d) (amount w)"
    using tb t by (auto simp: promote_def join_in_def initial_def cut_def)
  show len: "length (noms t') = length (noms t)" "length (noms b') = length (noms b)"
    using f(2) t by (auto simp: tb')
  have full: "length (ts @ [w]) = max_top_nominations_per_candidate C"
    using p(1) k(7) r(7) t by (simp add: top_capacity_iff)
  have "owner e \<notin> set (owners (ts @ w # filter (\<lambda>y. owner y \<noteq> owner d) (noms b)))"
    using e(1) p(2) t by auto
  then have ranked': "ranked C (noms t') (noms b')"
    unfolding tb' using full f(2) r(8) e(2) t ranked_rm_bottom [OF k(1)]
    by (intro ranked_push_down) auto
  show "book_ok C (refresh C t' b' m) t' b'"
  proof (rule book_ok_refresh [OF ranked'])
    show "noms_total t' = sum_amounts (noms t')"
      "cm_bond m + sum_amounts (noms t') + sum_amounts (noms b') \<le> u128_max"
      using f(3) k(9,11) max t by (auto simp: tb')
    have "sum_amounts (noms (cut d b)) + amount w \<le> sat_add (noms_total b - amount d) (amount w)"
      using f(3) k(10,11) t by (intro sat_add_mono) (auto simp: cut_def)
    then show "sum_amounts (noms b') \<le> noms_total b'"
      by (simp add: tb' cut_def)
  qed
  have "d \<notin> set (noms t)"
    using r(6) [of d d] d by auto
  then have "set (noms t' @ noms b') = insert e (set (noms t @ noms b) - {d})"
    using t by (auto simp: tb' f(1) simp del: set_filter)
  then show "book_stakes t' b' = (book_stakes t b)(owner d \<mapsto> amount e)"
    unfolding book_stakes_def using ranked' k(1) d e(1)
    by (intro stakes_replace) (auto simp: ranked_def)
qed


lemma store_both_eq:
  assumes "length (noms t') + length (noms b') = cm_nomination_count m"
    and "cm_bond m + noms_total t' \<le> u128_max" "reset_top_data C c t' m s = (m1, s1)"
  shows "reset_bottom_data C b' m1 = refresh C t' b' m"
    "s1\<lparr>top_nominations := (top_nominations s1)(c \<mapsto> t'),
        bottom_nominations := (bottom_nominations s1)(c \<mapsto> b')\<rparr> = rewrite_book C c t' b' m s"
  using assms
  by (auto simp: reset_top_data_eq refresh_def reset_bottom_data_def rewrite_book_def set_book_def)

lemma increase_bottom_promotes:
  assumes ok: "book_ok C m t b" and lim: "limits_ok C"
    and at: "top_nominations s c = Some t" "bottom_nominations s c = Some b"
    and d: "d \<in> set (noms b)" and gt: "cm_lowest_top m < amount d + extra"
    and max: "cm_bond m + sum_amounts (noms t) + sum_amounts (noms b) + extra \<le> u128_max"
    and tb: "promote d (changed d (\<lambda>a. sat_add a extra)) t b = (t', b')"
  shows "increase_bottom_nomination C c (owner d) (amount d) extra m s =
      Inr (refresh C t' b' m, True, rewrite_book C c t' b' m s)"
    "book_ok C (refresh C t' b' m) t' b'"
    "book_stakes t' b' = (book_stakes t b)(owner d \<mapsto> amount d + extra)"
proof -
  note k = book_okD [OF ok]
  note r = rankedD [OF k(1)]
  note p = in_bottom_place [OF ok lim d]
  note f = owner_filter_distinct [OF r(4) d]
  note small = book_small [OF ok lim]
  let ?e = "changed d (\<lambda>a. sat_add a extra)"
  have e: "sat_add (amount d) extra = amount d + extra"
    using max f(3) by simp
  have low: "amount (last (noms t)) \<le> amount ?e"
    using gt k(4) p(6) e by (simp add: lowest_nomination_amount_def)
  have "cm_bond m + sum_amounts (noms t) + sum_amounts (noms b) + amount ?e \<le> u128_max + amount d"
    using max e by simp
  from promote_ok [OF ok lim d _ low _ this tb] e
  have o: "book_ok C (refresh C t' b' m) t' b'"
    "book_stakes t' b' = (book_stakes t b)(owner d \<mapsto> amount d + extra)"
    "length (noms t') = length (noms t)" "length (noms b') = length (noms b)"
    by simp_all
  note k' = book_okD [OF o(1), simplified]
  obtain m1 s1 where rt: "reset_top_data C c t' m s = (m1, s1)"
    by (cases "reset_top_data C c t' m s")
  have "length (noms t') + length (noms b') = cm_nomination_count m"
    "cm_bond m + noms_total t' \<le> u128_max"
    using o k k'(9,11) by simp_all
  note st = store_both_eq [OF this rt]
  have tb': "t' = join_in ?e (initial t)" "b' = join_in (last (noms t)) (cut d b)"
    using tb by (auto simp: promote_def)
  obtain ts w where t: "noms t = ts @ [w]"
    using p(6) by (cases "noms t" rule: rev_cases) auto
  have top: "insert_sorted_greatest_to_least ?e (initial t) = t'"
    unfolding tb' using r(1) small t
    by (intro join_in_eq) (auto simp: initial_def greatest_to_least_append)
  have bot: "insert_sorted_greatest_to_least (last (noms t)) (cut d b) = b'"
    unfolding tb' using r(2) small f(2)
    by (intro join_in_eq) (auto simp: cut_def greatest_to_least_filter)
  show "book_ok C (refresh C t' b' m) t' b'"
    "book_stakes t' b' = (book_stakes t b)(owner d \<mapsto> amount d + extra)"
    using o by simp_all
  have eqs: "b\<lparr>noms := without_owner (owner d) (noms b), noms_total := noms_total b - amount d\<rparr>
      = cut d b"
    "t\<lparr>noms := butlast (noms t), noms_total := noms_total t - amount (last (noms t))\<rparr> = initial t"
    "\<lparr>owner = owner d, amount = amount d + extra\<rparr> = ?e"
    using small e by (simp_all add: without_owner_eq cut_def initial_def changed_def)
  show "increase_bottom_nomination C c (owner d) (amount d) extra m s =
      Inr (refresh C t' b' m, True, rewrite_book C c t' b' m s)"
    using at gt p(1,6) k(7) top bot rt st
    by (simp add: increase_bottom_nomination_def last_owned_mem [OF r(4) d] eqs e Let_def)
qed

lemma increase_bottom_stays:
  assumes ok: "book_ok C m t b" and lim: "limits_ok C"
    and at: "top_nominations s c = Some t" "bottom_nominations s c = Some b"
    and d: "d \<in> set (noms b)" and le: "amount d + extra \<le> cm_lowest_top m"
    and max: "cm_bond m + sum_amounts (noms t) + sum_amounts (noms b) + extra \<le> u128_max"
  defines "b' \<equiv> adjust d (\<lambda>a. sat_add a extra) (sat_add (noms_total b) extra) b"
  shows "increase_bottom_nomination C c (owner d) (amount d) extra m s =
      Inr (refresh C t b' m, False, rewrite_book C c t b' m s)"
    "book_ok C (refresh C t b' m) t b'"
    "book_stakes t b' = (book_stakes t b)(owner d \<mapsto> amount d + extra)"
proof -
  note k = book_okD [OF ok]
  note r = rankedD [OF k(1)]
  note p = in_bottom_place [OF ok lim d]
  note small = book_small [OF ok lim]
  note a = adjust_props [OF r(4) d small(2), of "\<lambda>a. sat_add a extra" "sat_add (noms_total b) extra",
      folded b'_def]
  have e: "sat_add (amount d) extra = amount d + extra"
    using max owner_filter_distinct(3) [OF r(4) d] by simp
  have "amount d + extra \<le> amount x" if "x \<in> set (noms t)" for x
    using in_top_place [OF ok that] le by simp
  moreover have "sum_amounts (noms b) + extra \<le> sat_add (noms_total b) extra"
    using k(10) max by (intro sat_add_mono) auto
  ultimately show "book_ok C (refresh C t b' m) t b'"
    "book_stakes t b' = (book_stakes t b)(owner d \<mapsto> amount d + extra)"
    unfolding b'_def
    using adjust_bottom_ok [OF ok lim d, of "\<lambda>a. sat_add a extra" "sat_add (noms_total b) extra"]
      e max by simp_all
  have "(top_nominations s)(c \<mapsto> t) = top_nominations s"
    using at by (simp add: fun_upd_idem)
  then show "increase_bottom_nomination C c (owner d) (amount d) extra m s =
      Inr (refresh C t b' m, False, rewrite_book C c t b' m s)"
    using at le e k(2-8) owner_mem [OF d] a(3)
    by (simp add: increase_bottom_nomination_def adjust_def [symmetric] b'_def refresh_def
        reset_bottom_data_def rewrite_book_def set_book_def pool_after_def Let_def)
qed


lemma increase_nomination_update:
  assumes ok: "book_ok C m t b" and lim: "limits_ok C"
    and at: "top_nominations s c = Some t" "bottom_nominations s c = Some b"
    and has: "book_stakes t b n = Some a"
    and max: "cm_bond m + sum_amounts (noms t) + sum_amounts (noms b) + extra \<le> u128_max"
  shows "book_update C c t b m s n (Some (a + extra)) (cm_increase_nomination C c n a extra m s)"
proof -
  note k = book_okD [OF ok]
  obtain d where d: "d \<in> set (noms t) \<or> d \<in> set (noms b)" "owner d = n" "amount d = a"
    using book_stakesE [OF ok has] by blast
  show ?thesis
  proof (cases "d \<in> set (noms t)")
    case True
    let ?f = "\<lambda>a. sat_add a extra"
    let ?t = "adjust d ?f (noms_total t + extra) t"
    have "a \<le> sum_amounts (noms t)"
      using owner_filter_distinct(3) [OF rankedD(3) [OF k(1)] True] d(3) by simp
    then have e: "sat_add a extra = a + extra"
      using max by simp
    have "amount y \<le> a + extra" if "y \<in> set (noms b)" for y
      using rankedD(5) [OF k(1) True that] d(3) by simp
    from adjust_top_ok [OF ok lim True, of ?f "noms_total t + extra"] this max e d
    have o: "book_ok C (refresh C ?t b m) ?t b" "book_stakes ?t b = (book_stakes t b)(n \<mapsto> a + extra)"
      by simp_all
    have "cm_increase_nomination C c n a extra m s =
        Inr (refresh C ?t b m, True, rewrite_book C c ?t b m s)"
      using in_top_place [OF ok True] increase_top_nomination_eq [OF ok lim at True, of extra]
        d max k(9) by (simp add: cm_increase_nomination_def Let_def)
    then show ?thesis
      using o by (intro book_updateI [where flag = True]) simp_all
  next
    case False
    then have db: "d \<in> set (noms b)"
      using d by simp
    note p = in_bottom_place [OF ok lim db]
    have eq: "cm_increase_nomination C c n a extra m s =
        increase_bottom_nomination C c n a extra m s"
      using p d increase_top_nomination_DNE [OF at(1) p(2)]
      by (auto simp: cm_increase_nomination_def Let_def)
    show ?thesis
    proof (cases "cm_lowest_top m < a + extra")
      case True
      obtain t' b' where tb: "promote d (changed d (\<lambda>a. sat_add a extra)) t b = (t', b')"
        by (cases "promote d (changed d (\<lambda>a. sat_add a extra)) t b")
      show ?thesis
        using increase_bottom_promotes [OF ok lim at db _ max tb] True d eq
        by (intro book_updateI [where flag = True]) simp_all
    next
      case False
      then show ?thesis
        using increase_bottom_stays [OF ok lim at db _ max] d eq
        by (intro book_updateI [where flag = False]) simp_all
    qed
  qed
qed

lemma demote_ok:
  assumes ok: "book_ok C m t b" and d: "d \<in> set (noms t)" and nb: "noms b \<noteq> []"
    and e: "owner e = owner d" "amount e < amount (hd (noms b))" "amount e \<le> amount d"
    and tb: "demote d e t b = (t', b')"
  shows "book_ok C (refresh C t' b' m) t' b'"
    "book_stakes t' b' = (book_stakes t b)(owner d \<mapsto> amount e)"
    "length (noms t') = length (noms t)" "length (noms b') = length (noms b)"
proof -
  note k = book_okD [OF ok]
  note r = rankedD [OF k(1)]
  note f = owner_filter_distinct [OF r(3) d]
  obtain h bs where b: "noms b = h # bs"
    using nb by (cases "noms b") auto
  let ?t1 = "filter (\<lambda>y. owner y \<noteq> owner d) (noms t)"
  have tb': "noms t' = insert_first_come h ?t1" "noms b' = insert_first_come e bs"
    "noms_total t' = sat_add (noms_total t - amount d) (amount h)"
    "noms_total b' = sat_add (noms_total b - amount h) (amount e)"
    using tb b by (auto simp: demote_def join_in_def cut_def tail_def)
  show "length (noms t') = length (noms t)" "length (noms b') = length (noms b)"
    using f(2) b by (auto simp: tb')
  have up: "ranked C (insert_first_come h ?t1) bs"
    using r k(1) f(2) b
    by (intro ranked_bump_up) (auto simp: greatest_to_least_filter distinct_map_filter)
  have "owner d \<noteq> owner y" if "y \<in> set (noms b)" for y
    using r(6) [OF d that] .
  then have fresh: "owner e \<notin> set (owners (insert_first_come h ?t1 @ bs))"
    using e(1) b by (auto simp: image_iff)
  have "amount e \<le> amount y" if "y \<in> set (insert_first_come h ?t1)" for y
    using that r(5) [of y h] e(2) b by auto
  then have ranked': "ranked C (noms t') (noms b')"
    unfolding tb' using k(1) up fresh f(2) b r(8)
    by (intro ranked_add_bottom) (auto simp: ranked_def)
  show "book_ok C (refresh C t' b' m) t' b'"
  proof (rule book_ok_refresh [OF ranked'])
    show "noms_total t' = sum_amounts (noms t')"
      "cm_bond m + sum_amounts (noms t') + sum_amounts (noms b') \<le> u128_max"
      using f(3) k(9,11) e(3) b by (auto simp: tb')
    have "sum_amounts bs + amount e \<le> sat_add (noms_total b - amount h) (amount e)"
      using k(10,11) b e by (intro sat_add_mono) auto
    then show "sum_amounts (noms b') \<le> noms_total b'"
      by (simp add: tb')
  qed
  have "d \<notin> set (noms b)"
    using r(6) [OF d, of d] by auto
  then have "set (noms t' @ noms b') = insert e (set (noms t @ noms b) - {d})"
    using b by (auto simp: tb' f(1) simp del: set_filter)
  then show "book_stakes t' b' = (book_stakes t b)(owner d \<mapsto> amount e)"
    unfolding book_stakes_def using ranked' k(1) d e(1)
    by (intro stakes_replace) (auto simp: ranked_def)
qed

lemma foldl_sub_owned:
  assumes "distinct (owners xs)" "d \<in> set xs"
  shows "foldl (\<lambda>t e. if owner e \<noteq> owner d then t else t - amount e) tot xs = tot - amount d"
proof -
  have "foldl (\<lambda>t e. if owner e \<noteq> owner d then t else t - amount e) tot xs =
      foldl (\<lambda>t e. t - amount e) tot (filter (\<lambda>e. owner e = owner d) xs)" for tot
    by (induction xs arbitrary: tot) auto
  then show ?thesis
    using owner_filter_distinct(4) [OF assms] by simp
qed

lemma decrease_top_demotes:
  assumes ok: "book_ok C m t b" and lim: "limits_ok C"
    and at: "top_nominations s c = Some t" "bottom_nominations s c = Some b"
    and d: "d \<in> set (noms t)" and nb: "noms b \<noteq> []"
    and lt: "amount d - reduction < amount (hd (noms b))"
    and tb: "demote d (changed d (\<lambda>a. a - reduction)) t b = (t', b')"
  shows "decrease_top_nomination C c (owner d) (amount d) reduction m s =
      Inr (refresh C t' b' m, False, rewrite_book C c t' b' m s)"
    "book_ok C (refresh C t' b' m) t' b'"
    "book_stakes t' b' = (book_stakes t b)(owner d \<mapsto> amount d - reduction)"
proof -
  note k = book_okD [OF ok]
  note r = rankedD [OF k(1)]
  note f = owner_filter_distinct [OF r(3) d]
  note small = book_small [OF ok lim]
  note p = in_bottom_place [OF ok lim hd_in_set [OF nb]]
  let ?e = "changed d (\<lambda>a. a - reduction)"
  note o = demote_ok [OF ok d nb _ _ _ tb, simplified, OF lt]
  show "book_ok C (refresh C t' b' m) t' b'"
    "book_stakes t' b' = (book_stakes t b)(owner d \<mapsto> amount d - reduction)"
    using o by simp_all
  note k' = book_okD [OF o(1), simplified]
  have tb': "t' = join_in (hd (noms b)) (cut d t)" "b' = join_in ?e (tail b)"
    using tb by (auto simp: demote_def)
  have top: "insert_sorted_greatest_to_least (hd (noms b)) (cut d t) = t'"
    unfolding tb' using r(1) small f(2)
    by (intro join_in_eq) (auto simp: cut_def greatest_to_least_filter)
  have "length (tl (noms b)) < max_nominations"
    using small(2) nb by (cases "noms b") auto
  then have bot: "insert_sorted_greatest_to_least ?e (tail b) = b'"
    unfolding tb' using r(2) by (intro join_in_eq) (auto simp: tail_def greatest_to_least_tl)
  have eqs: "t\<lparr>noms := without_owner (owner d) (noms t), noms_total := noms_total t - amount d\<rparr>
      = cut d t"
    "b\<lparr>noms := tl (noms b), noms_total := noms_total b - amount (hd (noms b))\<rparr> = tail b"
    "\<lparr>owner = owner d, amount = amount d - reduction\<rparr> = ?e"
    using small by (simp_all add: without_owner_eq cut_def tail_def changed_def)
  show "decrease_top_nomination C c (owner d) (amount d) reduction m s =
      Inr (refresh C t' b' m, False, rewrite_book C c t' b' m s)"
    using at lt p(1,3) nb k(2-8) k'(9,11) top bot o(3,4)
    by (simp add: decrease_top_nomination_def last_owned_mem [OF r(3) d] eqs
        foldl_sub_owned [OF r(3) d] reset_top_data_eq refresh_def reset_bottom_data_def
        rewrite_book_def set_book_def is_active_def highest_nomination_amount_def Let_def)
qed


lemma decrease_top_stays:
  assumes ok: "book_ok C m t b" and lim: "limits_ok C"
    and at: "top_nominations s c = Some t" "bottom_nominations s c = Some b"
    and d: "d \<in> set (noms t)" and red: "reduction \<le> amount d"
    and ge: "noms b \<noteq> [] \<Longrightarrow> amount (hd (noms b)) \<le> amount d - reduction"
  defines "t' \<equiv> adjust d (\<lambda>a. a - reduction) (noms_total t - reduction) t"
  shows "decrease_top_nomination C c (owner d) (amount d) reduction m s =
      Inr (refresh C t' b m, True, rewrite_book C c t' b m s)"
    "book_ok C (refresh C t' b m) t' b"
    "book_stakes t' b = (book_stakes t b)(owner d \<mapsto> amount d - reduction)"
proof -
  note k = book_okD [OF ok]
  note r = rankedD [OF k(1)]
  note f = owner_filter_distinct [OF r(3) d]
  note small = book_small [OF ok lim]
  have "amount y \<le> amount d - reduction" if "y \<in> set (noms b)" for y
    using ge greatest_to_least_hd [OF r(2) that] that by (cases "noms b") auto
  moreover have "reduction \<le> noms_total t"
    using red f(3) k(9) by simp
  ultimately show o: "book_ok C (refresh C t' b m) t' b"
    "book_stakes t' b = (book_stakes t b)(owner d \<mapsto> amount d - reduction)"
    unfolding t'_def
    using adjust_top_ok [OF ok lim d, of "\<lambda>a. a - reduction" "noms_total t - reduction"] red k(11)
    by simp_all
  have stay: "\<not> (amount d - reduction < cm_highest_bottom m \<and> cm_top_capacity m = Full
      \<and> cm_bottom_capacity m \<noteq> Empty)"
    using ge k(6,8) lim
    by (auto simp: highest_nomination_amount_def bottom_capacity_iff limits_ok_def)
  note a = adjust_props [OF r(3) d small(1)]
  obtain m1 s1 where rt: "reset_top_data C c t' m s = (m1, s1)"
    by (cases "reset_top_data C c t' m s")
  have "length (noms t') = length (noms t)" "cm_bond m + noms_total t' \<le> u128_max"
    using a small(3) by (auto simp: t'_def)
  note st = store_top_eq [OF ok at(2) this rt]
  show "decrease_top_nomination C c (owner d) (amount d) reduction m s =
      Inr (refresh C t' b m, True, rewrite_book C c t' b m s)"
    using at(1) owner_mem [OF d] rt st stay
    by (auto simp: decrease_top_nomination_def adjust_def [symmetric] t'_def Let_def)
qed

lemma decrease_bottom_nomination_eq:
  assumes ok: "book_ok C m t b" and lim: "limits_ok C"
    and at: "top_nominations s c = Some t" "bottom_nominations s c = Some b"
    and d: "d \<in> set (noms b)" and red: "reduction \<le> amount d"
  defines "b' \<equiv> adjust d (\<lambda>a. a - reduction) (noms_total b) b"
  shows "decrease_bottom_nomination C c (owner d) reduction m s =
      Inr (refresh C t b' m, False, rewrite_book C c t b' m s)"
    "book_ok C (refresh C t b' m) t b'"
    "book_stakes t b' = (book_stakes t b)(owner d \<mapsto> amount d - reduction)"
proof -
  note k = book_okD [OF ok]
  note r = rankedD [OF k(1)]
  note small = book_small [OF ok lim]
  note a = adjust_props [OF r(4) d small(2), of "\<lambda>a. a - reduction" "noms_total b", folded b'_def]
  have "amount d - reduction \<le> amount x" if "x \<in> set (noms t)" for x
    using r(5) [OF that d] by simp
  then show "book_ok C (refresh C t b' m) t b'"
    "book_stakes t b' = (book_stakes t b)(owner d \<mapsto> amount d - reduction)"
    unfolding b'_def
    using adjust_bottom_ok [OF ok lim d, of "\<lambda>a. a - reduction" "noms_total b"] red k(11)
    by simp_all
  have "(top_nominations s)(c \<mapsto> t) = top_nominations s"
    using at by (simp add: fun_upd_idem)
  moreover have "b\<lparr>noms := xs\<rparr> = b\<lparr>noms := xs, noms_total := noms_total b\<rparr>" for xs
    by simp
  ultimately show "decrease_bottom_nomination C c (owner d) reduction m s =
      Inr (refresh C t b' m, False, rewrite_book C c t b' m s)"
    using at k(2-8) owner_mem [OF d] a(3)
    by (simp add: decrease_bottom_nomination_def adjust_def b'_def refresh_def
        reset_bottom_data_def rewrite_book_def set_book_def pool_after_def Let_def)
qed

lemma decrease_top_nomination_DNE:
  assumes "top_nominations s c = Some t" "n \<notin> set (owners (noms t))"
  shows "decrease_top_nomination C c n bnd reduction m s = Inl NominationDNE"
  using assms last_owned_None [of n "noms t"]
  by (simp add: decrease_top_nomination_def Let_def)

lemma decrease_nomination_update:
  assumes ok: "book_ok C m t b" and lim: "limits_ok C"
    and at: "top_nominations s c = Some t" "bottom_nominations s c = Some b"
    and has: "book_stakes t b n = Some a" and red: "reduction \<le> a"
  shows "book_update C c t b m s n (Some (a - reduction))
    (cm_decrease_nomination C c n a reduction m s)"
proof -
  obtain d where d: "d \<in> set (noms t) \<or> d \<in> set (noms b)" "owner d = n" "amount d = a"
    using book_stakesE [OF ok has] by blast
  show ?thesis
  proof (cases "d \<in> set (noms t)")
    case dt: True
    show ?thesis
    proof (cases "noms b \<noteq> [] \<and> amount d - reduction < amount (hd (noms b))")
      case True
      obtain t' b' where tb: "demote d (changed d (\<lambda>a. a - reduction)) t b = (t', b')"
        by (cases "demote d (changed d (\<lambda>a. a - reduction)) t b")
      show ?thesis
        using decrease_top_demotes [OF ok lim at dt _ _ tb] True d in_top_place [OF ok dt]
        by (intro book_updateI [where flag = False])
          (simp_all add: cm_decrease_nomination_def Let_def)
    next
      case False
      let ?t = "adjust d (\<lambda>a. a - reduction) (noms_total t - reduction) t"
      have "noms b \<noteq> [] \<Longrightarrow> amount (hd (noms b)) \<le> amount d - reduction"
        using False by auto
      then show ?thesis
        using decrease_top_stays [OF ok lim at dt, of reduction] red d in_top_place [OF ok dt]
        by (intro book_updateI [where flag = True and t' = ?t and b' = b])
          (simp_all add: cm_decrease_nomination_def Let_def)
    qed
  next
    case False
    then have db: "d \<in> set (noms b)"
      using d by simp
    note p = in_bottom_place [OF ok lim db]
    have "cm_decrease_nomination C c n a reduction m s =
        decrease_bottom_nomination C c n reduction m s"
      using p d decrease_top_nomination_DNE [OF at(1) p(2)]
      by (auto simp: cm_decrease_nomination_def Let_def)
    then show ?thesis
      using decrease_bottom_nomination_eq [OF ok lim at db] d red
      by (intro book_updateI [where flag = False]) simp_all
  qed
qed

end
