(* ===== verification/Staking_Book_Admission.thy ===== *)
theory Staking_Book_Admission
  imports Staking_Book_Change
begin

text \<open>
  Adding a nomination to a candidate's book (\<open>add_nomination\<close>, \<open>add_top_nomination\<close>,
  \<open>add_bottom_nomination\<close> in \<open>types.rs\<close>): the code implements the admission policy \<open>admit\<close>.
\<close>

section \<open>Adding a nomination\<close>

lemma ranked_initial_bottom: "ranked C (noms t) (noms b) \<Longrightarrow> ranked C (noms t) (noms (initial b))"
  by (simp add: initial_def ranked_butlast)

lemma shed_ok:
  assumes ok: "book_ok C m t b" and lim: "limits_ok C" and sh: "shed C b = (kicked, b1)"
  shows "ranked C (noms t) (noms b1)" "length (noms b1) < max_bottom_nominations_per_candidate C"
    "sum_amounts (noms b1) \<le> noms_total b1" "sum_amounts (noms b1) \<le> sum_amounts (noms b)"
    "set (noms b1) \<subseteq> set (noms b)"
    "book_stakes t b1 = after_kick kicked (book_stakes t b)"
proof -
  note k = book_okD [OF ok]
  note r = rankedD [OF k(1)]
  show ranked': "ranked C (noms t) (noms b1)"
    using sh k(1) by (auto simp: shed_def ranked_initial_bottom split: if_splits)
  have ne: "kicked \<noteq> None \<Longrightarrow> noms b \<noteq> []"
    using sh lim by (auto simp: shed_def limits_ok_def split: if_splits)
  obtain bs w where b: "kicked \<noteq> None \<Longrightarrow> noms b = bs @ [w]"
    using ne by (cases "noms b" rule: rev_cases) auto
  show "length (noms b1) < max_bottom_nominations_per_candidate C"
    using sh r(8) lim by (auto simp: shed_def initial_def limits_ok_def split: if_splits)
  show "sum_amounts (noms b1) \<le> noms_total b1" "sum_amounts (noms b1) \<le> sum_amounts (noms b)"
    "set (noms b1) \<subseteq> set (noms b)"
    using sh b k(10) by (auto simp: shed_def initial_def split: if_splits)
  show "book_stakes t b1 = after_kick kicked (book_stakes t b)"
  proof (cases kicked)
    case None
    then show ?thesis
      using sh by (auto simp: shed_def after_kick_def split: if_splits)
  next
    case (Some w')
    then have b': "noms b = bs @ [w]" "w' = w" "noms b1 = bs"
      using b sh by (auto simp: shed_def initial_def split: if_splits)
    have "w \<notin> set (noms t)" "w \<notin> set bs"
      using r(4) r(6) [of w w] b' by (auto simp: image_iff)
    then have "stakes (noms t @ noms b1) = (stakes (noms t @ noms b))(owner w := None)"
      using ranked' k(1) b' by (intro stakes_remove) (auto simp: ranked_def)
    then show ?thesis
      using Some b' by (simp add: book_stakes_def after_kick_def)
  qed
qed

lemma admit_room:
  assumes ok: "book_ok C m t b" and new: "owner x \<notin> set (owners (noms t @ noms b))"
    and max: "cm_bond m + sum_amounts (noms t) + sum_amounts (noms b) + amount x \<le> u128_max"
    and room: "length (noms t) < max_top_nominations_per_candidate C"
  shows "book_ok C (refresh C (join_in x t) b m) (join_in x t) b"
    "book_stakes (join_in x t) b = (book_stakes t b)(owner x \<mapsto> amount x)"
proof -
  note k = book_okD [OF ok]
  have b: "noms b = []"
    using k(1) room by (auto simp: ranked_def)
  have ranked': "ranked C (noms (join_in x t)) (noms b)"
    using k(1) room new b by (simp add: join_in_def ranked_add_top)
  show "book_ok C (refresh C (join_in x t) b m) (join_in x t) b"
    using k(9-11) max b by (intro book_ok_refresh [OF ranked']) (auto simp: join_in_def)
  show "book_stakes (join_in x t) b = (book_stakes t b)(owner x \<mapsto> amount x)"
    unfolding book_stakes_def using ranked' k(1) new
    by (intro stakes_insert) (auto simp: ranked_def join_in_def)
qed

lemma admit_top:
  assumes ok: "book_ok C m t b" and lim: "limits_ok C"
    and new: "owner x \<notin> set (owners (noms t @ noms b))"
    and max: "cm_bond m + sum_amounts (noms t) + sum_amounts (noms b) + amount x \<le> u128_max"
    and full: "length (noms t) = max_top_nominations_per_candidate C"
    and sh: "shed C b = (kicked, b1)" and gt: "amount (last (noms t)) < amount x"
  defines "t' \<equiv> join_in x (initial t)" and "b' \<equiv> join_in (last (noms t)) b1"
  shows "book_ok C (refresh C t' b' m) t' b'"
    "book_stakes t' b' = (after_kick kicked (book_stakes t b))(owner x \<mapsto> amount x)"
    "length (noms t') = length (noms t)"
proof -
  note k = book_okD [OF ok]
  note h = shed_ok [OF ok lim sh]
  have "noms t \<noteq> []"
    using full lim by (auto simp: limits_ok_def)
  then obtain ts w where t: "noms t = ts @ [w]"
    by (cases "noms t" rule: rev_cases) auto
  then show "length (noms t') = length (noms t)"
    by (simp add: t'_def join_in_def initial_def)
  have new1: "owner x \<notin> set (owners (noms t @ noms b1))"
    using new h(5) by auto
  have ranked': "ranked C (noms t') (noms b')"
    using ranked_push_down [of C ts w "noms b1" x] h(1,2) full t new1 gt
    by (simp add: t'_def b'_def join_in_def initial_def)
  have sat: "sum_amounts (noms b1) + amount w \<le> sat_add (noms_total b1) (amount w)"
    using h(3,4) k(11) t by (intro sat_add_mono) auto
  show "book_ok C (refresh C t' b' m) t' b'"
    using k(9-11) max t h(4) sat
    by (intro book_ok_refresh [OF ranked']) (auto simp: t'_def b'_def join_in_def initial_def)
  have "stakes (noms t' @ noms b') = (stakes (noms t @ noms b1))(owner x \<mapsto> amount x)"
    using ranked' h(1) new1 t
    by (intro stakes_insert) (auto simp: ranked_def t'_def b'_def join_in_def initial_def)
  then show "book_stakes t' b' = (after_kick kicked (book_stakes t b))(owner x \<mapsto> amount x)"
    using h(6) by (simp add: book_stakes_def)
qed

lemma admit_bottom:
  assumes ok: "book_ok C m t b" and lim: "limits_ok C"
    and new: "owner x \<notin> set (owners (noms t @ noms b))"
    and max: "cm_bond m + sum_amounts (noms t) + sum_amounts (noms b) + amount x \<le> u128_max"
    and full: "length (noms t) = max_top_nominations_per_candidate C"
    and sh: "shed C b = (kicked, b1)" and low: "amount x \<le> amount (last (noms t))"
  defines "b' \<equiv> join_in x b1"
  shows "book_ok C (refresh C t b' m) t b'"
    "book_stakes t b' = (after_kick kicked (book_stakes t b))(owner x \<mapsto> amount x)"
proof -
  note k = book_okD [OF ok]
  note r = rankedD [OF k(1)]
  note h = shed_ok [OF ok lim sh]
  have new1: "owner x \<notin> set (owners (noms t @ noms b1))"
    using new h(5) by auto
  have "amount x \<le> amount y" if "y \<in> set (noms t)" for y
    using greatest_to_least_last [OF r(1) that] low by simp
  then have ranked': "ranked C (noms t) (noms b')"
    using ranked_add_bottom [OF h(1) full h(2) new1] by (simp add: b'_def join_in_def)
  have sat: "sum_amounts (noms b1) + amount x \<le> sat_add (noms_total b1) (amount x)"
    using h(3,4) max by (intro sat_add_mono) auto
  show "book_ok C (refresh C t b' m) t b'"
    using k(9-11) max h(4) sat
    by (intro book_ok_refresh [OF ranked']) (auto simp: b'_def join_in_def)
  have "stakes (noms t @ noms b') = (stakes (noms t @ noms b1))(owner x \<mapsto> amount x)"
    using ranked' h(1) new1 by (intro stakes_insert) (auto simp: ranked_def b'_def join_in_def)
  then show "book_stakes t b' = (after_kick kicked (book_stakes t b))(owner x \<mapsto> amount x)"
    using h(6) by (simp add: book_stakes_def)
qed

lemma admit_ok:
  assumes ok: "book_ok C m t b" and lim: "limits_ok C"
    and fresh: "book_stakes t b (owner x) = None"
    and max: "cm_bond m + sum_amounts (noms t) + sum_amounts (noms b) + amount x \<le> u128_max"
    and ad: "admit C x t b = Some (t', b', kicked)"
  shows "book_ok C (refresh C t' b' m) t' b'"
    "book_stakes t' b' = (after_kick kicked (book_stakes t b))(owner x \<mapsto> amount x)"
proof -
  have new: "owner x \<notin> set (owners (noms t @ noms b))"
    using fresh by (simp add: book_stakes_def stakes_None)
  obtain k' b1 where sh: "shed C b = (k', b1)"
    by (cases "shed C b")
  have "length (noms t) \<le> max_top_nominations_per_candidate C"
    using rankedD(7) [OF book_okD(1) [OF ok]] .
  then consider "length (noms t) < max_top_nominations_per_candidate C"
    | "length (noms t) = max_top_nominations_per_candidate C" "amount (last (noms t)) < amount x"
    | "length (noms t) = max_top_nominations_per_candidate C" "amount x \<le> amount (last (noms t))"
    by linarith
  then have "book_ok C (refresh C t' b' m) t' b' \<and>
      book_stakes t' b' = (after_kick kicked (book_stakes t b))(owner x \<mapsto> amount x)"
  proof cases
    case 1
    then show ?thesis
      using admit_room [OF ok new max 1] ad by (auto simp: admit_def after_kick_def)
  next
    case 2
    then show ?thesis
      using admit_top [OF ok lim new max 2(1) sh 2(2)] ad sh by (auto simp: admit_def)
  next
    case 3
    then show ?thesis
      using admit_bottom [OF ok lim new max 3(1) sh 3(2)] ad sh
      by (auto simp: admit_def split: if_splits)
  qed
  then show "book_ok C (refresh C t' b' m) t' b'"
    "book_stakes t' b' = (after_kick kicked (book_stakes t b))(owner x \<mapsto> amount x)"
    by simp_all
qed

text \<open>A kick touches the nominators and their requests only.\<close>

lemma adjust_bond_lock_frame:
  "adjust_bond_lock C n adj s = Inr s1 \<Longrightarrow> \<exists>w. s1 = s\<lparr>world := w\<rparr>"
  by (auto simp: adjust_bond_lock_def Let_def split: bond_adjust.splits if_splits)

lemma nominator_rm_nomination_frame:
  assumes "nominator_rm_nomination C c n s = Inr (left, n', s1)"
  shows "\<exists>w. s1 = s\<lparr>world := w\<rparr>"
proof (cases "rm_nomination_loop c (nom_nominations n) None []")
  case (Inr r)
  obtain amt xs where r: "r = (amt, xs)"
    by (cases r)
  show ?thesis
  proof (cases amt)
    case None
    then show ?thesis
      using assms Inr r by (auto simp: nominator_rm_nomination_def intro: exI [of _ "world s"])
  next
    case (Some a)
    then show ?thesis
      using assms Inr r adjust_bond_lock_frame
      by (auto simp: nominator_rm_nomination_def total_sub_def Let_def)
  qed
qed (use assms in \<open>simp add: nominator_rm_nomination_def\<close>)

lemma nomination_remove_request_frame:
  "nomination_remove_request_with_state c n st s = (st', s1) \<Longrightarrow>
     \<exists>r. s1 = s\<lparr>nomination_scheduled_requests := r\<rparr>"
  by (auto simp: nomination_remove_request_with_state_def Let_def split: option.splits
      intro: exI [of _ "nomination_scheduled_requests s"])

lemma kick_nominator_frame:
  assumes "kick_nominator C c k s = Inr s1"
  shows "s1 = s\<lparr>nominator_state := nominator_state s1,
    nomination_scheduled_requests := nomination_scheduled_requests s1, events := events s1,
    world := world s1\<rparr>"
proof -
  obtain st where st: "nominator_state s (owner k) = Some st"
    using assms by (cases "nominator_state s (owner k)") (auto simp: kick_nominator_def)
  obtain left st1 s2 where rm: "nominator_rm_nomination C c st s = Inr (left, st1, s2)"
    using assms st by (cases "nominator_rm_nomination C c st s") (auto simp: kick_nominator_def Let_def)
  obtain st2 s3 where rq: "nomination_remove_request_with_state c (owner k) st1 s2 = (st2, s3)"
    by (cases "nomination_remove_request_with_state c (owner k) st1 s2")
  show ?thesis
    using assms st rm rq nominator_rm_nomination_frame [OF rm] nomination_remove_request_frame [OF rq]
    by (auto simp: kick_nominator_def Let_def deposit_event_def split: if_splits)
qed


lemma kick_frame:
  assumes "kick C c kicked s = Inr s1"
  shows "s1 = s\<lparr>nominator_state := nominator_state s1,
    nomination_scheduled_requests := nomination_scheduled_requests s1, events := events s1,
    world := world s1\<rparr>"
  using assms kick_nominator_frame by (cases kicked) (auto simp: kick_def)

lemma kick_keeps:
  assumes "kick C c kicked s = Inr s1"
  shows "top_nominations s1 = top_nominations s" "bottom_nominations s1 = bottom_nominations s"
    "candidate_pool s1 = candidate_pool s" "candidate_info s1 = candidate_info s"
    "total s1 = total s" "era s1 = era s"
    "min_total_nominator_stake s1 = min_total_nominator_stake s"
  by (subst kick_frame [OF assms], simp)+

text \<open>One addition to the bottom vector, with the kick it may need.\<close>

lemma add_bottom_nomination_eq:
  assumes ok: "book_ok C m t b" and lim: "limits_ok C" and at: "bottom_nominations s c = Some b"
    and sh: "shed C b = (kicked, b1)"
  shows "add_bottom_nomination C bumped c x m s =
    and_then (kick C c kicked s) (\<lambda>s1.
      Inr (reset_bottom_data C (join_in x b1)
             (if kicked = None \<and> \<not> bumped
              then m\<lparr>cm_nomination_count := Suc (cm_nomination_count m)\<rparr> else m),
           s1\<lparr>bottom_nominations := (bottom_nominations s1)(c \<mapsto> join_in x b1)\<rparr>))"
proof -
  note h = shed_ok [OF ok lim sh]
  have ins: "insert_sorted_greatest_to_least x b1 = join_in x b1"
    using rankedD(2) [OF h(1)] h(2) lim by (intro join_in_eq) (auto simp: limits_ok_def)
  have cnt: "sat_add32 (cm_nomination_count m) 1 = Suc (cm_nomination_count m)"
    using book_okD(3) [OF ok] book_small [OF ok lim]
    by (simp add: sat_add32_def u32_max_def max_nominations_def)
  show ?thesis
  proof (cases kicked)
    case None
    then have "b1 = b" "length (noms b) \<noteq> max_bottom_nominations_per_candidate C"
      using sh by (auto simp: shed_def split: if_splits)
    then show ?thesis
      using None at ins cnt by (simp add: add_bottom_nomination_def kick_def Let_def)
  next
    case (Some k)
    then have k: "length (noms b) = max_bottom_nominations_per_candidate C" "k = last (noms b)"
      "b1 = initial b"
      using sh by (auto simp: shed_def split: if_splits)
    have "noms b \<noteq> []"
      using k(1) lim by (auto simp: limits_ok_def)
    moreover have "b\<lparr>noms := butlast (noms b), noms_total := noms_total b - amount k\<rparr> = b1"
      using k by (simp add: initial_def)
    ultimately show ?thesis
      using Some at ins k(1,2)
      by (cases "kick_nominator C c k s")
        (simp_all add: add_bottom_nomination_def kick_def Let_def)
  qed
qed


lemma count_exact:
  assumes "book_ok C m t b" "limits_ok C"
  shows "sat_add32 (length (noms t) + length (noms b)) (Suc 0) =
    Suc (length (noms t) + length (noms b))"
  using book_small [OF assms] by (simp add: sat_add32_def u32_max_def max_nominations_def)

lemma add_nomination_room:
  assumes ok: "book_ok C m t b" and lim: "limits_ok C"
    and at: "top_nominations s c = Some t" "bottom_nominations s c = Some b"
    and max: "cm_bond m + sum_amounts (noms t) + sum_amounts (noms b) + amount x \<le> u128_max"
    and room: "length (noms t) < max_top_nominations_per_candidate C"
  shows "cm_add_nomination C c x m s = admitted C c x t b m s"
proof -
  note k = book_okD [OF ok]
  have ins: "insert_sorted_greatest_to_least x t = join_in x t"
    using rankedD(1) [OF k(1)] room lim by (intro join_in_eq) (auto simp: limits_ok_def)
  have tot: "cm_bond m + noms_total (join_in x t) \<le> u128_max"
    using max k(9) by (simp add: join_in_def)
  have "top_capacity C t \<noteq> Full"
    using room by (simp add: top_capacity_iff)
  then have "cm_add_nomination C c x m s = and_then (add_top_nomination C c x m s)
      (\<lambda>(m', less, s'). Inr (m', AddedToTop (cm_total_counted m'), None, s'))"
    using k(7) by (cases "top_capacity C t") (simp_all add: cm_add_nomination_def)
  moreover have "(bottom_nominations s)(c \<mapsto> b) = bottom_nominations s"
    using at by (simp add: fun_upd_idem)
  ultimately show ?thesis
    using at room ins tot k(2-8) count_exact [OF ok lim]
    by (simp add: add_top_nomination_def admitted_def admit_def kick_def goes_to_top_def
        reset_top_data_eq refresh_def rewrite_book_def set_book_def join_in_def Let_def)
qed

lemma add_nomination_full_top:
  assumes ok: "book_ok C m t b" and lim: "limits_ok C"
    and at: "top_nominations s c = Some t" "bottom_nominations s c = Some b"
    and new: "owner x \<notin> set (owners (noms t @ noms b))"
    and max: "cm_bond m + sum_amounts (noms t) + sum_amounts (noms b) + amount x \<le> u128_max"
    and full: "length (noms t) = max_top_nominations_per_candidate C"
    and gt: "amount (last (noms t)) < amount x"
  shows "cm_add_nomination C c x m s = admitted C c x t b m s"
proof -
  note k = book_okD [OF ok]
  obtain kicked b1 where sh: "shed C b = (kicked, b1)"
    by (cases "shed C b")
  let ?t = "join_in x (initial t)" and ?b = "join_in (last (noms t)) b1"
  note ad = admit_top [OF ok lim new max full sh gt]
  note k' = book_okD [OF ad(1), simplified]
  have t: "noms t \<noteq> []"
    using full lim by (auto simp: limits_ok_def)
  have "length (butlast (noms t)) < max_nominations"
    using t book_small(1) [OF ok lim] by (cases "noms t") auto
  then have ins: "insert_sorted_greatest_to_least x (initial t) = ?t"
    using rankedD(1) [OF k(1)] by (intro join_in_eq) (auto simp: initial_def greatest_to_least_butlast)
  have tot: "cm_bond m + noms_total ?t \<le> u128_max"
    using k'(9,11) by simp
  have less: "(if cm_bottom_capacity m = Full then Some (cm_lowest_bottom m) else None)
      = map_option amount kicked"
    and len: "length (noms ?b) = (if kicked = None then Suc (length (noms b)) else length (noms b))"
    using sh k(5,8) rankedD(8) [OF k(1)] lim
    by (auto simp: shed_def bottom_capacity_iff lowest_nomination_amount_def join_in_def initial_def
        limits_ok_def split: if_splits)
  have cap: "cm_top_capacity m = Full"
    using k(7) full by (simp add: top_capacity_iff)
  have "cm_add_nomination C c x m s = and_then (add_top_nomination C c x m s)
      (\<lambda>(m', less, s'). Inr (m', AddedToTop (cm_total_counted m'), less, s'))"
    using cap k(4) gt t by (simp add: cm_add_nomination_def lowest_nomination_amount_def)
  also have "\<dots> = admitted C c x t b m s"
  proof (cases "kick C c kicked s")
    case (Inl e)
    then show ?thesis
      using at full t gt sh less
      by (simp add: add_top_nomination_def add_bottom_nomination_eq [OF ok lim at(2) sh]
          admitted_def admit_def Let_def)
  next
    case (Inr s1)
    have ini: "t\<lparr>noms := butlast (noms t), noms_total := noms_total t - amount (last (noms t))\<rparr>
        = initial t"
      by (simp add: initial_def)
    show ?thesis
      using at full t gt sh less Inr ins tot k(2-8) len ad(3) count_exact [OF ok lim]
        kick_keeps [OF Inr]
      by (auto simp: add_top_nomination_def add_bottom_nomination_eq [OF ok lim at(2) sh] ini
          admitted_def admit_def goes_to_top_def reset_top_data_eq refresh_def
          reset_bottom_data_def rewrite_book_def set_book_def is_active_def Let_def)
  qed
  finally show ?thesis .
qed


lemma add_nomination_full_bottom:
  assumes ok: "book_ok C m t b" and lim: "limits_ok C"
    and at: "top_nominations s c = Some t" "bottom_nominations s c = Some b"
    and full: "length (noms t) = max_top_nominations_per_candidate C"
    and low: "amount x \<le> amount (last (noms t))"
  shows "cm_add_nomination C c x m s = admitted C c x t b m s"
proof -
  note k = book_okD [OF ok]
  obtain kicked b1 where sh: "shed C b = (kicked, b1)"
    by (cases "shed C b")
  have t: "noms t \<noteq> []"
    using full lim by (auto simp: limits_ok_def)
  have cap: "cm_top_capacity m = Full"
    using k(7) full by (simp add: top_capacity_iff)
  have bcap: "cm_bottom_capacity m = Full \<longleftrightarrow> kicked \<noteq> None"
    and lb: "kicked \<noteq> None \<Longrightarrow> cm_lowest_bottom m = amount (last (noms b))"
    "map_option amount kicked = (if kicked = None then None else Some (amount (last (noms b))))"
    and len: "length (noms (join_in x b1)) =
      (if kicked = None then Suc (length (noms b)) else length (noms b))"
    using sh k(5,8) rankedD(8) [OF k(1)] lim
    by (auto simp: shed_def bottom_capacity_iff lowest_nomination_amount_def join_in_def initial_def
        limits_ok_def split: if_splits)
  show ?thesis
  proof (cases "kick C c kicked s")
    case (Inl e)
    then show ?thesis
      using cap k(4) low t sh full bcap lb
      by (cases kicked) (auto simp: cm_add_nomination_def lowest_nomination_amount_def admitted_def admit_def
          add_bottom_nomination_eq [OF ok lim at(2) sh] Let_def)
  next
    case (Inr s1)
    have "(top_nominations s1)(c \<mapsto> t) = top_nominations s1"
      using at kick_keeps(1) [OF Inr] by (simp add: fun_upd_idem)
    then show ?thesis
      using cap k(2-6) k(7) [symmetric] low t sh full bcap lb Inr len
      by (cases kicked)
        (auto simp: cm_add_nomination_def lowest_nomination_amount_def admitted_def admit_def
          add_bottom_nomination_eq [OF ok lim at(2) sh] goes_to_top_def refresh_def
          reset_bottom_data_def rewrite_book_def set_book_def pool_after_def Let_def)
  qed
qed

lemma add_nomination_eq:
  assumes "book_ok C m t b" "limits_ok C"
    and "top_nominations s c = Some t" "bottom_nominations s c = Some b"
    and fresh: "book_stakes t b (owner x) = None"
    and "cm_bond m + sum_amounts (noms t) + sum_amounts (noms b) + amount x \<le> u128_max"
  shows "cm_add_nomination C c x m s = admitted C c x t b m s"
proof -
  have "owner x \<notin> set (owners (noms t @ noms b))"
    using fresh by (simp add: book_stakes_def stakes_None)
  moreover have "length (noms t) \<le> max_top_nominations_per_candidate C"
    using rankedD(7) [OF book_okD(1) [OF assms(1)]] .
  ultimately show ?thesis
    using add_nomination_room [OF assms(1-4,6)] add_nomination_full_top [OF assms(1-4) _ assms(6)]
      add_nomination_full_bottom [OF assms(1-4)]
    by (meson le_neq_implies_less linorder_not_le)
qed

end
