(* ===== verification/Staking_Requests.thy ===== *)
theory Staking_Requests
  imports Staking_Candidate
begin

text \<open>
  The nominator's side of a nomination (\<open>Nominator::increase_nomination\<close>,
  \<open>nominator_leaves_candidate\<close>) and the scheduled requests of
  \<open>pallets/parachain-staking/src/nomination_requests.rs\<close>: revoking or decreasing a
  nomination is first scheduled, and can be executed once its era has come or cancelled
  before that.
\<close>

definition increase_nomination ::
  "'w config \<Rightarrow> account \<Rightarrow> balance \<Rightarrow> nominator \<Rightarrow> 'w staking \<Rightarrow> staking_error + 'w staking" where
  "increase_nomination C candidate amt self s =
     (case position (\<lambda>x. owner x = candidate) (nom_nominations self) of
        None \<Rightarrow> Inl NominationDNE
      | Some i \<Rightarrow>
          let x = nom_nominations self ! i;
              before_amount = amount x;
              self' = self\<lparr>nom_nominations :=
                             (nom_nominations self)[i := x\<lparr>amount := sat_add (amount x) amt\<rparr>],
                           nom_total := sat_add (nom_total self) amt\<rparr>
          in and_then (adjust_bond_lock C self' (BondIncrease amt) s) (\<lambda>s1.
             and_then (ok_or (candidate_info s1 candidate) CandidateDNE) (\<lambda>collator_state.
             and_then (cm_increase_nomination C candidate (nom_id self) before_amount amt
                         collator_state s1) (\<lambda>(collator_state', in_top, s2).
               let before_total = cm_total_counted collator_state;
                   after_total = cm_total_counted collator_state';
                   s3 = (if is_active collator_state' \<and> before_total \<noteq> after_total
                         then update_active C candidate after_total s2 else s2);
                   s4 = s3\<lparr>candidate_info := (candidate_info s3)(candidate \<mapsto> collator_state'),
                           total := sat_add (total s3) amt,
                           nominator_state := (nominator_state s3)(nom_id self \<mapsto> self')\<rparr>
               in Inr (deposit_event
                    (NominationIncreased (nom_id self) candidate amt in_top) s4)))))"

definition nominator_leaves_candidate ::
  "'w config \<Rightarrow> account \<Rightarrow> account \<Rightarrow> balance \<Rightarrow> 'w staking \<Rightarrow> staking_error + 'w staking" where
  "nominator_leaves_candidate C candidate nominator amt s =
     and_then (ok_or (candidate_info s candidate) CandidateDNE) (\<lambda>state.
     and_then (rm_nomination_if_exists C candidate nominator amt state s) (\<lambda>(state', _, s1).
       Inr (deposit_event
              (NominatorLeftCandidate nominator candidate amt (cm_total_counted state'))
              (s1\<lparr>total := total s1 - amt,
                  candidate_info := (candidate_info s1)(candidate \<mapsto> state')\<rparr>))))"

section \<open>One nomination\<close>

text \<open>
  When the candidate's list of requests is full, the push fails and the call still returns
  \<open>Ok\<close>, without having scheduled anything.
\<close>

definition nomination_schedule_revoke ::
  "'w config \<Rightarrow> account \<Rightarrow> account \<Rightarrow> 'w staking \<Rightarrow> staking_error + 'w staking" where
  "nomination_schedule_revoke C collator nominator s =
     and_then (ok_or (nominator_state s nominator) NominatorDNE) (\<lambda>state.
       let reqs = nomination_scheduled_requests s collator in
       if list_ex (\<lambda>r. req_nominator r = nominator) reqs
       then Inl PendingNominationRequestAlreadyExists
       else and_then (ok_or (get_bond_amount collator state) NominationDNE) (\<lambda>bonded_amount.
         let now = era_current (era s);
             due = sat_add32 now (delay s);
             request = \<lparr>req_nominator = nominator, req_when_executable = due,
                        req_action = Revoke bonded_amount\<rparr>
         in case try_push (max_nominations_per_nominator C) request reqs of
              Some reqs' \<Rightarrow>
                let state' = state\<lparr>nom_less_total := sat_add (nom_less_total state) bonded_amount\<rparr>
                in Inr (deposit_event (NominationRevocationScheduled now nominator collator due)
                     (s\<lparr>nomination_scheduled_requests :=
                          (nomination_scheduled_requests s)(collator := reqs'),
                        nominator_state := (nominator_state s)(nominator \<mapsto> state')\<rparr>))
            | None \<Rightarrow> Inr s))"

definition nomination_schedule_bond_decrease ::
  "'w config \<Rightarrow> account \<Rightarrow> account \<Rightarrow> balance \<Rightarrow> 'w staking \<Rightarrow> staking_error + 'w staking" where
  "nomination_schedule_bond_decrease C collator nominator decrease_amount s =
     and_then (ok_or (nominator_state s nominator) NominatorDNE) (\<lambda>state.
       let reqs = nomination_scheduled_requests s collator in
       if list_ex (\<lambda>r. req_nominator r = nominator) reqs
       then Inl PendingNominationRequestAlreadyExists
       else and_then (ok_or (get_bond_amount collator state) NominationDNE) (\<lambda>bonded_amount.
         if bonded_amount \<le> decrease_amount then Inl NominatorBondBelowMin
         else if bonded_amount - decrease_amount < min_nomination_per_collator C
         then Inl NominationBelowMin
         else let net_total = nom_total state - nom_less_total state;
                  max_subtracted_amount = net_total - min_total_nominator_stake s
              in if max_subtracted_amount < decrease_amount then Inl NominatorBondBelowMin
         else let now = era_current (era s);
                  due = sat_add32 now (delay s);
                  request = \<lparr>req_nominator = nominator, req_when_executable = due,
                             req_action = Decrease decrease_amount\<rparr>
              in case try_push (max_nominations_per_nominator C) request reqs of
                   Some reqs' \<Rightarrow>
                     let state' = state\<lparr>nom_less_total :=
                                          sat_add (nom_less_total state) decrease_amount\<rparr>
                     in Inr (deposit_event
                          (NominationDecreaseScheduled nominator collator decrease_amount due)
                          (s\<lparr>nomination_scheduled_requests :=
                               (nomination_scheduled_requests s)(collator := reqs'),
                             nominator_state := (nominator_state s)(nominator \<mapsto> state')\<rparr>))
                 | None \<Rightarrow> Inr s))"

definition nomination_cancel_request ::
  "account \<Rightarrow> account \<Rightarrow> 'w staking \<Rightarrow> staking_error + 'w staking" where
  "nomination_cancel_request collator nominator s =
     and_then (ok_or (nominator_state s nominator) NominatorDNE) (\<lambda>state.
     and_then (ok_or (cancel_request_with_state nominator state
                        (nomination_scheduled_requests s collator))
                PendingNominationRequestDNE) (\<lambda>(request, state', reqs').
       Inr (deposit_event
              (CancelledNominationRequest nominator (req_when_executable request)
                (req_action request) collator)
              (s\<lparr>nomination_scheduled_requests :=
                   (nomination_scheduled_requests s)(collator := reqs'),
                 nominator_state := (nominator_state s)(nominator \<mapsto> state')\<rparr>))))"

definition execute_revoke ::
  "'w config \<Rightarrow> account \<Rightarrow> account \<Rightarrow> nominator \<Rightarrow> scheduled_request list \<Rightarrow> nat \<Rightarrow>
     'w staking \<Rightarrow> staking_error + 'w staking" where
  "execute_revoke C collator nominator state reqs request_idx s =
     (let amt = action_amount (req_action (reqs ! request_idx));
          leaving = (length (nom_nominations state) = 1)
      in if \<not> leaving \<and> nom_total state - min_total_nominator_stake s < amt
         then Inl NominatorBondBelowMin
         else let state1 = state\<lparr>nom_less_total := nom_less_total state - amt\<rparr> in
              and_then (nominator_rm_nomination C collator state1 s) (\<lambda>(_, state2, s1).
              and_then (nominator_leaves_candidate C collator nominator amt s1) (\<lambda>s2.
                let s3 = deposit_event (NominationRevoked nominator collator amt) s2;
                    s4 = s3\<lparr>nomination_scheduled_requests :=
                              (nomination_scheduled_requests s3)
                                (collator := remove_at request_idx reqs)\<rparr>
                in if leaving
                   then Inr (deposit_event (NominatorLeft nominator amt)
                          (s4\<lparr>nominator_state := (nominator_state s4)(nominator := None)\<rparr>))
                   else Inr (s4\<lparr>nominator_state := (nominator_state s4)(nominator \<mapsto> state2)\<rparr>))))"

definition execute_decrease ::
  "'w config \<Rightarrow> account \<Rightarrow> account \<Rightarrow> nominator \<Rightarrow> scheduled_request list \<Rightarrow> nat \<Rightarrow>
     'w staking \<Rightarrow> staking_error + 'w staking" where
  "execute_decrease C collator nominator state reqs request_idx s =
     (let amt = action_amount (req_action (reqs ! request_idx)) in
      case position (\<lambda>b. owner b = collator) (nom_nominations state) of
        None \<Rightarrow> Inl NominationDNE
      | Some i \<Rightarrow>
          let b = nom_nominations state ! i in
          if amount b \<le> amt then Inl NominationBelowMin
          else let amount_before = amount b;
                   state1 = state\<lparr>nom_less_total := nom_less_total state - amt,
                                  nom_nominations :=
                                    (nom_nominations state)[i := b\<lparr>amount := amount b - amt\<rparr>]\<rparr>;
                   check = (\<lambda>new_total.
                     if new_total < min_nomination_per_collator C then Inl NominationBelowMin
                     else if new_total < min_total_nominator_stake s
                     then Inl NominatorBondBelowMin else Inr ())
               in and_then (ok_or (candidate_info s collator) CandidateDNE) (\<lambda>collator_info.
                  and_then (total_sub_if C amt check state1 s) (\<lambda>(state2, s1).
                  and_then (cm_decrease_nomination C collator nominator amount_before amt
                              collator_info s1) (\<lambda>(collator_info', in_top, s2).
                    Inr (deposit_event (NominationDecreased nominator collator amt in_top)
                      (s2\<lparr>candidate_info := (candidate_info s2)(collator \<mapsto> collator_info'),
                          total := total s2 - amt,
                          nomination_scheduled_requests :=
                            (nomination_scheduled_requests s2)
                              (collator := remove_at request_idx reqs),
                          nominator_state := (nominator_state s2)(nominator \<mapsto> state2)\<rparr>))))))"

definition nomination_execute_scheduled_request ::
  "'w config \<Rightarrow> account \<Rightarrow> account \<Rightarrow> 'w staking \<Rightarrow> staking_error + 'w staking" where
  "nomination_execute_scheduled_request C collator nominator s =
     and_then (ok_or (nominator_state s nominator) NominatorDNE) (\<lambda>state.
       let reqs = nomination_scheduled_requests s collator in
       and_then (ok_or (position (\<lambda>r. req_nominator r = nominator) reqs)
                  PendingNominationRequestDNE) (\<lambda>request_idx.
         let request = reqs ! request_idx in
         if era_current (era s) < req_when_executable request
         then Inl PendingNominationRequestNotDueYet
         else case req_action request of
                Revoke _ \<Rightarrow> execute_revoke C collator nominator state reqs request_idx s
              | Decrease _ \<Rightarrow> execute_decrease C collator nominator state reqs request_idx s))"

section \<open>All nominations of a nominator\<close>

type_synonym updated_requests = "(account \<times> scheduled_request list) list"

definition insert_requests :: "updated_requests \<Rightarrow> 'w staking \<Rightarrow> 'w staking" where
  "insert_requests updates s =
     s\<lparr>nomination_scheduled_requests :=
         fold (\<lambda>(collator, reqs) m. m(collator := reqs)) updates (nomination_scheduled_requests s)\<rparr>"

text \<open>One round of the loop of \<open>nominator_schedule_revoke_all\<close>.\<close>

definition revoke_all_step ::
  "'w config \<Rightarrow> account \<Rightarrow> era_index \<Rightarrow> 'w staking \<Rightarrow> bond \<Rightarrow>
     nominator \<times> nat \<times> updated_requests \<Rightarrow> nominator \<times> nat \<times> updated_requests" where
  "revoke_all_step C nominator due s b = (\<lambda>(state, existing_revoke_count, updates).
     (let collator = owner b;
          bonded_amount = amount b;
          reqs = nomination_scheduled_requests s collator;
          fresh = \<lparr>req_nominator = nominator, req_when_executable = due,
                   req_action = Revoke bonded_amount\<rparr>;
          (request, state1, reqs1, count1) =
            (case cancel_request_with_state nominator state reqs of
               Some (old, state', reqs') \<Rightarrow>
                 if is_revoke (req_action old)
                 then (old, state', reqs', existing_revoke_count + 1)
                 else (fresh, state', reqs', existing_revoke_count)
             | None \<Rightarrow> (fresh, state, reqs, existing_revoke_count))
      in case try_push (max_nominations_per_nominator C) request reqs1 of
           Some reqs2 \<Rightarrow>
             (state1\<lparr>nom_less_total := sat_add (nom_less_total state1) bonded_amount\<rparr>, count1,
              updates @ [(collator, reqs2)])
         | None \<Rightarrow> (state1, count1, updates)))"

definition nominator_schedule_revoke_all ::
  "'w config \<Rightarrow> account \<Rightarrow> 'w staking \<Rightarrow> staking_error + 'w staking" where
  "nominator_schedule_revoke_all C nominator s =
     and_then (ok_or (nominator_state s nominator) NominatorDNE) (\<lambda>state.
       let now = era_current (era s);
           due = sat_add32 now (delay s);
           (state', existing_revoke_count, updates) =
             fold (revoke_all_step C nominator due s) (nom_nominations state) (state, 0, [])
       in if existing_revoke_count = length (nom_nominations state')
          then Inl NominatorAlreadyLeaving
          else let s1 = insert_requests updates s
               in Inr (deposit_event (NominatorExitScheduled now nominator due)
                    (s1\<lparr>nominator_state := (nominator_state s1)(nominator \<mapsto> state')\<rparr>)))"

definition nominator_cancel_scheduled_revoke_all ::
  "account \<Rightarrow> 'w staking \<Rightarrow> staking_error + 'w staking" where
  "nominator_cancel_scheduled_revoke_all nominator s =
     and_then (ok_or (nominator_state s nominator) NominatorDNE) (\<lambda>state.
       if list_ex (\<lambda>b. \<not> list_ex (\<lambda>r. req_nominator r = nominator \<and> is_revoke (req_action r))
                        (nomination_scheduled_requests s (owner b))) (nom_nominations state)
       then Inl NominatorNotLeaving
       else let (state', updates) =
                  fold (\<lambda>b (st, ups).
                          let reqs = nomination_scheduled_requests s (owner b) in
                          case cancel_request_with_state nominator st reqs of
                            Some (_, st', reqs') \<Rightarrow> (st', ups @ [(owner b, reqs')])
                          | None \<Rightarrow> (st, ups @ [(owner b, reqs)]))
                    (nom_nominations state) (state, []);
                s1 = insert_requests updates s
            in Inr (deposit_event (NominatorExitCancelled nominator)
                 (s1\<lparr>nominator_state := (nominator_state s1)(nominator \<mapsto> state')\<rparr>)))"

text \<open>The first loop of \<open>nominator_execute_scheduled_revoke_all\<close>: every nomination has a
  revoke request that is due.\<close>

fun validate_revokes ::
  "account \<Rightarrow> 'w staking \<Rightarrow> bond list \<Rightarrow>
     staking_error + (bond \<times> scheduled_request list \<times> nat) list" where
  "validate_revokes nominator s [] = Inr []"
| "validate_revokes nominator s (b # bs) =
     (let reqs = nomination_scheduled_requests s (owner b) in
      and_then (ok_or (position (\<lambda>r. req_nominator r = nominator \<and> is_revoke (req_action r)) reqs)
                 NominatorNotLeaving) (\<lambda>i.
        if era_current (era s) < req_when_executable (reqs ! i) then Inl NominatorCannotLeaveYet
        else and_then (validate_revokes nominator s bs) (\<lambda>vs. Inr ((b, reqs, i) # vs))))"

text \<open>The second loop: an error of \<open>nominator_leaves_candidate\<close> is logged and ignored, a
  panic is not.\<close>

fun leave_all ::
  "'w config \<Rightarrow> account \<Rightarrow> (bond \<times> scheduled_request list \<times> nat) list \<Rightarrow> 'w staking \<Rightarrow>
     staking_error + updated_requests \<times> 'w staking" where
  "leave_all C nominator [] s = Inr ([], s)"
| "leave_all C nominator ((b, reqs, i) # vs) s =
     and_then (case nominator_leaves_candidate C (owner b) nominator (amount b) s of
                 Inr s' \<Rightarrow> Inr s'
               | Inl e \<Rightarrow> if e = Panic then Inl Panic else Inr s) (\<lambda>s1.
     and_then (leave_all C nominator vs s1) (\<lambda>(updates, s2).
       Inr ((owner b, remove_at i reqs) # updates, s2)))"

definition nominator_execute_scheduled_revoke_all ::
  "'w config \<Rightarrow> account \<Rightarrow> nat \<Rightarrow> 'w staking \<Rightarrow> staking_error + 'w staking" where
  "nominator_execute_scheduled_revoke_all C nominator nomination_count s =
     and_then (ok_or (nominator_state s nominator) NominatorDNE) (\<lambda>state.
       if nomination_count < length (nom_nominations state)
       then Inl TooLowNominationCountToLeaveNominators
       else and_then (validate_revokes nominator s (nom_nominations state)) (\<lambda>validated.
            and_then (leave_all C nominator validated s) (\<lambda>(updates, s1).
              let unstaked_amount = nom_total state in
              and_then (total_sub C unstaked_amount state s1) (\<lambda>(_, s2).
                let s3 = insert_requests updates s2;
                    s4 = deposit_event (NominatorLeft nominator unstaked_amount) s3
                in Inr (s4\<lparr>nominator_state := (nominator_state s4)(nominator := None)\<rparr>)))))"

end
