(* ===== verification/Staking_Calls.thy ===== *)
theory Staking_Calls
  imports Staking_Requests
begin

text \<open>
  The dispatchables of the staking pallet (\<open>lib.rs\<close>, \<open>#[pallet::call]\<close>) and the common logic
  they share with their signed variants (\<open>calls.rs\<close>, \<open>split_and_nominate\<close>,
  \<open>identify_collators_to_withdraw_from\<close>). A call takes its origin and arguments and the
  storage; \<open>Inl\<close> is the error it returns, with every write rolled back.
\<close>

section \<open>Common logic\<close>

text \<open>The state a nominator has after the checks of \<open>call_nominate\<close> on their own record.\<close>

definition nominate_nominator_state ::
  "'w config \<Rightarrow> account \<Rightarrow> account \<Rightarrow> balance \<Rightarrow> nat \<Rightarrow> 'w staking \<Rightarrow> staking_error + nominator" where
  "nominate_nominator_state C nominator candidate amt nomination_count s =
     (case nominator_state s nominator of
        Some state \<Rightarrow>
          if amt < min_nomination_per_collator C then Inl NominationBelowMin
          else if nomination_count < length (nom_nominations state)
          then Inl TooLowNominationCountToNominate
          else if max_nominations_per_nominator C \<le> length (nom_nominations state)
          then Inl ExceedMaxNominationsPerNominator
          else and_then (nominator_add_nomination \<lparr>owner = candidate, amount = amt\<rparr> state)
                 (\<lambda>(added, state'). if added then Inr state' else Inl AlreadyNominatedCandidate)
      | None \<Rightarrow>
          if amt < min_total_nominator_stake s then Inl NominatorBondBelowMin
          else if is_candidate nominator s then Inl CandidateExists
          else Inr (nominator_new nominator candidate amt))"

definition call_nominate ::
  "'w config \<Rightarrow> account \<Rightarrow> account \<Rightarrow> balance \<Rightarrow> nat \<Rightarrow> nat \<Rightarrow> 'w staking \<Rightarrow>
     staking_error + 'w staking" where
  "call_nominate C nominator candidate amt candidate_nomination_count nomination_count s =
     (if get_nominator_stakable_free_balance C nominator s < amt then Inl InsufficientBalance
      else and_then (nominate_nominator_state C nominator candidate amt nomination_count s)
        (\<lambda>nom_state.
        and_then (ok_or (candidate_info s candidate) CandidateDNE) (\<lambda>state.
          if candidate_nomination_count < cm_nomination_count state
          then Inl TooLowCandidateNominationCountToNominate
          else and_then (cm_add_nomination C candidate \<lparr>owner = nominator, amount = amt\<rparr> state s)
            (\<lambda>(state', nominator_position, less_total_staked, s1).
            and_then (adjust_bond_lock C nom_state (BondIncrease amt) s1) (\<lambda>s2.
              let net_total_increase =
                    (case less_total_staked of Some l \<Rightarrow> amt - l | None \<Rightarrow> amt)
              in Inr (deposit_event (Nomination nominator amt candidate nominator_position)
                   (s2\<lparr>total := sat_add (total s2) net_total_increase,
                       candidate_info := (candidate_info s2)(candidate \<mapsto> state'),
                       nominator_state := (nominator_state s2)(nominator \<mapsto> nom_state)\<rparr>)))))))"

definition call_bond_extra ::
  "'w config \<Rightarrow> account \<Rightarrow> account \<Rightarrow> balance \<Rightarrow> 'w staking \<Rightarrow> staking_error + 'w staking" where
  "call_bond_extra C nominator candidate additional_amount s =
     (if nomination_request_revoke_exists candidate nominator s then Inl PendingNominationRevoke
      else and_then (ok_or (nominator_state s nominator) NominatorDNE) (\<lambda>state.
             increase_nomination C candidate additional_amount state s))"

definition call_candidate_bond_extra ::
  "'w config \<Rightarrow> account \<Rightarrow> balance \<Rightarrow> 'w staking \<Rightarrow> staking_error + 'w staking" where
  "call_candidate_bond_extra C collator additional_amount s =
     and_then (ok_or (candidate_info s collator) CandidateDNE) (\<lambda>state.
     and_then (cm_bond_extra C collator additional_amount state s) (\<lambda>(state', s1).
       let s2 = s1\<lparr>candidate_info := (candidate_info s1)(collator \<mapsto> state')\<rparr>
       in Inr (if is_active state' then update_active C collator (cm_total_counted state') s2
               else s2)))"

definition call_schedule_candidate_unbond ::
  "account \<Rightarrow> balance \<Rightarrow> 'w staking \<Rightarrow> staking_error + 'w staking" where
  "call_schedule_candidate_unbond collator amount_to_decrease s =
     and_then (ok_or (candidate_info s collator) CandidateDNE) (\<lambda>state.
     and_then (schedule_unbond amount_to_decrease state s) (\<lambda>(state', due).
       Inr (deposit_event (CandidateBondLessRequested collator amount_to_decrease due)
         (s\<lparr>candidate_info := (candidate_info s)(collator \<mapsto> state')\<rparr>))))"

definition call_execute_candidate_unbond ::
  "'w config \<Rightarrow> account \<Rightarrow> 'w staking \<Rightarrow> staking_error + 'w staking" where
  "call_execute_candidate_unbond C candidate s =
     and_then (ok_or (candidate_info s candidate) CandidateDNE) (\<lambda>state.
     and_then (execute_unbond C candidate state s) (\<lambda>(state', s1).
       Inr (s1\<lparr>candidate_info := (candidate_info s1)(candidate \<mapsto> state')\<rparr>)))"

text \<open>Called from loops over the collators only, so the number of collators is not 0.\<close>

definition collator_should_get_dust :: "balance \<Rightarrow> nat \<Rightarrow> nat \<Rightarrow> 'w staking \<Rightarrow> bool" where
  "collator_should_get_dust dust number_of_collators index s =
     (if dust = 0 then False else index = block_number s mod number_of_collators)"

text \<open>The amount of the collator at \<open>index\<close> when \<open>remaining\<close> is left to distribute.\<close>

definition actual_amount ::
  "balance \<Rightarrow> balance \<Rightarrow> nat \<Rightarrow> nat \<Rightarrow> balance \<Rightarrow> 'w staking \<Rightarrow> balance" where
  "actual_amount amount_per_collator dust n index remaining s =
     min remaining
       (if collator_should_get_dust dust n index s
        then wrapping_add128 amount_per_collator dust else amount_per_collator)"

fun split_and_nominate_loop ::
  "'w config \<Rightarrow> account \<Rightarrow> balance \<Rightarrow> balance \<Rightarrow> nat \<Rightarrow> nat \<Rightarrow> nat list \<Rightarrow> balance \<Rightarrow> nat \<Rightarrow>
     'w staking \<Rightarrow> staking_error + 'w staking" where
  "split_and_nominate_loop C nominator per dust n index [] remaining nomination_count s = Inr s"
| "split_and_nominate_loop C nominator per dust n index (t # ts) remaining nomination_count s =
     and_then (ok_or (lookup C t) LookupError) (\<lambda>collator.
     and_then (ok_or (candidate_info s collator) CandidateDNE) (\<lambda>collator_state.
       let amt = actual_amount per dust n index remaining s in
       and_then (call_nominate C nominator collator amt (cm_nomination_count collator_state)
                   nomination_count s)
         (split_and_nominate_loop C nominator per dust n (Suc index) ts (remaining - amt)
            (wrapping_add32 nomination_count 1))))"

definition split_and_nominate ::
  "'w config \<Rightarrow> account \<Rightarrow> nat list \<Rightarrow> balance \<Rightarrow> 'w staking \<Rightarrow> staking_error + 'w staking" where
  "split_and_nominate C nominator targets amt s =
     (let num_collators = length targets;
          min_total_stake = wrapping_mul128 (min_total_nominator_stake s) num_collators
      in if amt < min_total_stake then Inl NominatorBondBelowMin
         else if get_nominator_stakable_free_balance C nominator s < amt
         then Inl InsufficientBalance
         else let nomination_count =
                    (case nominator_state s nominator of
                       Some st \<Rightarrow> length (nom_nominations st) | None \<Rightarrow> 0);
                  amount_per_collator = perbill_mul C 1 num_collators amt;
                  dust = amt - wrapping_mul128 amount_per_collator num_collators
              in split_and_nominate_loop C nominator amount_per_collator dust num_collators 0
                   targets amt nomination_count s)"

text \<open>The loop of \<open>identify_collators_to_withdraw_from\<close>, which stops early once nothing is
  outstanding.\<close>

fun identify_payers ::
  "'w config \<Rightarrow> balance \<Rightarrow> bond list \<Rightarrow> balance \<Rightarrow> stake_info list \<times> balance" where
  "identify_payers C target [] outstanding = ([], outstanding)"
| "identify_payers C target (b # bs) outstanding =
     (let amount_to_withdraw = min outstanding (amount b - target);
          (payers, outstanding') =
            (if amount_to_withdraw \<le> amount b
             then ([\<lparr>stake_owner = owner b,
                     free_amount = wrapping_sub128 (amount b)
                       (wrapping_add128 amount_to_withdraw (min_nomination_per_collator C)),
                     reserved_amount = amount_to_withdraw\<rparr>], outstanding - amount_to_withdraw)
             else ([], outstanding))
      in if outstanding' = 0 then (payers, outstanding')
         else let (payers', out) = identify_payers C target bs outstanding'
              in (payers @ payers', out))"

definition identify_collators_to_withdraw_from ::
  "'w config \<Rightarrow> account \<Rightarrow> balance \<Rightarrow> 'w staking \<Rightarrow> staking_error + stake_info list \<times> balance" where
  "identify_collators_to_withdraw_from C nominator total_reduction s =
     and_then (ok_or (nominator_state s nominator) NominatorDNE) (\<lambda>state.
       let net_total_bonded = nom_total state - nom_less_total state in
       if net_total_bonded < wrapping_add128 (min_total_nominator_stake s) total_reduction
       then Inl NominatorBondBelowMin
       else let target_average_amount =
                  perbill_mul C 1 (length (nom_nominations state))
                    (net_total_bonded - total_reduction)
            in if target_average_amount < min_nomination_per_collator C
               then Inl NominationBelowMin
               else Inr (identify_payers C target_average_amount (nom_nominations state)
                      total_reduction))"

definition increment_proxy_nonce :: "account \<Rightarrow> 'w staking \<Rightarrow> 'w staking" where
  "increment_proxy_nonce who s =
     s\<lparr>proxy_nonces := (proxy_nonces s)(who := (proxy_nonces s who + 1) mod 2 ^ 64)\<rparr>"

text \<open>
  The frame of every \<open>signed_*\<close> call: the sender signs the payload with their current nonce,
  the common logic runs, and the nonce moves on.
\<close>

definition signed_call ::
  "'w config \<Rightarrow> origin \<Rightarrow> signed_proof \<Rightarrow> (nat \<Rightarrow> signed_payload) \<Rightarrow> staking_error \<Rightarrow>
     (account \<Rightarrow> 'w staking \<Rightarrow> staking_error + 'w staking) \<Rightarrow> 'w staking \<Rightarrow>
     staking_error + 'w staking" where
  "signed_call C origin pf payload unauthorized body s =
     and_then (ensure_signed origin) (\<lambda>sender.
       if sender \<noteq> proof_signer pf then Inl SenderIsNotSigner
       else if \<not> verify_signature C pf (payload (proxy_nonces s sender)) then Inl unauthorized
       else and_then (body sender s) (\<lambda>s1. Inr (increment_proxy_nonce sender s1)))"

section \<open>Settings\<close>

definition set_total_selected ::
  "'w config \<Rightarrow> origin \<Rightarrow> nat \<Rightarrow> 'w staking \<Rightarrow> staking_error + 'w staking" where
  "set_total_selected C origin new s =
     and_then (ensure_root origin) (\<lambda>_.
       if new < min_selected_candidates C then Inl CannotSetBelowMin
       else let old = total_selected s in
            if old = new then Inl NoWritingSameValue
            else if era_length (era s) < new
            then Inl EraLengthMustBeAtLeastTotalSelectedCollators
            else Inr (deposit_event (TotalSelectedSet old new) (s\<lparr>total_selected := new\<rparr>)))"

definition set_blocks_per_era ::
  "'w config \<Rightarrow> origin \<Rightarrow> nat \<Rightarrow> 'w staking \<Rightarrow> staking_error + 'w staking" where
  "set_blocks_per_era C origin new s =
     and_then (ensure_root origin) (\<lambda>_.
       if new < min_blocks_per_era C then Inl CannotSetBelowMin
       else let old = era_length (era s) in
            if old = new then Inl NoWritingSameValue
            else if new < total_selected s
            then Inl EraLengthMustBeAtLeastTotalSelectedCollators
            else Inr (deposit_event
                   (BlocksPerEraSet (era_current (era s)) (era_first (era s)) old new)
                   (s\<lparr>era := (era s)\<lparr>era_length := new\<rparr>\<rparr>)))"

definition set_admin_setting ::
  "'w config \<Rightarrow> origin \<Rightarrow> admin_settings \<Rightarrow> 'w staking \<Rightarrow> staking_error + 'w staking" where
  "set_admin_setting C origin setting s =
     and_then (ensure_root origin) (\<lambda>_.
       if \<not> admin_settings_is_valid C setting then Inl AdminSettingsValueIsNotValid
       else let s1 = (case setting of
                        AdminDelay d \<Rightarrow> s\<lparr>delay := d\<rparr>
                      | AdminMinCollatorStake v \<Rightarrow> s\<lparr>min_collator_stake := v\<rparr>
                      | AdminMinTotalNominatorStake v \<Rightarrow> s\<lparr>min_total_nominator_stake := v\<rparr>)
            in Inr (deposit_event (AdminSettingsUpdated setting) s1))"

section \<open>Candidates\<close>

definition join_candidates ::
  "'w config \<Rightarrow> origin \<Rightarrow> balance \<Rightarrow> nat \<Rightarrow> 'w staking \<Rightarrow> staking_error + 'w staking" where
  "join_candidates C origin bnd candidate_count s =
     and_then (ensure_signed origin) (\<lambda>acc.
       if is_candidate acc s then Inl CandidateExists
       else if is_nominator acc s then Inl NominatorExists
       else if bnd < min_collator_stake s then Inl CandidateBondBelowMin
       else if \<not> is_registered C (world s) acc then Inl CandidateSessionKeysNotFound
       else if candidate_count < length (candidate_pool s)
       then Inl TooLowCandidateCountWeightHintJoinCandidates
       else case bounded_set_try_insert (max_candidates C) owner \<lparr>owner = acc, amount = bnd\<rparr>
                   (candidate_pool s) of
              None \<Rightarrow> Inl CandidateLimitReached
            | Some (False, _) \<Rightarrow> Inl CandidateExists
            | Some (True, candidates) \<Rightarrow>
                if get_collator_stakable_free_balance C acc s < bnd then Inl InsufficientBalance
                else let new_total = sat_add (total s) bnd
                     in Inr (deposit_event (JoinedCollatorCandidates acc bnd new_total)
                       (s\<lparr>world := set_lock C COLLATOR_LOCK_ID acc bnd (world s),
                          candidate_info :=
                            (candidate_info s)(acc \<mapsto> candidate_metadata_new bnd),
                          top_nominations := (top_nominations s)(acc \<mapsto> empty_nominations),
                          bottom_nominations := (bottom_nominations s)(acc \<mapsto> empty_nominations),
                          candidate_pool := candidates,
                          total := new_total\<rparr>)))"

definition schedule_leave_candidates ::
  "origin \<Rightarrow> nat \<Rightarrow> 'w staking \<Rightarrow> staking_error + 'w staking" where
  "schedule_leave_candidates origin candidate_count s =
     and_then (ensure_signed origin) (\<lambda>collator.
     and_then (ok_or (candidate_info s collator) CandidateDNE) (\<lambda>state.
     and_then (schedule_leave state s) (\<lambda>(state', now, due).
       if candidate_count < length (candidate_pool s)
       then Inl TooLowCandidateCountToLeaveCandidates
       else let (removed, candidates) = bounded_set_remove owner collator (candidate_pool s);
                s1 = (if removed then s\<lparr>candidate_pool := candidates\<rparr> else s)
            in Inr (deposit_event (CandidateScheduledExit now collator due)
                 (s1\<lparr>candidate_info := (candidate_info s1)(collator \<mapsto> state')\<rparr>)))))"

text \<open>The closure \<open>return_stake\<close> of \<open>execute_leave_candidates\<close>.\<close>

definition return_stake ::
  "'w config \<Rightarrow> account \<Rightarrow> bond \<Rightarrow> 'w staking \<Rightarrow> staking_error + 'w staking" where
  "return_stake C candidate b s =
     and_then (ok_or (nominator_state s (owner b)) Panic) (\<lambda>nom_state.
     and_then (nominator_rm_nomination C candidate nom_state s) (\<lambda>(remaining, nom_state1, s1).
       case remaining of
         Some left \<Rightarrow>
           let (nom_state2, s2) =
                 nomination_remove_request_with_state candidate (owner b) nom_state1 s1
           in if left = 0
              then Inr (s2\<lparr>nominator_state := (nominator_state s2)(owner b := None),
                           world := remove_lock C NOMINATOR_LOCK_ID (owner b) (world s2)\<rparr>)
              else Inr (s2\<lparr>nominator_state := (nominator_state s2)(owner b \<mapsto> nom_state2)\<rparr>)
       | None \<Rightarrow> Inr (s1\<lparr>world := remove_lock C NOMINATOR_LOCK_ID (owner b) (world s1)\<rparr>)))"

definition execute_leave_candidates ::
  "'w config \<Rightarrow> origin \<Rightarrow> account \<Rightarrow> nat \<Rightarrow> 'w staking \<Rightarrow> staking_error + 'w staking" where
  "execute_leave_candidates C origin candidate candidate_nomination_count s =
     and_then (ensure_signed origin) (\<lambda>_.
     and_then (ok_or (candidate_info s candidate) CandidateDNE) (\<lambda>state.
       if candidate_nomination_count < cm_nomination_count state
       then Inl TooLowCandidateNominationCountToLeaveCandidates
       else and_then (can_leave state s) (\<lambda>_.
            and_then (ok_or (top_nominations s candidate) Panic) (\<lambda>tops.
            and_then (try_fold (return_stake C candidate) (noms tops)
                        (s\<lparr>top_nominations := (top_nominations s)(candidate := None)\<rparr>)) (\<lambda>s1.
            and_then (ok_or (bottom_nominations s1 candidate) Panic) (\<lambda>bots.
            and_then (try_fold (return_stake C candidate) (noms bots)
                        (s1\<lparr>bottom_nominations := (bottom_nominations s1)(candidate := None)\<rparr>))
              (\<lambda>s2.
                let total_backing =
                      sat_add (sat_add (cm_bond state) (noms_total tops)) (noms_total bots);
                    new_total_staked = total s2 - total_backing
                in Inr (deposit_event (CandidateLeft candidate total_backing new_total_staked)
                     (s2\<lparr>world := remove_lock C COLLATOR_LOCK_ID candidate (world s2),
                         candidate_info := (candidate_info s2)(candidate := None),
                         nomination_scheduled_requests :=
                           (nomination_scheduled_requests s2)(candidate := []),
                         top_nominations := (top_nominations s2)(candidate := None),
                         bottom_nominations := (bottom_nominations s2)(candidate := None),
                         total := new_total_staked\<rparr>)))))))))"

definition cancel_leave_candidates ::
  "'w config \<Rightarrow> origin \<Rightarrow> nat \<Rightarrow> 'w staking \<Rightarrow> staking_error + 'w staking" where
  "cancel_leave_candidates C origin candidate_count s =
     and_then (ensure_signed origin) (\<lambda>collator.
     and_then (ok_or (candidate_info s collator) CandidateDNE) (\<lambda>state.
       if \<not> is_leaving state then Inl CandidateNotLeaving
       else let state' = cm_go_online state in
            if candidate_count < length (candidate_pool s)
            then Inl TooLowCandidateCountWeightHintCancelLeaveCandidates
            else case bounded_set_try_insert (max_candidates C) owner
                        \<lparr>owner = collator, amount = cm_total_counted state'\<rparr>
                        (candidate_pool s) of
                   None \<Rightarrow> Inl CandidateLimitReached
                 | Some (False, _) \<Rightarrow> Inl AlreadyActive
                 | Some (True, candidates) \<Rightarrow>
                     Inr (deposit_event (CancelledCandidateExit collator)
                       (s\<lparr>candidate_pool := candidates,
                          candidate_info := (candidate_info s)(collator \<mapsto> state')\<rparr>))))"

definition go_offline :: "origin \<Rightarrow> 'w staking \<Rightarrow> staking_error + 'w staking" where
  "go_offline origin s =
     and_then (ensure_signed origin) (\<lambda>collator.
     and_then (ok_or (candidate_info s collator) CandidateDNE) (\<lambda>state.
       if \<not> is_active state then Inl AlreadyOffline
       else let state' = cm_go_offline state;
                (removed, candidates) = bounded_set_remove owner collator (candidate_pool s);
                s1 = (if removed then s\<lparr>candidate_pool := candidates\<rparr> else s)
            in Inr (deposit_event (CandidateWentOffline collator)
                 (s1\<lparr>candidate_info := (candidate_info s1)(collator \<mapsto> state')\<rparr>))))"

definition go_online :: "'w config \<Rightarrow> origin \<Rightarrow> 'w staking \<Rightarrow> staking_error + 'w staking" where
  "go_online C origin s =
     and_then (ensure_signed origin) (\<lambda>collator.
     and_then (ok_or (candidate_info s collator) CandidateDNE) (\<lambda>state.
       if is_active state then Inl AlreadyActive
       else if is_leaving state then Inl CannotGoOnlineIfLeaving
       else let state' = cm_go_online state in
            case bounded_set_try_insert (max_candidates C) owner
                   \<lparr>owner = collator, amount = cm_total_counted state'\<rparr> (candidate_pool s) of
              None \<Rightarrow> Inl CandidateLimitReached
            | Some (False, _) \<Rightarrow> Inl AlreadyActive
            | Some (True, candidates) \<Rightarrow>
                Inr (deposit_event (CandidateBackOnline collator)
                  (s\<lparr>candidate_pool := candidates,
                     candidate_info := (candidate_info s)(collator \<mapsto> state')\<rparr>))))"

definition candidate_bond_extra ::
  "'w config \<Rightarrow> origin \<Rightarrow> balance \<Rightarrow> 'w staking \<Rightarrow> staking_error + 'w staking" where
  "candidate_bond_extra C origin extra s =
     and_then (ensure_signed origin) (\<lambda>collator. call_candidate_bond_extra C collator extra s)"

definition schedule_candidate_unbond ::
  "origin \<Rightarrow> balance \<Rightarrow> 'w staking \<Rightarrow> staking_error + 'w staking" where
  "schedule_candidate_unbond origin reduction s =
     and_then (ensure_signed origin) (\<lambda>collator.
       call_schedule_candidate_unbond collator reduction s)"

definition execute_candidate_unbond ::
  "'w config \<Rightarrow> origin \<Rightarrow> account \<Rightarrow> 'w staking \<Rightarrow> staking_error + 'w staking" where
  "execute_candidate_unbond C origin candidate s =
     and_then (ensure_signed origin) (\<lambda>_. call_execute_candidate_unbond C candidate s)"

definition cancel_candidate_unbond :: "origin \<Rightarrow> 'w staking \<Rightarrow> staking_error + 'w staking" where
  "cancel_candidate_unbond origin s =
     and_then (ensure_signed origin) (\<lambda>collator.
     and_then (ok_or (candidate_info s collator) CandidateDNE) (\<lambda>state.
     and_then (cancel_unbond collator state s) (\<lambda>(state', s1).
       Inr (s1\<lparr>candidate_info := (candidate_info s1)(collator \<mapsto> state')\<rparr>))))"

section \<open>Nominators\<close>

definition nominate ::
  "'w config \<Rightarrow> origin \<Rightarrow> account \<Rightarrow> balance \<Rightarrow> nat \<Rightarrow> nat \<Rightarrow> 'w staking \<Rightarrow>
     staking_error + 'w staking" where
  "nominate C origin candidate amt candidate_nomination_count nomination_count s =
     and_then (ensure_signed origin) (\<lambda>nominator.
       if \<not> is_staking_enabled C then Inl StakingNotAllowed
       else call_nominate C nominator candidate amt candidate_nomination_count nomination_count s)"

definition bond_extra ::
  "'w config \<Rightarrow> origin \<Rightarrow> account \<Rightarrow> balance \<Rightarrow> 'w staking \<Rightarrow> staking_error + 'w staking" where
  "bond_extra C origin candidate extra s =
     and_then (ensure_signed origin) (\<lambda>nominator.
       if \<not> is_staking_enabled C then Inl StakingNotAllowed
       else call_bond_extra C nominator candidate extra s)"

definition schedule_leave_nominators ::
  "'w config \<Rightarrow> origin \<Rightarrow> 'w staking \<Rightarrow> staking_error + 'w staking" where
  "schedule_leave_nominators C origin s =
     and_then (ensure_signed origin) (\<lambda>nominator. nominator_schedule_revoke_all C nominator s)"

definition execute_leave_nominators ::
  "'w config \<Rightarrow> origin \<Rightarrow> account \<Rightarrow> nat \<Rightarrow> 'w staking \<Rightarrow> staking_error + 'w staking" where
  "execute_leave_nominators C origin nominator nomination_count s =
     and_then (ensure_signed origin) (\<lambda>_.
       nominator_execute_scheduled_revoke_all C nominator nomination_count s)"

definition cancel_leave_nominators :: "origin \<Rightarrow> 'w staking \<Rightarrow> staking_error + 'w staking" where
  "cancel_leave_nominators origin s =
     and_then (ensure_signed origin) (\<lambda>nominator.
       nominator_cancel_scheduled_revoke_all nominator s)"

definition schedule_revoke_nomination ::
  "'w config \<Rightarrow> origin \<Rightarrow> account \<Rightarrow> 'w staking \<Rightarrow> staking_error + 'w staking" where
  "schedule_revoke_nomination C origin collator s =
     and_then (ensure_signed origin) (\<lambda>nominator.
       nomination_schedule_revoke C collator nominator s)"

definition schedule_nominator_unbond ::
  "'w config \<Rightarrow> origin \<Rightarrow> account \<Rightarrow> balance \<Rightarrow> 'w staking \<Rightarrow> staking_error + 'w staking" where
  "schedule_nominator_unbond C origin candidate reduction s =
     and_then (ensure_signed origin) (\<lambda>nominator.
       nomination_schedule_bond_decrease C candidate nominator reduction s)"

definition execute_nomination_request ::
  "'w config \<Rightarrow> origin \<Rightarrow> account \<Rightarrow> account \<Rightarrow> 'w staking \<Rightarrow> staking_error + 'w staking" where
  "execute_nomination_request C origin nominator candidate s =
     and_then (ensure_signed origin) (\<lambda>_.
       nomination_execute_scheduled_request C candidate nominator s)"

definition cancel_nomination_request ::
  "origin \<Rightarrow> account \<Rightarrow> 'w staking \<Rightarrow> staking_error + 'w staking" where
  "cancel_nomination_request origin candidate s =
     and_then (ensure_signed origin) (\<lambda>nominator. nomination_cancel_request candidate nominator s)"

definition hotfix_remove_nomination_requests_exited_candidates ::
  "origin \<Rightarrow> account list \<Rightarrow> 'w staking \<Rightarrow> staking_error + 'w staking" where
  "hotfix_remove_nomination_requests_exited_candidates origin candidates s =
     and_then (ensure_signed origin) (\<lambda>_.
       if \<not> length candidates < 100 then Inl InsufficientBalance
       else if list_ex (\<lambda>c. candidate_info s c \<noteq> None \<or> nomination_scheduled_requests s c \<noteq> [])
                 candidates
       then Inl CandidateNotLeaving
       else Inr (s\<lparr>nomination_scheduled_requests :=
                     fold (\<lambda>c m. m(c := [])) candidates (nomination_scheduled_requests s)\<rparr>))"

section \<open>Signed calls\<close>

definition signed_candidate_bond_extra ::
  "'w config \<Rightarrow> origin \<Rightarrow> signed_proof \<Rightarrow> balance \<Rightarrow> 'w staking \<Rightarrow> staking_error + 'w staking" where
  "signed_candidate_bond_extra C origin pf extra_amount s =
     signed_call C origin pf (CandidateBondExtraPayload (proof_relayer pf) extra_amount)
       UnauthorizedSignedCandidateBondExtraTransaction
       (\<lambda>collator. call_candidate_bond_extra C collator extra_amount) s"

definition signed_execute_candidate_unbond ::
  "'w config \<Rightarrow> origin \<Rightarrow> signed_proof \<Rightarrow> account \<Rightarrow> 'w staking \<Rightarrow> staking_error + 'w staking" where
  "signed_execute_candidate_unbond C origin pf candidate s =
     signed_call C origin pf (ExecuteCandidateUnbondPayload (proof_relayer pf) candidate)
       UnauthorizedSignedExecuteCandidateUnbondTransaction
       (\<lambda>_. call_execute_candidate_unbond C candidate) s"

definition signed_schedule_candidate_unbond ::
  "'w config \<Rightarrow> origin \<Rightarrow> signed_proof \<Rightarrow> balance \<Rightarrow> 'w staking \<Rightarrow> staking_error + 'w staking" where
  "signed_schedule_candidate_unbond C origin pf reduction s =
     signed_call C origin pf (ScheduleCandidateUnbondPayload (proof_relayer pf) reduction)
       UnauthorizedSignedCandidateUnbondTransaction
       (\<lambda>collator. call_schedule_candidate_unbond collator reduction) s"

definition signed_nominate ::
  "'w config \<Rightarrow> origin \<Rightarrow> signed_proof \<Rightarrow> nat list \<Rightarrow> balance \<Rightarrow> 'w staking \<Rightarrow>
     staking_error + 'w staking" where
  "signed_nominate C origin pf targets amt s =
     and_then (ensure_signed origin) (\<lambda>_.
       if \<not> is_staking_enabled C then Inl StakingNotAllowed
       else signed_call C origin pf (NominatePayload (proof_relayer pf) targets amt)
              UnauthorizedSignedNominateTransaction
              (\<lambda>nominator. split_and_nominate C nominator targets amt) s)"

definition signed_schedule_leave_nominators ::
  "'w config \<Rightarrow> origin \<Rightarrow> signed_proof \<Rightarrow> 'w staking \<Rightarrow> staking_error + 'w staking" where
  "signed_schedule_leave_nominators C origin pf s =
     signed_call C origin pf (ScheduleLeaveNominatorsPayload (proof_relayer pf))
       UnauthorizedSignedScheduleLeaveNominatorsTransaction
       (\<lambda>nominator. nominator_schedule_revoke_all C nominator) s"

definition signed_execute_leave_nominators ::
  "'w config \<Rightarrow> origin \<Rightarrow> signed_proof \<Rightarrow> account \<Rightarrow> 'w staking \<Rightarrow> staking_error + 'w staking" where
  "signed_execute_leave_nominators C origin pf nominator s =
     signed_call C origin pf (ExecuteLeaveNominatorsPayload (proof_relayer pf) nominator)
       UnauthorizedSignedExecuteLeaveNominatorsTransaction
       (\<lambda>_ s. case nominator_state s nominator of
                Some st \<Rightarrow> nominator_execute_scheduled_revoke_all C nominator
                             (length (nom_nominations st)) s
              | None \<Rightarrow> Inl NominatorDNE) s"

definition signed_schedule_revoke_nomination ::
  "'w config \<Rightarrow> origin \<Rightarrow> signed_proof \<Rightarrow> account \<Rightarrow> 'w staking \<Rightarrow> staking_error + 'w staking" where
  "signed_schedule_revoke_nomination C origin pf collator s =
     signed_call C origin pf (ScheduleRevokeNominationPayload (proof_relayer pf) collator)
       UnauthorizedSignedRemoveBondTransaction
       (\<lambda>nominator. nomination_schedule_revoke C collator nominator) s"

fun bond_extra_loop ::
  "'w config \<Rightarrow> account \<Rightarrow> balance \<Rightarrow> balance \<Rightarrow> nat \<Rightarrow> nat \<Rightarrow> bond list \<Rightarrow> balance \<Rightarrow>
     'w staking \<Rightarrow> staking_error + 'w staking" where
  "bond_extra_loop C nominator per dust n index [] remaining s = Inr s"
| "bond_extra_loop C nominator per dust n index (b # bs) remaining s =
     (let amt = actual_amount per dust n index remaining s in
      and_then (call_bond_extra C nominator (owner b) amt s)
        (bond_extra_loop C nominator per dust n (Suc index) bs (remaining - amt)))"

definition bond_extra_all ::
  "'w config \<Rightarrow> account \<Rightarrow> balance \<Rightarrow> 'w staking \<Rightarrow> staking_error + 'w staking" where
  "bond_extra_all C nominator extra_amount s =
     (if get_nominator_stakable_free_balance C nominator s < extra_amount
      then Inl InsufficientBalance
      else and_then (ok_or (nominator_state s nominator) NominatorDNE) (\<lambda>state.
        let num_nominations = length (nom_nominations state);
            amount_per_collator = perbill_mul C 1 num_nominations extra_amount
        in if amount_per_collator < min_nomination_per_collator C then Inl NominationBelowMin
           else let dust = extra_amount - wrapping_mul128 amount_per_collator num_nominations
                in bond_extra_loop C nominator amount_per_collator dust num_nominations 0
                     (nom_nominations state) extra_amount s))"

definition signed_bond_extra ::
  "'w config \<Rightarrow> origin \<Rightarrow> signed_proof \<Rightarrow> balance \<Rightarrow> 'w staking \<Rightarrow> staking_error + 'w staking" where
  "signed_bond_extra C origin pf extra_amount s =
     and_then (ensure_signed origin) (\<lambda>_.
       if \<not> is_staking_enabled C then Inl StakingNotAllowed
       else signed_call C origin pf (BondExtraPayload (proof_relayer pf) extra_amount)
              UnauthorizedSignedBondExtraTransaction
              (\<lambda>nominator. bond_extra_all C nominator extra_amount) s)"

fun schedule_unbond_loop ::
  "'w config \<Rightarrow> account \<Rightarrow> stake_info list \<Rightarrow> balance \<Rightarrow> 'w staking \<Rightarrow>
     staking_error + balance \<times> 'w staking" where
  "schedule_unbond_loop C nominator [] outstanding s = Inr (outstanding, s)"
| "schedule_unbond_loop C nominator (stake # stakes) outstanding s =
     (let (stake', outstanding') =
            (if outstanding \<noteq> 0
             then let m = min (free_amount stake) outstanding
                  in (stake\<lparr>reserved_amount := wrapping_add128 (reserved_amount stake) m\<rparr>,
                      outstanding - m)
             else (stake, outstanding))
      in and_then (nomination_schedule_bond_decrease C (stake_owner stake') nominator
                     (reserved_amount stake') s)
           (schedule_unbond_loop C nominator stakes outstanding'))"

definition schedule_unbond_all ::
  "'w config \<Rightarrow> account \<Rightarrow> balance \<Rightarrow> 'w staking \<Rightarrow> staking_error + 'w staking" where
  "schedule_unbond_all C nominator reduction s =
     and_then (identify_collators_to_withdraw_from C nominator reduction s)
       (\<lambda>(payers, outstanding_withdrawal).
         and_then (schedule_unbond_loop C nominator payers outstanding_withdrawal s)
           (\<lambda>(outstanding, s1).
             if outstanding \<noteq> 0 then Inl FailedToWithdrawFullAmount else Inr s1))"

definition signed_schedule_nominator_unbond ::
  "'w config \<Rightarrow> origin \<Rightarrow> signed_proof \<Rightarrow> balance \<Rightarrow> 'w staking \<Rightarrow> staking_error + 'w staking" where
  "signed_schedule_nominator_unbond C origin pf reduction s =
     signed_call C origin pf (ScheduleNominatorUnbondPayload (proof_relayer pf) reduction)
       UnauthorizedSignedUnbondTransaction
       (\<lambda>nominator. schedule_unbond_all C nominator reduction) s"

fun execute_requests_loop ::
  "'w config \<Rightarrow> account \<Rightarrow> era_index \<Rightarrow> bond list \<Rightarrow> 'w staking \<Rightarrow> staking_error + 'w staking" where
  "execute_requests_loop C nominator now [] s = Inr s"
| "execute_requests_loop C nominator now (b # bs) s =
     (let reqs = nomination_scheduled_requests s (owner b) in
      and_then (ok_or (position (\<lambda>r. req_nominator r = nominator) reqs)
                 PendingNominationRequestDNE) (\<lambda>i.
      and_then (if req_when_executable (reqs ! i) \<le> now
                then nomination_execute_scheduled_request C (owner b) nominator s
                else Inr s)
        (execute_requests_loop C nominator now bs)))"

definition signed_execute_nomination_request ::
  "'w config \<Rightarrow> origin \<Rightarrow> signed_proof \<Rightarrow> account \<Rightarrow> 'w staking \<Rightarrow> staking_error + 'w staking" where
  "signed_execute_nomination_request C origin pf nominator s =
     signed_call C origin pf (ExecuteNominationRequestPayload (proof_relayer pf) nominator)
       UnauthorizedSignedExecuteNominationRequestTransaction
       (\<lambda>_ s. and_then (ok_or (nominator_state s nominator) NominatorDNE) (\<lambda>state.
                execute_requests_loop C nominator (era_current (era s)) (nom_nominations state) s)) s"

end
