(* ===== verification/Staking_Inv.thy ===== *)
theory Staking_Inv
  imports Staking_Book_Admission Staking_Calls
begin

text \<open>
  The invariant of the pallet's storage: every candidate has a book that is in order, the
  candidate pool holds exactly the active candidates with their counted stakes, every
  nominator's record is in order, nominators and candidates agree on every nomination,
  every scheduled request is about a nomination that exists, no nomination is empty, no
  account is both a nominator and a candidate, a candidate's pending unbond leaves a bond,
  and the minimum total stake is at least the minimum per collator. This theory has the invariant
  and the lemmas that carry each part of it through a storage update.
\<close>

section \<open>Definitions\<close>

definition candidates_ok :: "'w config \<Rightarrow> 'w staking \<Rightarrow> bool" where
  "candidates_ok C s \<longleftrightarrow>
     (\<forall>c m. candidate_info s c = Some m \<longrightarrow>
        (\<exists>t b. top_nominations s c = Some t \<and> bottom_nominations s c = Some b \<and>
           book_ok C m t b)) \<and>
     (\<forall>c. candidate_info s c = None \<longrightarrow>
        top_nominations s c = None \<and> bottom_nominations s c = None)"

definition pool_ok :: "'w config \<Rightarrow> 'w staking \<Rightarrow> bool" where
  "pool_ok C s \<longleftrightarrow>
     bounded_inv (max_candidates C) owner (candidate_pool s) \<and>
     (\<forall>x. x \<in> set (candidate_pool s) \<longleftrightarrow>
        (\<exists>m. candidate_info s (owner x) = Some m \<and> is_active m \<and> amount x = cm_total_counted m))"

definition nominator_ok :: "account \<Rightarrow> nominator \<Rightarrow> bool" where
  "nominator_ok n st \<longleftrightarrow>
     nom_id st = n \<and> bounded_inv max_nominations owner (nom_nominations st) \<and>
     nom_nominations st \<noteq> [] \<and> nom_total st = sum_amounts (nom_nominations st)"

definition nominators_ok :: "'w staking \<Rightarrow> bool" where
  "nominators_ok s \<longleftrightarrow> (\<forall>n st. nominator_state s n = Some st \<longrightarrow> nominator_ok n st)"

text \<open>The stake of nominator \<open>n\<close> on candidate \<open>c\<close>, in the record of either.\<close>

definition nominator_stakes :: "nominator option \<Rightarrow> account \<Rightarrow> balance option" where
  "nominator_stakes r = (case r of None \<Rightarrow> (\<lambda>_. None) | Some st \<Rightarrow> stakes (nom_nominations st))"

definition candidate_stakes ::
  "nominations option \<Rightarrow> nominations option \<Rightarrow> account \<Rightarrow> balance option" where
  "candidate_stakes t b =
     (case (t, b) of (Some t, Some b) \<Rightarrow> book_stakes t b | _ \<Rightarrow> (\<lambda>_. None))"

abbreviation nom_stake :: "'w staking \<Rightarrow> account \<Rightarrow> account \<Rightarrow> balance option" where
  "nom_stake s n \<equiv> nominator_stakes (nominator_state s n)"

abbreviation cand_stake :: "'w staking \<Rightarrow> account \<Rightarrow> account \<Rightarrow> balance option" where
  "cand_stake s c \<equiv> candidate_stakes (top_nominations s c) (bottom_nominations s c)"

definition agree :: "'w staking \<Rightarrow> bool" where
  "agree s \<longleftrightarrow> (\<forall>n c. nom_stake s n c = cand_stake s c n)"

definition request_ok :: "(account \<Rightarrow> balance option) \<Rightarrow> scheduled_request \<Rightarrow> bool" where
  "request_ok stk r \<longleftrightarrow>
     (case stk (req_nominator r) of
        None \<Rightarrow> False
      | Some a \<Rightarrow> (case req_action r of Revoke x \<Rightarrow> x = a | Decrease x \<Rightarrow> x < a))"

definition requests_ok :: "'w staking \<Rightarrow> bool" where
  "requests_ok s \<longleftrightarrow>
     (\<forall>c. distinct (map req_nominator (nomination_scheduled_requests s c)) \<and>
        (\<forall>r\<in>set (nomination_scheduled_requests s c). request_ok (cand_stake s c) r))"

definition positive :: "'w staking \<Rightarrow> bool" where
  "positive s \<longleftrightarrow> (\<forall>c n. cand_stake s c n \<noteq> Some 0)"

definition apart :: "'w staking \<Rightarrow> bool" where
  "apart s \<longleftrightarrow> (\<forall>a. candidate_info s a = None \<or> nominator_state s a = None)"

definition unbonds_ok :: "'w staking \<Rightarrow> bool" where
  "unbonds_ok s \<longleftrightarrow>
     (\<forall>c m r. candidate_info s c = Some m \<longrightarrow> cm_request m = Some r \<longrightarrow> cbl_amount r < cm_bond m)"

definition minimums_ok :: "'w config \<Rightarrow> 'w staking \<Rightarrow> bool" where
  "minimums_ok C s \<longleftrightarrow>
     0 < min_nomination_per_collator C \<and>
     min_nomination_per_collator C \<le> min_total_nominator_stake s"

definition staking_inv :: "'w config \<Rightarrow> 'w staking \<Rightarrow> bool" where
  "staking_inv C s \<longleftrightarrow>
     candidates_ok C s \<and> pool_ok C s \<and> nominators_ok s \<and> agree s \<and> requests_ok s \<and>
     positive s \<and> apart s \<and> unbonds_ok s \<and> minimums_ok C s"

text \<open>
  No sum of stakes passes the width of a balance when \<open>amt\<close> is added: the token supply is a
  \<open>u128\<close>, and stakes are locked tokens.
\<close>

definition headroom :: "balance \<Rightarrow> 'w staking \<Rightarrow> bool" where
  "headroom amt s \<longleftrightarrow> amt \<le> u128_max \<and>
     (\<forall>c m t b. candidate_info s c = Some m \<longrightarrow> top_nominations s c = Some t \<longrightarrow>
        bottom_nominations s c = Some b \<longrightarrow>
        cm_bond m + sum_amounts (noms t) + sum_amounts (noms b) + amt \<le> u128_max) \<and>
     (\<forall>n st. nominator_state s n = Some st \<longrightarrow> nom_total st + amt \<le> u128_max)"

section \<open>Reading the invariant\<close>

lemma candidates_okE:
  assumes "candidates_ok C s" "candidate_info s c = Some m"
  obtains t b where "top_nominations s c = Some t" "bottom_nominations s c = Some b"
    "book_ok C m t b"
  using assms unfolding candidates_ok_def by blast

lemma candidates_ok_None:
  assumes "candidates_ok C s" "candidate_info s c = None"
  shows "top_nominations s c = None" "bottom_nominations s c = None"
  using assms unfolding candidates_ok_def by blast+

lemma staking_invD:
  assumes "staking_inv C s"
  shows "candidates_ok C s" "pool_ok C s" "nominators_ok s" "agree s" "requests_ok s"
    "positive s" "apart s" "unbonds_ok s" "minimums_ok C s"
  using assms by (auto simp: staking_inv_def)

lemma candidate_stakes_simps [simp]:
  "candidate_stakes (Some t) (Some b) = book_stakes t b"
  "candidate_stakes None x = (\<lambda>_. None)" "candidate_stakes y None = (\<lambda>_. None)"
  by (auto simp: candidate_stakes_def split: option.splits)

lemma nominator_stakes_simps [simp]:
  "nominator_stakes None = (\<lambda>_. None)"
  "nominator_stakes (Some st) = stakes (nom_nominations st)"
  by (simp_all add: nominator_stakes_def)

section \<open>Carrying the parts through an update\<close>

text \<open>The invariant does not look at the other fields of the storage.\<close>

lemma staking_inv_cong:
  assumes "candidate_info s' = candidate_info s" "top_nominations s' = top_nominations s"
    "bottom_nominations s' = bottom_nominations s" "candidate_pool s' = candidate_pool s"
    "nominator_state s' = nominator_state s"
    "nomination_scheduled_requests s' = nomination_scheduled_requests s"
    "min_total_nominator_stake s' = min_total_nominator_stake s"
  shows "staking_inv C s' = staking_inv C s"
  using assms by (simp add: staking_inv_def candidates_ok_def pool_ok_def nominators_ok_def
      agree_def requests_ok_def positive_def apart_def unbonds_ok_def minimums_ok_def)

lemma candidates_ok_upd:
  assumes "candidates_ok C s" "candidate_info s' = (candidate_info s)(c \<mapsto> m)"
    "top_nominations s' = (top_nominations s)(c \<mapsto> t)"
    "bottom_nominations s' = (bottom_nominations s)(c \<mapsto> b)" "book_ok C m t b"
  shows "candidates_ok C s'"
  using assms by (auto simp: candidates_ok_def)

lemma keys_sorted_owner_mem:
  assumes "keys_sorted owner xs"
  shows "set_view owner xs c = Some x \<longleftrightarrow> x \<in> set xs \<and> owner x = c"
  using set_view_iff [OF keys_sorted_distinct [OF assms]] by simp

lemma pool_put_ok:
  assumes inv: "bounded_inv (max_candidates C) owner pool" and mem: "c \<in> owner ` set pool"
  shows "bounded_inv (max_candidates C) owner (pool_put C c x pool)"
    "y \<in> set (pool_put C c x pool) \<longleftrightarrow>
       y = \<lparr>owner = c, amount = x\<rparr> \<or> y \<in> set pool \<and> owner y \<noteq> c"
proof -
  let ?z = "\<lparr>owner = c, amount = x\<rparr>"
  have "set_view owner pool c \<noteq> None"
    using mem by (simp add: set_view_None)
  then have "bounded_set_contains owner (owner ?z) pool"
    using bset.mem_view [OF inv] by simp
  then obtain p where p: "bounded_set_try_insert (max_candidates C) owner ?z
      (snd (bounded_set_remove owner c pool)) = Some (True, p)"
    "bounded_inv (max_candidates C) owner p" "set_view owner p = (set_view owner pool)(c \<mapsto> ?z)"
    using bset.replace_succeeds [OF inv, of ?z] by auto
  then have put: "pool_put C c x pool = p"
    by (simp add: pool_put_def)
  show "bounded_inv (max_candidates C) owner (pool_put C c x pool)"
    using p(2) put by simp
  have "y \<in> set p \<longleftrightarrow> set_view owner p (owner y) = Some y"
    using p(2) keys_sorted_owner_mem [of p "owner y" y] by (simp add: bounded_inv_def)
  moreover have "y \<in> set pool \<longleftrightarrow> set_view owner pool (owner y) = Some y"
    using inv keys_sorted_owner_mem [of pool "owner y" y] by (simp add: bounded_inv_def)
  ultimately show "y \<in> set (pool_put C c x pool) \<longleftrightarrow> y = ?z \<or> y \<in> set pool \<and> owner y \<noteq> c"
    using p(3) put by auto
qed

text \<open>A candidate whose status stays the same keeps its place in the pool.\<close>

lemma pool_ok_upd:
  assumes ok: "pool_ok C s" and m: "candidate_info s c = Some m" "is_active m' = is_active m"
    and s': "candidate_info s' = (candidate_info s)(c \<mapsto> m')"
    "candidate_pool s' = pool_after C c (is_active m) (cm_total_counted m) (cm_total_counted m')
      (candidate_pool s)"
  shows "pool_ok C s'"
proof (cases "cm_total_counted m \<noteq> cm_total_counted m' \<and> is_active m")
  case True
  have "\<lparr>owner = c, amount = cm_total_counted m\<rparr> \<in> set (candidate_pool s)"
    using ok m True by (auto simp: pool_ok_def)
  then have mem: "c \<in> owner ` set (candidate_pool s)"
    by force
  have "bounded_inv (max_candidates C) owner (candidate_pool s)"
    using ok by (simp add: pool_ok_def)
  note p = pool_put_ok [OF this mem, where x = "cm_total_counted m'"]
  have pool: "candidate_pool s' = pool_put C c (cm_total_counted m') (candidate_pool s)"
    using s'(2) True by (simp add: pool_after_def)
  show ?thesis
    unfolding pool_ok_def pool
  proof (intro conjI allI)
    show "bounded_inv (max_candidates C) owner (pool_put C c (cm_total_counted m') (candidate_pool s))"
      using p(1) .
    fix x
    show "x \<in> set (pool_put C c (cm_total_counted m') (candidate_pool s)) \<longleftrightarrow>
        (\<exists>m. candidate_info s' (owner x) = Some m \<and> is_active m \<and> amount x = cm_total_counted m)"
      using ok p(2) [of x] s'(1) True m(2) by (auto simp: pool_ok_def)
  qed
next
  case False
  then have "candidate_pool s' = candidate_pool s"
    using s'(2) by (auto simp: pool_after_def)
  then show ?thesis
    using ok m False s'(1) by (auto simp: pool_ok_def)
qed

lemma nominators_ok_upd:
  assumes "nominators_ok s" "nominator_state s' = (nominator_state s)(n := r)"
    and "\<And>st. r = Some st \<Longrightarrow> nominator_ok n st"
  shows "nominators_ok s'"
  using assms by (auto simp: nominators_ok_def)

lemma agree_upd:
  assumes "agree s" "nominator_state s' = (nominator_state s)(n := r)"
    and "top_nominations s' = (top_nominations s)(c := t)"
    and "bottom_nominations s' = (bottom_nominations s)(c := b)"
    and "nominator_stakes r = (nom_stake s n)(c := v)"
    and "candidate_stakes t b = (cand_stake s c)(n := v)"
  shows "agree s'"
  using assms by (auto simp: agree_def)

lemma apart_upd:
  assumes "apart s" "candidate_info s c = Some m" "candidate_info s' = (candidate_info s)(c \<mapsto> m')"
    and "nominator_state s' = (nominator_state s)(n := r)"
    and "r = None \<or> nominator_state s n \<noteq> None \<or> candidate_info s n = None"
  shows "apart s'"
  unfolding apart_def
proof
  fix a
  have "candidate_info s a = None \<or> nominator_state s a = None"
    using assms(1) by (simp add: apart_def)
  then show "candidate_info s' a = None \<or> nominator_state s' a = None"
    using assms(2-5) by auto
qed

end
