(* ===== verification/Staking_Record.thy ===== *)
theory Staking_Record
  imports Staking_Inv
begin

text \<open>
  A nominator's record under the operations of \<open>impl Nominator\<close>: the map of stakes changes as
  asked, the bonds stay one ordered set, and the total stays the sum of the bonds.
\<close>

section \<open>Ordered bonds\<close>

lemma nominator_okD:
  assumes "nominator_ok n st"
  shows "nom_id st = n" "keys_sorted owner (nom_nominations st)"
    "length (nom_nominations st) \<le> max_nominations" "nom_nominations st \<noteq> []"
    "nom_total st = sum_amounts (nom_nominations st)" "distinct (owners (nom_nominations st))"
  using assms keys_sorted_distinct by (auto simp: nominator_ok_def bounded_inv_def)

lemma keys_sorted_unique:
  assumes "keys_sorted key xs" "keys_sorted key ys" "set xs = set ys"
  shows "xs = ys"
proof -
  have "map key xs = map key ys"
    using assms unfolding keys_sorted_def
    by (intro strict_sorted_equal) (auto simp: strict_sorted_iff)
  then show ?thesis
    using assms(3) keys_sorted_inj [OF assms(1)] by (metis inj_on_map_eq_map sup.idem)
qed

lemma keys_sorted_Nil [simp]: "keys_sorted key []"
  by (simp add: keys_sorted_def)

lemma keys_sorted_append:
  "keys_sorted key (xs @ ys) \<longleftrightarrow>
     keys_sorted key xs \<and> keys_sorted key ys \<and> (\<forall>x\<in>set xs. \<forall>y\<in>set ys. key x < key y)"
  by (auto simp: keys_sorted_def sorted_wrt_append)

lemma keys_sorted_filter: "keys_sorted key xs \<Longrightarrow> keys_sorted key (filter P xs)"
  by (simp add: keys_sorted_def sorted_wrt_map sorted_wrt_filter)

lemma set_after_insert:
  assumes "keys_sorted owner xs" "keys_sorted owner ys" "owner x \<notin> owner ` set xs"
    and "set_view owner ys = (set_view owner xs)(owner x \<mapsto> x)"
  shows "set ys = insert x (set xs)"
proof (rule set_eqI)
  fix y
  have "y \<notin> set xs" if "owner y = owner x"
    using assms(3) that by (metis image_eqI)
  then show "y \<in> set ys \<longleftrightarrow> y \<in> insert x (set xs)"
    using keys_sorted_owner_mem [OF assms(1), of "owner y" y]
      keys_sorted_owner_mem [OF assms(2), of "owner y" y] assms(4)
    by (auto split: if_splits)
qed

text \<open>Inserting behind all the elements appends.\<close>

lemma try_insert_at_end:
  assumes "keys_sorted owner (acc @ [x])" "length acc < bound"
  shows "bounded_set_try_insert bound owner x acc = Some (True, acc @ [x])"
proof -
  have s: "keys_sorted owner acc" and lt: "\<forall>y\<in>set acc. owner y < owner x"
    using assms(1) by (auto simp: keys_sorted_append)
  have none: "set_view owner acc (owner x) = None"
    using lt by (auto simp: set_view_None)
  obtain b xs where ins: "ordered_set_insert owner x acc = (b, xs)"
    by (cases "ordered_set_insert owner x acc")
  have xs: "b" "keys_sorted owner xs" "set_view owner xs = (set_view owner acc)(owner x \<mapsto> x)"
    using ordered_set_laws(3) [OF s none ins] by auto
  have "set xs = insert x (set acc)"
    using s xs lt by (intro set_after_insert) auto
  then have "xs = acc @ [x]"
    using keys_sorted_unique [OF xs(2) assms(1)] by simp
  then show ?thesis
    using bounded_try_insert_eq [OF s, of bound x] none assms(2) ins xs(1) by simp
qed

lemma rm_nomination_loop_eq:
  assumes "keys_sorted owner (acc @ xs)" "length acc + length xs \<le> max_nominations"
  shows "rm_nomination_loop c xs amt acc =
    Inr (case last_owned c xs of None \<Rightarrow> amt | Some d \<Rightarrow> Some (amount d),
         acc @ filter (\<lambda>d. owner d \<noteq> c) xs)"
  using assms
proof (induction xs arbitrary: amt acc)
  case Nil
  then show ?case
    by (simp add: last_owned_def)
next
  case (Cons x xs)
  show ?case
  proof (cases "owner x = c")
    case True
    have "owner y \<noteq> c" if "y \<in> set xs" for y
      using Cons.prems(1) True that by (auto simp: keys_sorted_append keys_sorted_Cons)
    then have f: "filter (\<lambda>d. owner d = c) xs = []"
      by (auto simp: filter_empty_conv)
    have "keys_sorted owner (acc @ xs)"
      using Cons.prems(1) by (auto simp: keys_sorted_append keys_sorted_Cons)
    then show ?thesis
      using Cons.IH [of acc "Some (amount x)"] Cons.prems(2) True f by (simp add: last_owned_def)
  next
    case False
    have "keys_sorted owner (acc @ [x])"
      using Cons.prems(1) by (auto simp: keys_sorted_append keys_sorted_Cons)
    then have ins: "bounded_set_try_insert max_nominations owner x acc = Some (True, acc @ [x])"
      using Cons.prems(2) by (intro try_insert_at_end) auto
    show ?thesis
      using Cons.IH [of "acc @ [x]" amt] Cons.prems False ins by (simp add: last_owned_def)
  qed
qed

section \<open>Operations on the record\<close>

lemma nominator_new_ok:
  "nominator_ok n (nominator_new n c a)"
  "stakes (nom_nominations (nominator_new n c a)) = [c \<mapsto> a]"
  by (simp_all add: nominator_ok_def nominator_new_def bounded_inv_def bounded_set_from_def
      ordered_set_from_def truncate_from_def max_nominations_def keys_sorted_def stakes_def)

lemma add_nomination_record:
  assumes ok: "nominator_ok n st" and new: "stakes (nom_nominations st) c = None"
    and room: "length (nom_nominations st) < max_nominations"
    and max: "nom_total st + a \<le> u128_max"
  shows "\<exists>st'. nominator_add_nomination \<lparr>owner = c, amount = a\<rparr> st = Inr (True, st') \<and>
    nominator_ok n st' \<and> nom_total st' = nom_total st + a \<and> nom_less_total st' = nom_less_total st \<and>
    stakes (nom_nominations st') = (stakes (nom_nominations st))(c \<mapsto> a)"
proof -
  note k = nominator_okD [OF ok]
  let ?x = "\<lparr>owner = c, amount = a\<rparr>"
  have fresh: "c \<notin> set (owners (nom_nominations st))"
    using new by (simp add: stakes_None)
  then have none: "set_view owner (nom_nominations st) (owner ?x) = None"
    by (simp add: set_view_None)
  obtain b xs where ins: "ordered_set_insert owner ?x (nom_nominations st) = (b, xs)"
    by (cases "ordered_set_insert owner ?x (nom_nominations st)")
  have xs: "b" "keys_sorted owner xs" "length xs = Suc (length (nom_nominations st))"
    "set_view owner xs = (set_view owner (nom_nominations st))(c \<mapsto> ?x)"
    using ordered_set_laws(3) [OF k(2) none ins] by auto
  have set: "set xs = insert ?x (set (nom_nominations st))"
    using k(2) xs fresh by (intro set_after_insert) auto
  have sum: "sum_amounts xs = sum_amounts (nom_nominations st) + a"
  proof -
    have d: "distinct xs" "distinct (nom_nominations st)"
      using keys_sorted_distinct [OF xs(2)] k(6) by (simp_all add: distinct_map)
    have "?x \<notin> set (nom_nominations st)"
      using fresh by force
    then show ?thesis
      using d set by (simp add: sum_list_distinct_conv_sum_set)
  qed
  let ?st = "st\<lparr>nom_nominations := xs, nom_total := nom_total st + a\<rparr>"
  have "nominator_add_nomination ?x st = Inr (True, ?st)"
    using bounded_try_insert_eq [OF k(2), of max_nominations ?x] none room ins xs(1) max
    by (simp add: nominator_add_nomination_def)
  moreover have "nominator_ok n ?st"
    using k xs room sum by (auto simp: nominator_ok_def bounded_inv_def)
  moreover have "stakes xs = (stakes (nom_nominations st))(c \<mapsto> a)"
    using stakes_insert [OF k(6) keys_sorted_distinct [OF xs(2)], of ?x] fresh set by simp
  ultimately show ?thesis
    by (intro exI [of _ ?st]) simp
qed


lemma stakes_Some_last_owned:
  assumes "keys_sorted owner xs" "stakes xs c = Some a"
  shows "\<exists>d. last_owned c xs = Some d \<and> amount d = a \<and> d \<in> set xs \<and> owner d = c"
proof -
  have dist: "distinct (owners xs)"
    using assms(1) by (rule keys_sorted_distinct)
  then obtain d where "d \<in> set xs" "owner d = c" "amount d = a"
    using assms(2) by (auto simp: stakes_iff)
  then show ?thesis
    using last_owned_mem [OF dist] by auto
qed

definition dropped :: "account \<Rightarrow> balance \<Rightarrow> nominator \<Rightarrow> nominator" where
  "dropped c a st =
     st\<lparr>nom_nominations := filter (\<lambda>d. owner d \<noteq> c) (nom_nominations st),
        nom_total := nom_total st - a\<rparr>"

lemma rm_nomination_record:
  assumes ok: "nominator_ok n st" and has: "stakes (nom_nominations st) c = Some a"
  shows "\<exists>w. nominator_rm_nomination C c st s =
      Inr (Some (nom_total st - a), dropped c a st, s\<lparr>world := w\<rparr>)"
    "stakes (nom_nominations (dropped c a st)) = (stakes (nom_nominations st))(c := None)"
    "nom_total (dropped c a st) = sum_amounts (nom_nominations (dropped c a st))"
    "nom_nominations (dropped c a st) \<noteq> [] \<Longrightarrow> nominator_ok n (dropped c a st)"
    "Suc (length (nom_nominations (dropped c a st))) = length (nom_nominations st)"
proof -
  note k = nominator_okD [OF ok]
  obtain d where d: "last_owned c (nom_nominations st) = Some d" "amount d = a"
    "d \<in> set (nom_nominations st)" "owner d = c"
    using stakes_Some_last_owned [OF k(2) has] by blast
  note f = owner_filter_distinct [OF k(6) d(3)]
  have "rm_nomination_loop c (nom_nominations st) None [] =
      Inr (Some a, filter (\<lambda>d. owner d \<noteq> c) (nom_nominations st))"
    using rm_nomination_loop_eq [of "[]" "nom_nominations st"] k(2,3) d by simp
  then show "\<exists>w. nominator_rm_nomination C c st s =
      Inr (Some (nom_total st - a), dropped c a st, s\<lparr>world := w\<rparr>)"
    by (auto simp: nominator_rm_nomination_def total_sub_def adjust_bond_lock_def dropped_def Let_def)
  show "Suc (length (nom_nominations (dropped c a st))) = length (nom_nominations st)"
    using f(2) d(4) by (simp add: dropped_def)
  show tot: "nom_total (dropped c a st) = sum_amounts (nom_nominations (dropped c a st))"
    using f(3) k(5) d(2,4) by (simp add: dropped_def)
  show "nominator_ok n (dropped c a st)" if "nom_nominations (dropped c a st) \<noteq> []"
    using that tot k by (auto simp: nominator_ok_def bounded_inv_def dropped_def keys_sorted_filter
        intro: order_trans [OF length_filter_le])
  have "distinct (owners (filter (\<lambda>d. owner d \<noteq> c) (nom_nominations st)))"
    using k(6) by (simp add: distinct_map_filter)
  then show "stakes (nom_nominations (dropped c a st)) = (stakes (nom_nominations st))(c := None)"
    using stakes_remove [OF k(6) _ d(3)] f(1) d(4) by (simp add: dropped_def del: set_filter)
qed

definition reset_stake :: "account \<Rightarrow> balance \<Rightarrow> nominator \<Rightarrow> nominator" where
  "reset_stake c a st =
     st\<lparr>nom_nominations :=
          map (\<lambda>d. if owner d = c then d\<lparr>amount := a\<rparr> else d) (nom_nominations st)\<rparr>"

lemma list_update_owned:
  assumes "distinct (owners xs)" "position (\<lambda>x. owner x = c) xs = Some i"
  shows "xs[i := (xs ! i)\<lparr>amount := a\<rparr>] = map (\<lambda>d. if owner d = c then d\<lparr>amount := a\<rparr> else d) xs"
  using assms
proof (induction xs arbitrary: i)
  case (Cons x xs)
  show ?case
  proof (cases "owner x = c")
    case True
    then have "owner d \<noteq> c" if "d \<in> set xs" for d
      using Cons.prems(1) that by (auto simp: image_iff)
    then have "map (\<lambda>d. if owner d = c then d\<lparr>amount := a\<rparr> else d) xs = xs"
      by (intro map_idI) auto
    then show ?thesis
      using Cons.prems(2) True by simp
  next
    case False
    then show ?thesis
      using Cons by auto
  qed
qed simp

lemma reset_stake_ok:
  assumes ok: "nominator_ok n st" and has: "stakes (nom_nominations st) c = Some a"
  shows "stakes (nom_nominations (reset_stake c x st)) = (stakes (nom_nominations st))(c \<mapsto> x)"
    "nominator_ok n ((reset_stake c x st)\<lparr>nom_total := tot\<rparr>) \<longleftrightarrow> tot + a = nom_total st + x"
    "\<exists>i. position (\<lambda>b. owner b = c) (nom_nominations st) = Some i \<and>
       amount (nom_nominations st ! i) = a \<and>
       st\<lparr>nom_nominations := (nom_nominations st)[i := (nom_nominations st ! i)\<lparr>amount := x\<rparr>]\<rparr>
         = reset_stake c x st"
proof -
  note k = nominator_okD [OF ok]
  obtain d where d: "d \<in> set (nom_nominations st)" "owner d = c" "amount d = a"
    using has by (auto simp: stakes_iff [OF k(6)])
  have "change_amount (owner d) (\<lambda>_. x) (nom_nominations st) = nom_nominations (reset_stake c x st)"
    using k(3) d(2) by (auto simp: change_amount_def truncate_from_def reset_stake_def)
  note ch = change_amount_props [OF k(6) d(1) k(3), of "\<lambda>_. x", unfolded this]
  have dist: "distinct (owners (nom_nominations (reset_stake c x st)))"
    using ch(2) k(6) by simp
  show "stakes (nom_nominations (reset_stake c x st)) = (stakes (nom_nominations st))(c \<mapsto> x)"
    using stakes_replace [OF k(6) dist d(1) _ ch(1)] d(2) by simp
  have "keys_sorted owner (nom_nominations (reset_stake c x st))"
    using k(2) ch(2) by (simp add: keys_sorted_def)
  then show "nominator_ok n ((reset_stake c x st)\<lparr>nom_total := tot\<rparr>) \<longleftrightarrow> tot + a = nom_total st + x"
    using k(1,3-5) ch(3,4) d(3)
    by (auto simp: nominator_ok_def bounded_inv_def reset_stake_def)
  obtain i where i: "position (\<lambda>b. owner b = c) (nom_nominations st) = Some i"
    using d(1,2) position_None [of "\<lambda>b. owner b = c" "nom_nominations st"]
    by (cases "position (\<lambda>b. owner b = c) (nom_nominations st)") auto
  then have "nom_nominations st ! i = d"
    using position_SomeD [OF i] d(1,2) k(6) by (metis (mono_tags, lifting) distinct_map inj_onD nth_mem)
  then show "\<exists>i. position (\<lambda>b. owner b = c) (nom_nominations st) = Some i \<and>
       amount (nom_nominations st ! i) = a \<and>
       st\<lparr>nom_nominations := (nom_nominations st)[i := (nom_nominations st ! i)\<lparr>amount := x\<rparr>]\<rparr>
         = reset_stake c x st"
    using i d(3) list_update_owned [OF k(6) i, of x] by (auto simp: reset_stake_def)
qed

end
