(* ===== verification/Staking_Change.thy ===== *)
theory Staking_Change
  imports Staking_Record
begin

text \<open>
  One nomination changes: a storage in which the stake of one nominator on one candidate has
  been rewritten keeps the pallet's invariant, and the sums of stakes grow by no more than
  the change. The calls of the pallet are built from such changes.
\<close>

section \<open>One nomination changes\<close>

text \<open>
  \<open>nomination_change\<close> describes a storage in which the stake of \<open>n\<close> on \<open>c\<close> is \<open>v\<close>: the book of
  the candidate, the record of the nominator and the requests for \<open>c\<close> have been rewritten.
\<close>

definition nomination_change ::
  "'w config \<Rightarrow> account \<Rightarrow> account \<Rightarrow> balance option \<Rightarrow> candidate_metadata \<Rightarrow> nominations \<Rightarrow>
     nominations \<Rightarrow> nominator option \<Rightarrow> scheduled_request list \<Rightarrow> 'w staking \<Rightarrow> 'w staking \<Rightarrow> bool" where
  "nomination_change C c n v m t b r rq s s' \<longleftrightarrow>
     candidate_info s' = (candidate_info s)(c \<mapsto> refresh C t b m) \<and>
     top_nominations s' = (top_nominations s)(c \<mapsto> t) \<and>
     bottom_nominations s' = (bottom_nominations s)(c \<mapsto> b) \<and>
     candidate_pool s' = pool_after C c (is_active m) (cm_total_counted m) (cm_bond m + noms_total t)
       (candidate_pool s) \<and>
     nominator_state s' = (nominator_state s)(n := r) \<and>
     nomination_scheduled_requests s' = (nomination_scheduled_requests s)(c := rq) \<and>
     book_ok C (refresh C t b m) t b \<and>
     book_stakes t b = (cand_stake s c)(n := v) \<and>
     nominator_stakes r = (nom_stake s n)(c := v) \<and>
     min_total_nominator_stake s' = min_total_nominator_stake s \<and>
     (\<forall>st. r = Some st \<longrightarrow> nominator_ok n st)"

lemma staking_inv_change:
  assumes inv: "staking_inv C s" and m: "candidate_info s c = Some m"
    and ch: "nomination_change C c n v m t b r rq s s'"
    and rq: "distinct (map req_nominator rq)"
    "\<And>q. q \<in> set rq \<Longrightarrow> req_nominator q \<noteq> n \<Longrightarrow> q \<in> set (nomination_scheduled_requests s c)"
    "\<And>q. q \<in> set rq \<Longrightarrow> req_nominator q = n \<Longrightarrow> request_ok ((cand_stake s c)(n := v)) q"
    and v: "v \<noteq> Some 0"
    and new: "r = None \<or> nominator_state s n \<noteq> None \<or> candidate_info s n = None"
  shows "staking_inv C s'"
proof -
  note i = staking_invD [OF inv]
  have c: "candidate_info s' = (candidate_info s)(c \<mapsto> refresh C t b m)"
    "top_nominations s' = (top_nominations s)(c \<mapsto> t)"
    "bottom_nominations s' = (bottom_nominations s)(c \<mapsto> b)"
    "candidate_pool s' = pool_after C c (is_active m) (cm_total_counted m) (cm_bond m + noms_total t)
       (candidate_pool s)"
    "nominator_state s' = (nominator_state s)(n := r)"
    "nomination_scheduled_requests s' = (nomination_scheduled_requests s)(c := rq)"
    "book_ok C (refresh C t b m) t b" "book_stakes t b = (cand_stake s c)(n := v)"
    "nominator_stakes r = (nom_stake s n)(c := v)" "\<And>st. r = Some st \<Longrightarrow> nominator_ok n st"
    "min_total_nominator_stake s' = min_total_nominator_stake s"
    using ch by (auto simp: nomination_change_def)
  have "candidates_ok C s'"
    using candidates_ok_upd [OF i(1) c(1-3,7)] .
  moreover have "pool_ok C s'"
    using pool_ok_upd [OF i(2) m _ c(1)] c(4) by simp
  moreover have "nominators_ok s'"
    using nominators_ok_upd [OF i(3) c(5,10)] .
  moreover have "agree s'"
    using agree_upd [OF i(4) c(5,2,3,9)] c(8) by simp
  moreover have "requests_ok s'"
    unfolding requests_ok_def
  proof (intro allI conjI ballI)
    fix c'
    show "distinct (map req_nominator (nomination_scheduled_requests s' c'))"
      using i(5) rq(1) c(6) by (simp add: requests_ok_def)
    fix q assume q: "q \<in> set (nomination_scheduled_requests s' c')"
    show "request_ok (cand_stake s' c') q"
    proof (cases "c' = c")
      case True
      have "request_ok ((cand_stake s c)(n := v)) q"
      proof (cases "req_nominator q = n")
        case False
        then have "request_ok (cand_stake s c) q"
          using i(5) rq(2) [of q] q c(6) True by (auto simp: requests_ok_def)
        then show ?thesis
          using False by (simp add: request_ok_def)
      qed (use rq(3) q c(6) True in simp)
      then show ?thesis
        using True c(2,3,8) by simp
    next
      case False
      then show ?thesis
        using i(5) q c(2,3,6) by (auto simp: requests_ok_def)
    qed
  qed
  moreover have "positive s'"
    using i(6) c(2,3,8) v by (auto simp: positive_def)
  moreover have "apart s'"
    using apart_upd [OF i(7) m c(1,5) new] .
  moreover have "unbonds_ok s'"
    using i(8) c(1) m by (auto simp: unbonds_ok_def refresh_def)
  moreover have "minimums_ok C s'"
    using i(9) c(11) by (simp add: minimums_ok_def)
  ultimately show ?thesis
    by (simp add: staking_inv_def)
qed

section \<open>The room left for stakes\<close>

text \<open>\<open>room_kept d\<close>: the sums of stakes have grown by at most \<open>d\<close>.\<close>

definition room_kept :: "balance \<Rightarrow> 'w staking \<Rightarrow> 'w staking \<Rightarrow> bool" where
  "room_kept d s s' \<longleftrightarrow> (\<forall>x. headroom (x + d) s \<longrightarrow> headroom x s')"

definition stake_of :: "balance option \<Rightarrow> balance" where
  "stake_of v = (case v of None \<Rightarrow> 0 | Some a \<Rightarrow> a)"

lemma sum_amounts_others:
  assumes "distinct (owners xs)" "distinct (owners ys)" "stakes ys = (stakes xs)(n := v)"
  shows "sum_amounts ys + stake_of (stakes xs n) = sum_amounts xs + stake_of v"
proof -
  have split: "sum_amounts zs = sum_amounts (filter (\<lambda>d. owner d \<noteq> n) zs) + stake_of (stakes zs n)"
    if "distinct (owners zs)" for zs
    using that
  proof (induction zs)
    case (Cons z zs)
    show ?case
    proof (cases "owner z = n")
      case True
      then have "filter (\<lambda>d. owner d \<noteq> n) zs = zs"
        using Cons.prems by (auto simp: filter_id_conv image_iff)
      then show ?thesis
        using True by (simp add: stakes_def stake_of_def)
    next
      case False
      then show ?thesis
        using Cons by (simp add: stakes_def)
    qed
  qed (simp add: stakes_def stake_of_def)
  let ?f = "filter (\<lambda>d. owner d \<noteq> n)"
  have same: "d = e" if "owner d = owner e" "amount d = amount e" for d e :: bond
    using that by (intro bond.equality) auto
  have "d \<in> set (?f zs) \<longleftrightarrow> owner d \<noteq> n \<and> stakes zs (owner d) = Some (amount d)"
    if "distinct (owners zs)" for zs d
  proof -
    have "(\<exists>e\<in>set zs. owner e = owner d \<and> amount e = amount d) \<longleftrightarrow> d \<in> set zs"
      using same by blast
    then show ?thesis
      using stakes_iff [OF that, of "owner d" "amount d"] by auto
  qed
  then have "set (?f ys) = set (?f xs)"
    using assms by auto
  moreover have "distinct (?f xs)" "distinct (?f ys)"
    using assms(1,2) by (simp_all add: distinct_map)
  ultimately have "sum_amounts (?f ys) = sum_amounts (?f xs)"
    by (simp add: sum_list_distinct_conv_sum_set del: set_filter)
  then show ?thesis
    using split [OF assms(1)] split [OF assms(2)] assms(3) by simp
qed

lemma agreeD: "agree s \<Longrightarrow> nom_stake s n c = cand_stake s c n"
  by (simp add: agree_def)

lemma room_change:
  assumes inv: "staking_inv C s" and m: "candidate_info s c = Some m"
    and ch: "nomination_change C c n v m t' b' r rq s s'"
    and d: "stake_of v \<le> stake_of (cand_stake s c n) + d"
  shows "room_kept d s s'"
  unfolding room_kept_def
proof (intro allI impI)
  fix x assume h: "headroom (x + d) s"
  note i = staking_invD [OF inv]
  obtain t b where tb: "top_nominations s c = Some t" "bottom_nominations s c = Some b" "book_ok C m t b"
    using candidates_okE [OF i(1) m] by blast
  have bk: "distinct (owners (noms t @ noms b))" "distinct (owners (noms t' @ noms b'))"
    using ch book_okD(1) [OF tb(3)] book_okD(1) [of C "refresh C t' b' m" t' b']
    by (auto simp: nomination_change_def ranked_def)
  have "stakes (noms t' @ noms b') = (stakes (noms t @ noms b))(n := v)"
    using ch tb by (simp add: nomination_change_def book_stakes_def)
  note sum = sum_amounts_others [OF bk this]
  have sum1: "sum_amounts (noms t') + sum_amounts (noms b') \<le> sum_amounts (noms t) + sum_amounts (noms b) + d"
    using sum d tb by (simp add: book_stakes_def)
  have sum2: "nom_total st' + x \<le> u128_max" if st': "r = Some st'" for st'
  proof -
    define xs where "xs = (case nominator_state s n of None \<Rightarrow> [] | Some st \<Rightarrow> nom_nominations st)"
    have ok: "nominator_ok n st'" "stakes (nom_nominations st') = (nom_stake s n)(c := v)"
      using ch st' by (auto simp: nomination_change_def)
    have xs: "nom_stake s n = stakes xs" "distinct (owners xs)" "sum_amounts xs + x + d \<le> u128_max"
    proof -
      have "nom_total st + (x + d) \<le> u128_max \<and> nominator_ok n st" if "nominator_state s n = Some st" for st
        using that h i(3) by (auto simp: headroom_def nominators_ok_def)
      then show "nom_stake s n = stakes xs" "distinct (owners xs)" "sum_amounts xs + x + d \<le> u128_max"
        using h nominator_okD(5,6) [of n]
        by (cases "nominator_state s n"; fastforce simp: xs_def stakes_def headroom_def)+
    qed
    have "nom_total st' + stake_of (stakes xs c) = sum_amounts xs + stake_of v"
      using sum_amounts_others [OF xs(2) nominator_okD(6) [OF ok(1)], of c v] ok xs(1)
        nominator_okD(5) [OF ok(1)] by simp
    moreover have "stakes xs c = cand_stake s c n"
      using agreeD [OF i(4), of n c] xs(1) by simp
    ultimately show ?thesis
      using xs(3) d by simp
  qed
  have s': "candidate_info s' = (candidate_info s)(c \<mapsto> refresh C t' b' m)"
    "top_nominations s' = (top_nominations s)(c \<mapsto> t')"
    "bottom_nominations s' = (bottom_nominations s)(c \<mapsto> b')"
    "nominator_state s' = (nominator_state s)(n := r)"
    using ch by (auto simp: nomination_change_def)
  have room: "cm_bond m + sum_amounts (noms t) + sum_amounts (noms b) + (x + d) \<le> u128_max"
    using h m tb by (auto simp: headroom_def)
  show "headroom x s'"
    unfolding headroom_def
  proof (intro conjI allI impI)
    show "x \<le> u128_max"
      using h by (simp add: headroom_def)
    fix c1 m1 t1 b1
    assume 1: "candidate_info s' c1 = Some m1" "top_nominations s' c1 = Some t1" "bottom_nominations s' c1 = Some b1"
    show "cm_bond m1 + sum_amounts (noms t1) + sum_amounts (noms b1) + x \<le> u128_max"
    proof (cases "c1 = c")
      case True
      then show ?thesis
        using 1 s' room sum1 by (auto simp: refresh_def)
    next
      case False
      then have "cm_bond m1 + sum_amounts (noms t1) + sum_amounts (noms b1) + (x + d) \<le> u128_max"
        using 1 s' h by (auto simp: headroom_def)
      then show ?thesis
        by simp
    qed
  next
    fix n1 st1 assume 1: "nominator_state s' n1 = Some st1"
    show "nom_total st1 + x \<le> u128_max"
    proof (cases "n1 = n")
      case False
      then have "nom_total st1 + (x + d) \<le> u128_max"
        using 1 s' h by (auto simp: headroom_def)
      then show ?thesis
        by simp
    qed (use 1 s' sum2 in simp)
  qed
qed

text \<open>What the invariant says of a nomination that a nominator's record has.\<close>

lemma nomination_known:
  assumes inv: "staking_inv C s" and st: "nominator_state s n = Some st"
    and has: "stakes (nom_nominations st) c = Some a"
  obtains m t b where "candidate_info s c = Some m" "top_nominations s c = Some t"
    "bottom_nominations s c = Some b" "book_ok C m t b" "book_stakes t b n = Some a"
proof -
  note i = staking_invD [OF inv]
  have a: "cand_stake s c n = Some a"
    using i(4) st has by (auto simp: agree_def dest: spec [of _ n])
  then obtain t b where tb: "top_nominations s c = Some t" "bottom_nominations s c = Some b"
    by (cases "top_nominations s c"; cases "bottom_nominations s c") auto
  then obtain m where m: "candidate_info s c = Some m"
    using candidates_ok_None [OF i(1), of c] by (cases "candidate_info s c") auto
  then show ?thesis
    using that candidates_okE [OF i(1) m] tb a by force
qed

lemma nominator_known:
  "staking_inv C s \<Longrightarrow> nominator_state s n = Some st \<Longrightarrow> nominator_ok n st"
  by (auto dest!: staking_invD(3) simp: nominators_ok_def)

lemma requests_distinct:
  "staking_inv C s \<Longrightarrow> distinct (map req_nominator (nomination_scheduled_requests s c))"
  by (auto dest!: staking_invD(5) simp: requests_ok_def)

lemma requests_known:
  "staking_inv C s \<Longrightarrow> q \<in> set (nomination_scheduled_requests s c) \<Longrightarrow>
     request_ok (cand_stake s c) q"
  by (auto dest!: staking_invD(5) simp: requests_ok_def)


lemma stake_positive: "staking_inv C s \<Longrightarrow> cand_stake s c n = Some a \<Longrightarrow> 0 < a"
  using staking_invD(6) [of C s] unfolding positive_def by (metis gr0I)

end
