(* ===== verification/Staking_Keep.thy ===== *)
theory Staking_Keep
  imports Staking_Change
begin

text \<open>
  The calls of nominators that add stake keep the pallet's invariant and do not panic:
  \<open>nominate\<close> and \<open>bond_extra\<close>.
\<close>

section \<open>Results\<close>

text \<open>A call is safe when it does not panic and a successful one leaves the invariant.\<close>

definition safe :: "'w config \<Rightarrow> staking_error + 'w staking \<Rightarrow> bool" where
  "safe C r = (case r of Inl e \<Rightarrow> e \<noteq> Panic | Inr s \<Rightarrow> staking_inv C s)"

lemma safe_simps [simp]:
  "safe C (Inl e) \<longleftrightarrow> e \<noteq> Panic" "safe C (Inr s) \<longleftrightarrow> staking_inv C s"
  by (simp_all add: safe_def)

text \<open>A safe call whose result also satisfies \<open>P\<close>.\<close>

definition leads_to ::
  "'w config \<Rightarrow> ('w staking \<Rightarrow> bool) \<Rightarrow> staking_error + 'w staking \<Rightarrow> bool" where
  "leads_to C P r = (case r of Inl e \<Rightarrow> e \<noteq> Panic | Inr s \<Rightarrow> staking_inv C s \<and> P s)"

lemma leads_to_simps [simp]:
  "leads_to C P (Inl e) \<longleftrightarrow> e \<noteq> Panic" "leads_to C P (Inr s) \<longleftrightarrow> staking_inv C s \<and> P s"
  by (simp_all add: leads_to_def)

lemma leads_to_safe: "leads_to C P r \<Longrightarrow> safe C r"
  by (cases r) simp_all

lemma safe_and_then:
  "(\<And>e. r = Inl e \<Longrightarrow> e \<noteq> Panic) \<Longrightarrow> (\<And>x. r = Inr x \<Longrightarrow> safe C (f x)) \<Longrightarrow> safe C (and_then r f)"
  by (cases r) auto

definition safe_room :: "'w config \<Rightarrow> balance \<Rightarrow> 'w staking \<Rightarrow> staking_error + 'w staking \<Rightarrow> bool" where
  "safe_room C d s r \<longleftrightarrow> safe C r \<and> (\<forall>s'. r = Inr s' \<longrightarrow> room_kept d s s')"

lemma safe_room_simps [simp]:
  "safe_room C d s (Inl e) \<longleftrightarrow> e \<noteq> Panic"
  "safe_room C d s (Inr s') \<longleftrightarrow> staking_inv C s' \<and> room_kept d s s'"
  by (simp_all add: safe_room_def)

lemma safe_roomD: "safe_room C d s r \<Longrightarrow> safe C r"
  by (simp add: safe_room_def)

lemma room_kept_0 [simp]: "room_kept 0 s s"
  by (simp add: room_kept_def)

lemma room_kept_trans: "room_kept 0 s1 s2 \<Longrightarrow> room_kept d s2 s3 \<Longrightarrow> room_kept d s1 s3"
  by (simp add: room_kept_def)

lemma adjust_bond_lock_result:
  "adjust_bond_lock C st adj s = Inl e \<Longrightarrow> e \<noteq> Panic"
  "adjust_bond_lock C st adj s = Inr s1 \<Longrightarrow> \<exists>w. s1 = s\<lparr>world := w\<rparr>"
  by (auto simp: adjust_bond_lock_def Let_def split: bond_adjust.splits if_splits)

lemma pool_put_idem:
  assumes "bounded_inv (max_candidates C) owner pool" "c \<in> owner ` set pool"
  shows "pool_put C c x (pool_put C c x pool) = pool_put C c x pool"
proof -
  note p = pool_put_ok [OF assms, where x = x]
  have mem: "c \<in> owner ` set (pool_put C c x pool)"
    using p(2) [of "\<lparr>owner = c, amount = x\<rparr>"] by force
  note q = pool_put_ok [OF p(1) mem, where x = x]
  have "set (pool_put C c x (pool_put C c x pool)) = set (pool_put C c x pool)"
    using p(2) q(2) by auto
  then show ?thesis
    using p(1) q(1) by (intro keys_sorted_unique) (auto simp: bounded_inv_def)
qed

lemma active_in_pool:
  assumes "pool_ok C s" "candidate_info s c = Some m" "is_active m"
  shows "c \<in> owner ` set (candidate_pool s)"
proof -
  have "\<lparr>owner = c, amount = cm_total_counted m\<rparr> \<in> set (candidate_pool s)"
    using assms by (auto simp: pool_ok_def)
  then show ?thesis
    by force
qed

section \<open>Bonding more\<close>

text \<open>The second update of the pool in \<open>Nominator::increase_nomination\<close> changes nothing.\<close>

lemma update_active_again:
  assumes "pool_ok C s" "candidate_info s c = Some m" "candidate_pool s1 = candidate_pool s"
    and "is_active m" "cm_total_counted m \<noteq> cm_bond m + noms_total t"
  shows "update_active C c (cm_bond m + noms_total t) (rewrite_book C c t b m s1)
    = rewrite_book C c t b m s1"
proof -
  have "bounded_inv (max_candidates C) owner (candidate_pool s)"
    using assms(1) by (simp add: pool_ok_def)
  then show ?thesis
    using active_in_pool [OF assms(1,2,4)] assms(3-5)
    by (simp add: pool_after_def pool_put_idem update_active_eq rewrite_book_def set_book_def)
qed

lemma stake_le_total:
  assumes "nominator_ok n st" "stakes (nom_nominations st) c = Some a"
  shows "a \<le> nom_total st"
  using nominator_okD(5,6) [OF assms(1)] assms(2)
  by (auto simp: stakes_iff intro: member_le_sum_list)

lemma grown_record:
  assumes ok: "nominator_ok n st" and has: "stakes (nom_nominations st) c = Some a"
    and max: "nom_total st + extra \<le> u128_max"
  defines "st' \<equiv> (reset_stake c (a + extra) st)\<lparr>nom_total := nom_total st + extra\<rparr>"
  shows "nominator_ok n st'" "stakes (nom_nominations st') = (stakes (nom_nominations st))(c \<mapsto> a + extra)"
    "\<exists>j. position (\<lambda>b. owner b = c) (nom_nominations st) = Some j \<and>
       amount (nom_nominations st ! j) = a \<and>
       st\<lparr>nom_nominations := (nom_nominations st)
             [j := (nom_nominations st ! j)\<lparr>amount := sat_add a extra\<rparr>],
           nom_total := sat_add (nom_total st) extra\<rparr> = st'"
proof -
  have a: "sat_add a extra = a + extra" "sat_add (nom_total st) extra = nom_total st + extra"
    using stake_le_total [OF ok has] max by simp_all
  obtain j where "position (\<lambda>b. owner b = c) (nom_nominations st) = Some j"
    "amount (nom_nominations st ! j) = a"
    "st\<lparr>nom_nominations := (nom_nominations st)[j := (nom_nominations st ! j)\<lparr>amount := a + extra\<rparr>]\<rparr>
       = reset_stake c (a + extra) st"
    using reset_stake_ok(3) [OF ok has, of "a + extra"] by blast
  then show "\<exists>j. position (\<lambda>b. owner b = c) (nom_nominations st) = Some j \<and>
       amount (nom_nominations st ! j) = a \<and>
       st\<lparr>nom_nominations := (nom_nominations st)
             [j := (nom_nominations st ! j)\<lparr>amount := sat_add a extra\<rparr>],
           nom_total := sat_add (nom_total st) extra\<rparr> = st'"
    unfolding st'_def a by (metis nominator.update_convs(3))
  show "nominator_ok n st'" "stakes (nom_nominations st') = (stakes (nom_nominations st))(c \<mapsto> a + extra)"
    unfolding st'_def
    using reset_stake_ok(1) [OF ok has, of "a + extra"]
      reset_stake_ok(2) [OF ok has, where x = "a + extra" and tot = "nom_total st + extra"]
    by simp_all
qed

lemma increase_nomination_result:
  assumes inv: "staking_inv C s" and lim: "limits_ok C" and room: "headroom extra s"
    and st: "nominator_state s n = Some st" and has: "stakes (nom_nominations st) c = Some a"
    and c: "candidate_info s c = Some m" "top_nominations s c = Some t"
    "bottom_nominations s c = Some b" "book_ok C m t b" "book_stakes t b n = Some a"
  shows "(\<exists>e. increase_nomination C c extra st s = Inl e \<and> e \<noteq> Panic) \<or>
    (\<exists>s' t' b' st'. increase_nomination C c extra st s = Inr s' \<and>
       nomination_change C c n (Some (a + extra)) m t' b' (Some st')
         (nomination_scheduled_requests s c) s s')"
proof -
  note nok = nominator_known [OF inv st]
  have tot: "cm_bond m + sum_amounts (noms t) + sum_amounts (noms b) + extra \<le> u128_max"
    "nom_total st + extra \<le> u128_max"
    using room c st by (auto simp: headroom_def)
  let ?st = "(reset_stake c (a + extra) st)\<lparr>nom_total := nom_total st + extra\<rparr>"
  note g = grown_record [OF nok has tot(2)]
  obtain j where j: "position (\<lambda>b. owner b = c) (nom_nominations st) = Some j"
    "amount (nom_nominations st ! j) = a"
    "st\<lparr>nom_nominations := (nom_nominations st)
           [j := (nom_nominations st ! j)\<lparr>amount := sat_add a extra\<rparr>],
        nom_total := sat_add (nom_total st) extra\<rparr> = ?st"
    using g(3) by blast
  show ?thesis
  proof (cases "adjust_bond_lock C ?st (BondIncrease extra) s")
    case (Inl e)
    then show ?thesis
      using adjust_bond_lock_result(1) [OF Inl] j by (simp add: increase_nomination_def Let_def)
  next
    case (Inr s1)
    then obtain w where s1: "s1 = s\<lparr>world := w\<rparr>"
      using adjust_bond_lock_result(2) by blast
    have at1: "top_nominations s1 c = Some t" "bottom_nominations s1 c = Some b"
      using c s1 by simp_all
    obtain t' b' flag where u: "cm_increase_nomination C c n a extra m s1 =
        Inr (refresh C t' b' m, flag, rewrite_book C c t' b' m s1)"
      "book_ok C (refresh C t' b' m) t' b'" "book_stakes t' b' = (book_stakes t b)(n \<mapsto> a + extra)"
      using increase_nomination_update [OF c(4) lim at1 c(5) tot(1)] by (auto simp: book_update_def)
    note again = update_active_again [OF staking_invD(2) [OF inv] c(1), of "s\<lparr>world := w\<rparr>" t' b',
        simplified]
    let ?s = "rewrite_book C c t' b' m s1"
    let ?s2 = "deposit_event (NominationIncreased n c extra flag)
      (?s\<lparr>candidate_info := (candidate_info ?s)(c \<mapsto> refresh C t' b' m),
         total := sat_add (total ?s) extra, nominator_state := (nominator_state ?s)(n \<mapsto> ?st)\<rparr>)"
    have "increase_nomination C c extra st s = Inr ?s2"
      using j Inr c(1) s1 u(1) nominator_okD(1) [OF nok]
      by (simp add: increase_nomination_def Let_def again)
    moreover have "nomination_change C c n (Some (a + extra)) m t' b' (Some ?st)
        (nomination_scheduled_requests s c) s ?s2"
      using u(2,3) c s1 st has g(1,2)
      by (auto simp: nomination_change_def rewrite_book_def set_book_def deposit_event_def)
    ultimately show ?thesis
      by blast
  qed
qed

lemma increase_nomination_room:
  assumes inv: "staking_inv C s" and lim: "limits_ok C" and room: "headroom extra s"
    and st: "nominator_state s n = Some st"
    and norevoke: "\<not> nomination_request_revoke_exists c n s"
  shows "safe_room C extra s (increase_nomination C c extra st s)"
proof (cases "stakes (nom_nominations st) c")
  case None
  then have "position (\<lambda>x. owner x = c) (nom_nominations st) = None"
    by (auto simp: position_None stakes_None)
  then show ?thesis
    by (simp add: increase_nomination_def)
next
  case (Some a)
  obtain m t b where c: "candidate_info s c = Some m" "top_nominations s c = Some t"
    "bottom_nominations s c = Some b" "book_ok C m t b" "book_stakes t b n = Some a"
    using nomination_known [OF inv st Some] by blast
  have "request_ok ((cand_stake s c)(n \<mapsto> a + extra)) q"
    if q: "q \<in> set (nomination_scheduled_requests s c)" "req_nominator q = n" for q
  proof -
    have "\<not> is_revoke (req_action q)"
      using norevoke q by (auto simp: nomination_request_revoke_exists_def list_ex_iff)
    then show ?thesis
      using requests_known [OF inv q(1)] q(2) c
      by (cases "req_action q") (auto simp: request_ok_def)
  qed
  then have "staking_inv C s' \<and> room_kept extra s s'"
    if "nomination_change C c n (Some (a + extra)) m t' b' r (nomination_scheduled_requests s c) s s'"
    for t' b' r s'
    using staking_inv_change [OF inv c(1) that requests_distinct [OF inv]] st
      stake_positive [OF inv, of c n] c room_change [OF inv c(1) that, of extra]
    by (simp add: stake_of_def)
  then show ?thesis
    using increase_nomination_result [OF inv lim room st Some c] by auto
qed

lemma call_bond_extra_room:
  assumes "staking_inv C s" "limits_ok C" "headroom extra s"
  shows "safe_room C extra s (call_bond_extra C n c extra s)"
  using assms increase_nomination_room
  by (cases "nominator_state s n") (auto simp: call_bond_extra_def)

lemmas call_bond_extra_safe = call_bond_extra_room [THEN safe_roomD]


section \<open>Withdrawing a request\<close>

lemma remove_at_filter:
  assumes "distinct (map f xs)" "position (\<lambda>r. f r = k) xs = Some i"
  shows "remove_at i xs = filter (\<lambda>r. f r \<noteq> k) xs"
  using assms
proof (induction xs arbitrary: i)
  case (Cons x xs)
  show ?case
  proof (cases "f x = k")
    case True
    then have "filter (\<lambda>r. f r \<noteq> k) xs = xs"
      using Cons.prems(1) by (auto simp: filter_id_conv image_iff)
    then show ?thesis
      using Cons.prems(2) True by (simp add: remove_at_def)
  next
    case False
    then show ?thesis
      using Cons by (auto simp: remove_at_def)
  qed
qed simp

abbreviation requests_without :: "account \<Rightarrow> account \<Rightarrow> 'w staking \<Rightarrow> scheduled_request list" where
  "requests_without n c s \<equiv> filter (\<lambda>r. req_nominator r \<noteq> n) (nomination_scheduled_requests s c)"

lemma remove_request_eq:
  assumes "distinct (map req_nominator (nomination_scheduled_requests s c))"
  shows "\<exists>x. nomination_remove_request_with_state c n st s =
    (st\<lparr>nom_less_total := x\<rparr>,
     s\<lparr>nomination_scheduled_requests :=
         (nomination_scheduled_requests s)(c := requests_without n c s)\<rparr>)"
proof (cases "position (\<lambda>r. req_nominator r = n) (nomination_scheduled_requests s c)")
  case None
  then have "requests_without n c s = nomination_scheduled_requests s c"
    by (auto simp: position_None filter_id_conv)
  then show ?thesis
    using None by (auto simp: nomination_remove_request_with_state_def Let_def
        intro!: exI [of _ "nom_less_total st"])
next
  case (Some i)
  then show ?thesis
    using remove_at_filter [OF assms Some]
    by (auto simp: nomination_remove_request_with_state_def Let_def)
qed

lemma nominator_ok_less [simp]: "nominator_ok n (st\<lparr>nom_less_total := x\<rparr>) = nominator_ok n st"
  by (simp add: nominator_ok_def)

lemma requests_without_ok:
  assumes inv: "staking_inv C s"
  shows "distinct (map req_nominator (requests_without n c s))"
    "q \<in> set (requests_without n c s) \<Longrightarrow> q \<in> set (nomination_scheduled_requests s c)"
    "q \<in> set (requests_without n c s) \<Longrightarrow> req_nominator q = n \<Longrightarrow> P"
  using requests_distinct [OF inv, of c] by (auto simp: distinct_map_filter)

section \<open>Nominating\<close>

lemma shed_mem:
  assumes "shed C b = (Some k, b1)" "limits_ok C"
  shows "k \<in> set (noms b)"
proof -
  have "noms b \<noteq> []" "k = last (noms b)"
    using assms by (auto simp: shed_def limits_ok_def split: if_splits)
  then show ?thesis
    by simp
qed

text \<open>The storage after a kick, with the kicked nomination taken out of the book.\<close>

lemma kick_nominator_change:
  assumes inv: "staking_inv C s" and lim: "limits_ok C"
    and c: "candidate_info s c = Some m" "top_nominations s c = Some t"
    "bottom_nominations s c = Some b" "book_ok C m t b"
    and sh: "shed C b = (Some k, b1)"
  obtains s1 r where "kick C c (Some k) s = Inr s1" "nominator_state s (owner k) \<noteq> None"
    "nomination_change C c (owner k) None m t b1 r (requests_without (owner k) c s) s
       (s1\<lparr>bottom_nominations := (bottom_nominations s1)(c \<mapsto> b1),
           candidate_info := (candidate_info s1)(c \<mapsto> refresh C t b1 m)\<rparr>)"
proof -
  note i = staking_invD [OF inv]
  note h = shed_ok [OF c(4) lim sh]
  note bk = book_okD [OF c(4)]
  note kb = shed_mem [OF sh lim]
  have kst: "book_stakes t b (owner k) = Some (amount k)"
    using kb bk(1) by (auto simp: book_stakes_def ranked_def stakes_iff)
  then have ns: "nom_stake s (owner k) c = Some (amount k)"
    using i(4) c(2,3) by (simp add: agree_def)
  then obtain st where st: "nominator_state s (owner k) = Some st"
    by (cases "nominator_state s (owner k)") auto
  have has: "stakes (nom_nominations st) c = Some (amount k)"
    using ns st by simp
  note nok = nominator_known [OF inv st]
  note rm = rm_nomination_record [OF nok has]
  obtain w where w: "nominator_rm_nomination C c st s =
      Inr (Some (nom_total st - amount k), dropped c (amount k) st, s\<lparr>world := w\<rparr>)"
    using rm_nomination_record(1) [OF nok has, where C = C and s = s] by (rule exE)
  obtain x where x: "nomination_remove_request_with_state c (owner k) (dropped c (amount k) st)
      (s\<lparr>world := w\<rparr>) = ((dropped c (amount k) st)\<lparr>nom_less_total := x\<rparr>,
      s\<lparr>world := w, nomination_scheduled_requests :=
         (nomination_scheduled_requests s)(c := requests_without (owner k) c s)\<rparr>)"
    using remove_request_eq [of "s\<lparr>world := w\<rparr>" c "owner k" "dropped c (amount k) st"]
      requests_distinct [OF inv, of c] by auto
  let ?r = "if length (nom_nominations st) = 1 then None
    else Some ((dropped c (amount k) st)\<lparr>nom_less_total := x\<rparr>)"
  have len: "nom_nominations (dropped c (amount k) st) = [] \<longleftrightarrow> length (nom_nominations st) = 1"
    using rm(5) by auto
  have "\<exists>s1. kick C c (Some k) s = Inr s1 \<and>
      nominator_state s1 = (nominator_state s)(owner k := ?r) \<and>
      nomination_scheduled_requests s1 =
        (nomination_scheduled_requests s)(c := requests_without (owner k) c s)"
    using st w x by (simp add: kick_def kick_nominator_def deposit_event_def Let_def)
  then obtain s1 where s1: "kick C c (Some k) s = Inr s1"
    "nominator_state s1 = (nominator_state s)(owner k := ?r)"
    "nomination_scheduled_requests s1 =
       (nomination_scheduled_requests s)(c := requests_without (owner k) c s)"
    by blast
  note keep = kick_keeps [OF s1(1)]
  have tot: "cm_total_counted m = cm_bond m + noms_total t"
    using bk(2) .
  have "nominator_stakes ?r = (nom_stake s (owner k))(c := None)"
    using rm(2) st len by (auto simp: stakes_def)
  moreover have "book_ok C (refresh C t b1 m) t b1"
    using h(1,3,4) bk(9,11) by (intro book_ok_refresh) auto
  ultimately have "nomination_change C c (owner k) None m t b1 ?r (requests_without (owner k) c s) s
       (s1\<lparr>bottom_nominations := (bottom_nominations s1)(c \<mapsto> b1),
           candidate_info := (candidate_info s1)(c \<mapsto> refresh C t b1 m)\<rparr>)"
    using keep s1(2,3) c tot rm(4) len h(6)
    by (auto simp: nomination_change_def pool_after_def after_kick_def fun_upd_idem)
  then show ?thesis
    using that s1(1) st by blast
qed


definition config_ok :: "'w config \<Rightarrow> bool" where
  "config_ok C \<longleftrightarrow> limits_ok C \<and> max_nominations_per_nominator C \<le> max_nominations"

lemma book_ok_refresh_id: "book_ok C m t b \<Longrightarrow> refresh C t b m = m"
  by (simp add: book_ok_def)

lemma kick_change:
  assumes inv: "staking_inv C s" and lim: "limits_ok C"
    and c: "candidate_info s c = Some m" "top_nominations s c = Some t"
    "bottom_nominations s c = Some b" "book_ok C m t b"
    and sh: "shed C b = (kicked, b1)" and n: "book_stakes t b n = None"
  obtains s1 where "kick C c kicked s = Inr s1" "nominator_state s1 n = nominator_state s n"
    "staking_inv C (s1\<lparr>bottom_nominations := (bottom_nominations s1)(c \<mapsto> b1),
       candidate_info := (candidate_info s1)(c \<mapsto> refresh C t b1 m)\<rparr>)"
    "room_kept 0 s (s1\<lparr>bottom_nominations := (bottom_nominations s1)(c \<mapsto> b1),
       candidate_info := (candidate_info s1)(c \<mapsto> refresh C t b1 m)\<rparr>)"
proof (cases kicked)
  case None
  then have b1: "b1 = b"
    using sh by (auto simp: shed_def split: if_splits)
  have "s\<lparr>bottom_nominations := (bottom_nominations s)(c \<mapsto> b1),
      candidate_info := (candidate_info s)(c \<mapsto> refresh C t b1 m)\<rparr> = s"
    using c b1 book_ok_refresh_id [OF c(4)] by (simp add: fun_upd_idem)
  then show ?thesis
    using that [of s] None inv by (simp add: kick_def)
next
  case (Some k)
  obtain s1 r where s1: "kick C c (Some k) s = Inr s1" "nominator_state s (owner k) \<noteq> None"
    "nomination_change C c (owner k) None m t b1 r (requests_without (owner k) c s) s
       (s1\<lparr>bottom_nominations := (bottom_nominations s1)(c \<mapsto> b1),
           candidate_info := (candidate_info s1)(c \<mapsto> refresh C t b1 m)\<rparr>)"
    using kick_nominator_change [OF inv lim c sh [unfolded Some]] by blast
  have "owner k \<noteq> n"
    using n shed_mem [OF sh [unfolded Some] lim] by (auto simp: book_stakes_def stakes_None)
  then have "nominator_state s1 n = nominator_state s n"
    using s1(3) by (simp add: nomination_change_def)
  moreover have "staking_inv C (s1\<lparr>bottom_nominations := (bottom_nominations s1)(c \<mapsto> b1),
       candidate_info := (candidate_info s1)(c \<mapsto> refresh C t b1 m)\<rparr>)"
    using staking_inv_change [OF inv c(1) s1(3)] requests_without_ok [OF inv] s1(2) by blast
  moreover have "room_kept 0 s (s1\<lparr>bottom_nominations := (bottom_nominations s1)(c \<mapsto> b1),
       candidate_info := (candidate_info s1)(c \<mapsto> refresh C t b1 m)\<rparr>)"
    using room_change [OF inv c(1) s1(3)] by (simp add: stake_of_def)
  ultimately show ?thesis
    using that [of s1] s1(1) Some by simp
qed

lemma add_nomination_old:
  assumes "nominator_ok n st" "stakes (nom_nominations st) c = Some a"
  shows "nominator_add_nomination \<lparr>owner = c, amount = x\<rparr> st = Inr (False, st)"
proof -
  note k = nominator_okD [OF assms(1)]
  have "set_view owner (nom_nominations st) c \<noteq> None"
    using assms(2) by (auto simp: set_view_None stakes_iff [OF k(6)])
  then show ?thesis
    using bounded_try_insert_eq [OF k(2), of max_nominations "\<lparr>owner = c, amount = x\<rparr>"]
    by (simp add: nominator_add_nomination_def)
qed

lemma nominate_nominator_state_result:
  assumes inv: "staking_inv C s" and conf: "config_ok C" and room: "headroom amt s"
  shows "nominate_nominator_state C n c amt cnt s = Inl e \<Longrightarrow> e \<noteq> Panic"
    "nominate_nominator_state C n c amt cnt s = Inr st' \<Longrightarrow>
       nominator_ok n st' \<and> nom_stake s n c = None \<and> 0 < amt \<and>
       (nominator_state s n = None \<longrightarrow> candidate_info s n = None) \<and>
       stakes (nom_nominations st') = (nom_stake s n)(c \<mapsto> amt)"
proof -
  note mins = staking_invD(9) [OF inv, unfolded minimums_ok_def]
  have "(\<forall>e. nominate_nominator_state C n c amt cnt s = Inl e \<longrightarrow> e \<noteq> Panic) \<and>
    (\<forall>st'. nominate_nominator_state C n c amt cnt s = Inr st' \<longrightarrow>
       nominator_ok n st' \<and> nom_stake s n c = None \<and> 0 < amt \<and>
       (nominator_state s n = None \<longrightarrow> candidate_info s n = None) \<and>
       stakes (nom_nominations st') = (nom_stake s n)(c \<mapsto> amt))"
  proof (cases "nominator_state s n")
    case None
    then show ?thesis
      using nominator_new_ok [of n c amt] mins
      by (auto simp: nominate_nominator_state_def is_candidate_def fun_upd_def split: if_splits)
  next
    case (Some st)
    note nok = nominator_known [OF inv Some]
    show ?thesis
    proof (cases "stakes (nom_nominations st) c")
      case None
      have "nom_total st + amt \<le> u128_max"
        using room Some by (auto simp: headroom_def)
      then have "length (nom_nominations st) < max_nominations \<Longrightarrow>
          \<exists>st'. nominator_add_nomination \<lparr>owner = c, amount = amt\<rparr> st = Inr (True, st') \<and>
            nominator_ok n st' \<and> stakes (nom_nominations st') = (stakes (nom_nominations st))(c \<mapsto> amt)"
        using add_nomination_record [OF nok None] by blast
      then show ?thesis
        using Some None conf mins by (auto simp: nominate_nominator_state_def config_ok_def)
    next
      case (Some a)
      then show ?thesis
        using \<open>nominator_state s n = Some st\<close> add_nomination_old [OF nok Some]
        by (auto simp: nominate_nominator_state_def)
    qed
  qed
  then show "nominate_nominator_state C n c amt cnt s = Inl e \<Longrightarrow> e \<noteq> Panic"
    "nominate_nominator_state C n c amt cnt s = Inr st' \<Longrightarrow>
       nominator_ok n st' \<and> nom_stake s n c = None \<and> 0 < amt \<and>
       (nominator_state s n = None \<longrightarrow> candidate_info s n = None) \<and>
       stakes (nom_nominations st') = (nom_stake s n)(c \<mapsto> amt)"
    by auto
qed


lemma admit_shed:
  assumes "admit C x t b = Some (t', b', kicked)" "shed C b = (k, b1)"
    and "length (noms t) = max_top_nominations_per_candidate C"
  shows "kicked = k"
  using assms by (auto simp: admit_def split: if_splits)

lemma admit_no_kick:
  assumes "admit C x t b = Some (t', b', kicked)" "\<not> length (noms t) = max_top_nominations_per_candidate C"
    "ranked C (noms t) (noms b)"
  shows "kicked = None" "b' = b"
  using assms rankedD(7) [OF assms(3)] by (auto simp: admit_def split: if_splits)

text \<open>The book before the new nomination enters it, and the storage then.\<close>

lemma admission_prepared:
  assumes inv: "staking_inv C s" and lim: "limits_ok C"
    and c: "candidate_info s c = Some m" "top_nominations s c = Some t"
    "bottom_nominations s c = Some b" "book_ok C m t b"
    and n: "book_stakes t b (owner x) = None" and ad: "admit C x t b = Some (t', b', kicked)"
  obtains b1 s1 where "kick C c kicked s = Inr s1"
    "nominator_state s1 (owner x) = nominator_state s (owner x)"
    "staking_inv C (s1\<lparr>bottom_nominations := (bottom_nominations s1)(c \<mapsto> b1),
       candidate_info := (candidate_info s1)(c \<mapsto> refresh C t b1 m)\<rparr>)"
    "book_stakes t b1 = after_kick kicked (book_stakes t b)"
    "room_kept 0 s (s1\<lparr>bottom_nominations := (bottom_nominations s1)(c \<mapsto> b1),
       candidate_info := (candidate_info s1)(c \<mapsto> refresh C t b1 m)\<rparr>)"
proof (cases "length (noms t) = max_top_nominations_per_candidate C")
  case True
  obtain k b1 where sh: "shed C b = (k, b1)"
    by (cases "shed C b")
  have k: "kicked = k"
    using admit_shed [OF ad sh True] .
  show ?thesis
    using kick_change [OF inv lim c sh n] shed_ok(6) [OF c(4) lim sh] k that by metis
next
  case False
  have "kicked = None"
    using admit_no_kick(1) [OF ad False book_okD(1) [OF c(4)]] .
  moreover have "s\<lparr>bottom_nominations := (bottom_nominations s)(c \<mapsto> b),
      candidate_info := (candidate_info s)(c \<mapsto> refresh C t b m)\<rparr> = s"
    using c book_ok_refresh_id [OF c(4)] by (simp add: fun_upd_idem)
  ultimately show ?thesis
    using that [of s b] inv by (simp add: kick_def after_kick_def)
qed

lemma nomination_stored:
  assumes lim: "limits_ok C"
    and st: "nominator_ok n st" "nom_stake s n c = None"
    "stakes (nom_nominations st) = (nom_stake s n)(c \<mapsto> amt)"
    and new: "0 < amt" "nominator_state s n = None \<longrightarrow> candidate_info s n = None"
    and m: "candidate_info s c = Some m"
    and tb: "top_nominations s c = Some t" "bottom_nominations s c = Some b" "book_ok C m t b"
    and fresh: "book_stakes t b n = None"
    and max: "cm_bond m + sum_amounts (noms t) + sum_amounts (noms b) + amt \<le> u128_max"
    and ad: "admit C \<lparr>owner = n, amount = amt\<rparr> t b = Some (t', b', kicked)"
    and s1: "kick C c kicked s = Inr s1" "nominator_state s1 n = nominator_state s n"
    "book_stakes t b1 = after_kick kicked (book_stakes t b)"
  defines "s0 \<equiv> s1\<lparr>bottom_nominations := (bottom_nominations s1)(c \<mapsto> b1),
       candidate_info := (candidate_info s1)(c \<mapsto> refresh C t b1 m)\<rparr>"
  assumes inv: "staking_inv C s0"
    and s3: "s3 = (rewrite_book C c t' b' m s1)\<lparr>world := w, total := tot,
        candidate_info := (candidate_info s1)(c \<mapsto> refresh C t' b' m),
        nominator_state := (nominator_state s1)(n \<mapsto> st), events := es\<rparr>"
  shows "staking_inv C s3" "room_kept amt s0 s3"
proof -
  have ok': "book_ok C (refresh C t' b' m) t' b'"
    "book_stakes t' b' = (after_kick kicked (book_stakes t b))(n \<mapsto> amt)"
    using admit_ok [OF tb(3) lim _ _ ad] fresh max by simp_all
  have stk: "cand_stake s0 c n = None"
    using agreeD [OF staking_invD(4) [OF inv], of n c] st(2) s1(2) by (simp add: s0_def)
  have ch: "nomination_change C c n (Some amt) (refresh C t b1 m) t' b' (Some st)
      (nomination_scheduled_requests s0 c) s0 s3"
    using ok' s1(2,3) st kick_keeps [OF s1(1)] tb book_okD(2) [OF tb(3)]
    by (auto simp: nomination_change_def s3 s0_def rewrite_book_def set_book_def)
  have m0: "candidate_info s0 c = Some (refresh C t b1 m)"
    by (simp add: s0_def)
  have "req_nominator q \<noteq> n" if "q \<in> set (nomination_scheduled_requests s0 c)" for q
    using requests_known [OF inv that] stk by (auto simp: request_ok_def)
  moreover have "nominator_state s0 n \<noteq> None \<or> candidate_info s0 n = None"
    using new(2) m s1(2) kick_keeps(4) [OF s1(1)] by (auto simp: s0_def)
  ultimately show "staking_inv C s3"
    using new(1) by (intro staking_inv_change [OF inv m0 ch requests_distinct [OF inv]]) auto
  show "room_kept amt s0 s3"
    using room_change [OF inv m0 ch, of amt] by (simp add: stake_of_def)
qed

lemma nominate_book_room:
  assumes inv: "staking_inv C s" and lim: "limits_ok C" and room: "headroom amt s"
    and st: "nominator_ok n st" "nom_stake s n c = None"
    "stakes (nom_nominations st) = (nom_stake s n)(c \<mapsto> amt)"
    and new: "0 < amt" "nominator_state s n = None \<longrightarrow> candidate_info s n = None"
    and m: "candidate_info s c = Some m"
  shows "safe_room C amt s (and_then (cm_add_nomination C c \<lparr>owner = n, amount = amt\<rparr> m s)
    (\<lambda>(m', pos, less, s1). and_then (adjust_bond_lock C st (BondIncrease amt) s1) (\<lambda>s2.
       Inr (deposit_event (Nomination n amt c pos)
         (s2\<lparr>total := sat_add (total s2) (f less), candidate_info := (candidate_info s2)(c \<mapsto> m'),
            nominator_state := (nominator_state s2)(n \<mapsto> st)\<rparr>)))))"
proof -
  note i = staking_invD [OF inv]
  let ?x = "\<lparr>owner = n, amount = amt\<rparr>"
  obtain t b where tb: "top_nominations s c = Some t" "bottom_nominations s c = Some b"
    "book_ok C m t b"
    using candidates_okE [OF i(1) m] by blast
  have fresh: "book_stakes t b (owner ?x) = None"
    using agreeD [OF i(4), of n c] st(2) tb by simp
  have max: "cm_bond m + sum_amounts (noms t) + sum_amounts (noms b) + amount ?x \<le> u128_max"
    using room m tb by (auto simp: headroom_def)
  note eq = add_nomination_eq [OF tb(3) lim tb(1,2) fresh max]
  show ?thesis
  proof (cases "admit C ?x t b")
    case None
    then show ?thesis
      by (simp add: eq admitted_def)
  next
    case (Some r)
    obtain t' b' kicked where ad: "admit C ?x t b = Some (t', b', kicked)"
      using Some by (cases r) auto
    obtain b1 s1 where s1: "kick C c kicked s = Inr s1"
      "nominator_state s1 (owner ?x) = nominator_state s (owner ?x)"
      "staking_inv C (s1\<lparr>bottom_nominations := (bottom_nominations s1)(c \<mapsto> b1),
         candidate_info := (candidate_info s1)(c \<mapsto> refresh C t b1 m)\<rparr>)"
      "book_stakes t b1 = after_kick kicked (book_stakes t b)"
      "room_kept 0 s (s1\<lparr>bottom_nominations := (bottom_nominations s1)(c \<mapsto> b1),
         candidate_info := (candidate_info s1)(c \<mapsto> refresh C t b1 m)\<rparr>)"
      using admission_prepared [OF inv lim m tb fresh ad] by blast
    show ?thesis
    proof (cases "adjust_bond_lock C st (BondIncrease amt) (rewrite_book C c t' b' m s1)")
      case (Inl e)
      then show ?thesis
        using adjust_bond_lock_result(1) [OF Inl] by (simp add: eq admitted_def ad s1(1))
    next
      case (Inr s2)
      then obtain w where "s2 = (rewrite_book C c t' b' m s1)\<lparr>world := w\<rparr>"
        using adjust_bond_lock_result(2) by blast
      then show ?thesis
        using Inr nomination_stored [OF lim st new m tb fresh [simplified] max [simplified] ad s1(1) _ s1(4) s1(3)]
          s1(2) room_kept_trans [OF s1(5)]
        by (simp add: eq admitted_def ad s1(1) rewrite_book_def set_book_def deposit_event_def)
    qed
  qed
qed

lemma call_nominate_room:
  assumes inv: "staking_inv C s" and conf: "config_ok C" and room: "headroom amt s"
  shows "safe_room C amt s (call_nominate C n c amt cnc nc s)"
proof -
  have lim: "limits_ok C"
    using conf by (simp add: config_ok_def)
  note ns = nominate_nominator_state_result [OF inv conf room, of n c nc]
  show ?thesis
    using ns nominate_book_room [OF inv lim room]
    by (cases "nominate_nominator_state C n c amt nc s"; cases "candidate_info s c")
      (auto simp: call_nominate_def Let_def)
qed

lemmas call_nominate_safe = call_nominate_room [THEN safe_roomD]

end
