(* ===== verification/Staking_Keep_Requests.thy ===== *)
theory Staking_Keep_Requests
  imports Staking_Keep
begin

text \<open>
  Scheduling, cancelling and executing the requests of one nomination
  (\<open>nomination_requests.rs\<close>) keeps the pallet's invariant and does not panic.
\<close>

section \<open>Scheduling and cancelling\<close>

text \<open>Only the requests for \<open>c\<close> and the pending total of \<open>n\<close> change.\<close>

lemma staking_inv_requests:
  assumes inv: "staking_inv C s" and st: "nominator_state s n = Some st"
    and s': "candidate_info s' = candidate_info s" "top_nominations s' = top_nominations s"
    "bottom_nominations s' = bottom_nominations s" "candidate_pool s' = candidate_pool s"
    "nominator_state s' = (nominator_state s)(n \<mapsto> st\<lparr>nom_less_total := x\<rparr>)"
    "min_total_nominator_stake s' = min_total_nominator_stake s"
    and rq: "\<And>c. distinct (map req_nominator (nomination_scheduled_requests s' c))"
    "\<And>c q. q \<in> set (nomination_scheduled_requests s' c) \<Longrightarrow> request_ok (cand_stake s c) q"
  shows "staking_inv C s'"
proof -
  note i = staking_invD [OF inv]
  have "candidates_ok C s'" "pool_ok C s'"
    using i(1,2) s' by (simp_all add: candidates_ok_def pool_ok_def)
  moreover have "nominators_ok s'"
    using nominators_ok_upd [OF i(3) s'(5)] nominator_known [OF inv st] by simp
  moreover have "agree s'"
    using i(4) s' st by (auto simp: agree_def dest: spec [of _ n])
  moreover have "requests_ok s'"
    using rq s' by (simp add: requests_ok_def)
  moreover have "positive s'" "apart s'" "unbonds_ok s'" "minimums_ok C s'"
    using i(6-9) s' st
    by (auto simp: positive_def apart_def unbonds_ok_def minimums_ok_def dest: spec [of _ n])
  ultimately show ?thesis
    by (simp add: staking_inv_def)
qed

lemma get_bond_amount_stakes:
  assumes "nominator_ok n st"
  shows "get_bond_amount c st = stakes (nom_nominations st) c"
proof (cases "find (\<lambda>b. owner b = c) (nom_nominations st)")
  case None
  then have "stakes (nom_nominations st) c = None"
    by (auto simp: find_None_iff stakes_None)
  then show ?thesis
    using None by (simp add: get_bond_amount_def)
next
  case (Some d)
  then have "d \<in> set (nom_nominations st)" "owner d = c"
    by (auto simp: find_Some_iff)
  then show ?thesis
    using Some stakes_iff [OF nominator_okD(6) [OF assms], of c "amount d"]
    by (auto simp: get_bond_amount_def)
qed

lemma nom_stake_known:
  assumes "staking_inv C s" "nominator_state s n = Some st"
  shows "cand_stake s c n = stakes (nom_nominations st) c"
  using agreeD [OF staking_invD(4) [OF assms(1)], of n c] assms(2) by simp

text \<open>A new request goes to the end of the list, when there is room.\<close>

lemma pushed_request_ok:
  assumes inv: "staking_inv C s" and st: "nominator_state s n = Some st"
    and none: "\<not> list_ex (\<lambda>r. req_nominator r = n) (nomination_scheduled_requests s c)"
    and push: "try_push bound q (nomination_scheduled_requests s c) = Some rq"
    and q: "req_nominator q = n" "request_ok (cand_stake s c) q"
    and s': "s' = s\<lparr>nomination_scheduled_requests := (nomination_scheduled_requests s)(c := rq),
        nominator_state := (nominator_state s)(n \<mapsto> st\<lparr>nom_less_total := x\<rparr>), events := es\<rparr>"
  shows "staking_inv C s'"
proof -
  have rq: "rq = nomination_scheduled_requests s c @ [q]"
    using push by (auto simp: try_push_def split: if_splits)
  show ?thesis
  proof (rule staking_inv_requests [OF inv st])
    show "distinct (map req_nominator (nomination_scheduled_requests s' c'))" for c'
      using requests_distinct [OF inv, of c'] none q(1) by (auto simp: s' rq list_ex_iff)
    show "request_ok (cand_stake s c') r" if "r \<in> set (nomination_scheduled_requests s' c')" for c' r
      using that requests_known [OF inv, of r c'] q(2) by (auto simp: s' rq split: if_splits)
  qed (simp_all add: s')
qed

lemma schedule_revoke_safe:
  assumes inv: "staking_inv C s"
  shows "safe C (nomination_schedule_revoke C c n s)"
proof (cases "nominator_state s n")
  case (Some st)
  note nok = nominator_known [OF inv Some]
  note k = nom_stake_known [OF inv Some, of c]
  show ?thesis
    using pushed_request_ok [OF inv Some] get_bond_amount_stakes [OF nok, of c] k Some inv
    by (cases "stakes (nom_nominations st) c")
      (auto simp: nomination_schedule_revoke_def Let_def deposit_event_def request_ok_def
        split: option.splits)
qed (simp add: nomination_schedule_revoke_def)

lemma schedule_bond_decrease_safe:
  assumes inv: "staking_inv C s"
  shows "safe C (nomination_schedule_bond_decrease C c n x s)"
proof (cases "nominator_state s n")
  case (Some st)
  note nok = nominator_known [OF inv Some]
  note k = nom_stake_known [OF inv Some, of c]
  show ?thesis
    using pushed_request_ok [OF inv Some] get_bond_amount_stakes [OF nok, of c] k Some inv
    by (cases "stakes (nom_nominations st) c")
      (auto simp: nomination_schedule_bond_decrease_def Let_def deposit_event_def request_ok_def
        split: option.splits)
qed (simp add: nomination_schedule_bond_decrease_def)

lemma cancel_request_with_state_eq:
  assumes "distinct (map req_nominator rq)" "cancel_request_with_state n st rq = Some (q, st', rq')"
  shows "\<exists>x. st' = st\<lparr>nom_less_total := x\<rparr>" "rq' = filter (\<lambda>r. req_nominator r \<noteq> n) rq"
    "q \<in> set rq" "req_nominator q = n"
  using assms remove_at_filter [OF assms(1)] position_SomeD
  by (fastforce simp: cancel_request_with_state_def split: option.splits)+

lemma cancel_request_safe:
  assumes inv: "staking_inv C s"
  shows "safe C (nomination_cancel_request c n s)"
proof (cases "nominator_state s n")
  case (Some st)
  show ?thesis
  proof (cases "cancel_request_with_state n st (nomination_scheduled_requests s c)")
    case None
    then show ?thesis
      using Some by (simp add: nomination_cancel_request_def)
  next
    case (Some r)
    obtain q st' rq' where r: "cancel_request_with_state n st (nomination_scheduled_requests s c) =
        Some (q, st', rq')"
      using Some by (cases r) auto
    note e = cancel_request_with_state_eq [OF requests_distinct [OF inv] r]
    obtain x where x: "st' = st\<lparr>nom_less_total := x\<rparr>"
      using e(1) by blast
    let ?s = "deposit_event (CancelledNominationRequest n (req_when_executable q) (req_action q) c)
      (s\<lparr>nomination_scheduled_requests := (nomination_scheduled_requests s)(c := rq'),
         nominator_state := (nominator_state s)(n \<mapsto> st')\<rparr>)"
    have "staking_inv C ?s"
    proof (rule staking_inv_requests [OF inv \<open>nominator_state s n = Some st\<close>])
      show "distinct (map req_nominator (nomination_scheduled_requests ?s c'))" for c'
        using requests_distinct [OF inv, of c'] requests_distinct [OF inv, of c] e(2)
        by (simp add: deposit_event_def distinct_map_filter)
      show "request_ok (cand_stake s c') r"
        if "r \<in> set (nomination_scheduled_requests ?s c')" for c' r
        using that requests_known [OF inv, of r c'] e(2)
        by (auto simp: deposit_event_def split: if_splits)
    qed (simp_all add: deposit_event_def x)
    then show ?thesis
      using \<open>nominator_state s n = Some st\<close> r by (simp add: nomination_cancel_request_def)
  qed
qed (simp add: nomination_cancel_request_def)

section \<open>Executing one request\<close>

text \<open>What \<open>nominator_leaves_candidate\<close> does when the nomination is there.\<close>

lemma leaves_candidate_result:
  assumes c: "candidate_info s c = Some m" "top_nominations s c = Some t"
    "bottom_nominations s c = Some b" "book_ok C m t b" "book_stakes t b n = Some a"
    and lim: "limits_ok C"
  obtains t' b' s' where "nominator_leaves_candidate C c n a s = Inr s'"
    "candidate_info s' = (candidate_info s)(c \<mapsto> refresh C t' b' m)"
    "top_nominations s' = (top_nominations s)(c \<mapsto> t')"
    "bottom_nominations s' = (bottom_nominations s)(c \<mapsto> b')"
    "candidate_pool s' = pool_after C c (is_active m) (cm_total_counted m) (cm_bond m + noms_total t')
       (candidate_pool s)"
    "nominator_state s' = nominator_state s"
    "nomination_scheduled_requests s' = nomination_scheduled_requests s"
    "min_total_nominator_stake s' = min_total_nominator_stake s"
    "book_ok C (refresh C t' b' m) t' b'" "book_stakes t' b' = (book_stakes t b)(n := None)"
proof -
  obtain t' b' flag where u: "rm_nomination_if_exists C c n a m s =
      Inr (refresh C t' b' m, flag, rewrite_book C c t' b' m s)"
    "book_ok C (refresh C t' b' m) t' b'" "book_stakes t' b' = (book_stakes t b)(n := None)"
    using rm_nomination_update [OF c(4) lim c(2,3,5)] by (auto simp: book_update_def)
  let ?s = "deposit_event (NominatorLeftCandidate n c a (cm_total_counted (refresh C t' b' m)))
    ((rewrite_book C c t' b' m s)\<lparr>total := total (rewrite_book C c t' b' m s) - a,
       candidate_info := (candidate_info s)(c \<mapsto> refresh C t' b' m)\<rparr>)"
  have "nominator_leaves_candidate C c n a s = Inr ?s"
    using c(1) u(1) by (simp add: nominator_leaves_candidate_def rewrite_book_def set_book_def)
  then show ?thesis
    using that [of _ t' b'] u(2,3) by (simp add: deposit_event_def rewrite_book_def set_book_def)
qed

text \<open>Removing the requests of \<open>n\<close> together with its nomination.\<close>

lemma staking_inv_change_without:
  assumes inv: "staking_inv C s" and m: "candidate_info s c = Some m"
    and ch: "nomination_change C c n v m t b r (requests_without n c s) s s'"
    and v: "v \<noteq> Some 0" "nominator_state s n \<noteq> None"
  shows "staking_inv C s'"
  by (rule staking_inv_change [OF inv m ch])
    (use requests_distinct [OF inv, of c] v in \<open>simp_all add: distinct_map_filter\<close>)

text \<open>
  \<open>changes C c n v s r\<close>: the result \<open>r\<close> is an error, or a storage in which the stake of \<open>n\<close> on \<open>c\<close>
  is \<open>v\<close> and the requests of \<open>n\<close> for \<open>c\<close> are gone.
\<close>

definition changes ::
  "'w config \<Rightarrow> account \<Rightarrow> account \<Rightarrow> balance option \<Rightarrow> 'w staking \<Rightarrow> staking_error + 'w staking \<Rightarrow> bool" where
  "changes C c n v s res \<longleftrightarrow>
     (case res of
        Inl e \<Rightarrow> e \<noteq> Panic
      | Inr s' \<Rightarrow> \<exists>m t b r. candidate_info s c = Some m \<and>
          nomination_change C c n v m t b r (requests_without n c s) s s')"

lemma changes_Inl [simp]: "changes C c n v s (Inl e) \<longleftrightarrow> e \<noteq> Panic"
  by (simp add: changes_def)

lemma changes_safe:
  assumes "staking_inv C s" "changes C c n v s r" "v \<noteq> Some 0" "nominator_state s n \<noteq> None"
  shows "safe C r"
  using assms staking_inv_change_without [OF assms(1)]
  by (cases r) (auto simp: changes_def)

lemma execute_revoke_changes:
  assumes inv: "staking_inv C s" and lim: "limits_ok C" and st: "nominator_state s n = Some st"
    and has: "stakes (nom_nominations st) c = Some a"
    and req: "position (\<lambda>r. req_nominator r = n) (nomination_scheduled_requests s c) = Some i"
    "req_action (nomination_scheduled_requests s c ! i) = Revoke a"
  shows "changes C c n None s (execute_revoke C c n st (nomination_scheduled_requests s c) i s)"
proof -
  obtain m t b where c: "candidate_info s c = Some m" "top_nominations s c = Some t"
    "bottom_nominations s c = Some b" "book_ok C m t b" "book_stakes t b n = Some a"
    using nomination_known [OF inv st has] by blast
  let ?st = "st\<lparr>nom_less_total := nom_less_total st - a\<rparr>"
  have nok: "nominator_ok n ?st"
    using nominator_known [OF inv st] by simp
  have has': "stakes (nom_nominations ?st) c = Some a"
    using has by simp
  note rm = rm_nomination_record(2-5) [OF nok has']
  obtain w where w: "nominator_rm_nomination C c ?st s =
      Inr (Some (nom_total ?st - a), dropped c a ?st, s\<lparr>world := w\<rparr>)"
    using rm_nomination_record(1) [OF nok has', where C = C and s = s] by (rule exE)
  obtain t' b' s1 where l: "nominator_leaves_candidate C c n a (s\<lparr>world := w\<rparr>) = Inr s1"
    "candidate_info s1 = (candidate_info s)(c \<mapsto> refresh C t' b' m)"
    "top_nominations s1 = (top_nominations s)(c \<mapsto> t')"
    "bottom_nominations s1 = (bottom_nominations s)(c \<mapsto> b')"
    "candidate_pool s1 = pool_after C c (is_active m) (cm_total_counted m) (cm_bond m + noms_total t')
       (candidate_pool s)"
    "nominator_state s1 = nominator_state s"
    "nomination_scheduled_requests s1 = nomination_scheduled_requests s"
    "min_total_nominator_stake s1 = min_total_nominator_stake s"
    "book_ok C (refresh C t' b' m) t' b'" "book_stakes t' b' = (book_stakes t b)(n := None)"
    by (rule leaves_candidate_result [of "s\<lparr>world := w\<rparr>" c m t b C n a]) (use c lim in simp_all)
  have rq: "remove_at i (nomination_scheduled_requests s c) = requests_without n c s"
    using remove_at_filter [OF requests_distinct [OF inv] req(1)] .
  let ?r = "if length (nom_nominations st) = 1 then None else Some (dropped c a ?st)"
  have len: "nom_nominations (dropped c a ?st) = [] \<longleftrightarrow> length (nom_nominations st) = 1"
    using rm(4) by auto
  have r: "nominator_stakes ?r = (nom_stake s n)(c := None)" "\<And>x. ?r = Some x \<Longrightarrow> nominator_ok n x"
    using rm(1,3) st len by (auto simp: stakes_def split: if_splits)
  have keep: "changes C c n None s (Inr s')"
    if "candidate_info s' = candidate_info s1" "top_nominations s' = top_nominations s1"
      "bottom_nominations s' = bottom_nominations s1" "candidate_pool s' = candidate_pool s1"
      "nominator_state s' = (nominator_state s)(n := ?r)"
      "nomination_scheduled_requests s' =
         (nomination_scheduled_requests s)(c := requests_without n c s)"
      "min_total_nominator_stake s' = min_total_nominator_stake s" for s'
  proof -
    have "nomination_change C c n None m t' b' ?r (requests_without n c s) s s'"
      using that l c r by (auto simp: nomination_change_def)
    then show ?thesis
      using c(1) unfolding changes_def by fastforce
  qed
  show ?thesis
    using req w l(1,6,7,8) rq
    by (auto simp: execute_revoke_def Let_def deposit_event_def intro!: keep split: if_splits)
qed

lemma shrunk_record:
  fixes y :: balance
  assumes ok: "nominator_ok n st" and has: "stakes (nom_nominations st) c = Some a" and less: "x < a"
  defines "st' \<equiv> (reset_stake c (a - x) st)\<lparr>nom_less_total := y, nom_total := nom_total st - x\<rparr>"
  shows "nominator_ok n st'" "stakes (nom_nominations st') = (stakes (nom_nominations st))(c \<mapsto> a - x)"
    "\<exists>j. position (\<lambda>b. owner b = c) (nom_nominations st) = Some j \<and>
       amount (nom_nominations st ! j) = a \<and>
       st\<lparr>nom_less_total := y, nom_nominations := (nom_nominations st)
             [j := (nom_nominations st ! j)\<lparr>amount := a - x\<rparr>], nom_total := nom_total st - x\<rparr> = st'"
proof -
  obtain j where "position (\<lambda>b. owner b = c) (nom_nominations st) = Some j"
    "amount (nom_nominations st ! j) = a"
    "st\<lparr>nom_nominations := (nom_nominations st)[j := (nom_nominations st ! j)\<lparr>amount := a - x\<rparr>]\<rparr>
       = reset_stake c (a - x) st"
    using reset_stake_ok(3) [OF ok has, of "a - x"] by blast
  then show "\<exists>j. position (\<lambda>b. owner b = c) (nom_nominations st) = Some j \<and>
       amount (nom_nominations st ! j) = a \<and>
       st\<lparr>nom_less_total := y, nom_nominations := (nom_nominations st)
             [j := (nom_nominations st ! j)\<lparr>amount := a - x\<rparr>], nom_total := nom_total st - x\<rparr> = st'"
    unfolding st'_def by (intro exI [of _ j]) (cases st, auto simp: reset_stake_def)
  have "nom_total st - x + a = nom_total st + (a - x)"
    using stake_le_total [OF ok has] less by simp
  then have "nominator_ok n ((reset_stake c (a - x) st)\<lparr>nom_total := nom_total st - x\<rparr>)"
    using reset_stake_ok(2) [OF ok has] by blast
  then show "nominator_ok n st'"
    by (simp add: st'_def nominator_ok_def)
  show "stakes (nom_nominations st') = (stakes (nom_nominations st))(c \<mapsto> a - x)"
    using reset_stake_ok(1) [OF ok has, of "a - x"] by (simp add: st'_def)
qed

lemma lock_decrease_result: "\<exists>w. adjust_bond_lock C st BondDecrease s = Inr (s\<lparr>world := w\<rparr>)"
  by (auto simp: adjust_bond_lock_def Let_def)

lemma execute_decrease_changes:
  assumes inv: "staking_inv C s" and lim: "limits_ok C" and st: "nominator_state s n = Some st"
    and has: "stakes (nom_nominations st) c = Some a" and less: "x < a"
    and req: "position (\<lambda>r. req_nominator r = n) (nomination_scheduled_requests s c) = Some i"
    "req_action (nomination_scheduled_requests s c ! i) = Decrease x"
  shows "changes C c n (Some (a - x)) s
    (execute_decrease C c n st (nomination_scheduled_requests s c) i s)"
proof -
  obtain m t b where c: "candidate_info s c = Some m" "top_nominations s c = Some t"
    "bottom_nominations s c = Some b" "book_ok C m t b" "book_stakes t b n = Some a"
    using nomination_known [OF inv st has] by blast
  let ?st = "(reset_stake c (a - x) st)\<lparr>nom_less_total := nom_less_total st - x,
    nom_total := nom_total st - x\<rparr>"
  note g = shrunk_record [OF nominator_known [OF inv st] has less, of "nom_less_total st - x"]
  obtain j where j: "position (\<lambda>b. owner b = c) (nom_nominations st) = Some j"
    "amount (nom_nominations st ! j) = a"
    "st\<lparr>nom_less_total := nom_less_total st - x, nom_nominations := (nom_nominations st)
        [j := (nom_nominations st ! j)\<lparr>amount := a - x\<rparr>], nom_total := nom_total st - x\<rparr> = ?st"
    using g(3) by blast
  obtain w where w: "adjust_bond_lock C ?st BondDecrease s = Inr (s\<lparr>world := w\<rparr>)"
    using lock_decrease_result [of C ?st s] by (rule exE)
  let ?s = "s\<lparr>world := w\<rparr>"
  have at1: "top_nominations ?s c = Some t" "bottom_nominations ?s c = Some b"
    using c by simp_all
  obtain t' b' flag where u: "cm_decrease_nomination C c n a x m ?s =
      Inr (refresh C t' b' m, flag, rewrite_book C c t' b' m ?s)"
    "book_ok C (refresh C t' b' m) t' b'" "book_stakes t' b' = (book_stakes t b)(n \<mapsto> a - x)"
    using decrease_nomination_update [OF c(4) lim at1 c(5), of x] less
    by (auto simp: book_update_def)
  have rq: "remove_at i (nomination_scheduled_requests s c) = requests_without n c s"
    using remove_at_filter [OF requests_distinct [OF inv] req(1)] .
  have keep: "changes C c n (Some (a - x)) s (Inr s')"
    if "candidate_info s' = (candidate_info s)(c \<mapsto> refresh C t' b' m)"
      "top_nominations s' = (top_nominations s)(c \<mapsto> t')"
      "bottom_nominations s' = (bottom_nominations s)(c \<mapsto> b')"
      "candidate_pool s' = pool_after C c (is_active m) (cm_total_counted m)
         (cm_bond m + noms_total t') (candidate_pool s)"
      "nominator_state s' = (nominator_state s)(n \<mapsto> ?st)"
      "nomination_scheduled_requests s' =
         (nomination_scheduled_requests s)(c := requests_without n c s)"
      "min_total_nominator_stake s' = min_total_nominator_stake s" for s'
  proof -
    have "nomination_change C c n (Some (a - x)) m t' b' (Some ?st) (requests_without n c s) s s'"
      using that u(2,3) c st g(1,2) by (auto simp: nomination_change_def)
    then show ?thesis
      using c(1) unfolding changes_def by fastforce
  qed
  show ?thesis
    using req(2) w j c(1) u(1) less rq
    by (simp add: execute_decrease_def total_sub_if_def Let_def deposit_event_def
        rewrite_book_def set_book_def keep)
qed

text \<open>What is left of the stake \<open>a\<close> when an action on it has been executed.\<close>

definition after_action :: "nomination_action \<Rightarrow> balance \<Rightarrow> balance option" where
  "after_action act a = (case act of Revoke _ \<Rightarrow> None | Decrease x \<Rightarrow> Some (a - x))"

lemma execute_scheduled_request_changes:
  assumes inv: "staking_inv C s" and lim: "limits_ok C"
    and q: "position (\<lambda>r. req_nominator r = n) (nomination_scheduled_requests s c) = Some i"
  obtains a where "nom_stake s n c = Some a"
    "after_action (req_action (nomination_scheduled_requests s c ! i)) a \<noteq> Some 0"
    "changes C c n (after_action (req_action (nomination_scheduled_requests s c ! i)) a) s
       (nomination_execute_scheduled_request C c n s)"
proof -
  let ?q = "nomination_scheduled_requests s c ! i"
  have mem: "?q \<in> set (nomination_scheduled_requests s c)" "req_nominator ?q = n"
    using position_SomeD [OF q] by auto
  obtain a where a: "nom_stake s n c = Some a"
    and act: "case req_action ?q of Revoke x \<Rightarrow> x = a | Decrease x \<Rightarrow> x < a"
    using requests_known [OF inv mem(1)] mem(2) agreeD [OF staking_invD(4) [OF inv], of n c]
    by (cases "cand_stake s c n") (simp_all add: request_ok_def)
  obtain st where st: "nominator_state s n = Some st" "stakes (nom_nominations st) c = Some a"
    using a by (cases "nominator_state s n") auto
  show ?thesis
  proof (rule that [OF a])
    show "after_action (req_action ?q) a \<noteq> Some 0"
      using act by (cases "req_action ?q") (simp_all add: after_action_def)
    show "changes C c n (after_action (req_action ?q) a) s (nomination_execute_scheduled_request C c n s)"
      using act st(1) q execute_revoke_changes [OF inv lim st q]
        execute_decrease_changes [OF inv lim st _ q]
      by (cases "req_action ?q")
        (simp_all add: nomination_execute_scheduled_request_def Let_def after_action_def)
  qed
qed

lemma execute_scheduled_request_safe:
  assumes inv: "staking_inv C s" and lim: "limits_ok C"
  shows "safe C (nomination_execute_scheduled_request C c n s)"
proof (cases "nominator_state s n = None \<or>
    position (\<lambda>r. req_nominator r = n) (nomination_scheduled_requests s c) = None")
  case True
  then show ?thesis
    by (cases "nominator_state s n") (auto simp: nomination_execute_scheduled_request_def)
next
  case False
  then obtain i where i: "position (\<lambda>r. req_nominator r = n) (nomination_scheduled_requests s c) = Some i"
    by auto
  show ?thesis
    by (rule execute_scheduled_request_changes [OF inv lim i])
      (rule changes_safe [OF inv], use False in auto)
qed

end
