(* ===== verification/Staking_Keep_All.thy ===== *)
theory Staking_Keep_All
  imports Staking_Keep_Requests
begin

text \<open>
  Leaving the set of nominators (\<open>nomination_requests.rs\<close>): scheduling, cancelling and
  executing the revocation of every nomination keeps the pallet's invariant and does not
  panic.
\<close>

section \<open>Writing back the updated request lists\<close>

lemma fold_updates:
  "fold (\<lambda>(c, rq) m. m(c := rq)) ups f c = f c \<or> (c, fold (\<lambda>(c, rq) m. m(c := rq)) ups f c) \<in> set ups"
proof (induction ups arbitrary: f)
  case (Cons u ups)
  then show ?case
    by (cases u) (metis (no_types, lifting) case_prod_conv fold_simps(2) fun_upd_other
        fun_upd_same list.set_intros(1) list.set_intros(2))
qed simp

lemma inserted_requests:
  "nomination_scheduled_requests (insert_requests ups s) c = nomination_scheduled_requests s c \<or>
   (c, nomination_scheduled_requests (insert_requests ups s) c) \<in> set ups"
  using fold_updates [of ups "nomination_scheduled_requests s" c] by (simp add: insert_requests_def)

text \<open>A list in which the requests of \<open>n\<close> are replaced by at most one new request.\<close>

definition replaced :: "account \<Rightarrow> 'w staking \<Rightarrow> account \<times> scheduled_request list \<Rightarrow> bool" where
  "replaced n s u = (case u of (c, rq) \<Rightarrow>
     rq = requests_without n c s \<or>
     (\<exists>q. rq = requests_without n c s @ [q] \<and> req_nominator q = n \<and> request_ok (cand_stake s c) q))"

lemma replaced_ok:
  assumes inv: "staking_inv C s" and r: "replaced n s (c, rq)"
  shows "distinct (map req_nominator rq)" "q \<in> set rq \<Longrightarrow> request_ok (cand_stake s c) q"
  using requests_distinct [OF inv, of c] r requests_known [OF inv, of q c]
  by (auto simp: replaced_def distinct_map_filter)

lemma staking_inv_replaced:
  assumes inv: "staking_inv C s" and st: "nominator_state s n = Some st"
    and ups: "\<And>u. u \<in> set ups \<Longrightarrow> replaced n s u"
    and s': "s' = s\<lparr>nomination_scheduled_requests := nomination_scheduled_requests (insert_requests ups s),
      nominator_state := (nominator_state s)(n \<mapsto> st\<lparr>nom_less_total := x\<rparr>), events := es\<rparr>"
  shows "staking_inv C s'"
proof (rule staking_inv_requests [OF inv st])
  have r: "nomination_scheduled_requests s' c = nomination_scheduled_requests s c \<or>
      replaced n s (c, nomination_scheduled_requests s' c)" for c
    using inserted_requests [of ups s c] ups by (auto simp: s')
  show "distinct (map req_nominator (nomination_scheduled_requests s' c))" for c
    using r [of c] replaced_ok(1) [OF inv] requests_distinct [OF inv, of c] by auto
  show "request_ok (cand_stake s c) q" if "q \<in> set (nomination_scheduled_requests s' c)" for c q
    using r [of c] replaced_ok(2) [OF inv] requests_known [OF inv, of q c] that by auto
qed (simp_all add: s')

section \<open>Scheduling and cancelling\<close>

lemma no_request_filter:
  "cancel_request_with_state n st (nomination_scheduled_requests s c) = None \<Longrightarrow>
     requests_without n c s = nomination_scheduled_requests s c"
  by (auto simp: cancel_request_with_state_def position_None filter_id_conv split: option.splits)

lemma revoke_all_step_result:
  assumes inv: "staking_inv C s" and has: "cand_stake s (owner b) n = Some (amount b)"
    and step: "revoke_all_step C n due s b (st, k, ups) = (st', k', ups')"
  shows "\<exists>x new. st' = st\<lparr>nom_less_total := x\<rparr> \<and> ups' = ups @ new \<and> (\<forall>u\<in>set new. replaced n s u)"
proof (cases "cancel_request_with_state n st (nomination_scheduled_requests s (owner b))")
  case None
  have "request_ok (cand_stake s (owner b))
      \<lparr>req_nominator = n, req_when_executable = due, req_action = Revoke (amount b)\<rparr>"
    using has by (simp add: request_ok_def)
  then show ?thesis
    using step None no_request_filter [OF None]
    by (auto simp: revoke_all_step_def Let_def try_push_def replaced_def split: if_splits
        intro: exI [of _ "nom_less_total st"])
next
  case (Some r)
  obtain q st1 rq where r: "cancel_request_with_state n st
      (nomination_scheduled_requests s (owner b)) = Some (q, st1, rq)"
    using Some by (cases r) auto
  note e = cancel_request_with_state_eq [OF requests_distinct [OF inv] r]
  obtain x where x: "st1 = st\<lparr>nom_less_total := x\<rparr>"
    using e(1) by blast
  have "request_ok (cand_stake s (owner b)) q"
    using requests_known [OF inv e(3)] .
  moreover have "request_ok (cand_stake s (owner b))
      \<lparr>req_nominator = n, req_when_executable = due, req_action = Revoke (amount b)\<rparr>"
    using has by (simp add: request_ok_def)
  ultimately show ?thesis
    using step r e(2,4) x
    by (auto simp: revoke_all_step_def Let_def try_push_def replaced_def split: if_splits)
qed

lemma revoke_all_fold:
  assumes inv: "staking_inv C s"
    and has: "\<forall>b\<in>set bs. cand_stake s (owner b) n = Some (amount b)"
    and "fold (revoke_all_step C n due s) bs (st, k, ups) = (st', k', ups')"
  shows "\<exists>x new. st' = st\<lparr>nom_less_total := x\<rparr> \<and> ups' = ups @ new \<and> (\<forall>u\<in>set new. replaced n s u)"
  using has assms(3)
proof (induction bs arbitrary: st k ups)
  case Nil
  then show ?case
    by (auto intro: exI [of _ "nom_less_total st"])
next
  case (Cons b bs)
  obtain st1 k1 ups1 where s1: "revoke_all_step C n due s b (st, k, ups) = (st1, k1, ups1)"
    by (metis prod_cases3)
  have hb: "cand_stake s (owner b) n = Some (amount b)"
    using Cons.prems(1) by simp
  obtain x new where 1: "st1 = st\<lparr>nom_less_total := x\<rparr>" "ups1 = ups @ new"
    "\<forall>u\<in>set new. replaced n s u"
    using revoke_all_step_result [OF inv hb s1] by blast
  obtain x' new' where 2: "st' = st1\<lparr>nom_less_total := x'\<rparr>" "ups' = ups1 @ new'"
    "\<forall>u\<in>set new'. replaced n s u"
    using Cons.IH [of st1 k1 ups1] Cons.prems s1 by auto
  show ?case
    using 1 2 by (intro exI [of _ x'] exI [of _ "new @ new'"]) auto
qed

lemma nominations_staked:
  assumes inv: "staking_inv C s" and st: "nominator_state s n = Some st"
    and b: "b \<in> set (nom_nominations st)"
  shows "cand_stake s (owner b) n = Some (amount b)"
  using nom_stake_known [OF inv st, of "owner b"] b
    stakes_iff [OF nominator_okD(6) [OF nominator_known [OF inv st]], of "owner b" "amount b"]
  by auto

lemma schedule_revoke_all_safe:
  assumes inv: "staking_inv C s"
  shows "safe C (nominator_schedule_revoke_all C n s)"
proof (cases "nominator_state s n")
  case (Some st)
  let ?due = "sat_add32 (era_current (era s)) (delay s)"
  obtain st' k ups where f: "fold (revoke_all_step C n ?due s) (nom_nominations st) (st, 0, []) =
      (st', k, ups)"
    by (metis prod_cases3)
  obtain x where "st' = st\<lparr>nom_less_total := x\<rparr>" "\<forall>u\<in>set ups. replaced n s u"
    using revoke_all_fold [OF inv _ f] nominations_staked [OF inv Some] by auto
  then show ?thesis
    using Some f staking_inv_replaced [OF inv Some, of ups, OF _ refl]
    by (simp add: nominator_schedule_revoke_all_def Let_def deposit_event_def insert_requests_def)
qed (simp add: nominator_schedule_revoke_all_def)

lemma cancel_all_fold:
  assumes inv: "staking_inv C s" and
    "fold (\<lambda>b (st, ups). let reqs = nomination_scheduled_requests s (owner b) in
        case cancel_request_with_state n st reqs of
          Some (_, st', reqs') \<Rightarrow> (st', ups @ [(owner b, reqs')])
        | None \<Rightarrow> (st, ups @ [(owner b, reqs)])) bs (st, ups) = (st', ups')"
  shows "\<exists>x. st' = st\<lparr>nom_less_total := x\<rparr> \<and>
    ups' = ups @ map (\<lambda>b. (owner b, requests_without n (owner b) s)) bs"
  using assms(2)
proof (induction bs arbitrary: st ups)
  case Nil
  then show ?case
    by (auto intro: exI [of _ "nom_less_total st"])
next
  case (Cons b bs)
  show ?case
  proof (cases "cancel_request_with_state n st (nomination_scheduled_requests s (owner b))")
    case None
    then show ?thesis
      using Cons.IH [of st "ups @ [(owner b, nomination_scheduled_requests s (owner b))]"]
        Cons.prems no_request_filter [OF None] by (simp add: Let_def)
  next
    case (Some r)
    obtain q st1 rq where r: "cancel_request_with_state n st
        (nomination_scheduled_requests s (owner b)) = Some (q, st1, rq)"
      using Some by (cases r) auto
    note e = cancel_request_with_state_eq [OF requests_distinct [OF inv] r]
    obtain x where x: "st1 = st\<lparr>nom_less_total := x\<rparr>"
      using e(1) by blast
    show ?thesis
      using Cons.IH [of st1 "ups @ [(owner b, rq)]"] Cons.prems r x e(2) by (auto simp: Let_def)
  qed
qed

lemma cancel_revoke_all_safe:
  assumes inv: "staking_inv C s"
  shows "safe C (nominator_cancel_scheduled_revoke_all n s)"
proof (cases "nominator_state s n")
  case (Some st)
  obtain st' ups where f: "fold (\<lambda>b (st, ups). let reqs = nomination_scheduled_requests s (owner b) in
        case cancel_request_with_state n st reqs of
          Some (_, st', reqs') \<Rightarrow> (st', ups @ [(owner b, reqs')])
        | None \<Rightarrow> (st, ups @ [(owner b, reqs)])) (nom_nominations st) (st, []) = (st', ups)"
    by (rule prod.exhaust)
  obtain x where x: "st' = st\<lparr>nom_less_total := x\<rparr>"
    "ups = map (\<lambda>b. (owner b, requests_without n (owner b) s)) (nom_nominations st)"
    using cancel_all_fold [OF inv f] by auto
  have "replaced n s u" if "u \<in> set ups" for u
    using that x(2) by (auto simp: replaced_def)
  note keep = staking_inv_replaced [OF inv Some, of ups, OF this refl]
  show ?thesis
    using Some f x(1) keep unfolding nominator_cancel_scheduled_revoke_all_def
    by (simp add: Let_def deposit_event_def insert_requests_def)
qed (simp add: nominator_cancel_scheduled_revoke_all_def)

section \<open>Executing\<close>

lemma fold_updates_fun:
  "(\<And>c rq. (c, rq) \<in> set ups \<Longrightarrow> rq = g c) \<Longrightarrow>
   fold (\<lambda>(c, rq) m. m(c := rq)) ups f c = (if c \<in> fst ` set ups then g c else f c)"
proof (induction ups arbitrary: f)
  case (Cons u ups)
  then show ?case
    by (cases u) auto
qed simp

lemma position_refine:
  "distinct (map f xs) \<Longrightarrow> position (\<lambda>r. f r = n \<and> Q r) xs = Some i \<Longrightarrow>
     position (\<lambda>r. f r = n) xs = Some i"
proof (induction xs arbitrary: i)
  case (Cons x xs)
  show ?case
  proof (cases "f x = n \<and> Q x")
    case False
    then obtain j where j: "position (\<lambda>r. f r = n \<and> Q r) xs = Some j" "i = Suc j"
      using Cons.prems(2) by (auto split: option.splits)
    then have "n \<in> f ` set xs"
      using position_SomeD [OF j(1)] by (metis image_eqI nth_mem)
    then have "f x \<noteq> n"
      using Cons.prems(1) by auto
    then show ?thesis
      using Cons.IH [of j] Cons.prems(1) j by simp
  qed (use Cons.prems in simp)
qed simp

lemma validate_revokes_result:
  "validate_revokes n s bs \<noteq> Inl Panic \<and>
   (\<forall>vs. validate_revokes n s bs = Inr vs \<longrightarrow> map fst vs = bs \<and>
      (\<forall>(b, rq, i)\<in>set vs. rq = nomination_scheduled_requests s (owner b) \<and>
         position (\<lambda>r. req_nominator r = n \<and> is_revoke (req_action r)) rq = Some i))"
proof (induction bs)
  case (Cons b bs)
  then show ?case
    by (cases "position (\<lambda>r. req_nominator r = n \<and> is_revoke (req_action r))
        (nomination_scheduled_requests s (owner b))"; cases "validate_revokes n s bs")
      (auto simp: Let_def)
qed simp

lemma book_known:
  assumes "candidates_ok C s" "cand_stake s c n = Some a"
  obtains m t b where "candidate_info s c = Some m" "top_nominations s c = Some t"
    "bottom_nominations s c = Some b" "book_ok C m t b" "book_stakes t b n = Some a"
proof -
  obtain t b where tb: "top_nominations s c = Some t" "bottom_nominations s c = Some b"
    using assms(2) by (cases "top_nominations s c"; cases "bottom_nominations s c") auto
  then obtain m where m: "candidate_info s c = Some m"
    using candidates_ok_None [OF assms(1), of c] by (cases "candidate_info s c") auto
  then show ?thesis
    using that candidates_okE [OF assms(1) m] tb assms(2) by force
qed

lemma leave_all_result:
  assumes "limits_ok C" "candidates_ok C s" "pool_ok C s" "unbonds_ok s"
    "distinct (owners (map fst vs))"
    "\<forall>v\<in>set vs. cand_stake s (owner (fst v)) n = Some (amount (fst v))"
  shows "\<exists>s'. leave_all C n vs s = Inr (map (\<lambda>(b, rq, i). (owner b, remove_at i rq)) vs, s') \<and>
    candidates_ok C s' \<and> pool_ok C s' \<and> nominator_state s' = nominator_state s \<and>
    nomination_scheduled_requests s' = nomination_scheduled_requests s \<and>
    min_total_nominator_stake s' = min_total_nominator_stake s \<and> unbonds_ok s' \<and>
    (\<forall>c. candidate_info s' c = None \<longleftrightarrow> candidate_info s c = None) \<and>
    (\<forall>c. cand_stake s' c = (if c \<in> set (owners (map fst vs)) then (cand_stake s c)(n := None)
       else cand_stake s c))"
  using assms(2-6)
proof (induction vs arbitrary: s)
  case (Cons v vs)
  obtain b rq i where v: "v = (b, rq, i)"
    by (cases v)
  let ?c = "owner b"
  have has: "cand_stake s ?c n = Some (amount b)"
    using Cons.prems(5) v by simp
  obtain m t bb where c: "candidate_info s ?c = Some m" "top_nominations s ?c = Some t"
    "bottom_nominations s ?c = Some bb" "book_ok C m t bb" "book_stakes t bb n = Some (amount b)"
    using book_known [OF Cons.prems(1) has] by blast
  obtain t' b' s1 where l: "nominator_leaves_candidate C ?c n (amount b) s = Inr s1"
    "candidate_info s1 = (candidate_info s)(?c \<mapsto> refresh C t' b' m)"
    "top_nominations s1 = (top_nominations s)(?c \<mapsto> t')"
    "bottom_nominations s1 = (bottom_nominations s)(?c \<mapsto> b')"
    "candidate_pool s1 = pool_after C ?c (is_active m) (cm_total_counted m)
       (cm_bond m + noms_total t') (candidate_pool s)"
    "nominator_state s1 = nominator_state s"
    "nomination_scheduled_requests s1 = nomination_scheduled_requests s"
    "min_total_nominator_stake s1 = min_total_nominator_stake s"
    "book_ok C (refresh C t' b' m) t' b'" "book_stakes t' b' = (book_stakes t bb)(n := None)"
    by (rule leaves_candidate_result [OF c assms(1)])
  have ok1: "candidates_ok C s1" "pool_ok C s1"
    using candidates_ok_upd [OF Cons.prems(1) l(2-4,9)]
      pool_ok_upd [OF Cons.prems(2) c(1) _ l(2)] l(5) by simp_all
  have ub1: "unbonds_ok s1"
    using Cons.prems(3) l(2) c(1) by (auto simp: unbonds_ok_def refresh_def)
  have stk: "cand_stake s1 c = (if c = ?c then (cand_stake s c)(n := None) else cand_stake s c)" for c
    using l(3,4,10) c(2,3) by simp
  have notin: "?c \<notin> set (owners (map fst vs))" and d: "distinct (owners (map fst vs))"
    using Cons.prems(4) v by auto
  have rest: "\<forall>v\<in>set vs. cand_stake s1 (owner (fst v)) n = Some (amount (fst v))"
    using Cons.prems(5) notin by (auto simp: stk image_iff)
  obtain s' where s': "leave_all C n vs s1 = Inr (map (\<lambda>(b, rq, i). (owner b, remove_at i rq)) vs, s')"
    "candidates_ok C s'" "pool_ok C s'" "nominator_state s' = nominator_state s1"
    "nomination_scheduled_requests s' = nomination_scheduled_requests s1"
    "min_total_nominator_stake s' = min_total_nominator_stake s1" "unbonds_ok s'"
    "\<And>c. candidate_info s' c = None \<longleftrightarrow> candidate_info s1 c = None"
    "\<And>c. cand_stake s' c = (if c \<in> set (owners (map fst vs)) then (cand_stake s1 c)(n := None)
       else cand_stake s1 c)"
    using Cons.IH [OF ok1 ub1 d rest] by blast
  have "cand_stake s' c = (if c \<in> set (owners (map fst (v # vs))) then (cand_stake s c)(n := None)
       else cand_stake s c)" for c
    using s'(9) [of c] stk [of c] notin v by auto
  moreover have "leave_all C n (v # vs) s =
      Inr (map (\<lambda>(b, rq, i). (owner b, remove_at i rq)) (v # vs), s')"
    using l(1) s'(1) v by simp
  ultimately show ?case
    using s'(2-8) l(2,6,7,8) c(1) by (intro exI [of _ s'] conjI allI) simp_all
qed simp

text \<open>All nominations of \<open>n\<close> and all its requests are gone, nothing else has changed.\<close>

lemma staking_inv_exit:
  assumes inv: "staking_inv C s" and st: "nominator_state s n = Some st"
    and s': "candidates_ok C s'" "pool_ok C s'" "nominator_state s' = (nominator_state s)(n := None)"
    "unbonds_ok s'" "min_total_nominator_stake s' = min_total_nominator_stake s"
    "\<And>c. candidate_info s' c = None \<longleftrightarrow> candidate_info s c = None"
    "\<And>c. nomination_scheduled_requests s' c = (if c \<in> set (owners (nom_nominations st))
       then requests_without n c s else nomination_scheduled_requests s c)"
    "\<And>c. cand_stake s' c = (if c \<in> set (owners (nom_nominations st))
       then (cand_stake s c)(n := None) else cand_stake s c)"
  shows "staking_inv C s'"
proof -
  note i = staking_invD [OF inv]
  have gone: "cand_stake s' c n = None" for c
    using s'(8) [of c] nom_stake_known [OF inv st, of c] by (auto simp: stakes_None)
  have "nominators_ok s'"
    using nominators_ok_upd [OF i(3) s'(3)] by simp
  moreover have "agree s'"
    using agreeD [OF i(4)] s'(3) s'(8) gone unfolding agree_def by auto
  moreover have "requests_ok s'"
    unfolding requests_ok_def
  proof (intro allI conjI ballI)
    fix c
    show "distinct (map req_nominator (nomination_scheduled_requests s' c))"
      using requests_distinct [OF inv, of c] s'(7) [of c] by (simp add: distinct_map_filter)
    fix q assume "q \<in> set (nomination_scheduled_requests s' c)"
    then show "request_ok (cand_stake s' c) q"
      using requests_known [OF inv, of q c] s'(7) [of c] s'(8) [of c]
      by (auto simp: request_ok_def split: if_splits)
  qed
  moreover have "positive s'" "apart s'" "minimums_ok C s'"
    using i(6,7,9) s'(3,5,6) s'(8) by (auto simp: positive_def apart_def minimums_ok_def)
  ultimately show ?thesis
    using s'(1,2,4) by (simp add: staking_inv_def)
qed

lemma execute_revoke_all_result:
  assumes inv: "staking_inv C s" and lim: "limits_ok C"
  shows "leads_to C (\<lambda>s'. nominator_state s' = (nominator_state s)(n := None))
    (nominator_execute_scheduled_revoke_all C n k s)"
proof (cases "nominator_state s n")
  case st: (Some st)
  note i = staking_invD [OF inv] and nok = nominator_known [OF inv st]
  show ?thesis
  proof (cases "validate_revokes n s (nom_nominations st)")
    case (Inl e)
    then show ?thesis
      using validate_revokes_result [of n s "nom_nominations st"] st
      by (auto simp: nominator_execute_scheduled_revoke_all_def)
  next
    case (Inr vs)
    have vs: "map fst vs = nom_nominations st"
      "\<And>b rq i. (b, rq, i) \<in> set vs \<Longrightarrow> remove_at i rq = requests_without n (owner b) s"
      using validate_revokes_result [of n s "nom_nominations st"] Inr
        remove_at_filter [OF requests_distinct [OF inv] position_refine [OF requests_distinct [OF inv]]]
      by auto
    let ?ups = "map (\<lambda>(b, rq, i). (owner b, remove_at i rq)) vs"
    let ?cs = "set (owners (nom_nominations st))"
    have staked: "\<forall>v\<in>set vs. cand_stake s (owner (fst v)) n = Some (amount (fst v))"
      using nominations_staked [OF inv st] vs(1) by (metis image_eqI list.set_map)
    obtain s1 where s1: "leave_all C n vs s = Inr (?ups, s1)" "candidates_ok C s1" "pool_ok C s1"
      "nominator_state s1 = nominator_state s"
      "nomination_scheduled_requests s1 = nomination_scheduled_requests s"
      "min_total_nominator_stake s1 = min_total_nominator_stake s" "unbonds_ok s1"
      "\<And>c. candidate_info s1 c = None \<longleftrightarrow> candidate_info s c = None"
      "\<And>c. cand_stake s1 c = (if c \<in> ?cs then (cand_stake s c)(n := None) else cand_stake s c)"
      using leave_all_result [OF lim i(1,2,8) _ staked] nominator_okD(6) [OF nok] vs(1) by auto
    have rq: "nomination_scheduled_requests (insert_requests ?ups s2) c =
        (if c \<in> ?cs then requests_without n c s else nomination_scheduled_requests s c)"
      if "nomination_scheduled_requests s2 = nomination_scheduled_requests s" for s2 :: "'a staking" and c
    proof -
      have "fst ` set ?ups = ?cs"
        unfolding vs(1) [symmetric] by (force simp: image_image)
      moreover have "rq = requests_without n d s" if "(d, rq) \<in> set ?ups" for d rq
        using that vs(2) by auto
      ultimately show ?thesis
        using fold_updates_fun [of ?ups "\<lambda>c. requests_without n c s" "nomination_scheduled_requests s" c]
          that by (simp add: insert_requests_def)
    qed
    have keep: "staking_inv C s' \<and> nominator_state s' = (nominator_state s)(n := None)"
      if "candidate_info s' = candidate_info s1" "top_nominations s' = top_nominations s1"
        "bottom_nominations s' = bottom_nominations s1" "candidate_pool s' = candidate_pool s1"
        "nominator_state s' = (nominator_state s)(n := None)"
        "min_total_nominator_stake s' = min_total_nominator_stake s1"
        "\<And>c. nomination_scheduled_requests s' c =
          (if c \<in> ?cs then requests_without n c s else nomination_scheduled_requests s c)" for s'
      using s1(2,3,6-9) that
      by (intro conjI staking_inv_exit [OF inv st])
        (simp_all add: candidates_ok_def pool_ok_def unbonds_ok_def)
    obtain w where w: "adjust_bond_lock C (st\<lparr>nom_total := 0\<rparr>) BondDecrease s1 = Inr (s1\<lparr>world := w\<rparr>)"
      using lock_decrease_result [of C "st\<lparr>nom_total := 0\<rparr>" s1] by (rule exE)
    show ?thesis
      using st Inr s1(1,4,5) w rq
      by (auto simp: nominator_execute_scheduled_revoke_all_def total_sub_def Let_def
          deposit_event_def insert_requests_def intro!: keep [THEN conjunct1])
  qed
qed (simp add: nominator_execute_scheduled_revoke_all_def)

lemmas execute_revoke_all_safe = execute_revoke_all_result [THEN leads_to_safe]

end
