(* ===== verification/Staking_Keep_Candidates.thy ===== *)
theory Staking_Keep_Candidates
  imports Staking_Keep_All
begin

text \<open>
  The calls of candidates (\<open>lib.rs\<close>) keep the pallet's invariant and do not panic: joining and
  leaving the candidates, going offline and online, bonding more and unbonding.
\<close>

section \<open>The candidate pool\<close>

lemma pool_remove_set:
  assumes "bounded_inv bound owner pool"
  shows "bounded_inv bound owner (snd (bounded_set_remove owner c pool))"
    "x \<in> set (snd (bounded_set_remove owner c pool)) \<longleftrightarrow> x \<in> set pool \<and> owner x \<noteq> c"
proof -
  obtain b p where d: "bounded_set_remove owner c pool = (b, p)"
    by fastforce
  note v = bset.del_view [OF assms d]
  show "bounded_inv bound owner (snd (bounded_set_remove owner c pool))"
    using v d by simp
  have "x \<in> set p \<longleftrightarrow> set_view owner p (owner x) = Some x"
    using v keys_sorted_owner_mem [of p "owner x" x] by (simp add: bounded_inv_def)
  moreover have "x \<in> set pool \<longleftrightarrow> set_view owner pool (owner x) = Some x"
    using assms keys_sorted_owner_mem [of pool "owner x" x] by (simp add: bounded_inv_def)
  ultimately show "x \<in> set (snd (bounded_set_remove owner c pool)) \<longleftrightarrow> x \<in> set pool \<and> owner x \<noteq> c"
    using v d by auto
qed

lemma pool_insert_set:
  assumes inv: "bounded_inv bound owner pool"
    and ins: "bounded_set_try_insert bound owner y pool = Some (True, p)"
  shows "bounded_inv bound owner p" "owner y \<notin> owner ` set pool"
    "x \<in> set p \<longleftrightarrow> x = y \<or> x \<in> set pool"
proof -
  have p: "bounded_inv bound owner p" "set_view owner p = (set_view owner pool)(owner y \<mapsto> y)"
    "set_view owner pool (owner y) = None"
    using bset.ins_inv [OF inv ins] bset.ins_view [OF inv ins] bset.ins_reports [OF inv ins]
      bset.mem_view [OF inv, of "owner y"] by auto
  show "bounded_inv bound owner p" "owner y \<notin> owner ` set pool"
    using p(1,3) by (simp_all add: set_view_None)
  have "x \<in> set p \<longleftrightarrow> set_view owner p (owner x) = Some x"
    using p(1) keys_sorted_owner_mem [of p "owner x" x] by (simp add: bounded_inv_def)
  moreover have "x \<in> set pool \<longleftrightarrow> set_view owner pool (owner x) = Some x"
    using inv keys_sorted_owner_mem [of pool "owner x" x] by (simp add: bounded_inv_def)
  ultimately show "x \<in> set p \<longleftrightarrow> x = y \<or> x \<in> set pool"
    using p(2,3) by auto
qed

text \<open>A candidate that stops being active leaves the pool, one that becomes active enters it.\<close>

lemma pool_ok_leave:
  assumes ok: "pool_ok C s" and m: "\<not> is_active m'"
    and s': "candidate_info s' = (candidate_info s)(c \<mapsto> m')"
    "candidate_pool s' = snd (bounded_set_remove owner c (candidate_pool s))"
  shows "pool_ok C s'"
proof -
  have "bounded_inv (max_candidates C) owner (candidate_pool s)"
    using ok by (simp add: pool_ok_def)
  note p = pool_remove_set [OF this, where c = c]
  show ?thesis
    using ok m s' p by (auto simp: pool_ok_def)
qed

lemma pool_ok_enter:
  assumes ok: "pool_ok C s" and m: "is_active m'"
    and s': "candidate_info s' = (candidate_info s)(c \<mapsto> m')"
    and ins: "bounded_set_try_insert (max_candidates C) owner
      \<lparr>owner = c, amount = cm_total_counted m'\<rparr> (candidate_pool s) = Some (True, candidate_pool s')"
  shows "pool_ok C s'"
proof -
  have "bounded_inv (max_candidates C) owner (candidate_pool s)"
    using ok by (simp add: pool_ok_def)
  note p = pool_insert_set [OF this ins]
  have "x \<in> set (candidate_pool s') \<longleftrightarrow> (\<exists>m. candidate_info s' (owner x) = Some m \<and> is_active m \<and>
      amount x = cm_total_counted m)" for x
  proof (cases "owner x = c")
    case True
    then have "x \<notin> set (candidate_pool s)"
      using p(2) by auto
    then show ?thesis
      using p(3) [of x] m s' True by (cases x) auto
  next
    case False
    then show ?thesis
      using p(3) [of x] ok s' by (auto simp: pool_ok_def)
  qed
  then show ?thesis
    using p(1) by (simp add: pool_ok_def)
qed

lemma pool_ok_put:
  assumes ok: "pool_ok C s" and m: "candidate_info s c = Some m" "is_active m" "is_active m'"
    and s': "candidate_info s' = (candidate_info s)(c \<mapsto> m')"
    "candidate_pool s' = pool_put C c (cm_total_counted m') (candidate_pool s)"
  shows "pool_ok C s'"
proof -
  have "bounded_inv (max_candidates C) owner (candidate_pool s)"
    using ok by (simp add: pool_ok_def)
  note p = pool_put_ok [OF this active_in_pool [OF ok m(1,2)], where x = "cm_total_counted m'"]
  have "x \<in> set (candidate_pool s') \<longleftrightarrow> (\<exists>m. candidate_info s' (owner x) = Some m \<and> is_active m \<and>
      amount x = cm_total_counted m)" for x
    using p(2) [of x] ok s' m by (cases x; cases "owner x = c") (auto simp: pool_ok_def)
  then show ?thesis
    using p(1) s'(2) by (simp add: pool_ok_def)
qed

section \<open>The record of a candidate\<close>

lemma book_ok_status [simp]:
  "book_ok C (m\<lparr>cm_status := x\<rparr>) t b = book_ok C m t b"
  "book_ok C (m\<lparr>cm_request := y\<rparr>) t b = book_ok C m t b"
  by (cases m; simp add: book_ok_def refresh_def)+

lemma book_ok_bond:
  assumes "book_ok C m t b" "x + sum_amounts (noms t) + sum_amounts (noms b) \<le> u128_max"
  shows "book_ok C (m\<lparr>cm_bond := x, cm_total_counted := x + noms_total t\<rparr>) t b"
  using assms by (cases m) (simp add: book_ok_def refresh_def)

text \<open>\<open>candidate_change\<close>: only the record of \<open>c\<close> and the pool change.\<close>

definition candidate_change ::
  "account \<Rightarrow> candidate_metadata \<Rightarrow> bond list \<Rightarrow> 'w staking \<Rightarrow> 'w staking \<Rightarrow> bool" where
  "candidate_change c m' pool s s' \<longleftrightarrow>
     candidate_info s' = (candidate_info s)(c \<mapsto> m') \<and> candidate_pool s' = pool \<and>
     top_nominations s' = top_nominations s \<and> bottom_nominations s' = bottom_nominations s \<and>
     nominator_state s' = nominator_state s \<and>
     nomination_scheduled_requests s' = nomination_scheduled_requests s \<and>
     min_total_nominator_stake s' = min_total_nominator_stake s"

lemma staking_inv_candidate:
  assumes inv: "staking_inv C s" and m: "candidate_info s c = Some m"
    and ch: "candidate_change c m' pool s s'" and pool: "pool_ok C s'"
    and m': "\<And>t b. top_nominations s c = Some t \<Longrightarrow> bottom_nominations s c = Some b \<Longrightarrow>
        book_ok C m t b \<Longrightarrow> book_ok C m' t b"
    "\<And>r. cm_request m' = Some r \<Longrightarrow> cbl_amount r < cm_bond m'"
  shows "staking_inv C s'"
proof -
  note i = staking_invD [OF inv]
  have s': "candidate_info s' = (candidate_info s)(c \<mapsto> m')"
    "top_nominations s' = top_nominations s" "bottom_nominations s' = bottom_nominations s"
    "nominator_state s' = nominator_state s"
    "nomination_scheduled_requests s' = nomination_scheduled_requests s"
    "min_total_nominator_stake s' = min_total_nominator_stake s"
    using ch by (simp_all add: candidate_change_def)
  obtain t b where tb: "top_nominations s c = Some t" "bottom_nominations s c = Some b" "book_ok C m t b"
    using candidates_okE [OF i(1) m] by blast
  have "candidates_ok C s'"
    by (rule candidates_ok_upd [OF i(1) s'(1) _ _ m'(1) [OF tb]])
      (use s' tb in \<open>simp_all add: fun_upd_idem\<close>)
  moreover have "apart s'"
    by (rule apart_upd [OF i(7) m s'(1), of c "nominator_state s c"])
      (use i(7) m s' in \<open>auto simp: fun_upd_idem apart_def dest: spec [of _ c]\<close>)
  moreover have "unbonds_ok s'"
    using i(8) s'(1) m'(2) by (auto simp: unbonds_ok_def)
  moreover have "nominators_ok s'" "agree s'" "requests_ok s'" "positive s'" "minimums_ok C s'"
    using i s' by (simp_all add: nominators_ok_def agree_def requests_ok_def positive_def minimums_ok_def)
  ultimately show ?thesis
    using pool by (simp add: staking_inv_def)
qed

lemma unbond_known:
  "staking_inv C s \<Longrightarrow> candidate_info s c = Some m \<Longrightarrow> cm_request m = Some r \<Longrightarrow>
     cbl_amount r < cm_bond m"
  using staking_invD(8) [of C s] by (auto simp: unbonds_ok_def)

lemma safe_signed:
  "(\<And>who. safe C (f who)) \<Longrightarrow> safe C (and_then (ensure_signed origin) f)"
  by (cases origin) (simp_all add: ensure_signed_def)

lemma remove_from_pool:
  "bounded_set_remove owner c (candidate_pool s) = (removed, p) \<Longrightarrow>
     (if removed then s\<lparr>candidate_pool := p\<rparr> else s) = s\<lparr>candidate_pool := p\<rparr>"
  by (auto simp: bounded_set_remove_def split: sum.splits)

section \<open>Going offline and online\<close>

lemma retire_safe:
  assumes inv: "staking_inv C s" and m: "candidate_info s c = Some m" and off: "x \<noteq> Active"
    and ch: "candidate_change c (m\<lparr>cm_status := x\<rparr>)
      (snd (bounded_set_remove owner c (candidate_pool s))) s s'"
  shows "staking_inv C s'"
proof (rule staking_inv_candidate [OF inv m ch])
  show "pool_ok C s'"
    using ch off pool_ok_leave [OF staking_invD(2) [OF inv], of "m\<lparr>cm_status := x\<rparr>" s' c]
    by (simp add: candidate_change_def is_active_def)
qed (use unbond_known [OF inv m] in simp_all)

lemma activate_safe:
  assumes inv: "staking_inv C s" and m: "candidate_info s c = Some m"
    and ins: "bounded_set_try_insert (max_candidates C) owner
      \<lparr>owner = c, amount = cm_total_counted (cm_go_online m)\<rparr> (candidate_pool s) = Some (True, pool)"
    and ch: "candidate_change c (cm_go_online m) pool s s'"
  shows "staking_inv C s'"
proof (rule staking_inv_candidate [OF inv m ch])
  show "pool_ok C s'"
    using ch ins pool_ok_enter [OF staking_invD(2) [OF inv], of "cm_go_online m" s' c]
    by (simp add: candidate_change_def is_active_def cm_go_online_def)
qed (use unbond_known [OF inv m] in \<open>simp_all add: cm_go_online_def\<close>)

lemma go_offline_safe:
  assumes inv: "staking_inv C s"
  shows "safe C (go_offline origin s)"
  unfolding go_offline_def
proof (rule safe_signed, goal_cases)
  case (1 c)
  obtain removed p where rm: "bounded_set_remove owner c (candidate_pool s) = (removed, p)"
    by fastforce
  show ?case
  proof (cases "candidate_info s c")
    case (Some m)
    show ?thesis
      using rm Some by (auto simp: cm_go_offline_def remove_from_pool [OF rm] deposit_event_def
          candidate_change_def intro!: retire_safe [OF inv Some, of Idle])
  qed simp
qed

lemma schedule_leave_candidates_safe:
  assumes inv: "staking_inv C s"
  shows "safe C (schedule_leave_candidates origin k s)"
  unfolding schedule_leave_candidates_def
proof (rule safe_signed, goal_cases)
  case (1 c)
  obtain removed p where rm: "bounded_set_remove owner c (candidate_pool s) = (removed, p)"
    by fastforce
  show ?case
  proof (cases "candidate_info s c")
    case (Some m)
    show ?thesis
      using rm Some by (auto simp: schedule_leave_def Let_def remove_from_pool [OF rm]
          deposit_event_def candidate_change_def intro!: retire_safe [OF inv Some,
            of "Leaving (wrapping_add32 (era_current (era s)) (delay s))"])
  qed simp
qed

lemma go_online_safe:
  assumes inv: "staking_inv C s"
  shows "safe C (go_online C origin s)"
  unfolding go_online_def
proof (rule safe_signed, goal_cases)
  case (1 c)
  show ?case
  proof (cases "candidate_info s c")
    case (Some m)
    show ?thesis
      using Some by (auto simp: Let_def deposit_event_def candidate_change_def
          split: option.splits bool.splits intro!: activate_safe [OF inv Some])
  qed simp
qed

lemma cancel_leave_candidates_safe:
  assumes inv: "staking_inv C s"
  shows "safe C (cancel_leave_candidates C origin k s)"
  unfolding cancel_leave_candidates_def
proof (rule safe_signed, goal_cases)
  case (1 c)
  show ?case
  proof (cases "candidate_info s c")
    case (Some m)
    show ?thesis
      using Some by (auto simp: Let_def deposit_event_def candidate_change_def
          split: option.splits bool.splits intro!: activate_safe [OF inv Some])
  qed simp
qed

section \<open>The self bond\<close>

lemma bond_safe:
  assumes inv: "staking_inv C s" and m: "candidate_info s c = Some m" "top_nominations s c = Some t"
    "bottom_nominations s c = Some b" "book_ok C m t b"
    and x: "x + sum_amounts (noms t) + sum_amounts (noms b) \<le> u128_max"
    and req: "\<And>r. rq = Some r \<Longrightarrow> cbl_amount r < x"
    and ch: "candidate_change c (m\<lparr>cm_bond := x, cm_total_counted := x + noms_total t, cm_request := rq\<rparr>)
      (if is_active m then pool_put C c (x + noms_total t) (candidate_pool s) else candidate_pool s) s s'"
  shows "staking_inv C s'"
proof (rule staking_inv_candidate [OF inv m(1) ch])
  note i = staking_invD [OF inv]
  let ?m = "m\<lparr>cm_bond := x, cm_total_counted := x + noms_total t, cm_request := rq\<rparr>"
  show "pool_ok C s'"
  proof (cases "is_active m")
    case True
    then show ?thesis
      using pool_ok_put [OF i(2) m(1) True, of ?m s'] ch
      by (simp add: candidate_change_def is_active_def)
  next
    case False
    then have "\<forall>y\<in>set (candidate_pool s). owner y \<noteq> c"
      using i(2) m(1) by (auto simp: pool_ok_def)
    then show ?thesis
      using i(2) m(1) ch False by (auto simp: pool_ok_def candidate_change_def is_active_def)
  qed
  show "book_ok C ?m t' b'" if "top_nominations s c = Some t'" "bottom_nominations s c = Some b'" for t' b'
    using that m book_ok_bond [OF m(4) x] by simp
qed (use req in simp)

lemma call_candidate_bond_extra_safe:
  assumes inv: "staking_inv C s" and room: "headroom extra s"
  shows "safe C (call_candidate_bond_extra C c extra s)"
proof (cases "candidate_info s c")
  case (Some m)
  obtain t b where tb: "top_nominations s c = Some t" "bottom_nominations s c = Some b" "book_ok C m t b"
    using candidates_okE [OF staking_invD(1) [OF inv] Some] by blast
  note k = book_okD [OF tb(3)]
  have "cm_bond m + sum_amounts (noms t) + sum_amounts (noms b) + extra \<le> u128_max"
    using room Some tb by (auto simp: headroom_def)
  then have max: "cm_bond m + extra + sum_amounts (noms t) + sum_amounts (noms b) \<le> u128_max"
    by simp
  then have eq: "sat_add (cm_bond m) extra = cm_bond m + extra"
    "sat_add (cm_total_counted m) extra = cm_bond m + extra + noms_total t"
    using k(2,9) by simp_all
  have "cm_request m = Some r \<Longrightarrow> cbl_amount r < cm_bond m + extra" for r
    using unbond_known [OF inv Some] by (simp add: trans_less_add1)
  note keep = bond_safe [OF inv Some tb max this]
  show ?thesis
    using Some
    by (auto simp: call_candidate_bond_extra_def cm_bond_extra_def Let_def deposit_event_def eq
        update_active_eq is_active_def candidate_change_def intro!: keep)
qed (simp add: call_candidate_bond_extra_def)

lemma call_execute_candidate_unbond_safe:
  assumes inv: "staking_inv C s"
  shows "safe C (call_execute_candidate_unbond C c s)"
proof (cases "candidate_info s c")
  case (Some m)
  obtain t b where tb: "top_nominations s c = Some t" "bottom_nominations s c = Some b" "book_ok C m t b"
    using candidates_okE [OF staking_invD(1) [OF inv] Some] by blast
  note k = book_okD [OF tb(3)]
  show ?thesis
  proof (cases "cm_request m")
    case (Some r)
    have less: "cbl_amount r < cm_bond m"
      using unbond_known [OF inv \<open>candidate_info s c = Some m\<close> Some] .
    then have max: "cm_bond m - cbl_amount r + sum_amounts (noms t) + sum_amounts (noms b) \<le> u128_max"
      and eq: "cm_total_counted m - cbl_amount r = cm_bond m - cbl_amount r + noms_total t"
      using k(2,9,11) by simp_all
    note keep = bond_safe [OF inv \<open>candidate_info s c = Some m\<close> tb max, of None]
    show ?thesis
      using \<open>candidate_info s c = Some m\<close> Some
      by (auto simp: call_execute_candidate_unbond_def execute_unbond_def Let_def deposit_event_def eq
          update_active_eq is_active_def candidate_change_def intro!: keep)
  qed (simp add: call_execute_candidate_unbond_def execute_unbond_def Some)
qed (simp add: call_execute_candidate_unbond_def)

lemma request_change_safe:
  assumes inv: "staking_inv C s" and m: "candidate_info s c = Some m"
    and req: "\<And>r. rq = Some r \<Longrightarrow> cbl_amount r < cm_bond m"
    and ch: "candidate_change c (m\<lparr>cm_request := rq\<rparr>) (candidate_pool s) s s'"
  shows "staking_inv C s'"
proof (rule staking_inv_candidate [OF inv m ch])
  show "pool_ok C s'"
    using staking_invD(2) [OF inv] m ch
    by (auto simp: pool_ok_def candidate_change_def is_active_def)
qed (use req in simp_all)

lemma call_schedule_candidate_unbond_safe:
  assumes inv: "staking_inv C s"
  shows "safe C (call_schedule_candidate_unbond c x s)"
  by (cases "candidate_info s c")
    (auto simp: call_schedule_candidate_unbond_def schedule_unbond_def Let_def deposit_event_def
      candidate_change_def intro!: request_change_safe [OF inv, where rq = "Some \<lparr>cbl_amount = x,
        cbl_when_executable = wrapping_add32 (era_current (era s)) (delay s)\<rparr>"])

lemma cancel_candidate_unbond_safe:
  assumes inv: "staking_inv C s"
  shows "safe C (cancel_candidate_unbond origin s)"
  unfolding cancel_candidate_unbond_def
proof (rule safe_signed, goal_cases)
  case (1 c)
  show ?case
  proof (cases "candidate_info s c")
    case (Some m)
    then show ?thesis
      by (cases "cm_request m") (auto simp: cancel_unbond_def deposit_event_def candidate_change_def
          intro!: request_change_safe [OF inv, where rq = None])
  qed simp
qed

section \<open>Joining\<close>

lemma join_candidates_safe:
  assumes inv: "staking_inv C s" and room: "headroom bnd s" and lim: "limits_ok C"
  shows "safe C (join_candidates C origin bnd k s)"
  unfolding join_candidates_def
proof (rule safe_signed, goal_cases)
  case (1 c)
  note i = staking_invD [OF inv]
  let ?m = "candidate_metadata_new bnd"
  have book: "book_ok C ?m empty_nominations empty_nominations"
    using room lim by (simp add: book_ok_def refresh_def candidate_metadata_new_def headroom_def
        empty_nominations_def ranked_def limits_ok_def greatest_to_least_def
        top_capacity_def bottom_capacity_def lowest_nomination_amount_def highest_nomination_amount_def)
  have "staking_inv C s'"
    if new: "candidate_info s c = None" "nominator_state s c = None"
      and ins: "bounded_set_try_insert (max_candidates C) owner \<lparr>owner = c, amount = bnd\<rparr>
        (candidate_pool s) = Some (True, candidate_pool s')"
      and s': "candidate_info s' = (candidate_info s)(c \<mapsto> ?m)"
      "top_nominations s' = (top_nominations s)(c \<mapsto> empty_nominations)"
      "bottom_nominations s' = (bottom_nominations s)(c \<mapsto> empty_nominations)"
      "nominator_state s' = nominator_state s"
      "nomination_scheduled_requests s' = nomination_scheduled_requests s"
      "min_total_nominator_stake s' = min_total_nominator_stake s" for s'
  proof -
    have stk: "cand_stake s' d = cand_stake s d" for d
      using s'(2,3) candidates_ok_None [OF i(1) new(1)]
      by (auto simp: book_stakes_def stakes_def empty_nominations_def)
    have "candidates_ok C s'"
      using candidates_ok_upd [OF i(1) s'(1-3) book] .
    moreover have "pool_ok C s'"
      using pool_ok_enter [OF i(2) _ s'(1)] ins
      by (simp add: is_active_def candidate_metadata_new_def)
    moreover have "agree s'" "requests_ok s'" "positive s'"
      using i(4-6) s'(4,5) stk by (simp_all add: agree_def requests_ok_def positive_def)
    moreover have "nominators_ok s'" "apart s'" "unbonds_ok s'" "minimums_ok C s'"
      using i(3,7-9) s'(1,4,6) new
      by (auto simp: nominators_ok_def apart_def unbonds_ok_def minimums_ok_def
          candidate_metadata_new_def)
    ultimately show ?thesis
      by (simp add: staking_inv_def)
  qed
  then show ?case
    by (auto simp: is_candidate_def is_nominator_def Let_def deposit_event_def
        split: option.splits bool.splits)
qed

end
