(* ===== verification/Staking_Keep_Leave.thy ===== *)
theory Staking_Keep_Leave
  imports Staking_Keep_Candidates
begin

text \<open>
  \<open>execute_leave_candidates\<close> (\<open>lib.rs\<close>): every nominator of the candidate gets their stake
  back, the candidate's records are deleted, and the invariant holds again.
\<close>

section \<open>Returning one stake\<close>

lemma nominator_left_zero:
  assumes ok: "nominator_ok n st" and has: "stakes (nom_nominations st) c = Some a"
    and pos: "\<And>d. stakes (nom_nominations st) d \<noteq> Some 0"
  shows "nom_total st - a = 0 \<longleftrightarrow> nom_nominations (dropped c a st) = []"
proof -
  note rm = rm_nomination_record(2,3) [OF ok has]
  have tot: "nom_total st - a = sum_amounts (nom_nominations (dropped c a st))"
    using rm(2) by (simp add: dropped_def)
  have "amount d \<noteq> 0" if "d \<in> set (nom_nominations (dropped c a st))" for d
  proof -
    have "d \<in> set (nom_nominations st)"
      using that by (simp add: dropped_def)
    then have "stakes (nom_nominations st) (owner d) = Some (amount d)"
      using stakes_iff [OF nominator_okD(6) [OF ok]] by blast
    then show ?thesis
      using pos [of "owner d"] by auto
  qed
  then show ?thesis
    unfolding tot by (cases "nom_nominations (dropped c a st)") auto
qed

text \<open>The fields that \<open>return_stake\<close> may write.\<close>

definition stakes_returned :: "'w staking \<Rightarrow> 'w staking \<Rightarrow> bool" where
  "stakes_returned s s' \<longleftrightarrow>
     (\<exists>ns rq w. s' = s\<lparr>nominator_state := ns, nomination_scheduled_requests := rq, world := w\<rparr>)"

lemma stakes_returnedI:
  "stakes_returned s (s\<lparr>nominator_state := ns, nomination_scheduled_requests := rq, world := w\<rparr>)"
  unfolding stakes_returned_def by blast

lemma stakes_returned_trans:
  assumes "stakes_returned s1 s2" "stakes_returned s2 s3"
  shows "stakes_returned s1 s3"
proof -
  obtain ns rq w where s2: "s2 = s1\<lparr>nominator_state := ns, nomination_scheduled_requests := rq, world := w\<rparr>"
    using assms(1) unfolding stakes_returned_def by blast
  obtain ns rq w where "s3 = s2\<lparr>nominator_state := ns, nomination_scheduled_requests := rq, world := w\<rparr>"
    using assms(2) unfolding stakes_returned_def by blast
  then have "s3 = s1\<lparr>nominator_state := ns, nomination_scheduled_requests := rq, world := w\<rparr>"
    using s2 by simp
  then show ?thesis
    using stakes_returnedI by simp
qed

lemma stakes_returnedD:
  assumes "stakes_returned s s'"
  shows "candidate_info s' = candidate_info s" "top_nominations s' = top_nominations s"
    "bottom_nominations s' = bottom_nominations s" "candidate_pool s' = candidate_pool s"
    "min_total_nominator_stake s' = min_total_nominator_stake s"
  using assms by (auto simp: stakes_returned_def)

lemma return_stake_result:
  assumes ok: "nominators_ok s" and has: "nom_stake s (owner b) c = Some (amount b)"
    and pos: "\<And>d. nom_stake s (owner b) d \<noteq> Some 0"
    and dist: "distinct (map req_nominator (nomination_scheduled_requests s c))"
  obtains s' r where "return_stake C c b s = Inr s'" "stakes_returned s s'"
    "nominator_state s' = (nominator_state s)(owner b := r)"
    "nominator_stakes r = (nom_stake s (owner b))(c := None)"
    "\<And>st. r = Some st \<Longrightarrow> nominator_ok (owner b) st"
    "nomination_scheduled_requests s' =
       (nomination_scheduled_requests s)(c := requests_without (owner b) c s)"
proof -
  let ?n = "owner b" and ?a = "amount b"
  obtain st where st: "nominator_state s ?n = Some st"
    using has by (cases "nominator_state s ?n") auto
  have nok: "nominator_ok ?n st"
    using ok st by (simp add: nominators_ok_def)
  have has': "stakes (nom_nominations st) c = Some ?a"
    using has st by simp
  note rm = rm_nomination_record(2-5) [OF nok has']
  have zero: "nom_total st - ?a = 0 \<longleftrightarrow> nom_nominations (dropped c ?a st) = []"
    using nominator_left_zero [OF nok has'] pos st by simp
  obtain w where w: "nominator_rm_nomination C c st s =
      Inr (Some (nom_total st - ?a), dropped c ?a st, s\<lparr>world := w\<rparr>)"
    using rm_nomination_record(1) [OF nok has', where C = C and s = s] by (rule exE)
  obtain x where x: "nomination_remove_request_with_state c ?n (dropped c ?a st) (s\<lparr>world := w\<rparr>) =
      ((dropped c ?a st)\<lparr>nom_less_total := x\<rparr>, s\<lparr>world := w, nomination_scheduled_requests :=
         (nomination_scheduled_requests s)(c := requests_without ?n c s)\<rparr>)"
    using remove_request_eq [of "s\<lparr>world := w\<rparr>" c ?n "dropped c ?a st"] dist by auto
  let ?r = "if nom_total st - ?a = 0 then None else Some ((dropped c ?a st)\<lparr>nom_less_total := x\<rparr>)"
  have r: "nominator_stakes ?r = (nom_stake s ?n)(c := None)"
    using rm(1) st zero by (auto simp: stakes_def)
  have ok': "nominator_ok ?n st'" if "?r = Some st'" for st'
    using that rm(3) zero by (auto split: if_splits)
  show ?thesis
  proof (cases "nom_total st - ?a = 0")
    case True
    let ?s = "s\<lparr>nominator_state := (nominator_state s)(?n := None), nomination_scheduled_requests :=
        (nomination_scheduled_requests s)(c := requests_without ?n c s),
      world := remove_lock C NOMINATOR_LOCK_ID ?n w\<rparr>"
    have "return_stake C c b s = Inr ?s"
      using st w x True by (simp add: return_stake_def)
    then show ?thesis
      by (rule that [where r = ?r]) (use r True in \<open>simp_all add: stakes_returnedI\<close>)
  next
    case False
    let ?s = "s\<lparr>nominator_state := (nominator_state s)(?n \<mapsto> (dropped c ?a st)\<lparr>nom_less_total := x\<rparr>),
      nomination_scheduled_requests :=
        (nomination_scheduled_requests s)(c := requests_without ?n c s), world := w\<rparr>"
    have "return_stake C c b s = Inr ?s"
      using st w x False by (simp add: return_stake_def)
    then show ?thesis
      by (rule that [where r = ?r]) (use r ok' False in \<open>simp_all add: stakes_returnedI\<close>)
  qed
qed

section \<open>Returning all stakes\<close>

lemma return_stakes_result:
  assumes "nominators_ok s" "distinct (owners bs)"
    "\<forall>b\<in>set bs. nom_stake s (owner b) c = Some (amount b)"
    "\<forall>n d. nom_stake s n d \<noteq> Some 0"
    "distinct (map req_nominator (nomination_scheduled_requests s c))"
  shows "\<exists>s'. try_fold (return_stake C c) bs s = Inr s' \<and> stakes_returned s s' \<and> nominators_ok s' \<and>
    (\<forall>n. nom_stake s' n = (if n \<in> set (owners bs) then (nom_stake s n)(c := None) else nom_stake s n)) \<and>
    (\<forall>n. nominator_state s n = None \<longrightarrow> nominator_state s' n = None) \<and>
    (\<forall>d. d \<noteq> c \<longrightarrow> nomination_scheduled_requests s' d = nomination_scheduled_requests s d) \<and>
    distinct (map req_nominator (nomination_scheduled_requests s' c))"
  using assms
proof (induction bs arbitrary: s)
  case Nil
  have "stakes_returned s s"
    using stakes_returnedI [where s = s and ns = "nominator_state s" and w = "world s"
        and rq = "nomination_scheduled_requests s"] by simp
  then show ?case
    using Nil.prems by simp
next
  case (Cons b bs)
  have has: "nom_stake s (owner b) c = Some (amount b)" and pos: "\<And>d. nom_stake s (owner b) d \<noteq> Some 0"
    using Cons.prems(3,4) by simp_all
  obtain s1 r where s1: "return_stake C c b s = Inr s1" "stakes_returned s s1"
    "nominator_state s1 = (nominator_state s)(owner b := r)"
    "nominator_stakes r = (nom_stake s (owner b))(c := None)"
    "\<And>st. r = Some st \<Longrightarrow> nominator_ok (owner b) st"
    "nomination_scheduled_requests s1 =
       (nomination_scheduled_requests s)(c := requests_without (owner b) c s)"
    using return_stake_result [OF Cons.prems(1) has pos Cons.prems(5)] by blast
  have stk: "nom_stake s1 n = (if n = owner b then (nom_stake s n)(c := None) else nom_stake s n)" for n
    using s1(3,4) by simp
  have known: "nominator_state s (owner b) \<noteq> None"
    using has by (cases "nominator_state s (owner b)") auto
  have p: "nominators_ok s1" "distinct (owners bs)"
    "\<forall>b\<in>set bs. nom_stake s1 (owner b) c = Some (amount b)"
    "\<forall>n d. nom_stake s1 n d \<noteq> Some 0"
    "distinct (map req_nominator (nomination_scheduled_requests s1 c))"
    using nominators_ok_upd [OF Cons.prems(1) s1(3,5)] Cons.prems(2-5) s1(6)
    by (auto simp: stk image_iff distinct_map_filter)
  obtain s' where s': "try_fold (return_stake C c) bs s1 = Inr s'" "stakes_returned s1 s'"
    "nominators_ok s'"
    "\<And>n. nom_stake s' n = (if n \<in> set (owners bs) then (nom_stake s1 n)(c := None) else nom_stake s1 n)"
    "\<And>n. nominator_state s1 n = None \<Longrightarrow> nominator_state s' n = None"
    "\<And>d. d \<noteq> c \<Longrightarrow> nomination_scheduled_requests s' d = nomination_scheduled_requests s1 d"
    "distinct (map req_nominator (nomination_scheduled_requests s' c))"
    using Cons.IH [OF p] by blast
  have "nom_stake s' n = (if n \<in> set (owners (b # bs)) then (nom_stake s n)(c := None) else nom_stake s n)"
    for n
    using s'(4) [of n] stk [of n] by auto
  moreover have "nominator_state s' n = None" if "nominator_state s n = None" for n
    using s'(5) [of n] that known s1(3) by (cases "n = owner b") auto
  moreover have "nomination_scheduled_requests s' d = nomination_scheduled_requests s d" if "d \<noteq> c" for d
    using s'(6) [OF that] s1(6) that by simp
  ultimately show ?case
    using s1(1) s'(1,3,7) stakes_returned_trans [OF s1(2) s'(2)] by auto
qed

text \<open>The candidate \<open>c\<close> is gone, and with it every nomination of it and every request for it.\<close>

lemma staking_inv_departure:
  assumes inv: "staking_inv C s" and m: "candidate_info s c = Some m" "\<not> is_active m"
    and s': "candidate_info s' = (candidate_info s)(c := None)"
    "top_nominations s' = (top_nominations s)(c := None)"
    "bottom_nominations s' = (bottom_nominations s)(c := None)"
    "candidate_pool s' = candidate_pool s" "min_total_nominator_stake s' = min_total_nominator_stake s"
    and noms: "nominators_ok s'" "\<And>n. nom_stake s' n = (nom_stake s n)(c := None)"
    "\<And>n. nominator_state s n = None \<Longrightarrow> nominator_state s' n = None"
    and rq: "nomination_scheduled_requests s' = (nomination_scheduled_requests s)(c := [])"
  shows "staking_inv C s'"
proof -
  note i = staking_invD [OF inv]
  have stk: "cand_stake s' d = (if d = c then (\<lambda>_. None) else cand_stake s d)" for d
    using s'(2,3) by simp
  have "candidates_ok C s'"
    using i(1) s'(1-3) by (auto simp: candidates_ok_def)
  moreover have "pool_ok C s'"
    unfolding pool_ok_def s'(4)
  proof (intro conjI allI)
    fix x
    show "x \<in> set (candidate_pool s) \<longleftrightarrow> (\<exists>m. candidate_info s' (owner x) = Some m \<and> is_active m \<and>
        amount x = cm_total_counted m)"
      using i(2) m s'(1) by (cases "owner x = c") (auto simp: pool_ok_def)
  qed (use i(2) in \<open>simp add: pool_ok_def\<close>)
  moreover have "agree s'"
    using i(4) noms(2) stk by (simp add: agree_def)
  moreover have "requests_ok s'"
    using i(5) rq stk by (simp add: requests_ok_def)
  moreover have "positive s'"
    using i(6) stk by (simp add: positive_def)
  moreover have "apart s'"
    using i(7) s'(1) noms(3) unfolding apart_def by auto
  moreover have "unbonds_ok s'" "minimums_ok C s'"
    using i(8,9) s'(1,5) by (auto simp: unbonds_ok_def minimums_ok_def)
  ultimately show ?thesis
    using noms(1) by (simp add: staking_inv_def)
qed

text \<open>Both vectors of the candidate, one after the other.\<close>

lemma return_both_result:
  assumes inv: "staking_inv C s" and tb: "top_nominations s c = Some t"
    "bottom_nominations s c = Some b" "book_ok C m t b"
  obtains s1 s2 where
    "try_fold (return_stake C c) (noms t) (s\<lparr>top_nominations := (top_nominations s)(c := None)\<rparr>) = Inr s1"
    "bottom_nominations s1 c = Some b"
    "try_fold (return_stake C c) (noms b)
       (s1\<lparr>bottom_nominations := (bottom_nominations s1)(c := None)\<rparr>) = Inr s2"
    "candidate_info s2 = candidate_info s" "top_nominations s2 = (top_nominations s)(c := None)"
    "bottom_nominations s2 = (bottom_nominations s)(c := None)" "candidate_pool s2 = candidate_pool s"
    "min_total_nominator_stake s2 = min_total_nominator_stake s" "nominators_ok s2"
    "\<And>n. nom_stake s2 n = (nom_stake s n)(c := None)"
    "\<And>n. nominator_state s n = None \<Longrightarrow> nominator_state s2 n = None"
    "\<And>d. d \<noteq> c \<Longrightarrow> nomination_scheduled_requests s2 d = nomination_scheduled_requests s d"
proof -
  note i = staking_invD [OF inv]
  have dist: "distinct (owners (noms t @ noms b))"
    using book_okD(1) [OF tb(3)] by (simp add: ranked_def)
  then have d: "distinct (owners (noms t))" "distinct (owners (noms b))"
    "\<And>x. x \<in> set (noms b) \<Longrightarrow> owner x \<notin> set (owners (noms t))"
    by auto
  have stk: "nom_stake s n c = stakes (noms t @ noms b) n" for n
    using agreeD [OF i(4), of n c] tb by (simp add: book_stakes_def)
  have has: "nom_stake s (owner x) c = Some (amount x)" if "x \<in> set (noms t) \<or> x \<in> set (noms b)" for x
    using that stk stakes_iff [OF dist, of "owner x" "amount x"] by auto
  have pos: "\<forall>n d. nom_stake s n d \<noteq> Some 0"
    using i(4,6) by (simp add: agree_def positive_def)
  let ?s0 = "s\<lparr>top_nominations := (top_nominations s)(c := None)\<rparr>"
  have "nominators_ok ?s0" "\<forall>x\<in>set (noms t). nom_stake ?s0 (owner x) c = Some (amount x)"
    "\<forall>n d. nom_stake ?s0 n d \<noteq> Some 0"
    "distinct (map req_nominator (nomination_scheduled_requests ?s0 c))"
    using i(3) has pos requests_distinct [OF inv, of c] by (simp_all add: nominators_ok_def)
  then obtain s1 where s1: "try_fold (return_stake C c) (noms t) ?s0 = Inr s1" "stakes_returned ?s0 s1"
    "nominators_ok s1"
    "\<And>n. nom_stake s1 n = (if n \<in> set (owners (noms t)) then (nom_stake s n)(c := None) else nom_stake s n)"
    "\<And>n. nominator_state s n = None \<Longrightarrow> nominator_state s1 n = None"
    "\<And>d. d \<noteq> c \<Longrightarrow> nomination_scheduled_requests s1 d = nomination_scheduled_requests s d"
    "distinct (map req_nominator (nomination_scheduled_requests s1 c))"
    using return_stakes_result [of ?s0 "noms t" c C] d(1) by auto
  let ?s1 = "s1\<lparr>bottom_nominations := (bottom_nominations s1)(c := None)\<rparr>"
  have "nominators_ok ?s1" "\<forall>x\<in>set (noms b). nom_stake ?s1 (owner x) c = Some (amount x)"
    "\<forall>n d. nom_stake ?s1 n d \<noteq> Some 0"
    "distinct (map req_nominator (nomination_scheduled_requests ?s1 c))"
    using s1(3,7) has pos d(3) by (auto simp: nominators_ok_def s1(4))
  then obtain s2 where s2: "try_fold (return_stake C c) (noms b) ?s1 = Inr s2" "stakes_returned ?s1 s2"
    "nominators_ok s2"
    "\<And>n. nom_stake s2 n = (if n \<in> set (owners (noms b)) then (nom_stake s1 n)(c := None) else nom_stake s1 n)"
    "\<And>n. nominator_state s1 n = None \<Longrightarrow> nominator_state s2 n = None"
    "\<And>d. d \<noteq> c \<Longrightarrow> nomination_scheduled_requests s2 d = nomination_scheduled_requests s1 d"
    using return_stakes_result [of ?s1 "noms b" c C] d(2) by auto
  have gone: "nom_stake s2 n = (nom_stake s n)(c := None)" for n
    using s1(4) [of n] s2(4) [of n] stk [of n]
    by (auto simp: stakes_None [of "noms t @ noms b" n] fun_upd_idem_iff)
  note k1 = stakes_returnedD [OF s1(2)] and k2 = stakes_returnedD [OF s2(2)]
  show ?thesis
    by (rule that [OF s1(1) _ s2(1) _ _ _ _ _ s2(3)]) (use k1 k2 gone tb s1(5,6) s2(5,6) in simp_all)
qed

lemma execute_leave_candidates_result:
  assumes inv: "staking_inv C s"
  shows "leads_to C (\<lambda>s'. \<forall>n. nom_stake s' n = (nom_stake s n)(c := None))
    (execute_leave_candidates C origin c k s)"
proof (cases origin)
  case (Signed who)
  show ?thesis
  proof (cases "candidate_info s c")
    case (Some m)
    obtain t b where tb: "top_nominations s c = Some t" "bottom_nominations s c = Some b" "book_ok C m t b"
      using candidates_okE [OF staking_invD(1) [OF inv] Some] by blast
    obtain s1 s2 where s2:
      "try_fold (return_stake C c) (noms t) (s\<lparr>top_nominations := (top_nominations s)(c := None)\<rparr>) = Inr s1"
      "bottom_nominations s1 c = Some b"
      "try_fold (return_stake C c) (noms b)
         (s1\<lparr>bottom_nominations := (bottom_nominations s1)(c := None)\<rparr>) = Inr s2"
      "candidate_info s2 = candidate_info s" "top_nominations s2 = (top_nominations s)(c := None)"
      "bottom_nominations s2 = (bottom_nominations s)(c := None)" "candidate_pool s2 = candidate_pool s"
      "min_total_nominator_stake s2 = min_total_nominator_stake s" "nominators_ok s2"
      "\<And>n. nom_stake s2 n = (nom_stake s n)(c := None)"
      "\<And>n. nominator_state s n = None \<Longrightarrow> nominator_state s2 n = None"
      "\<And>d. d \<noteq> c \<Longrightarrow> nomination_scheduled_requests s2 d = nomination_scheduled_requests s d"
      using return_both_result [OF inv tb, where thesis = thesis] that by blast
    have leaving: "can_leave m s = Inr () \<Longrightarrow> \<not> is_active m" "can_leave m s \<noteq> Inl Panic"
      by (auto simp: can_leave_def is_active_def split: collator_status.splits if_splits)
    note keep = staking_inv_departure [OF inv Some]
    show ?thesis
      using Some tb(1) s2 leaving Signed
      by (cases "can_leave m s")
        (auto simp: execute_leave_candidates_def ensure_signed_def deposit_event_def Let_def
          nominators_ok_def intro!: keep)
  qed (simp add: execute_leave_candidates_def ensure_signed_def Signed)
qed (simp_all add: execute_leave_candidates_def ensure_signed_def)

lemmas execute_leave_candidates_safe = execute_leave_candidates_result [THEN leads_to_safe]

end
