(* ===== verification/Staking_Rewards.thy ===== *)
theory Staking_Rewards
  imports Staking_Calls
begin

text \<open>
  Eras, selection of collators, reward payout and growth (\<open>lib.rs\<close>, the helper functions of
  the pallet, its hooks, and \<open>session_handler.rs\<close>).

  A storage double map with a fixed first key is an association list; \<open>iter_prefix\<close> visits
  it in the order of the hashed keys, which is the order of \<open>storage_key\<close>. A hook that
  fails has failed an \<open>expect\<close>, and its error is \<open>Panic\<close>.
\<close>

section \<open>Storage maps\<close>

definition iter_prefix :: "'w config \<Rightarrow> (account \<times> 'v) list \<Rightarrow> (account \<times> 'v) list" where
  "iter_prefix C xs = sort_key (\<lambda>(a, _). storage_key C a) xs"

text \<open>\<open>BTreeMap\<close>: an association list in the order of the keys. The entry of \<open>k\<close> becomes
  \<open>f\<close> of the old value, or \<open>v\<close> when there is none.\<close>

fun btree_update :: "account \<Rightarrow> ('v \<Rightarrow> 'v) \<Rightarrow> 'v \<Rightarrow> (account \<times> 'v) list \<Rightarrow> (account \<times> 'v) list" where
  "btree_update k f v [] = [(k, v)]"
| "btree_update k f v ((k', v') # xs) =
     (if k < k' then (k, v) # (k', v') # xs
      else if k = k' then (k, f v') # xs
      else (k', v') # btree_update k f v xs)"

definition btree_collect :: "(account \<times> 'v) list \<Rightarrow> (account \<times> 'v) list" where
  "btree_collect xs = fold (\<lambda>(k, v). btree_update k (\<lambda>_. v) v) xs []"

section \<open>Selection of collators\<close>

definition compute_top_candidates :: "'w staking \<Rightarrow> account list" where
  "compute_top_candidates s =
     sort (map owner (filter (\<lambda>x. min_collator_stake s \<le> amount x)
       (take (total_selected s) (rev (sort_key amount (candidate_pool s))))))"

text \<open>The map over the top nominations, with the running \<open>uncounted_stake\<close>.\<close>

fun rewardable :: "(account \<times> nomination_action) list \<Rightarrow> bond list \<Rightarrow> balance \<Rightarrow> balance \<times> bond list" where
  "rewardable requests [] uncounted = (uncounted, [])"
| "rewardable requests (b # bs) uncounted =
     (let (uncounted', b') =
            (case alist_get (owner b) requests of
               None \<Rightarrow> (uncounted, b)
             | Some (Revoke _) \<Rightarrow> (sat_add uncounted (amount b), b\<lparr>amount := 0\<rparr>)
             | Some (Decrease a) \<Rightarrow> (sat_add uncounted a, b\<lparr>amount := amount b - a\<rparr>));
          (u, bs') = rewardable requests bs uncounted'
      in (u, b' # bs'))"

definition get_rewardable_nominators ::
  "account \<Rightarrow> 'w staking \<Rightarrow> staking_error + balance \<times> bond list" where
  "get_rewardable_nominators collator s =
     (let requests = btree_collect
            (map (\<lambda>x. (req_nominator x, req_action x)) (nomination_scheduled_requests s collator))
      in and_then (ok_or (top_nominations s collator) Panic) (\<lambda>tops.
           let (uncounted_stake, bonds) = rewardable requests (noms tops) 0
           in Inr (uncounted_stake, truncate_from max_nominations bonds)))"

type_synonym 'w selection = "nat \<times> nat \<times> balance \<times> 'w staking"

definition copy_snapshot ::
  "era_index \<Rightarrow> account \<times> collator_snapshot \<Rightarrow> 'w selection \<Rightarrow> 'w selection" where
  "copy_snapshot now = (\<lambda>(acc, snapshot) (collators, nominations, tot, s).
     (sat_add32 collators 1, sat_add32 nominations (length (snap_nominations snapshot)),
      sat_add tot (snap_total snapshot),
      s\<lparr>at_stake := (at_stake s)(now := alist_insert acc snapshot (at_stake s now))\<rparr>))"

definition choose_again ::
  "era_index \<Rightarrow> (account \<times> collator_snapshot) list \<Rightarrow> account \<Rightarrow> 'w staking \<Rightarrow>
     staking_error + 'w staking" where
  "choose_again now snapshots candidate s =
     and_then (ok_or (alist_get candidate snapshots) Panic) (\<lambda>snapshot.
       Inr (deposit_event (CollatorChosen now candidate (snap_total snapshot)) s))"

definition snapshot_collator ::
  "era_index \<Rightarrow> account \<Rightarrow> 'w selection \<Rightarrow> staking_error + 'w selection" where
  "snapshot_collator now acc = (\<lambda>(collators, nominations, tot, s).
     and_then (ok_or (candidate_info s acc) Panic) (\<lambda>state.
     and_then (get_rewardable_nominators acc s) (\<lambda>(uncounted_stake, rewardable_nominations).
       let snapshot = \<lparr>snap_bond = cm_bond state, snap_nominations = rewardable_nominations,
                       snap_total = cm_total_counted state - uncounted_stake\<rparr>
       in Inr (sat_add32 collators 1, sat_add32 nominations (cm_nomination_count state),
               sat_add tot (cm_total_counted state),
               deposit_event (CollatorChosen now acc (cm_total_counted state))
                 (s\<lparr>at_stake := (at_stake s)(now := alist_insert acc snapshot (at_stake s now))\<rparr>)))))"

definition select_top_candidates ::
  "'w config \<Rightarrow> era_index \<Rightarrow> 'w staking \<Rightarrow> staking_error + 'w selection" where
  "select_top_candidates C now s =
     (let collators = compute_top_candidates s in
      if collators = []
      then let snapshots = iter_prefix C (at_stake s (now - 1));
               (n, m, tot, s1) = fold (copy_snapshot now) snapshots (0, 0, 0, s)
           in and_then (try_fold (choose_again now snapshots) (selected_candidates s1) s1)
                (\<lambda>s2. Inr (n, m, tot, s2))
      else and_then (try_fold (snapshot_collator now) collators (0, 0, 0, s))
             (\<lambda>(n, m, tot, s1).
               if max_candidates C < length collators then Inl Panic
               else Inr (n, m, tot, s1\<lparr>selected_candidates := collators\<rparr>)))"

section \<open>Growth\<close>

definition is_new_growth_period :: "'w config \<Rightarrow> era_index \<Rightarrow> growth_period_info \<Rightarrow> bool" where
  "is_new_growth_period C era_index p \<longleftrightarrow>
     gp_index p = 0 \<or> eras_per_growth_period C \<le> wrapping_sub32 era_index (start_era_index p)"

definition update_collator_scores ::
  "collator_score list \<Rightarrow> collator_score list \<Rightarrow> collator_score list" where
  "update_collator_scores existing current =
     (let current_scores = btree_collect (map (\<lambda>x. (score_collator x, score_points x)) existing);
          merged = fold (\<lambda>x. btree_update (score_collator x)
                               (\<lambda>pts. sat_add32 pts (score_points x)) (score_points x))
                     current current_scores
      in truncate_from collator_max_scores
           (map (\<lambda>(a, p). \<lparr>score_collator = a, score_points = p\<rparr>) merged))"

definition growth_get :: "nat \<Rightarrow> 'w staking \<Rightarrow> growth_info" where
  "growth_get period s =
     (case growth s period of Some info \<Rightarrow> info | None \<Rightarrow> growth_info_default)"

definition growth_mutate :: "nat \<Rightarrow> (growth_info \<Rightarrow> growth_info) \<Rightarrow> 'w staking \<Rightarrow> 'w staking" where
  "growth_mutate period f s = s\<lparr>growth := (growth s)(period \<mapsto> f (growth_get period s))\<rparr>"

definition accumulate_payout_for_period ::
  "nat \<Rightarrow> balance \<Rightarrow> balance \<Rightarrow> nat \<Rightarrow> collator_score list \<Rightarrow> 'w staking \<Rightarrow> 'w staking" where
  "accumulate_payout_for_period growth_index total_staked reward tot_points scores =
     growth_mutate growth_index (\<lambda>info. info\<lparr>
       number_of_accumulations := sat_add32 (number_of_accumulations info) 1,
       total_stake_accumulated := sat_add (total_stake_accumulated info) total_staked,
       total_staker_reward := sat_add (total_staker_reward info) reward,
       total_points := sat_add32 (total_points info) tot_points,
       collator_scores := update_collator_scores (collator_scores info) scores\<rparr>)"

text \<open>A failed \<open>publish\<close> leaves the storage as it was.\<close>

definition trigger_growth_on_t1 ::
  "'w config \<Rightarrow> nat \<Rightarrow> growth_info \<Rightarrow> 'w staking \<Rightarrow> staking_error + 'w staking" where
  "trigger_growth_on_t1 C period info s =
     (let average = total_stake_accumulated info div number_of_accumulations info in
      case publish_growth C (total_staker_reward info) average period (world s) of
        None \<Rightarrow> Inl OtherError
      | Some (tx_id, w) \<Rightarrow>
          Inr (growth_mutate period (\<lambda>g. g\<lparr>growth_tx_id := Some tx_id\<rparr>)
            (s\<lparr>world := w, last_triggered_growth_period := period,
               published_growth := (published_growth s)(tx_id \<mapsto> period)\<rparr>)))"

definition get_untriggered_growths :: "nat \<Rightarrow> 'w staking \<Rightarrow> nat list" where
  "get_untriggered_growths current_period s =
     take max_growths_to_process
       [wrapping_add32 (last_triggered_growth_period s) 1 ..< Suc current_period]"

definition trigger_growth :: "'w config \<Rightarrow> nat \<Rightarrow> 'w staking \<Rightarrow> 'w staking" where
  "trigger_growth C period s =
     (case growth s period of
        None \<Rightarrow> s
      | Some info \<Rightarrow>
          if processed_growth_periods s period \<or> growth_tx_id info \<noteq> None
             \<or> growth_triggered info \<noteq> None
          then s
          else if number_of_accumulations info = 0 \<or> total_stake_accumulated info = 0
                  \<or> total_staker_reward info = 0
          then growth_mutate period (\<lambda>g. g\<lparr>growth_tx_id := Some 0\<rparr>)
                 (s\<lparr>last_triggered_growth_period := period\<rparr>)
          else (case trigger_growth_on_t1 C period info s of Inl _ \<Rightarrow> s | Inr s1 \<Rightarrow> s1))"

definition trigger_outstanding_growths :: "'w config \<Rightarrow> nat \<Rightarrow> 'w staking \<Rightarrow> 'w staking" where
  "trigger_outstanding_growths C latest_period s =
     fold (trigger_growth C) (get_untriggered_growths latest_period s) s"

definition update_collator_payout ::
  "'w config \<Rightarrow> era_index \<Rightarrow> balance \<Rightarrow> balance \<Rightarrow> nat \<Rightarrow> collator_score list \<Rightarrow> 'w staking \<Rightarrow>
     'w staking" where
  "update_collator_payout C payout_era total_staked payout tot_points scores s =
     (if is_new_growth_period C payout_era (growth_period s)
      then let new_growth_period = sat_add32 (gp_index (growth_period s)) 1;
               info = (growth_info_new payout_era)
                 \<lparr>number_of_accumulations := 1, total_stake_accumulated := total_staked,
                  total_staker_reward := payout, total_points := tot_points,
                  collator_scores := scores\<rparr>
           in trigger_outstanding_growths C (wrapping_sub32 new_growth_period 1)
                (s\<lparr>growth_period :=
                     \<lparr>start_era_index = payout_era, gp_index = new_growth_period\<rparr>,
                   growth := (growth s)(new_growth_period \<mapsto> info)\<rparr>)
      else accumulate_payout_for_period (gp_index (growth_period s)) total_staked payout
             tot_points scores s)"

definition try_get_growth_data :: "nat \<Rightarrow> 'w staking \<Rightarrow> staking_error + growth_info" where
  "try_get_growth_data period s = ok_or (growth s period) GrowthDataNotFound"

text \<open>The closure \<open>pay\<close> of \<open>payout_collators\<close>, with the imbalance it collects.\<close>

definition pay_collator ::
  "'w config \<Rightarrow> nat \<Rightarrow> account \<times> balance \<Rightarrow> 'w staking \<times> balance \<Rightarrow>
     staking_error + 'w staking \<times> balance" where
  "pay_collator C period = (\<lambda>(collator, amt) (s, imbalance).
     case deposit_into_existing C collator amt (world s) of
       Some (w, paid) \<Rightarrow>
         Inr (deposit_event (CollatorPaid collator paid period) (s\<lparr>world := w\<rparr>),
              sat_add imbalance paid)
     | None \<Rightarrow> Inl ErrorPayingCollator)"

definition growth_shares :: "'w config \<Rightarrow> balance \<Rightarrow> growth_info \<Rightarrow> (account \<times> balance) list" where
  "growth_shares C amt info =
     map (\<lambda>x. (score_collator x, perbill_mul C (score_points x) (total_points info) amt))
       (collator_scores info)"

definition equal_shares :: "'w config \<Rightarrow> balance \<Rightarrow> account list \<Rightarrow> (account \<times> balance) list" where
  "equal_shares C amt collators =
     map (\<lambda>c. (c, perbill_mul C 1 (length collators) amt)) collators"

text \<open>The loops of \<open>payout_collators\<close>: the first payment that fails ends the loop, and the
  payments before it stand.\<close>

fun pay_collators ::
  "'w config \<Rightarrow> nat \<Rightarrow> (account \<times> balance) list \<Rightarrow> 'w staking \<times> balance \<Rightarrow>
     staking_error option \<times> 'w staking \<times> balance" where
  "pay_collators C period [] x = (None, x)"
| "pay_collators C period (share # shares) x =
     (case pay_collator C period share x of
        Inr x1 \<Rightarrow> pay_collators C period shares x1
      | Inl e \<Rightarrow> (Some e, x))"

text \<open>Whom a payout goes to: the collators that earned points in the period, or the selected
  ones when nothing is known of the period.\<close>

definition payout_shares :: "'w config \<Rightarrow> balance \<Rightarrow> nat \<Rightarrow> 'w staking \<Rightarrow> (account \<times> balance) list" where
  "payout_shares C amt period s =
     (case growth s period of
        Some info \<Rightarrow> growth_shares C amt info
      | None \<Rightarrow> equal_shares C amt (selected_candidates s))"

text \<open>The caller handles an Ethereum event and is not undone when the payout fails, so the
  storage at the failure is returned with the error. The imbalance collected so far is dropped
  on every way out of the function.\<close>

definition payout_collators ::
  "'w config \<Rightarrow> balance \<Rightarrow> nat \<Rightarrow> 'w staking \<Rightarrow> staking_error option \<times> 'w staking" where
  "payout_collators C amt period s =
     (if processed_growth_periods s period then (Some GrowthAlreadyProcessed, s)
      else case pay_collators C period (payout_shares C amt period s) (s, 0) of
        (Some e, s1, imbalance) \<Rightarrow>
          (Some e, s1\<lparr>world := drop_imbalance C imbalance (world s1)\<rparr>)
      | (None, s1, imbalance) \<Rightarrow>
          let s2 = (if growth s period = None then s1
                    else s1\<lparr>growth := (growth s1)(period := None)\<rparr>);
              s3 = s2\<lparr>processed_growth_periods := (processed_growth_periods s2)(period := True)\<rparr>;
              dust_amount = amt - imbalance;
              s4 = s3\<lparr>world := drop_imbalance C imbalance (world s3)\<rparr>
          in (None, if 0 < dust_amount then s4\<lparr>world := handle_dust C dust_amount (world s4)\<rparr>
                    else s4))"

definition on_growth_lifted ::
  "'w config \<Rightarrow> balance \<Rightarrow> nat \<Rightarrow> 'w staking \<Rightarrow> staking_error option \<times> 'w staking" where
  "on_growth_lifted C amt period s = payout_collators C amt period s"

definition PALLET_ID :: string where
  "PALLET_ID = ''parachain_staking''"

definition process_result :: "nat \<Rightarrow> string \<Rightarrow> bool \<Rightarrow> 'w staking \<Rightarrow> 'w staking" where
  "process_result tx_id caller_id succeeded s =
     (case published_growth s tx_id of
        Some period \<Rightarrow>
          if caller_id = PALLET_ID
          then growth_mutate period (\<lambda>g. g\<lparr>growth_triggered := Some succeeded\<rparr>) s else s
      | None \<Rightarrow> s)"

section \<open>Rewards\<close>

definition reward_pot :: "'w config \<Rightarrow> 'w staking \<Rightarrow> balance" where
  "reward_pot C s = free_balance C (world s) (reward_pot_account C) - minimum_balance C"

definition compute_total_reward_to_pay :: "'w config \<Rightarrow> 'w staking \<Rightarrow> balance \<times> 'w staking" where
  "compute_total_reward_to_pay C s =
     (let pot = reward_pot C s;
          locked = locked_era_payout s;
          (payout, s1) =
            (case checked_sub128 pot locked of
               Some p \<Rightarrow> (p, s)
             | None \<Rightarrow> (0, deposit_event (NotEnoughFundsForEraPayment pot) s))
      in case checked_add128 locked payout of
           Some l \<Rightarrow> (payout, s1\<lparr>locked_era_payout := l\<rparr>)
         | None \<Rightarrow> (u128_max - locked, s1\<lparr>locked_era_payout := u128_max\<rparr>))"

definition prepare_staking_payouts :: "'w config \<Rightarrow> era_index \<Rightarrow> 'w staking \<Rightarrow> 'w staking" where
  "prepare_staking_payouts C now s =
     (let dly = reward_payment_delay C; era_to_payout = now - dly;
          tot_points = points s era_to_payout
      in if now \<le> dly \<or> tot_points = 0 then s
         else let total_staked = staked s era_to_payout;
                  (reward, s1) = compute_total_reward_to_pay C
                     (s\<lparr>staked := (staked s)(era_to_payout := 0)\<rparr>);
                  s2 = s1\<lparr>delayed_payouts := (delayed_payouts s1)(era_to_payout \<mapsto> reward)\<rparr>
              in if growth_enabled C
                 then update_collator_payout C era_to_payout total_staked reward tot_points
                        (truncate_from collator_max_scores
                           (map (\<lambda>(c, p). \<lparr>score_collator = c, score_points = p\<rparr>)
                              (iter_prefix C (awarded_pts s2 era_to_payout)))) s2
                 else s2)"

text \<open>The closure \<open>pay_reward\<close> of \<open>pay_one_collator_reward\<close>: a failed transfer is logged.\<close>

definition pay_reward :: "'w config \<Rightarrow> balance \<Rightarrow> account \<Rightarrow> 'w staking \<Rightarrow> 'w staking" where
  "pay_reward C amt payee s =
     (case transfer_keep_alive C (reward_pot_account C) payee amt (world s) of
        Some w \<Rightarrow> (deposit_event (Rewarded payee amt) (s\<lparr>world := w\<rparr>))
                    \<lparr>locked_era_payout := locked_era_payout s - amt\<rparr>
      | None \<Rightarrow> deposit_event (ErrorPayingStakingReward payee amt) s)"

definition pay_nominator ::
  "'w config \<Rightarrow> balance \<Rightarrow> balance \<Rightarrow> bond \<Rightarrow> 'w staking \<Rightarrow> 'w staking" where
  "pay_nominator C snapshot_total reward b s =
     (let nominator_reward = perbill_mul C (amount b) snapshot_total reward
      in if nominator_reward \<noteq> 0 then pay_reward C nominator_reward (owner b) s else s)"

definition pay_one_collator_reward ::
  "'w config \<Rightarrow> era_index \<Rightarrow> balance \<Rightarrow> 'w staking \<Rightarrow> (account \<times> balance) option \<times> 'w staking" where
  "pay_one_collator_reward C paid_for_era total_staking_reward s =
     (let tot_points = points s paid_for_era in
      if tot_points = 0 then (None, s)
      else case iter_prefix C (awarded_pts s paid_for_era) of
             [] \<Rightarrow> (None, s)
           | (collator, pts) # _ \<Rightarrow>
               let reward = perbill_mul C pts tot_points total_staking_reward;
                   state = (case alist_get collator (at_stake s paid_for_era) of
                              Some x \<Rightarrow> x | None \<Rightarrow> default_snapshot);
                   s1 = s\<lparr>awarded_pts := (awarded_pts s)
                             (paid_for_era := alist_remove collator (awarded_pts s paid_for_era)),
                          at_stake := (at_stake s)
                             (paid_for_era := alist_remove collator (at_stake s paid_for_era))\<rparr>;
                   s2 = pay_reward C (perbill_mul C (snap_bond state) (snap_total state) reward)
                          collator s1;
                   s3 = fold (pay_nominator C (snap_total state) reward)
                          (snap_nominations state) s2
               in (Some (collator, reward), s3))"

definition handle_delayed_payouts :: "'w config \<Rightarrow> era_index \<Rightarrow> 'w staking \<Rightarrow> 'w staking" where
  "handle_delayed_payouts C now s =
     (let dly = reward_payment_delay C; paid_for_era = now - dly in
      if now < dly then s
      else case delayed_payouts s paid_for_era of
             None \<Rightarrow> s
           | Some payout \<Rightarrow>
               let (result, s1) = pay_one_collator_reward C paid_for_era payout s
               in if result = None
                  then s1\<lparr>delayed_payouts := (delayed_payouts s1)(paid_for_era := None),
                          points := (points s1)(paid_for_era := 0)\<rparr>
                  else s1)"

definition note_author :: "account \<Rightarrow> 'w staking \<Rightarrow> 'w staking" where
  "note_author author s =
     (let now = era_current (era s);
          old = (case alist_get author (awarded_pts s now) of Some p \<Rightarrow> p | None \<Rightarrow> 0)
      in s\<lparr>awarded_pts :=
             (awarded_pts s)(now := alist_insert author (sat_add32 old 20) (awarded_pts s now)),
           points := (points s)(now := sat_add32 (points s now) 20)\<rparr>)"

section \<open>Eras and sessions\<close>

definition start_new_era ::
  "'w config \<Rightarrow> nat \<Rightarrow> era_info \<Rightarrow> 'w staking \<Rightarrow> staking_error + era_info \<times> 'w staking" where
  "start_new_era C now e s =
     (let e' = era_info_update now e;
          s1 = (if is_staking_enabled C then prepare_staking_payouts C (era_current e') s else s)
      in and_then (select_top_candidates C (era_current e') s1)
           (\<lambda>(collator_count, _, total_staked, s2).
             Inr (e', deposit_event
                        (NewEra (era_first e') (era_current e') collator_count total_staked)
                        (s2\<lparr>era := e', staked := (staked s2)(era_current e' := total s2)\<rparr>))))"

definition on_initialize :: "'w config \<Rightarrow> nat \<Rightarrow> 'w staking \<Rightarrow> staking_error + 'w staking" where
  "on_initialize C n s =
     and_then (if should_update (era s) n then start_new_era C n (era s) s else Inr (era s, s))
       (\<lambda>(e, s1).
         Inr (if is_staking_enabled C then handle_delayed_payouts C (era_current e) s1 else s1))"

definition new_session :: "'w staking \<Rightarrow> account list option" where
  "new_session s = (if selected_candidates s = [] then None else Some (selected_candidates s))"

definition should_end_session ::
  "'w config \<Rightarrow> nat \<Rightarrow> 'w staking \<Rightarrow> staking_error + bool \<times> 'w staking" where
  "should_end_session C now s =
     (if should_update (era s) now then Inr (True, s)
      else if force_new_era s
      then and_then (start_new_era C now (era s) (s\<lparr>force_new_era := False\<rparr>))
             (\<lambda>(_, s1). Inr (True, s1))
      else Inr (False, s))"

definition average_session_length :: "'w staking \<Rightarrow> nat" where
  "average_session_length s = era_length (era s)"

definition estimate_next_session_rotation :: "'w staking \<Rightarrow> nat" where
  "estimate_next_session_rotation s =
     wrapping_add32 (era_first (era s)) (era_length (era s))"

section \<open>Genesis\<close>

text \<open>
  The calls made while the genesis state is built are not wrapped in a storage transaction;
  \<open>join_candidates\<close> and \<open>nominate\<close> make all their checks before their first write, so a
  failed call leaves the state as it was.
\<close>

definition genesis_candidate ::
  "'w config \<Rightarrow> account \<times> balance \<Rightarrow> nat \<times> 'w staking \<Rightarrow> staking_error + nat \<times> 'w staking" where
  "genesis_candidate C = (\<lambda>(candidate, balance) (candidate_count, s).
     if get_collator_stakable_free_balance C candidate s < balance then Inl Panic
     else let count = sat_add32 candidate_count 1 in
          case join_candidates C (Signed candidate) balance count s of
            Inl e \<Rightarrow> if e = Panic then Inl Panic else Inr (count, s)
          | Inr s1 \<Rightarrow> Inr (sat_add32 count 1, s1))"

type_synonym counts = "account \<Rightarrow> nat"

definition genesis_nomination ::
  "'w config \<Rightarrow> account \<times> account \<times> balance \<Rightarrow> counts \<times> counts \<times> 'w staking \<Rightarrow>
     staking_error + counts \<times> counts \<times> 'w staking" where
  "genesis_nomination C = (\<lambda>(nominator, target, balance) (col, del, s).
     if get_nominator_stakable_free_balance C nominator s < balance then Inl Panic
     else case nominate C (Signed nominator) target balance (col target) (del nominator) s of
            Inl e \<Rightarrow> if e = Panic then Inl Panic else Inr (col, del, s)
          | Inr s1 \<Rightarrow> Inr (col(target := sat_add32 (col target) 1),
                             del(nominator := sat_add32 (del nominator) 1), s1))"

record genesis_config =
  g_candidates :: "(account \<times> balance) list"
  g_nominations :: "(account \<times> account \<times> balance) list"
  g_delay :: era_index
  g_min_collator_stake :: balance
  g_min_total_nominator_stake :: balance

definition genesis_build :: "'w config \<Rightarrow> genesis_config \<Rightarrow> 'w staking \<Rightarrow> staking_error + 'w staking" where
  "genesis_build C G s =
     and_then (try_fold (genesis_candidate C) (g_candidates G) (0, s)) (\<lambda>(_, s1).
     and_then (try_fold (genesis_nomination C) (g_nominations G) (\<lambda>_. 0, \<lambda>_. 0, s1))
       (\<lambda>(_, _, s2).
         if g_delay G = 0 then Inl Panic
         else and_then (select_top_candidates C 1
                (s2\<lparr>delay := g_delay G, min_collator_stake := g_min_collator_stake G,
                    min_total_nominator_stake := g_min_total_nominator_stake G,
                    total_selected := min_selected_candidates C\<rparr>))
           (\<lambda>(v_count, _, total_staked, s3).
             Inr (deposit_event (NewEra 0 1 v_count total_staked)
               (s3\<lparr>era := era_info_new 1 0 (wrapping_add32 (min_blocks_per_era C) 2),
                   staked := (staked s3)(1 := total s3),
                   growth := (growth s3)(0 \<mapsto> growth_info_new 1)\<rparr>)))))"

end
