(* ===== verification/Staking_Hooks.thy ===== *)
theory Staking_Hooks
  imports Staking_Keep Staking_Rewards
begin

text \<open>
  The hooks of the staking pallet, which run in every block and must not panic: the change
  of era with the selection of collators, the payouts, and the end of a session. They do
  not touch the records of nominators and candidates, and every selected collator keeps a
  snapshot for the current era, which the selection of the next era may fall back on.
\<close>

section \<open>What the hooks do not touch\<close>

definition same_book :: "'w staking \<Rightarrow> 'w staking \<Rightarrow> bool" where
  "same_book s s' \<longleftrightarrow>
     candidate_info s' = candidate_info s \<and> top_nominations s' = top_nominations s \<and>
     bottom_nominations s' = bottom_nominations s \<and> candidate_pool s' = candidate_pool s \<and>
     nominator_state s' = nominator_state s \<and>
     nomination_scheduled_requests s' = nomination_scheduled_requests s \<and>
     min_total_nominator_stake s' = min_total_nominator_stake s"

definition same_selection :: "'w staking \<Rightarrow> 'w staking \<Rightarrow> bool" where
  "same_selection s s' \<longleftrightarrow>
     selected_candidates s' = selected_candidates s \<and> at_stake s' = at_stake s \<and> era s' = era s"

definition selection_ok :: "'w staking \<Rightarrow> bool" where
  "selection_ok s \<longleftrightarrow>
     (\<forall>c\<in>set (selected_candidates s). alist_get c (at_stake s (era_current (era s))) \<noteq> None)"

lemma same_book_refl [simp]: "same_book s s"
  by (simp add: same_book_def)

lemma same_selection_refl [simp]: "same_selection s s"
  by (simp add: same_selection_def)

lemma same_book_trans: "same_book s1 s2 \<Longrightarrow> same_book s2 s3 \<Longrightarrow> same_book s1 s3"
  by (simp add: same_book_def)

lemma same_selection_trans:
  "same_selection s1 s2 \<Longrightarrow> same_selection s2 s3 \<Longrightarrow> same_selection s1 s3"
  by (simp add: same_selection_def)

lemma staking_inv_same_book: "same_book s s' \<Longrightarrow> staking_inv C s' = staking_inv C s"
  by (rule staking_inv_cong) (simp_all add: same_book_def)

lemma selection_ok_same: "same_selection s s' \<Longrightarrow> selection_ok s' = selection_ok s"
  by (simp add: selection_ok_def same_selection_def)

lemma fold_preserves:
  assumes "\<And>x s. P s \<Longrightarrow> P (f x s)" "P s"
  shows "P (fold f xs s)"
  using assms by (induction xs arbitrary: s) auto

section \<open>Storage maps\<close>

lemma alist_get_iter_prefix: "alist_get k (iter_prefix C xs) = None \<longleftrightarrow> alist_get k xs = None"
  by (simp add: alist_get_None iter_prefix_def)

section \<open>Payouts and growth\<close>

lemma growth_frames:
  "same_book s (growth_mutate p f s)" "same_selection s (growth_mutate p f s)"
  by (simp_all add: growth_mutate_def same_book_def same_selection_def)

lemma trigger_growth_frames:
  "same_book s (trigger_growth C p s)" "same_selection s (trigger_growth C p s)"
  by (simp_all add: trigger_growth_def trigger_growth_on_t1_def growth_mutate_def Let_def
      same_book_def same_selection_def split: option.splits)

lemma trigger_outstanding_frames:
  "same_book s (trigger_outstanding_growths C p s) \<and>
   same_selection s (trigger_outstanding_growths C p s)"
  unfolding trigger_outstanding_growths_def
  by (rule fold_preserves [where P = "\<lambda>s'. same_book s s' \<and> same_selection s s'"])
    (auto intro: same_book_trans same_selection_trans trigger_growth_frames)

lemma update_collator_payout_frames:
  "same_book s (update_collator_payout C e ts p tp sc s) \<and>
   same_selection s (update_collator_payout C e ts p tp sc s)"
proof (cases "is_new_growth_period C e (growth_period s)")
  case True
  let ?gp = "sat_add32 (gp_index (growth_period s)) 1"
  let ?info = "(growth_info_new e)\<lparr>number_of_accumulations := 1, total_stake_accumulated := ts,
    total_staker_reward := p, total_points := tp, collator_scores := sc\<rparr>"
  let ?s = "s\<lparr>growth_period := \<lparr>start_era_index = e, gp_index = ?gp\<rparr>,
    growth := (growth s)(?gp \<mapsto> ?info)\<rparr>"
  have "same_book s ?s" "same_selection s ?s"
    by (simp_all add: same_book_def same_selection_def)
  moreover have "update_collator_payout C e ts p tp sc s =
      trigger_outstanding_growths C (wrapping_sub32 ?gp 1) ?s"
    using True by (simp add: update_collator_payout_def Let_def)
  ultimately show ?thesis
    using trigger_outstanding_frames [of ?s C "wrapping_sub32 ?gp 1"]
      same_book_trans [of s ?s] same_selection_trans [of s ?s] by simp
next
  case False
  then show ?thesis
    by (simp add: update_collator_payout_def accumulate_payout_for_period_def growth_frames)
qed

lemma compute_reward_frames:
  assumes "compute_total_reward_to_pay C s = (reward, s')"
  shows "same_book s s'" "same_selection s s'"
  using assms by (auto simp: compute_total_reward_to_pay_def Let_def same_book_def
      same_selection_def deposit_event_def split: option.splits)

lemma prepare_payouts_frames:
  "same_book s (prepare_staking_payouts C now s) \<and>
   same_selection s (prepare_staking_payouts C now s)"
proof -
  let ?e = "now - reward_payment_delay C"
  let ?s = "s\<lparr>staked := (staked s)(?e := 0)\<rparr>"
  obtain reward s1 where r: "compute_total_reward_to_pay C ?s = (reward, s1)"
    by fastforce
  let ?s2 = "s1\<lparr>delayed_payouts := (delayed_payouts s1)(?e \<mapsto> reward)\<rparr>"
  have k: "same_book s ?s2" "same_selection s ?s2"
    using compute_reward_frames [OF r] by (simp_all add: same_book_def same_selection_def)
  have "same_book s (update_collator_payout C e ts p tp sc ?s2) \<and>
      same_selection s (update_collator_payout C e ts p tp sc ?s2)" for e ts p tp sc
    using update_collator_payout_frames same_book_trans [OF k(1)] same_selection_trans [OF k(2)]
    by blast
  then show ?thesis
    using k by (simp add: prepare_staking_payouts_def Let_def r)
qed

lemma pay_reward_frames: "same_book s (pay_reward C a p s)" "same_selection s (pay_reward C a p s)"
  by (simp_all add: pay_reward_def same_book_def same_selection_def deposit_event_def
      split: option.splits)

lemma pay_nominators_frames:
  "same_book s (fold (pay_nominator C t r) bs s) \<and> same_selection s (fold (pay_nominator C t r) bs s)"
  by (rule fold_preserves [where P = "\<lambda>s'. same_book s s' \<and> same_selection s s'"])
    (auto simp: pay_nominator_def Let_def
      intro: same_book_trans same_selection_trans pay_reward_frames)

text \<open>A payout removes the snapshot of the era it pays for, and no other.\<close>

lemma pay_one_frames:
  assumes "pay_one_collator_reward C e t s = (r, s')"
  shows "same_book s s'" "selected_candidates s' = selected_candidates s" "era s' = era s"
    "e' \<noteq> e \<Longrightarrow> at_stake s' e' = at_stake s e'"
proof -
  have "same_book s s' \<and> selected_candidates s' = selected_candidates s \<and> era s' = era s \<and>
      (e' \<noteq> e \<longrightarrow> at_stake s' e' = at_stake s e')"
  proof (cases "points s e = 0 \<or> iter_prefix C (awarded_pts s e) = []")
    case True
    then show ?thesis
      using assms by (auto simp: pay_one_collator_reward_def Let_def split: if_splits)
  next
    case False
    then obtain c pts rest where it: "iter_prefix C (awarded_pts s e) = (c, pts) # rest"
      by (cases "iter_prefix C (awarded_pts s e)") auto
    let ?st = "case alist_get c (at_stake s e) of Some x \<Rightarrow> x | None \<Rightarrow> default_snapshot"
    let ?rw = "perbill_mul C pts (points s e) t"
    let ?s1 = "s\<lparr>awarded_pts := (awarded_pts s)(e := alist_remove c (awarded_pts s e)),
      at_stake := (at_stake s)(e := alist_remove c (at_stake s e))\<rparr>"
    let ?s2 = "pay_reward C (perbill_mul C (snap_bond ?st) (snap_total ?st) ?rw) c ?s1"
    have s': "s' = fold (pay_nominator C (snap_total ?st) ?rw) (snap_nominations ?st) ?s2"
      using assms False it by (simp add: pay_one_collator_reward_def Let_def)
    have "same_book ?s1 s'" "same_selection ?s1 s'"
      unfolding s' using pay_nominators_frames [of ?s2] pay_reward_frames [of ?s1]
      by (blast intro: same_book_trans same_selection_trans)+
    then show ?thesis
      by (simp add: same_book_def same_selection_def)
  qed
  then show "same_book s s'" "selected_candidates s' = selected_candidates s" "era s' = era s"
    "e' \<noteq> e \<Longrightarrow> at_stake s' e' = at_stake s e'"
    by auto
qed

lemma handle_delayed_frames:
  assumes "0 < reward_payment_delay C"
  shows "same_book s (handle_delayed_payouts C (era_current (era s)) s) \<and>
    (selection_ok s \<longrightarrow> selection_ok (handle_delayed_payouts C (era_current (era s)) s)) \<and>
    era (handle_delayed_payouts C (era_current (era s)) s) = era s"
proof -
  let ?now = "era_current (era s)" and ?e = "era_current (era s) - reward_payment_delay C"
  show ?thesis
  proof (cases "?now < reward_payment_delay C \<or> delayed_payouts s ?e = None")
    case True
    then show ?thesis
      by (auto simp: handle_delayed_payouts_def Let_def)
  next
    case False
    then obtain payout where p: "delayed_payouts s ?e = Some payout"
      by auto
    obtain r s1 where r: "pay_one_collator_reward C ?e payout s = (r, s1)"
      by fastforce
    note k = pay_one_frames [OF r]
    have "?now \<noteq> ?e"
      using assms False by linarith
    then have "selection_ok s1 = selection_ok s"
      using k(2,3) k(4) [of ?now] by (simp add: selection_ok_def)
    then show ?thesis
      using False p r k(1,3) by (simp add: handle_delayed_payouts_def Let_def same_book_def selection_ok_def)
  qed
qed

section \<open>Selection of collators\<close>

lemma compute_top_mem:
  assumes "pool_ok C s" "c \<in> set (compute_top_candidates s)"
  shows "\<exists>m. candidate_info s c = Some m"
proof -
  obtain x where "x \<in> set (candidate_pool s)" "owner x = c"
    using assms(2) by (auto simp: compute_top_candidates_def dest: in_set_takeD)
  then show ?thesis
    using assms(1) by (auto simp: pool_ok_def)
qed

lemma compute_top_length:
  assumes "pool_ok C s"
  shows "length (compute_top_candidates s) \<le> max_candidates C"
proof -
  have "length (compute_top_candidates s) \<le> length (candidate_pool s)"
    by (auto simp: compute_top_candidates_def intro: order_trans [OF length_filter_le])
  then show ?thesis
    using assms by (simp add: pool_ok_def bounded_inv_def)
qed

lemma copy_snapshots:
  assumes "fold (copy_snapshot now) xs (n, m, t, s) = (n', m', t', s')"
  shows "same_book s s' \<and> selected_candidates s' = selected_candidates s \<and> era s' = era s \<and>
    (\<forall>c. c \<in> fst ` set xs \<or> alist_get c (at_stake s now) \<noteq> None \<longrightarrow> alist_get c (at_stake s' now) \<noteq> None)"
  using assms
proof (induction xs arbitrary: n m t s)
  case (Cons x xs)
  obtain acc sn where x: "x = (acc, sn)"
    by fastforce
  obtain n1 m1 t1 s1 where s1: "copy_snapshot now x (n, m, t, s) = (n1, m1, t1, s1)"
    by (metis prod_cases4)
  have k: "same_book s s1" "selected_candidates s1 = selected_candidates s" "era s1 = era s"
    "\<And>c. alist_get c (at_stake s1 now) = (if c = acc then Some sn else alist_get c (at_stake s now))"
    using s1 by (auto simp: copy_snapshot_def x same_book_def alist_get_insert)
  have "fold (copy_snapshot now) xs (n1, m1, t1, s1) = (n', m', t', s')"
    using Cons.prems s1 by simp
  note ih = Cons.IH [OF this]
  show ?case
    using ih k same_book_trans [OF k(1)] by (auto simp: x)
qed simp

lemma choose_again_result:
  assumes "\<forall>c\<in>set cs. alist_get c sn \<noteq> None"
  shows "\<exists>s'. try_fold (choose_again now sn) cs s = Inr s' \<and> same_book s s' \<and> same_selection s s'"
  using assms
proof (induction cs arbitrary: s)
  case (Cons c cs)
  obtain v where v: "alist_get c sn = Some v"
    using Cons.prems by auto
  let ?s = "deposit_event (CollatorChosen now c (snap_total v)) s"
  have k: "same_book s ?s" "same_selection s ?s"
    by (simp_all add: deposit_event_def same_book_def same_selection_def)
  obtain s' where "try_fold (choose_again now sn) cs ?s = Inr s'" "same_book ?s s'" "same_selection ?s s'"
    using Cons.IH [of ?s] Cons.prems by auto
  moreover have "choose_again now sn c s = Inr ?s"
    using v by (simp add: choose_again_def)
  ultimately show ?case
    using same_book_trans [OF k(1)] same_selection_trans [OF k(2)] by auto
qed simp

lemma rewardable_result:
  assumes "top_nominations s c = Some tops"
  shows "\<exists>u bonds. get_rewardable_nominators c s = Inr (u, bonds)"
  using assms by (simp add: get_rewardable_nominators_def Let_def split_beta)

lemma snapshot_collators:
  assumes "candidates_ok C s" "\<forall>c\<in>set cs. candidate_info s c \<noteq> None"
  shows "\<exists>n' m' t' s'. try_fold (snapshot_collator now) cs (n, m, t, s) = Inr (n', m', t', s') \<and>
    same_book s s' \<and> era s' = era s \<and>
    (\<forall>c. c \<in> set cs \<or> alist_get c (at_stake s now) \<noteq> None \<longrightarrow> alist_get c (at_stake s' now) \<noteq> None)"
  using assms
proof (induction cs arbitrary: n m t s)
  case (Cons c cs)
  obtain md where md: "candidate_info s c = Some md"
    using Cons.prems(2) by auto
  obtain tops b where tops: "top_nominations s c = Some tops" "bottom_nominations s c = Some b" "book_ok C md tops b"
    by (rule candidates_okE [OF Cons.prems(1) md])
  obtain u bonds where g: "get_rewardable_nominators c s = Inr (u, bonds)"
    using rewardable_result [of s c] tops(1) by auto
  let ?sn = "\<lparr>snap_bond = cm_bond md, snap_nominations = bonds, snap_total = cm_total_counted md - u\<rparr>"
  let ?s = "deposit_event (CollatorChosen now c (cm_total_counted md))
    (s\<lparr>at_stake := (at_stake s)(now := alist_insert c ?sn (at_stake s now))\<rparr>)"
  have step: "snapshot_collator now c (n, m, t, s) = Inr (sat_add32 n 1,
      sat_add32 m (cm_nomination_count md), sat_add t (cm_total_counted md), ?s)"
    using md g by (simp add: snapshot_collator_def Let_def)
  have k: "same_book s ?s" "era ?s = era s"
    "\<And>d. alist_get d (at_stake ?s now) = (if d = c then Some ?sn else alist_get d (at_stake s now))"
    by (simp_all add: deposit_event_def same_book_def alist_get_insert)
  have "candidates_ok C ?s" "\<forall>c\<in>set cs. candidate_info ?s c \<noteq> None"
    using Cons.prems by (simp_all add: candidates_ok_def deposit_event_def)
  then obtain n' m' t' s' where "try_fold (snapshot_collator now) cs (sat_add32 n 1,
      sat_add32 m (cm_nomination_count md), sat_add t (cm_total_counted md), ?s) = Inr (n', m', t', s')"
    "same_book ?s s'" "era s' = era ?s"
    "\<And>d. d \<in> set cs \<or> alist_get d (at_stake ?s now) \<noteq> None \<Longrightarrow> alist_get d (at_stake s' now) \<noteq> None"
    using Cons.IH [of ?s] by meson
  then show ?case
    using step k same_book_trans [OF k(1)] by (auto simp del: not_None_eq)
qed simp

lemma select_top_result:
  assumes inv: "staking_inv C s"
    and sel: "\<forall>c\<in>set (selected_candidates s). alist_get c (at_stake s (now - 1)) \<noteq> None"
  shows "\<exists>n m t s'. select_top_candidates C now s = Inr (n, m, t, s') \<and> same_book s s' \<and>
    era s' = era s \<and> (\<forall>c\<in>set (selected_candidates s'). alist_get c (at_stake s' now) \<noteq> None)"
proof (cases "compute_top_candidates s = []")
  case True
  let ?sn = "iter_prefix C (at_stake s (now - 1))"
  obtain n m t s1 where f: "fold (copy_snapshot now) ?sn (0, 0, 0, s) = (n, m, t, s1)"
    by (metis prod_cases4)
  note k = copy_snapshots [OF f]
  have known: "\<forall>c\<in>set (selected_candidates s1). alist_get c ?sn \<noteq> None"
    using k sel by (simp add: alist_get_iter_prefix del: not_None_eq)
  obtain s2 where s2: "try_fold (choose_again now ?sn) (selected_candidates s1) s1 = Inr s2"
    "same_book s1 s2" "same_selection s1 s2"
    using choose_again_result [OF known] by blast
  have "select_top_candidates C now s = Inr (n, m, t, s2)"
    using True f s2(1) by (simp add: select_top_candidates_def Let_def)
  moreover have "alist_get c (at_stake s2 now) \<noteq> None" if "c \<in> set (selected_candidates s2)" for c
  proof -
    have "c \<in> fst ` set ?sn"
      using known that s2(3) alist_get_None [of c ?sn] by (auto simp: same_selection_def)
    then show ?thesis
      using k s2(3) by (simp add: same_selection_def del: not_None_eq)
  qed
  moreover have "same_book s s2" "era s2 = era s"
    using k s2(2,3) same_book_trans by (auto simp: same_selection_def)
  ultimately show ?thesis
    by blast
next
  case False
  note i = staking_invD [OF inv]
  let ?cs = "compute_top_candidates s"
  have "\<forall>c\<in>set ?cs. candidate_info s c \<noteq> None"
    using compute_top_mem [OF i(2)] by fastforce
  then obtain n m t s1 where f: "try_fold (snapshot_collator now) ?cs (0, 0, 0, s) = Inr (n, m, t, s1)"
    and k: "same_book s s1" "era s1 = era s"
      "\<And>c. c \<in> set ?cs \<Longrightarrow> alist_get c (at_stake s1 now) \<noteq> None"
    using snapshot_collators [OF i(1), of ?cs now 0 0 0] by blast
  have "select_top_candidates C now s = Inr (n, m, t, s1\<lparr>selected_candidates := ?cs\<rparr>)"
    using False f compute_top_length [OF i(2)] by (simp add: select_top_candidates_def Let_def)
  then show ?thesis
    using k by (simp add: same_book_def del: not_None_eq)
qed

section \<open>Eras\<close>

lemma start_new_era_result:
  assumes inv: "staking_inv C s" and sel: "selection_ok s" and small: "era_current (era s) < u32_max"
  shows "\<exists>e' s'. start_new_era C now (era s) s = Inr (e', s') \<and> same_book s s' \<and> selection_ok s' \<and>
    era s' = e' \<and> era_current e' = era_current (era s) + 1"
proof -
  let ?e = "era_info_update now (era s)"
  let ?s1 = "if is_staking_enabled C then prepare_staking_payouts C (era_current ?e) s else s"
  have next_era: "era_current ?e = era_current (era s) + 1"
    using small by (simp add: era_info_update_def sat_add32_def)
  have k: "same_book s ?s1" "same_selection s ?s1"
    using prepare_payouts_frames by auto
  have inv1: "staking_inv C ?s1"
    using staking_inv_same_book [OF k(1)] inv by blast
  have sel1: "\<forall>c\<in>set (selected_candidates ?s1). alist_get c (at_stake ?s1 (era_current ?e - 1)) \<noteq> None"
    using sel k(2) next_era by (simp add: selection_ok_def same_selection_def del: not_None_eq)
  obtain n m t s2 where s2: "select_top_candidates C (era_current ?e) ?s1 = Inr (n, m, t, s2)"
    "same_book ?s1 s2" "\<forall>c\<in>set (selected_candidates s2). alist_get c (at_stake s2 (era_current ?e)) \<noteq> None"
    using select_top_result [OF inv1 sel1] by blast
  let ?s' = "deposit_event (NewEra (era_first ?e) (era_current ?e) n t)
    (s2\<lparr>era := ?e, staked := (staked s2)(era_current ?e := total s2)\<rparr>)"
  have "start_new_era C now (era s) s = Inr (?e, ?s')"
    using s2(1) by (simp add: start_new_era_def Let_def)
  moreover have "same_book s ?s'"
    using same_book_trans [OF k(1) s2(2)] by (simp add: same_book_def deposit_event_def)
  moreover have "selection_ok ?s'"
    using s2(3) by (simp add: selection_ok_def deposit_event_def del: not_None_eq)
  moreover have "era ?s' = ?e"
    by (simp add: deposit_event_def)
  ultimately show ?thesis
    using next_era by blast
qed

lemma on_initialize_result:
  assumes inv: "staking_inv C s" and sel: "selection_ok s" and small: "era_current (era s) < u32_max"
    and delay: "0 < reward_payment_delay C"
  shows "\<exists>s'. on_initialize C n s = Inr s' \<and> same_book s s' \<and> selection_ok s'"
proof -
  obtain e s1 where s1: "(if should_update (era s) n then start_new_era C n (era s) s else Inr (era s, s)) =
      Inr (e, s1)" "same_book s s1" "selection_ok s1" "era s1 = e"
    using start_new_era_result [OF inv sel small, of n] sel
    by (cases "should_update (era s) n") auto
  have h: "same_book s1 (handle_delayed_payouts C (era_current e) s1)"
    "selection_ok (handle_delayed_payouts C (era_current e) s1)"
    using handle_delayed_frames [OF delay, of s1] s1(3,4) by simp_all
  show ?thesis
    using s1(1-3) h same_book_trans [OF s1(2) h(1)] by (simp add: on_initialize_def)
qed

lemma should_end_session_result:
  assumes inv: "staking_inv C s" and sel: "selection_ok s" and small: "era_current (era s) < u32_max"
  shows "\<exists>b s'. should_end_session C n s = Inr (b, s') \<and> same_book s s' \<and> selection_ok s'"
proof -
  let ?s = "s\<lparr>force_new_era := False\<rparr>"
  have k: "same_book s ?s" "same_selection s ?s"
    by (simp_all add: same_book_def same_selection_def)
  have "staking_inv C ?s" "selection_ok ?s"
    using inv sel staking_inv_same_book [OF k(1)] selection_ok_same [OF k(2)] by blast+
  then obtain e s' where "start_new_era C n (era s) ?s = Inr (e, s')" "same_book ?s s'" "selection_ok s'"
    using start_new_era_result [of C ?s n] small by auto
  then show ?thesis
    using sel same_book_trans [OF k(1)] by (auto simp: should_end_session_def)
qed

end
