(* ===== verification/Staking_Reach.thy ===== *)
theory Staking_Reach
  imports Staking_Keep_Leave Staking_Hooks
begin

text \<open>
  The staking pallet as a transition system: a step is a dispatched call, a hook, or a change
  of the rest of the runtime. Every state reached from one that satisfies the invariant
  satisfies it, and no call or hook panics in it.
\<close>

section \<open>Steps\<close>

text \<open>The calls of the pallet, with their arguments.\<close>

datatype (plugins only: code) staking_call =
    SetTotalSelected nat
  | SetBlocksPerEra nat
  | SetAdminSetting admin_settings
  | JoinCandidates balance nat
  | ScheduleLeaveCandidates nat
  | ExecuteLeaveCandidates account nat
  | CancelLeaveCandidates nat
  | GoOffline
  | GoOnline
  | CandidateBondExtra balance
  | ScheduleCandidateUnbond balance
  | ExecuteCandidateUnbond account
  | CancelCandidateUnbond
  | Nominate account balance nat nat
  | BondExtra account balance
  | ScheduleLeaveNominators
  | ExecuteLeaveNominators account nat
  | CancelLeaveNominators
  | ScheduleRevokeNomination account
  | ScheduleNominatorUnbond account balance
  | ExecuteNominationRequest account account
  | CancelNominationRequest account
  | HotfixRemoveNominationRequests "account list"
  | SignedCandidateBondExtra signed_proof balance
  | SignedScheduleCandidateUnbond signed_proof balance
  | SignedExecuteCandidateUnbond signed_proof account
  | SignedNominate signed_proof "nat list" balance
  | SignedBondExtra signed_proof balance
  | SignedScheduleLeaveNominators signed_proof
  | SignedExecuteLeaveNominators signed_proof account
  | SignedScheduleRevokeNomination signed_proof account
  | SignedScheduleNominatorUnbond signed_proof balance
  | SignedExecuteNominationRequest signed_proof account

fun dispatch :: "'w config \<Rightarrow> origin \<Rightarrow> staking_call \<Rightarrow> 'w staking \<Rightarrow> staking_error + 'w staking" where
  "dispatch C o' (SetTotalSelected n) s = set_total_selected C o' n s"
| "dispatch C o' (SetBlocksPerEra n) s = set_blocks_per_era C o' n s"
| "dispatch C o' (SetAdminSetting x) s = set_admin_setting C o' x s"
| "dispatch C o' (JoinCandidates b k) s = join_candidates C o' b k s"
| "dispatch C o' (ScheduleLeaveCandidates k) s = schedule_leave_candidates o' k s"
| "dispatch C o' (ExecuteLeaveCandidates c k) s = execute_leave_candidates C o' c k s"
| "dispatch C o' (CancelLeaveCandidates k) s = cancel_leave_candidates C o' k s"
| "dispatch C o' GoOffline s = go_offline o' s"
| "dispatch C o' GoOnline s = go_online C o' s"
| "dispatch C o' (CandidateBondExtra x) s = candidate_bond_extra C o' x s"
| "dispatch C o' (ScheduleCandidateUnbond x) s = schedule_candidate_unbond o' x s"
| "dispatch C o' (ExecuteCandidateUnbond c) s = execute_candidate_unbond C o' c s"
| "dispatch C o' CancelCandidateUnbond s = cancel_candidate_unbond o' s"
| "dispatch C o' (Nominate c a k l) s = nominate C o' c a k l s"
| "dispatch C o' (BondExtra c x) s = bond_extra C o' c x s"
| "dispatch C o' ScheduleLeaveNominators s = schedule_leave_nominators C o' s"
| "dispatch C o' (ExecuteLeaveNominators n k) s = execute_leave_nominators C o' n k s"
| "dispatch C o' CancelLeaveNominators s = cancel_leave_nominators o' s"
| "dispatch C o' (ScheduleRevokeNomination c) s = schedule_revoke_nomination C o' c s"
| "dispatch C o' (ScheduleNominatorUnbond c x) s = schedule_nominator_unbond C o' c x s"
| "dispatch C o' (ExecuteNominationRequest n c) s = execute_nomination_request C o' n c s"
| "dispatch C o' (CancelNominationRequest c) s = cancel_nomination_request o' c s"
| "dispatch C o' (HotfixRemoveNominationRequests cs) s =
     hotfix_remove_nomination_requests_exited_candidates o' cs s"
| "dispatch C o' (SignedCandidateBondExtra pf x) s = signed_candidate_bond_extra C o' pf x s"
| "dispatch C o' (SignedScheduleCandidateUnbond pf x) s =
     signed_schedule_candidate_unbond C o' pf x s"
| "dispatch C o' (SignedExecuteCandidateUnbond pf c) s = signed_execute_candidate_unbond C o' pf c s"
| "dispatch C o' (SignedNominate pf ts a) s = signed_nominate C o' pf ts a s"
| "dispatch C o' (SignedBondExtra pf x) s = signed_bond_extra C o' pf x s"
| "dispatch C o' (SignedScheduleLeaveNominators pf) s = signed_schedule_leave_nominators C o' pf s"
| "dispatch C o' (SignedExecuteLeaveNominators pf n) s = signed_execute_leave_nominators C o' pf n s"
| "dispatch C o' (SignedScheduleRevokeNomination pf c) s =
     signed_schedule_revoke_nomination C o' pf c s"
| "dispatch C o' (SignedScheduleNominatorUnbond pf x) s =
     signed_schedule_nominator_unbond C o' pf x s"
| "dispatch C o' (SignedExecuteNominationRequest pf n) s =
     signed_execute_nomination_request C o' pf n s"

text \<open>The stake that a call may add.\<close>

fun call_stake :: "staking_call \<Rightarrow> balance" where
  "call_stake (JoinCandidates b k) = b"
| "call_stake (CandidateBondExtra x) = x"
| "call_stake (Nominate c a k l) = a"
| "call_stake (BondExtra c x) = x"
| "call_stake (SignedCandidateBondExtra pf x) = x"
| "call_stake (SignedNominate pf ts a) = a"
| "call_stake (SignedBondExtra pf x) = x"
| "call_stake _ = 0"

text \<open>
  \<open>reachable C s0 s\<close>: the pallet gets from \<open>s0\<close> to \<open>s\<close>. Calls and eras stay within the widths
  of balances and era numbers; the rest of the runtime may change balances, the block number
  and the pallet's own event log at any time.
\<close>

inductive reachable :: "'w config \<Rightarrow> 'w staking \<Rightarrow> 'w staking \<Rightarrow> bool" for C s0 where
  start: "reachable C s0 s0"
| call: "reachable C s0 s \<Longrightarrow> headroom (call_stake k) s \<Longrightarrow> dispatch C origin k s = Inr s' \<Longrightarrow>
    reachable C s0 s'"
| initialize: "reachable C s0 s \<Longrightarrow> era_current (era s) < u32_max \<Longrightarrow> on_initialize C n s = Inr s' \<Longrightarrow>
    reachable C s0 s'"
| end_session: "reachable C s0 s \<Longrightarrow> era_current (era s) < u32_max \<Longrightarrow>
    should_end_session C n s = Inr (b, s') \<Longrightarrow> reachable C s0 s'"
| author: "reachable C s0 s \<Longrightarrow> reachable C s0 (note_author a s)"
| lifted: "reachable C s0 s \<Longrightarrow> on_growth_lifted C amt p s = (r, s') \<Longrightarrow> reachable C s0 s'"
| result: "reachable C s0 s \<Longrightarrow> reachable C s0 (process_result tx caller ok s)"
| runtime: "reachable C s0 s \<Longrightarrow>
    reachable C s0 (s\<lparr>world := w, block_number := blk, events := es\<rparr>)"

section \<open>Calls that run others\<close>

lemma headroom_mono: "headroom x s \<Longrightarrow> y \<le> x \<Longrightarrow> headroom y s"
  unfolding headroom_def by (meson add_left_mono order_trans)

lemma safe_same_book: "staking_inv C s \<Longrightarrow> same_book s s' \<Longrightarrow> staking_inv C s'"
  by (simp add: staking_inv_same_book)

lemma signed_call_safe:
  assumes "\<And>who. safe C (body who s)" "unauthorized \<noteq> Panic"
  shows "safe C (signed_call C origin pf payload unauthorized body s)"
  unfolding signed_call_def
proof (rule safe_signed, goal_cases)
  case (1 who)
  have "safe C (and_then (body who s) (\<lambda>s1. Inr (increment_proxy_nonce who s1)))"
  proof (rule safe_and_then)
    show "e \<noteq> Panic" if "body who s = Inl e" for e
      using assms(1) [of who] that by simp
    show "safe C (Inr (increment_proxy_nonce who x))" if "body who s = Inr x" for x
      using assms(1) [of who] that safe_same_book [of C x "increment_proxy_nonce who x"]
      by (simp add: increment_proxy_nonce_def same_book_def)
  qed
  then show ?case
    using assms(2) by auto
qed

lemma actual_amount_le: "actual_amount per dust n i rest s \<le> rest"
  by (simp add: actual_amount_def)

lemma room_spent:
  "room_kept amt s s' \<Longrightarrow> headroom rest s \<Longrightarrow> amt \<le> rest \<Longrightarrow> headroom (rest - amt) s'"
  unfolding room_kept_def by (metis le_add_diff_inverse2)

lemma split_and_nominate_loop_safe:
  assumes conf: "config_ok C" and "staking_inv C s" "headroom rest s"
  shows "safe C (split_and_nominate_loop C n per dust k i ts rest cnt s)"
  using assms(2,3)
proof (induction ts arbitrary: i rest cnt s)
  case (Cons t ts)
  let ?a = "actual_amount per dust k i rest s"
  have room: "headroom ?a s"
    using headroom_mono [OF Cons.prems(2) actual_amount_le] .
  have "safe C (and_then (call_nominate C n c ?a l cnt s)
      (split_and_nominate_loop C n per dust k (Suc i) ts (rest - ?a) (wrapping_add32 cnt 1)))" for c l
  proof (rule safe_and_then)
    note r = call_nominate_room [OF Cons.prems(1) conf room, of n c l cnt]
    show "e \<noteq> Panic" if "call_nominate C n c ?a l cnt s = Inl e" for e
      using r that by simp
    show "safe C (split_and_nominate_loop C n per dust k (Suc i) ts (rest - ?a) (wrapping_add32 cnt 1) x)"
      if "call_nominate C n c ?a l cnt s = Inr x" for x
      using r that room_spent [of ?a s x rest, OF _ Cons.prems(2) actual_amount_le]
      by (intro Cons.IH) simp_all
  qed
  then show ?case
    by (cases "lookup C t"; cases "candidate_info s (the (lookup C t))") (simp_all add: Let_def)
qed simp

lemma bond_extra_loop_safe:
  assumes lim: "limits_ok C" and "staking_inv C s" "headroom rest s"
  shows "safe C (bond_extra_loop C n per dust k i bs rest s)"
  using assms(2,3)
proof (induction bs arbitrary: i rest s)
  case (Cons b bs)
  let ?a = "actual_amount per dust k i rest s"
  have room: "headroom ?a s"
    using headroom_mono [OF Cons.prems(2) actual_amount_le] .
  note r = call_bond_extra_room [OF Cons.prems(1) lim room, of n "owner b"]
  have "safe C (and_then (call_bond_extra C n (owner b) ?a s)
      (bond_extra_loop C n per dust k (Suc i) bs (rest - ?a)))"
  proof (rule safe_and_then)
    show "e \<noteq> Panic" if "call_bond_extra C n (owner b) ?a s = Inl e" for e
      using r that by simp
    show "safe C (bond_extra_loop C n per dust k (Suc i) bs (rest - ?a) x)"
      if "call_bond_extra C n (owner b) ?a s = Inr x" for x
      using r that room_spent [of ?a s x rest, OF _ Cons.prems(2) actual_amount_le]
      by (intro Cons.IH) simp_all
  qed
  then show ?case
    by (simp add: Let_def)
qed simp

lemma schedule_unbond_loop_safe:
  assumes "staking_inv C s"
  shows "schedule_unbond_loop C n xs out s \<noteq> Inl Panic \<and>
    (\<forall>out' s'. schedule_unbond_loop C n xs out s = Inr (out', s') \<longrightarrow> staking_inv C s')"
  using assms
proof (induction xs arbitrary: out s)
  case (Cons x xs)
  have "and_then (nomination_schedule_bond_decrease C c n a s) (schedule_unbond_loop C n xs out1) \<noteq> Inl Panic \<and>
      (\<forall>out' s'. and_then (nomination_schedule_bond_decrease C c n a s) (schedule_unbond_loop C n xs out1) =
         Inr (out', s') \<longrightarrow> staking_inv C s')" for c a out1
  proof (cases "nomination_schedule_bond_decrease C c n a s")
    case (Inl e)
    then show ?thesis
      using schedule_bond_decrease_safe [OF Cons.prems, of c n a] by simp
  next
    case (Inr s1)
    then have "staking_inv C s1"
      using schedule_bond_decrease_safe [OF Cons.prems, of c n a] by simp
    then show ?thesis
      using Cons.IH Inr by simp
  qed
  then show ?case
    by (simp add: Let_def)
qed simp

lemma execute_requests_loop_safe:
  assumes lim: "limits_ok C" and "staking_inv C s"
  shows "safe C (execute_requests_loop C n now bs s)"
  using assms(2)
proof (induction bs arbitrary: s)
  case (Cons b bs)
  note r = execute_scheduled_request_safe [OF Cons.prems lim, of "owner b" n]
  have "safe C (and_then (if due then nomination_execute_scheduled_request C (owner b) n s else Inr s)
      (execute_requests_loop C n now bs))" for due
  proof (rule safe_and_then)
    show "e \<noteq> Panic" if "(if due then nomination_execute_scheduled_request C (owner b) n s else Inr s) = Inl e"
      for e
      using that r by (simp split: if_splits)
    show "safe C (execute_requests_loop C n now bs x)"
      if "(if due then nomination_execute_scheduled_request C (owner b) n s else Inr s) = Inr x" for x
      using that r Cons.prems by (intro Cons.IH) (simp split: if_splits)
  qed
  then show ?case
    by (cases "position (\<lambda>r. req_nominator r = n) (nomination_scheduled_requests s (owner b))")
      (simp_all add: Let_def)
qed simp

section \<open>Every call\<close>

lemma settings_safe:
  assumes inv: "staking_inv C s"
  shows "safe C (set_total_selected C origin n s)" "safe C (set_blocks_per_era C origin n s)"
    "safe C (set_admin_setting C origin x s)"
    "safe C (hotfix_remove_nomination_requests_exited_candidates origin cs s)"
proof -
  have keep: "staking_inv C s'" if "same_book s s'" for s'
    using safe_same_book [OF inv that] .
  show "safe C (set_total_selected C origin n s)" "safe C (set_blocks_per_era C origin n s)"
    by (auto simp: set_total_selected_def set_blocks_per_era_def ensure_root_def Let_def
        deposit_event_def same_book_def intro!: keep)
  show "safe C (set_admin_setting C origin x s)"
  proof (cases x)
    case (AdminMinTotalNominatorStake v)
    have "staking_inv C (s\<lparr>min_total_nominator_stake := v, events := es\<rparr>)"
      if "min_nomination_per_collator C \<le> v" for es
      using inv that by (simp add: staking_inv_def candidates_ok_def pool_ok_def nominators_ok_def
          agree_def requests_ok_def positive_def apart_def unbonds_ok_def minimums_ok_def)
    then show ?thesis
      using AdminMinTotalNominatorStake
      by (simp add: set_admin_setting_def ensure_root_def deposit_event_def)
  qed (auto simp: set_admin_setting_def ensure_root_def deposit_event_def same_book_def intro!: keep)
  have "fold (\<lambda>c m. m(c := [])) cs f = f" if "list_all (\<lambda>c. f c = []) cs"
    for f :: "account \<Rightarrow> scheduled_request list"
    using that by (induction cs) (simp_all add: fun_upd_idem)
  then show "safe C (hotfix_remove_nomination_requests_exited_candidates origin cs s)"
    unfolding hotfix_remove_nomination_requests_exited_candidates_def
    by (intro safe_signed)
      (auto simp: list_ex_iff list_all_iff same_book_def intro!: keep)
qed

lemma split_and_nominate_safe:
  assumes "config_ok C" "staking_inv C s" "headroom amt s"
  shows "safe C (split_and_nominate C n ts amt s)"
  using split_and_nominate_loop_safe [OF assms] by (simp add: split_and_nominate_def Let_def)

lemma bond_extra_all_safe:
  assumes "limits_ok C" "staking_inv C s" "headroom amt s"
  shows "safe C (bond_extra_all C n amt s)"
  using bond_extra_loop_safe [OF assms]
  by (cases "nominator_state s n") (simp_all add: bond_extra_all_def Let_def)

lemma schedule_unbond_all_safe:
  assumes "staking_inv C s"
  shows "safe C (schedule_unbond_all C n x s)"
proof -
  have "identify_collators_to_withdraw_from C n x s \<noteq> Inl Panic"
    by (cases "nominator_state s n")
      (simp_all add: identify_collators_to_withdraw_from_def Let_def)
  then show ?thesis
    using schedule_unbond_loop_safe [OF assms, of n]
    by (cases "identify_collators_to_withdraw_from C n x s")
      (auto simp: schedule_unbond_all_def safe_def and_then_Inl split: sum.splits if_splits)
qed

lemma signed_calls_safe:
  assumes inv: "staking_inv C s" and conf: "config_ok C" and room: "headroom amt s"
  shows "safe C (signed_candidate_bond_extra C origin pf amt s)"
    "safe C (signed_schedule_candidate_unbond C origin pf x s)"
    "safe C (signed_execute_candidate_unbond C origin pf c s)"
    "safe C (signed_nominate C origin pf ts amt s)"
    "safe C (signed_bond_extra C origin pf amt s)"
    "safe C (signed_schedule_leave_nominators C origin pf s)"
    "safe C (signed_execute_leave_nominators C origin pf c s)"
    "safe C (signed_schedule_revoke_nomination C origin pf c s)"
    "safe C (signed_schedule_nominator_unbond C origin pf x s)"
    "safe C (signed_execute_nomination_request C origin pf c s)"
proof -
  have lim: "limits_ok C"
    using conf by (simp add: config_ok_def)
  show "safe C (signed_candidate_bond_extra C origin pf amt s)"
    unfolding signed_candidate_bond_extra_def
    by (rule signed_call_safe) (simp_all add: call_candidate_bond_extra_safe [OF inv room])
  show "safe C (signed_schedule_candidate_unbond C origin pf x s)"
    unfolding signed_schedule_candidate_unbond_def
    by (rule signed_call_safe) (simp_all add: call_schedule_candidate_unbond_safe [OF inv])
  show "safe C (signed_execute_candidate_unbond C origin pf c s)"
    unfolding signed_execute_candidate_unbond_def
    by (rule signed_call_safe) (simp_all add: call_execute_candidate_unbond_safe [OF inv])
  have "safe C (signed_call C origin pf (NominatePayload (proof_relayer pf) ts amt)
      UnauthorizedSignedNominateTransaction (\<lambda>n. split_and_nominate C n ts amt) s)"
    by (rule signed_call_safe) (simp_all add: split_and_nominate_safe [OF conf inv room])
  then show "safe C (signed_nominate C origin pf ts amt s)"
    unfolding signed_nominate_def by (intro safe_signed) simp
  have "safe C (signed_call C origin pf (BondExtraPayload (proof_relayer pf) amt)
      UnauthorizedSignedBondExtraTransaction (\<lambda>n. bond_extra_all C n amt) s)"
    by (rule signed_call_safe) (simp_all add: bond_extra_all_safe [OF lim inv room])
  then show "safe C (signed_bond_extra C origin pf amt s)"
    unfolding signed_bond_extra_def by (intro safe_signed) simp
  show "safe C (signed_schedule_leave_nominators C origin pf s)"
    unfolding signed_schedule_leave_nominators_def
    by (rule signed_call_safe) (simp_all add: schedule_revoke_all_safe [OF inv])
  show "safe C (signed_execute_leave_nominators C origin pf c s)"
    unfolding signed_execute_leave_nominators_def
    by (rule signed_call_safe)
      (simp_all add: execute_revoke_all_safe [OF inv lim] split: option.splits)
  show "safe C (signed_schedule_revoke_nomination C origin pf c s)"
    unfolding signed_schedule_revoke_nomination_def
    by (rule signed_call_safe) (simp_all add: schedule_revoke_safe [OF inv])
  show "safe C (signed_schedule_nominator_unbond C origin pf x s)"
    unfolding signed_schedule_nominator_unbond_def
    by (rule signed_call_safe) (simp_all add: schedule_unbond_all_safe [OF inv])
  have "safe C (and_then (ok_or (nominator_state s c) NominatorDNE) (\<lambda>state.
      execute_requests_loop C c (era_current (era s)) (nom_nominations state) s))"
    using execute_requests_loop_safe [OF lim inv] by (cases "nominator_state s c") simp_all
  then show "safe C (signed_execute_nomination_request C origin pf c s)"
    unfolding signed_execute_nomination_request_def by (intro signed_call_safe) simp_all
qed

lemma dispatch_safe:
  assumes inv: "staking_inv C s" and conf: "config_ok C" and room: "headroom (call_stake k) s"
  shows "safe C (dispatch C origin k s)"
proof -
  have lim: "limits_ok C"
    using conf by (simp add: config_ok_def)
  have zero: "headroom 0 s"
    using headroom_mono [OF room] by simp
  have nominate: "safe C (nominate C origin c a i j s)" "safe C (bond_extra C origin c a s)"
    "safe C (candidate_bond_extra C origin a s)" if "headroom a s" for c a i j
    unfolding nominate_def bond_extra_def candidate_bond_extra_def
    using call_nominate_safe [OF inv conf that] call_bond_extra_safe [OF inv lim that]
      call_candidate_bond_extra_safe [OF inv that] by (auto intro!: safe_signed)
  show ?thesis
    using room signed_calls_safe [OF inv conf] zero nominate
    by (cases k)
      (simp_all add: settings_safe [OF inv] join_candidates_safe [OF inv _ lim]
        schedule_leave_candidates_safe [OF inv] execute_leave_candidates_safe [OF inv]
        cancel_leave_candidates_safe [OF inv] go_offline_safe [OF inv] go_online_safe [OF inv]
        cancel_candidate_unbond_safe [OF inv] schedule_candidate_unbond_def
        execute_candidate_unbond_def schedule_leave_nominators_def execute_leave_nominators_def
        cancel_leave_nominators_def schedule_revoke_nomination_def schedule_nominator_unbond_def
        execute_nomination_request_def cancel_nomination_request_def safe_signed
        call_schedule_candidate_unbond_safe [OF inv] call_execute_candidate_unbond_safe [OF inv]
        schedule_revoke_all_safe [OF inv] execute_revoke_all_safe [OF inv lim]
        cancel_revoke_all_safe [OF inv] schedule_revoke_safe [OF inv]
        schedule_bond_decrease_safe [OF inv] execute_scheduled_request_safe [OF inv lim]
        cancel_request_safe [OF inv])
qed

end
