(* ===== verification/Staking_Frame.thy ===== *)
theory Staking_Frame
  imports Staking_Reach
begin

text \<open>
  The calls leave the selection of collators alone: the selected collators, their snapshots
  and the number of the current era change in the hooks only. No call marks a growth period
  as paid. The nonce of an account moves
  in a call the account has signed, and by one.
\<close>

definition kept :: "'w staking \<Rightarrow> 'w staking \<Rightarrow> bool" where
  "kept s s' \<longleftrightarrow>
     selected_candidates s' = selected_candidates s \<and> at_stake s' = at_stake s \<and>
     era_current (era s') = era_current (era s) \<and> proxy_nonces s' = proxy_nonces s \<and>
     processed_growth_periods s' = processed_growth_periods s"

text \<open>\<open>keeps p s r\<close>: when \<open>r\<close> succeeds, the state \<open>p\<close> finds in its result is kept.\<close>

definition keeps :: "('a \<Rightarrow> 'w staking) \<Rightarrow> 'w staking \<Rightarrow> staking_error + 'a \<Rightarrow> bool" where
  "keeps p s r \<longleftrightarrow> (\<forall>x. r = Inr x \<longrightarrow> kept s (p x))"

lemma kept_refl [simp]: "kept s s"
  by (simp add: kept_def)

lemma kept_trans [trans]: "kept s1 s2 \<Longrightarrow> kept s2 s3 \<Longrightarrow> kept s1 s3"
  by (simp add: kept_def)

lemma kept_upd [simp]:
  "kept s (s'\<lparr>nominator_state := a\<rparr>) = kept s s'" "kept s (s'\<lparr>candidate_info := b\<rparr>) = kept s s'"
  "kept s (s'\<lparr>nomination_scheduled_requests := c\<rparr>) = kept s s'"
  "kept s (s'\<lparr>top_nominations := d\<rparr>) = kept s s'" "kept s (s'\<lparr>bottom_nominations := e\<rparr>) = kept s s'"
  "kept s (s'\<lparr>total := f\<rparr>) = kept s s'" "kept s (s'\<lparr>candidate_pool := g\<rparr>) = kept s s'"
  "kept s (s'\<lparr>events := h\<rparr>) = kept s s'" "kept s (s'\<lparr>world := i\<rparr>) = kept s s'"
  "kept s (deposit_event ev s') = kept s s'"
  by (simp_all add: kept_def deposit_event_def)

lemma keeps_simps [simp]: "keeps p s (Inl e)" "keeps p s (Inr x) = kept s (p x)"
  by (simp_all add: keeps_def)

lemma keeps_ok_or [simp]: "keeps (\<lambda>_. s) s (ok_or x e)"
  by (simp add: keeps_def)

text \<open>Where the first part does not change the state, and where it does.\<close>

lemma keeps_pure:
  "(\<And>x. m = Inr x \<Longrightarrow> keeps p s (f x)) \<Longrightarrow> keeps p s (and_then m f)"
  by (cases m) auto

lemma keeps_ok:
  "(\<And>y. x = Some y \<Longrightarrow> keeps p s (f y)) \<Longrightarrow> keeps p s (and_then (ok_or x e) f)"
  by (cases x) auto

lemma keeps_step:
  assumes "keeps q s m" "\<And>x. m = Inr x \<Longrightarrow> keeps p (q x) (f x)"
  shows "keeps p s (and_then m f)"
  using assms kept_trans by (cases m) (fastforce simp: keeps_def)+

lemma keeps_if: "(b \<Longrightarrow> keeps p s x) \<Longrightarrow> (\<not> b \<Longrightarrow> keeps p s y) \<Longrightarrow> keeps p s (if b then x else y)"
  by simp

lemma keeps_option:
  "(x = None \<Longrightarrow> keeps p s a) \<Longrightarrow> (\<And>y. x = Some y \<Longrightarrow> keeps p s (f y)) \<Longrightarrow>
     keeps p s (case x of None \<Rightarrow> a | Some y \<Rightarrow> f y)"
  by (cases x) auto


section \<open>Nominators\<close>

lemma adjust_bond_lock_keeps: "keeps (\<lambda>s. s) s (adjust_bond_lock C st adj s)"
  by (auto simp: adjust_bond_lock_def Let_def split: bond_adjust.splits)

lemma totals_keep:
  "keeps snd s (total_sub C a st s)" "keeps snd s (total_sub_if C a check st s)"
  unfolding total_sub_def total_sub_if_def Let_def
  by (auto intro!: keeps_pure keeps_step [OF adjust_bond_lock_keeps])

lemma rm_nomination_keeps: "keeps (\<lambda>(_, _, s). s) s (nominator_rm_nomination C c st s)"
  unfolding nominator_rm_nomination_def
  by (auto intro!: keeps_pure keeps_step [OF totals_keep(1)] split: option.splits)

lemma remove_request_kept:
  "nomination_remove_request_with_state c n st s = (st', s') \<Longrightarrow> kept s s'"
  by (auto simp: nomination_remove_request_with_state_def Let_def split: option.splits)

lemma update_active_kept [simp]: "kept s (update_active C c x s') = kept s s'"
  by (simp add: update_active_eq)

lemma reset_top_data_kept: "reset_top_data C c t m s = (m', s') \<Longrightarrow> kept s s'"
  by (auto simp: reset_top_data_def Let_def split: if_splits)

lemma kick_nominator_keeps: "keeps (\<lambda>s. s) s (kick_nominator C c k s)"
  unfolding kick_nominator_def Let_def
  by (rule keeps_pure, rule keeps_step [OF rm_nomination_keeps])
    (auto split: prod.splits dest: remove_request_kept)

section \<open>The vectors of a candidate\<close>

lemma add_bottom_keeps: "keeps snd s (add_bottom_nomination C bumped c x m s)"
  unfolding add_bottom_nomination_def Let_def
  by (rule keeps_pure, rule keeps_step [where q = "\<lambda>(_, _, s). s"])
    (auto intro!: keeps_step [OF kick_nominator_keeps])

lemma add_top_keeps: "keeps (\<lambda>(_, _, s). s) s (add_top_nomination C c x m s)"
  unfolding add_top_nomination_def Let_def
  by (rule keeps_pure, rule keeps_step [where q = "\<lambda>(_, _, _, s). s"])
    (auto intro!: keeps_step [OF add_bottom_keeps] split: prod.splits dest: reset_top_data_kept)

lemma add_keeps: "keeps (\<lambda>(_, _, _, s). s) s (cm_add_nomination C c x m s)"
  unfolding cm_add_nomination_def Let_def
  by (auto intro!: keeps_step [OF add_bottom_keeps] keeps_step [OF add_top_keeps]
      split: capacity_status.splits)

lemma rm_top_keeps: "keeps (\<lambda>(_, _, s). s) s (rm_top_nomination C c n m s)"
  unfolding rm_top_nomination_def Let_def
  by (rule keeps_pure, rule keeps_pure, rule keeps_step [where q = "\<lambda>(_, _, s). s"])
    (auto intro!: keeps_ok split: prod.splits dest: reset_top_data_kept)

lemma rm_bottom_keeps: "keeps (\<lambda>(_, _, s). s) s (rm_bottom_nomination C c n m s)"
  unfolding rm_bottom_nomination_def Let_def by (auto intro!: keeps_ok)

lemma rm_keeps: "keeps (\<lambda>(_, _, s). s) s (rm_nomination_if_exists C c n a m s)"
  using rm_top_keeps [of s C c n m] rm_bottom_keeps [of s C c n m]
  by (auto simp: rm_nomination_if_exists_def Let_def split: sum.splits)

lemma increase_top_keeps: "keeps (\<lambda>(_, _, s). s) s (increase_top_nomination C c n x m s)"
  unfolding increase_top_nomination_def Let_def
  by (auto intro!: keeps_ok split: prod.splits dest: reset_top_data_kept)

lemma increase_bottom_keeps: "keeps (\<lambda>(_, _, s). s) s (increase_bottom_nomination C c n a x m s)"
  unfolding increase_bottom_nomination_def Let_def
  by (rule keeps_pure, rule keeps_step [where q = "\<lambda>(_, _, _, s). s"])
    (auto intro!: keeps_ok split: prod.splits dest: reset_top_data_kept)

lemma increase_keeps: "keeps (\<lambda>(_, _, s). s) s (cm_increase_nomination C c n a x m s)"
  using increase_top_keeps [of s C c n x m] increase_bottom_keeps [of s C c n a x m]
  by (auto simp: cm_increase_nomination_def Let_def split: sum.splits)

lemma decrease_top_keeps: "keeps (\<lambda>(_, _, s). s) s (decrease_top_nomination C c n a x m s)"
  unfolding decrease_top_nomination_def Let_def
  by (rule keeps_pure, rule keeps_step [where q = "\<lambda>(_, _, _, s). s"])
    (auto intro!: keeps_ok split: prod.splits dest: reset_top_data_kept)

lemma decrease_bottom_keeps: "keeps (\<lambda>(_, _, s). s) s (decrease_bottom_nomination C c n x m s)"
  unfolding decrease_bottom_nomination_def Let_def by (auto intro!: keeps_ok)

lemma decrease_keeps: "keeps (\<lambda>(_, _, s). s) s (cm_decrease_nomination C c n a x m s)"
  using decrease_top_keeps [of s C c n a x m] decrease_bottom_keeps [of s C c n x m]
  by (auto simp: cm_decrease_nomination_def Let_def split: sum.splits)

section \<open>Nominations and requests\<close>

lemma increase_nomination_keeps: "keeps (\<lambda>s. s) s (increase_nomination C c x st s)"
  unfolding increase_nomination_def Let_def
  by (auto intro!: keeps_step [OF adjust_bond_lock_keeps] keeps_ok keeps_step [OF increase_keeps]
      split: option.splits)

lemma leaves_candidate_keeps: "keeps (\<lambda>s. s) s (nominator_leaves_candidate C c n a s)"
  unfolding nominator_leaves_candidate_def
  by (auto intro!: keeps_ok keeps_step [OF rm_keeps])

lemma scheduling_keeps:
  "keeps (\<lambda>s. s) s (nomination_schedule_revoke C c n s)"
  "keeps (\<lambda>s. s) s (nomination_schedule_bond_decrease C c n x s)"
  "keeps (\<lambda>s. s) s (nomination_cancel_request c n s)"
  unfolding nomination_schedule_revoke_def nomination_schedule_bond_decrease_def
    nomination_cancel_request_def Let_def
  by (auto intro!: keeps_ok split: option.splits)

lemma execute_revoke_keeps: "keeps (\<lambda>s. s) s (execute_revoke C c n st rq i s)"
  unfolding execute_revoke_def Let_def
  by (auto intro!: keeps_step [OF rm_nomination_keeps] keeps_step [OF leaves_candidate_keeps])

lemma execute_decrease_keeps: "keeps (\<lambda>s. s) s (execute_decrease C c n st rq i s)"
  unfolding execute_decrease_def Let_def
  by (auto intro!: keeps_ok keeps_step [OF totals_keep(2)] keeps_step [OF decrease_keeps]
      split: option.splits)

lemma execute_request_keeps: "keeps (\<lambda>s. s) s (nomination_execute_scheduled_request C c n s)"
  unfolding nomination_execute_scheduled_request_def Let_def
  by (auto intro!: keeps_ok execute_revoke_keeps execute_decrease_keeps
      split: nomination_action.splits)

lemma insert_requests_kept [simp]: "kept s (insert_requests ups s') = kept s s'"
  by (simp add: insert_requests_def)

lemma all_requests_keep:
  "keeps (\<lambda>s. s) s (nominator_schedule_revoke_all C n s)"
  "keeps (\<lambda>s. s) s (nominator_cancel_scheduled_revoke_all n s)"
  unfolding nominator_schedule_revoke_all_def nominator_cancel_scheduled_revoke_all_def Let_def
  by (auto intro!: keeps_ok split: prod.splits)

lemma leave_all_keeps: "keeps snd s (leave_all C n vs s)"
proof (induction vs arbitrary: s)
  case (Cons v vs)
  obtain b rq i where v: "v = (b, rq, i)"
    by (cases v)
  have "keeps (\<lambda>s. s) s (case nominator_leaves_candidate C (owner b) n (amount b) s of
      Inr s' \<Rightarrow> Inr s' | Inl e \<Rightarrow> if e = Panic then Inl Panic else Inr s)"
    using leaves_candidate_keeps [of s C "owner b" n "amount b"] by (auto split: sum.splits)
  then show ?case
    unfolding v leave_all.simps by (rule keeps_step) (auto intro!: keeps_step [OF Cons.IH])
qed simp

lemma execute_all_keeps: "keeps (\<lambda>s. s) s (nominator_execute_scheduled_revoke_all C n k s)"
  unfolding nominator_execute_scheduled_revoke_all_def Let_def
  by (auto intro!: keeps_ok keeps_pure [of "validate_revokes n s xs" for xs]
      keeps_step [OF leave_all_keeps] keeps_step [OF totals_keep(1)])

section \<open>Calls\<close>

lemma call_nominate_keeps: "keeps (\<lambda>s. s) s (call_nominate C n c a i j s)"
  unfolding call_nominate_def Let_def
  by (auto intro!: keeps_ok keeps_pure [of "nominate_nominator_state C n c a j s"]
      keeps_step [OF add_keeps] keeps_step [OF adjust_bond_lock_keeps])

lemma call_bond_extra_keeps: "keeps (\<lambda>s. s) s (call_bond_extra C n c x s)"
  unfolding call_bond_extra_def by (auto intro!: keeps_ok increase_nomination_keeps)

lemma call_candidate_bond_extra_keeps: "keeps (\<lambda>s. s) s (call_candidate_bond_extra C c x s)"
  by (cases "candidate_info s c")
    (auto simp: call_candidate_bond_extra_def cm_bond_extra_def Let_def)

lemma call_schedule_candidate_unbond_keeps:
  "keeps (\<lambda>s. s) s (call_schedule_candidate_unbond c x s)"
  unfolding call_schedule_candidate_unbond_def
  by (auto intro!: keeps_ok keeps_pure [of "schedule_unbond x st s" for st])

lemma unbond_keeps:
  "keeps snd s (execute_unbond C c st s)" "keeps snd s (cancel_unbond c st s)"
  unfolding execute_unbond_def cancel_unbond_def Let_def
  by (auto intro!: keeps_ok split: option.splits)

lemma call_execute_candidate_unbond_keeps:
  "keeps (\<lambda>s. s) s (call_execute_candidate_unbond C c s)"
  unfolding call_execute_candidate_unbond_def
  by (auto intro!: keeps_ok keeps_step [OF unbond_keeps(1)])

lemma return_stake_keeps: "keeps (\<lambda>s. s) s (return_stake C c b s)"
  unfolding return_stake_def Let_def
  by (auto intro!: keeps_ok keeps_step [OF rm_nomination_keeps] split: option.splits prod.splits
      dest: remove_request_kept)

lemma try_fold_keeps:
  "(\<And>x s. keeps (\<lambda>s. s) s (f x s)) \<Longrightarrow> keeps (\<lambda>s. s) s (try_fold f xs s)"
proof (induction xs arbitrary: s)
  case (Cons x xs)
  show ?case
    using keeps_step [OF Cons.prems [of s x], of "\<lambda>s. s" "try_fold f xs"] Cons.IH [OF Cons.prems]
    by simp
qed simp

text \<open>The loops of the signed calls.\<close>

lemma split_and_nominate_loop_keeps:
  "keeps (\<lambda>s. s) s (split_and_nominate_loop C n per dust k i ts rest cnt s)"
  by (induction ts arbitrary: i rest cnt s)
    (auto simp: Let_def intro!: keeps_ok keeps_step [OF call_nominate_keeps])

lemma bond_extra_loop_keeps: "keeps (\<lambda>s. s) s (bond_extra_loop C n per dust k i bs rest s)"
  by (induction bs arbitrary: i rest s)
    (auto simp: Let_def intro!: keeps_step [OF call_bond_extra_keeps])

lemma schedule_unbond_loop_keeps: "keeps snd s (schedule_unbond_loop C n xs out s)"
  by (induction xs arbitrary: out s)
    (auto simp: Let_def intro!: keeps_step [OF scheduling_keeps(2)])

lemma execute_requests_loop_keeps: "keeps (\<lambda>s. s) s (execute_requests_loop C n now bs s)"
proof (induction bs arbitrary: s)
  case (Cons b bs)
  have "keeps (\<lambda>s. s) s (if d then nomination_execute_scheduled_request C (owner b) n s else Inr s)" for d
    by (simp add: execute_request_keeps)
  from keeps_step [OF this Cons.IH] show ?case
    by (auto simp: Let_def intro!: keeps_ok)
qed simp

lemma signed_bodies_keep:
  "keeps (\<lambda>s. s) s (split_and_nominate C n ts x s)" "keeps (\<lambda>s. s) s (bond_extra_all C n x s)"
  "keeps (\<lambda>s. s) s (schedule_unbond_all C n x s)"
  unfolding split_and_nominate_def bond_extra_all_def schedule_unbond_all_def Let_def
  by (auto intro!: keeps_ok split_and_nominate_loop_keeps bond_extra_loop_keeps
      keeps_pure [of "identify_collators_to_withdraw_from C n x s"]
      keeps_step [OF schedule_unbond_loop_keeps])

lemma candidate_calls_keep:
  "keeps (\<lambda>s. s) s (join_candidates C origin b k s)"
  "keeps (\<lambda>s. s) s (schedule_leave_candidates origin k s)"
  "keeps (\<lambda>s. s) s (cancel_leave_candidates C origin k s)"
  "keeps (\<lambda>s. s) s (go_offline origin s)" "keeps (\<lambda>s. s) s (go_online C origin s)"
  "keeps (\<lambda>s. s) s (cancel_candidate_unbond origin s)"
  unfolding join_candidates_def schedule_leave_candidates_def cancel_leave_candidates_def
    go_offline_def go_online_def cancel_candidate_unbond_def Let_def
  by (auto intro!: keeps_pure [of "ensure_signed origin"] keeps_ok
      keeps_pure [of "schedule_leave st s" for st] keeps_step [OF unbond_keeps(2)]
      split: option.splits prod.splits bool.splits)

lemma execute_leave_candidates_keeps: "keeps (\<lambda>s. s) s (execute_leave_candidates C origin c k s)"
proof -
  have fold: "keeps (\<lambda>s. s) s' (try_fold (return_stake C c) bs s1)" if "kept s' s1" for s' s1 bs
    using try_fold_keeps [of "return_stake C c" s1 bs] that return_stake_keeps kept_trans
    by (fastforce simp: keeps_def)
  show ?thesis
    unfolding execute_leave_candidates_def Let_def
    by (auto intro!: keeps_pure [of "ensure_signed origin"] keeps_ok
        keeps_pure [of "can_leave st s" for st] keeps_step [OF fold])
qed

lemma settings_keep:
  "keeps (\<lambda>s. s) s (set_total_selected C origin n s)" "keeps (\<lambda>s. s) s (set_blocks_per_era C origin n s)"
  "keeps (\<lambda>s. s) s (set_admin_setting C origin x s)"
  "keeps (\<lambda>s. s) s (hotfix_remove_nomination_requests_exited_candidates origin cs s)"
  unfolding set_total_selected_def set_blocks_per_era_def set_admin_setting_def
    hotfix_remove_nomination_requests_exited_candidates_def Let_def
  by (auto simp: kept_def deposit_event_def intro!: keeps_pure [of "ensure_root origin"] keeps_pure [of "ensure_signed origin"]
      split: admin_settings.splits)

text \<open>The calls that carry a proof, with the payload it signs, as a function of the nonce.\<close>

fun call_proof :: "staking_call \<Rightarrow> (signed_proof \<times> (nat \<Rightarrow> signed_payload)) option" where
  "call_proof (SignedCandidateBondExtra pf x) =
     Some (pf, CandidateBondExtraPayload (proof_relayer pf) x)"
| "call_proof (SignedScheduleCandidateUnbond pf x) =
     Some (pf, ScheduleCandidateUnbondPayload (proof_relayer pf) x)"
| "call_proof (SignedExecuteCandidateUnbond pf c) =
     Some (pf, ExecuteCandidateUnbondPayload (proof_relayer pf) c)"
| "call_proof (SignedNominate pf ts a) = Some (pf, NominatePayload (proof_relayer pf) ts a)"
| "call_proof (SignedBondExtra pf x) = Some (pf, BondExtraPayload (proof_relayer pf) x)"
| "call_proof (SignedScheduleLeaveNominators pf) =
     Some (pf, ScheduleLeaveNominatorsPayload (proof_relayer pf))"
| "call_proof (SignedExecuteLeaveNominators pf n) =
     Some (pf, ExecuteLeaveNominatorsPayload (proof_relayer pf) n)"
| "call_proof (SignedScheduleRevokeNomination pf c) =
     Some (pf, ScheduleRevokeNominationPayload (proof_relayer pf) c)"
| "call_proof (SignedScheduleNominatorUnbond pf x) =
     Some (pf, ScheduleNominatorUnbondPayload (proof_relayer pf) x)"
| "call_proof (SignedExecuteNominationRequest pf n) =
     Some (pf, ExecuteNominationRequestPayload (proof_relayer pf) n)"
| "call_proof _ = None"

lemma ensure_signed_Inr: "ensure_signed origin = Inr who \<longleftrightarrow> origin = Signed who"
  by (cases origin) (auto simp: ensure_signed_def)

lemma signed_call_Inr:
  assumes "signed_call C origin pf payload err body s = Inr s'"
  obtains s1 where "origin = Signed (proof_signer pf)"
    "verify_signature C pf (payload (proxy_nonces s (proof_signer pf)))"
    "body (proof_signer pf) s = Inr s1" "s' = increment_proxy_nonce (proof_signer pf) s1"
  using assms by (auto simp: signed_call_def ensure_signed_Inr split: if_splits)

definition authorized ::
  "'w config \<Rightarrow> origin \<Rightarrow> signed_proof \<Rightarrow> (nat \<Rightarrow> signed_payload) \<Rightarrow> 'w staking \<Rightarrow> 'w staking \<Rightarrow> bool" where
  "authorized C origin pf payload s s' \<longleftrightarrow>
     origin = Signed (proof_signer pf) \<and>
     verify_signature C pf (payload (proxy_nonces s (proof_signer pf))) \<and>
     (\<exists>s1. kept s s1 \<and> s' = increment_proxy_nonce (proof_signer pf) s1)"

lemma signed_call_authorized:
  assumes "signed_call C origin pf payload err body s = Inr s'"
    and "keeps (\<lambda>s. s) s (body (proof_signer pf) s)"
  shows "authorized C origin pf payload s s'"
  by (rule signed_call_Inr [OF assms(1)]) (use assms(2) in \<open>auto simp: authorized_def keeps_def\<close>)

lemma signed_dispatch_authorized:
  assumes "call_proof k = Some (pf, payload)" "dispatch C origin k s = Inr s'"
  shows "authorized C origin pf payload s s'"
  using assms
  by (cases k)
    (auto simp: signed_candidate_bond_extra_def signed_schedule_candidate_unbond_def
      signed_execute_candidate_unbond_def signed_nominate_def signed_bond_extra_def
      signed_schedule_leave_nominators_def signed_execute_leave_nominators_def
      signed_schedule_revoke_nomination_def signed_schedule_nominator_unbond_def
      signed_execute_nomination_request_def
      elim!: signed_call_authorized
      intro!: call_candidate_bond_extra_keeps call_schedule_candidate_unbond_keeps
      call_execute_candidate_unbond_keeps signed_bodies_keep all_requests_keep execute_all_keeps
      scheduling_keeps keeps_ok execute_requests_loop_keeps split: option.splits if_splits)

lemma authorized_nonces:
  "authorized C origin pf payload s s' \<Longrightarrow> proxy_nonces s' =
     (proxy_nonces s)(proof_signer pf := (proxy_nonces s (proof_signer pf) + 1) mod 2 ^ 64)"
  by (auto simp: authorized_def increment_proxy_nonce_def kept_def)

definition signed_by :: "staking_call \<Rightarrow> (signed_proof \<times> account \<times> (nat \<Rightarrow> signed_payload)) option" where
  "signed_by k = map_option (\<lambda>(pf, payload). (pf, proof_signer pf, payload)) (call_proof k)"

interpretation staking_signed: signed_calls "verify_signature C" proxy_nonces "dispatch C" signed_by for C
proof
  fix k pf who and payload :: "nat \<Rightarrow> signed_payload"
  assume "signed_by k = Some (pf, who, payload)"
  then show "inj payload"
    by (cases k) (auto simp: signed_by_def intro!: injI)
next
  fix k pf who payload origin s s'
  assume call: "signed_by k = Some (pf, who, payload)" and ok: "dispatch C origin k s = Inr s'"
  have who: "who = proof_signer pf" "call_proof k = Some (pf, payload)"
    using call by (auto simp: signed_by_def)
  note a = signed_dispatch_authorized [OF who(2) ok]
  show "origin = Signed who \<and> verify_signature C pf (payload (proxy_nonces s who)) \<and>
      proxy_nonces s' = (proxy_nonces s)(who := (proxy_nonces s who + 1) mod 2 ^ 64)"
    using a authorized_nonces [OF a] unfolding authorized_def who by blast
qed

lemma unsigned_dispatch_kept: "call_proof k = None \<Longrightarrow> keeps (\<lambda>s. s) s (dispatch C origin k s)"
  by (cases k)
    (auto simp: settings_keep candidate_calls_keep execute_leave_candidates_keeps
      candidate_bond_extra_def schedule_candidate_unbond_def execute_candidate_unbond_def nominate_def
      bond_extra_def schedule_leave_nominators_def execute_leave_nominators_def
      cancel_leave_nominators_def schedule_revoke_nomination_def schedule_nominator_unbond_def
      execute_nomination_request_def cancel_nomination_request_def
      intro!: keeps_pure [of "ensure_signed origin"] call_candidate_bond_extra_keeps
      call_schedule_candidate_unbond_keeps call_execute_candidate_unbond_keeps call_nominate_keeps
      call_bond_extra_keeps all_requests_keep execute_all_keeps scheduling_keeps execute_request_keeps)

lemma dispatch_selection_ok:
  assumes "dispatch C origin k s = Inr s'"
  shows "selection_ok s' = selection_ok s"
proof (cases "call_proof k")
  case None
  then show ?thesis
    using unsigned_dispatch_kept [OF None, of s C origin] assms
    by (simp add: selection_ok_def kept_def)
next
  case (Some p)
  then show ?thesis
    using signed_dispatch_authorized [of k "fst p" "snd p" C origin s s'] assms
    by (auto simp: authorized_def increment_proxy_nonce_def selection_ok_def kept_def)
qed

end
