(* ===== verification/Staking_Always.thy ===== *)
theory Staking_Always
  imports Staking_Frame
begin

text \<open>
  The invariant of the staking pallet along every run, and what follows from it in every
  reachable state: no call and no hook panics.
\<close>

definition run_ok :: "'w config \<Rightarrow> 'w staking \<Rightarrow> bool" where
  "run_ok C s \<longleftrightarrow> staking_inv C s \<and> selection_ok s"

lemma run_ok_same: "run_ok C s \<Longrightarrow> same_book s s' \<Longrightarrow> selection_ok s' \<Longrightarrow> run_ok C s'"
  using staking_inv_same_book by (auto simp: run_ok_def)

lemma run_ok_dispatch:
  assumes "run_ok C s" "config_ok C" "headroom (call_stake k) s"
  shows "dispatch C origin k s \<noteq> Inl Panic"
    "dispatch C origin k s = Inr s' \<Longrightarrow> run_ok C s'"
  using dispatch_safe [of C s k origin] dispatch_selection_ok [of C origin k s s'] assms
  by (auto simp: run_ok_def safe_def)

section \<open>Payouts of growth\<close>

text \<open>The events of the payments that went through.\<close>

definition paid_log :: "nat \<Rightarrow> (account \<times> balance) list \<Rightarrow> staking_event list" where
  "paid_log p paid = map (\<lambda>(c, n). CollatorPaid c n p) paid"

lemma pay_collators_result:
  assumes "pay_collators C p xs (s, i) = (r, s', j)"
  shows "\<exists>w paid. s' = s\<lparr>world := w, events := events s @ paid_log p paid\<rparr> \<and>
    map fst paid = map fst (take (length paid) xs) \<and>
    (if r = None then length paid = length xs
     else r = Some ErrorPayingCollator \<and> length paid < length xs)"
  using assms
proof (induction xs arbitrary: s i)
  case Nil
  then show ?case
    by (intro exI [of _ "world s"] exI [of _ "[]"]) (simp add: paid_log_def)
next
  case (Cons x xs)
  obtain c amt where x: "x = (c, amt)"
    by fastforce
  show ?case
  proof (cases "deposit_into_existing C c amt (world s)")
    case None
    then show ?thesis
      using Cons.prems x by (intro exI [of _ "world s"] exI [of _ "[]"]) (auto simp: pay_collator_def paid_log_def)
  next
    case (Some y)
    obtain w n where y: "y = (w, n)"
      by fastforce
    let ?s = "deposit_event (CollatorPaid c n p) (s\<lparr>world := w\<rparr>)"
    have "pay_collators C p xs (?s, sat_add i n) = (r, s', j)"
      using Cons.prems Some x y by (simp add: pay_collator_def)
    from Cons.IH [OF this] obtain w' paid where
      "s' = ?s\<lparr>world := w', events := events ?s @ paid_log p paid\<rparr>"
      "map fst paid = map fst (take (length paid) xs)"
      "if r = None then length paid = length xs else r = Some ErrorPayingCollator \<and> length paid < length xs"
      by blast
    then show ?thesis
      using x by (intro exI [of _ w'] exI [of _ "(c, n) # paid"])
        (auto simp: paid_log_def deposit_event_def split: if_splits)
  qed
qed

text \<open>A payout is refused, goes through to the last collator, or stops at one it cannot pay.\<close>

lemma payout_collators_cases:
  assumes "payout_collators C amt p s = (r, s')"
  obtains
    (refused) "processed_growth_periods s p" "r = Some GrowthAlreadyProcessed" "s' = s"
  | (paid) w paid where "\<not> processed_growth_periods s p" "r = None"
      "map fst paid = map fst (payout_shares C amt p s)"
      "s' = s\<lparr>events := events s @ paid_log p paid, growth := (growth s)(p := None),
         processed_growth_periods := (processed_growth_periods s)(p := True), world := w\<rparr>"
  | (failed) w paid where "\<not> processed_growth_periods s p" "r = Some ErrorPayingCollator"
      "map fst paid = map fst (take (length paid) (payout_shares C amt p s))"
      "length paid < length (payout_shares C amt p s)"
      "s' = s\<lparr>events := events s @ paid_log p paid, world := w\<rparr>"
proof (cases "processed_growth_periods s p")
  case True
  then have "r = Some GrowthAlreadyProcessed" "s' = s"
    using assms by (simp_all add: payout_collators_def)
  with True show ?thesis
    by (rule refused)
next
  case False
  obtain q s1 i where run: "pay_collators C p (payout_shares C amt p s) (s, 0) = (q, s1, i)"
    by (metis prod_cases3)
  from pay_collators_result [OF this] obtain w log where
    s1: "s1 = s\<lparr>world := w, events := events s @ paid_log p log\<rparr>"
    and log: "map fst log = map fst (take (length log) (payout_shares C amt p s))"
    "if q = None then length log = length (payout_shares C amt p s)
     else q = Some ErrorPayingCollator \<and> length log < length (payout_shares C amt p s)"
    by blast
  have gone: "(growth s)(p := None) = growth s" if "growth s p = None"
    using that by auto
  show ?thesis
  proof (cases q)
    case None
    then obtain w' where "r = None" "s' = s\<lparr>events := events s @ paid_log p log,
        growth := (growth s)(p := None),
        processed_growth_periods := (processed_growth_periods s)(p := True), world := w'\<rparr>"
      using assms False run gone
      by (cases "growth s p") (auto simp: payout_collators_def Let_def s1 split: if_splits)
    moreover have "map fst log = map fst (payout_shares C amt p s)"
      using log None by simp
    ultimately show ?thesis
      using paid False by blast
  next
    case (Some e)
    then obtain w' where "r = q" "s' = s\<lparr>events := events s @ paid_log p log, world := w'\<rparr>"
      using assms False run by (auto simp: payout_collators_def s1)
    moreover have "q = Some ErrorPayingCollator" "length log < length (payout_shares C amt p s)"
      using log(2) Some by simp_all
    ultimately show ?thesis
      using failed False log(1) by blast
  qed
qed

lemma payout_collators_frames:
  assumes "payout_collators C amt p s = (r, s')"
  shows "same_book s s' \<and> same_selection s s'"
  using assms by (cases rule: payout_collators_cases) (simp_all add: same_book_def same_selection_def)

lemma other_steps_frames:
  "same_book s (note_author a s) \<and> same_selection s (note_author a s)"
  "same_book s (process_result tx caller ok s) \<and> same_selection s (process_result tx caller ok s)"
  by (auto simp: note_author_def process_result_def Let_def growth_mutate_def same_book_def
      same_selection_def split: option.splits)

lemma run_ok_frames: "run_ok C s \<Longrightarrow> same_book s s' \<and> same_selection s s' \<Longrightarrow> run_ok C s'"
  using staking_inv_same_book [of s s' C] selection_ok_same [of s s'] by (simp add: run_ok_def)

lemma reachable_run_ok:
  assumes "reachable C s0 s" "run_ok C s0" "config_ok C" "0 < reward_payment_delay C"
  shows "run_ok C s"
  using assms(1)
proof (induction rule: reachable.induct)
  case start
  show ?case using assms(2) .
next
  case (call s k origin s')
  then show ?case
    using run_ok_dispatch(2) [OF call.IH assms(3)] by blast
next
  case (initialize s n s')
  obtain s1 where "on_initialize C n s = Inr s1" "same_book s s1" "selection_ok s1"
    using on_initialize_result [of C s n] initialize.IH initialize.hyps(2) assms(4)
    by (auto simp: run_ok_def)
  then show ?case
    using run_ok_same [OF initialize.IH] initialize.hyps(3) by simp
next
  case (end_session s n b s')
  obtain b1 s1 where "should_end_session C n s = Inr (b1, s1)" "same_book s s1" "selection_ok s1"
    using should_end_session_result [of C s n] end_session.IH end_session.hyps(2)
    by (auto simp: run_ok_def)
  then show ?case
    using run_ok_same [OF end_session.IH] end_session.hyps(3) by simp
next
  case (author s a)
  then show ?case using run_ok_frames other_steps_frames by blast
next
  case (lifted s amt p r s')
  then show ?case
    using run_ok_frames payout_collators_frames by (metis on_growth_lifted_def)
next
  case (result s tx caller ok)
  then show ?case using run_ok_frames other_steps_frames by blast
next
  case (runtime s w blk es)
  show ?case
    by (rule run_ok_frames [OF runtime.IH]) (simp add: same_book_def same_selection_def)
qed

section \<open>The book as a ledger\<close>

text \<open>
  In a state that satisfies the invariant a candidate and a nominator agree on the stake
  between them, and the metadata of the candidate totals what its nominators bonded.
\<close>

lemma run_ok_agree: "run_ok C s \<Longrightarrow> cand_stake s c n = nom_stake s n c"
  using staking_invD(4) [of C s] by (simp add: run_ok_def agree_def)

end
