(* ===== verification/Staking_Ledger.thy ===== *)
theory Staking_Ledger
  imports Staking_Always
begin

text \<open>
  The staking pallet as a ledger of who stakes how much on whom. The ledger forgets the two
  vectors of a candidate, the candidate pool, the cached totals and the requests; every call
  of the pallet changes it as its specification \<open>ledger_effect\<close> says, and no call that is not
  about a stake changes it at all.
\<close>

section \<open>Specification\<close>

type_synonym ledger = "account \<Rightarrow> account \<Rightarrow> balance option"

definition ledger_of :: "'w staking \<Rightarrow> ledger" where
  "ledger_of s = (\<lambda>n c. nom_stake s n c)"

definition put_stake :: "account \<Rightarrow> account \<Rightarrow> balance option \<Rightarrow> ledger \<Rightarrow> ledger" where
  "put_stake n c v L = L(n := (L n)(c := v))"

text \<open>
  A new nomination of \<open>a\<close> by \<open>n\<close> on \<open>c\<close>. When the candidate has no room left, the nomination of the
  lowest amount makes way, and the new one is strictly higher.
\<close>

definition opened :: "account \<Rightarrow> account \<Rightarrow> balance \<Rightarrow> ledger \<Rightarrow> ledger \<Rightarrow> bool" where
  "opened n c a L L' \<longleftrightarrow> L n c = None \<and>
     (L' = put_stake n c (Some a) L \<or>
      (\<exists>k x. L k c = Some x \<and> x < a \<and> (\<forall>d y. L d c = Some y \<longrightarrow> x \<le> y) \<and>
         L' = put_stake n c (Some a) (put_stake k c None L)))"

definition raised :: "account \<Rightarrow> account \<Rightarrow> balance \<Rightarrow> ledger \<Rightarrow> ledger \<Rightarrow> bool" where
  "raised n c x L L' \<longleftrightarrow> (\<exists>a. L n c = Some a \<and> L' = put_stake n c (Some (a + x)) L)"

fun all_of :: "(account \<Rightarrow> balance \<Rightarrow> ledger \<Rightarrow> ledger \<Rightarrow> bool) \<Rightarrow> (account \<times> balance) list \<Rightarrow>
    ledger \<Rightarrow> ledger \<Rightarrow> bool" where
  "all_of R [] L L' \<longleftrightarrow> L' = L"
| "all_of R ((c, x) # ps) L L' \<longleftrightarrow> (\<exists>L1. R c x L L1 \<and> all_of R ps L1 L')"

text \<open>No stake of \<open>n\<close> grows and no stake of anyone else changes.\<close>

definition lowered :: "account \<Rightarrow> ledger \<Rightarrow> ledger \<Rightarrow> bool" where
  "lowered n L L' \<longleftrightarrow> (\<forall>m. m \<noteq> n \<longrightarrow> L' m = L m) \<and>
     (\<forall>c. L' n c = None \<or> (\<exists>a b. L n c = Some a \<and> L' n c = Some b \<and> b \<le> a))"

definition pending :: "'w staking \<Rightarrow> account \<Rightarrow> account \<Rightarrow> nomination_action option" where
  "pending s c n = map_option (\<lambda>i. req_action (nomination_scheduled_requests s c ! i))
     (position (\<lambda>r. req_nominator r = n) (nomination_scheduled_requests s c))"

definition caller :: "origin \<Rightarrow> account" where
  "caller origin = (case origin of Signed a \<Rightarrow> a | _ \<Rightarrow> 0)"

fun ledger_effect ::
  "'w config \<Rightarrow> 'w staking \<Rightarrow> account \<Rightarrow> staking_call \<Rightarrow> ledger \<Rightarrow> ledger \<Rightarrow> bool" where
  "ledger_effect C s who (Nominate c a k l) L L' \<longleftrightarrow> opened who c a L L'"
| "ledger_effect C s who (BondExtra c x) L L' \<longleftrightarrow> raised who c x L L'"
| "ledger_effect C s who (SignedNominate pf ts a) L L' \<longleftrightarrow>
     (\<exists>ps. list_all2 (\<lambda>t p. lookup C t = Some (fst p)) ts ps \<and> sum_list (map snd ps) \<le> a \<and>
        all_of (opened who) ps L L')"
| "ledger_effect C s who (SignedBondExtra pf x) L L' \<longleftrightarrow>
     (\<exists>ps. sum_list (map snd ps) \<le> x \<and> all_of (raised who) ps L L')"
| "ledger_effect C s who (ExecuteNominationRequest n c) L L' \<longleftrightarrow>
     (\<exists>act a. pending s c n = Some act \<and> L n c = Some a \<and>
        L' = put_stake n c (after_action act a) L)"
| "ledger_effect C s who (SignedExecuteNominationRequest pf n) L L' \<longleftrightarrow> lowered n L L'"
| "ledger_effect C s who (ExecuteLeaveNominators n k) L L' \<longleftrightarrow> L' = L(n := (\<lambda>_. None))"
| "ledger_effect C s who (SignedExecuteLeaveNominators pf n) L L' \<longleftrightarrow> L' = L(n := (\<lambda>_. None))"
| "ledger_effect C s who (ExecuteLeaveCandidates c k) L L' \<longleftrightarrow> L' = (\<lambda>n. (L n)(c := None))"
| "ledger_effect C s who _ L L' \<longleftrightarrow> L' = L"

section \<open>Changes of one nomination\<close>

lemma ledger_of_cand: "staking_inv C s \<Longrightarrow> ledger_of s n c = cand_stake s c n"
  using agreeD [OF staking_invD(4), of C s n c] by (simp add: ledger_of_def)

lemma ledger_change: "nomination_change C c n v m t b r rq s s' \<Longrightarrow> ledger_of s' = put_stake n c v (ledger_of s)"
  by (auto simp: nomination_change_def ledger_of_def put_stake_def fun_eq_iff)

lemma changes_ledger:
  "changes C c n v s (Inr s') \<Longrightarrow> ledger_of s' = put_stake n c v (ledger_of s)"
  using ledger_change by (fastforce simp: changes_def)

lemma call_bond_extra_ledger:
  assumes inv: "staking_inv C s" and lim: "limits_ok C" and room: "headroom x s"
    and ok: "call_bond_extra C n c x s = Inr s'"
  shows "raised n c x (ledger_of s) (ledger_of s')"
proof -
  obtain st where st: "nominator_state s n = Some st" "increase_nomination C c x st s = Inr s'"
    using ok by (cases "nominator_state s n") (auto simp: call_bond_extra_def split: if_splits)
  obtain a where a: "stakes (nom_nominations st) c = Some a"
  proof (cases "stakes (nom_nominations st) c")
    case None
    then have "position (\<lambda>x. owner x = c) (nom_nominations st) = None"
      by (auto simp: position_None stakes_None)
    then show ?thesis
      using st(2) by (simp add: increase_nomination_def)
  qed (use that in simp)
  obtain m t b where c: "candidate_info s c = Some m" "top_nominations s c = Some t"
    "bottom_nominations s c = Some b" "book_ok C m t b" "book_stakes t b n = Some a"
    using nomination_known [OF inv st(1) a] by blast
  obtain t' b' st' where
    "nomination_change C c n (Some (a + x)) m t' b' (Some st') (nomination_scheduled_requests s c) s s'"
    using increase_nomination_result [OF inv lim room st(1) a c] st(2) by auto
  from ledger_change [OF this] show ?thesis
    using st(1) a by (auto simp: raised_def ledger_of_def)
qed

section \<open>Nominating\<close>

lemma admit_kicked:
  assumes ok: "book_ok C m t b" and lim: "limits_ok C" and ad: "admit C x t b = Some (t', b', Some k)"
  shows "book_stakes t b (owner k) = Some (amount k)" "amount k < amount x"
    "book_stakes t b d = Some y \<Longrightarrow> amount k \<le> y"
proof -
  note r = book_okD(1) [OF ok]
  have full: "length (noms t) = max_top_nominations_per_candidate C"
    using ad rankedD(7) [OF r] by (auto simp: admit_def split: if_splits)
  obtain k' b1 where sh: "shed C b = (k', b1)"
    by (cases "shed C b")
  have k': "shed C b = (Some k, b1)"
    using admit_shed [OF ad sh full] sh by simp
  have k: "k = last (noms b)" "noms b \<noteq> []"
    using k' lim by (auto simp: shed_def limits_ok_def split: if_splits)
  have dist: "distinct (owners (noms t @ noms b))" and gl: "greatest_to_least (noms t @ noms b)"
    using r by (simp_all add: ranked_def)
  have low: "amount k \<le> amount z" if "z \<in> set (noms t @ noms b)" for z
  proof -
    obtain xs where xs: "noms t @ noms b = xs @ [k]"
      using k by (metis append_assoc append_butlast_last_id)
    then show ?thesis
      using gl that by (auto simp: greatest_to_least_def sorted_wrt_append)
  qed
  show "book_stakes t b (owner k) = Some (amount k)"
    using k by (auto simp: book_stakes_def stakes_iff [OF dist])
  show "book_stakes t b d = Some y \<Longrightarrow> amount k \<le> y"
    using low by (auto simp: book_stakes_def stakes_iff [OF dist])
  have top: "noms t \<noteq> []"
    using full lim by (auto simp: limits_ok_def)
  then show "amount k < amount x"
    using ad k' full k(1) low [of "last (noms t)"] by (auto simp: admit_def split: if_splits)
qed

lemma call_nominate_books:
  assumes inv: "staking_inv C s" and conf: "config_ok C" and room: "headroom amt s"
    and ok: "call_nominate C n c amt cnc nc s = Inr s'"
  obtains m t b t' b' kicked where "candidate_info s c = Some m" "top_nominations s c = Some t"
    "bottom_nominations s c = Some b" "book_ok C m t b" "book_stakes t b n = None"
    "admit C \<lparr>owner = n, amount = amt\<rparr> t b = Some (t', b', kicked)"
    "book_stakes t' b' = (after_kick kicked (book_stakes t b))(n \<mapsto> amt)"
    "top_nominations s' = (top_nominations s)(c \<mapsto> t')"
    "bottom_nominations s' = (bottom_nominations s)(c \<mapsto> b')"
proof -
  let ?x = "\<lparr>owner = n, amount = amt\<rparr>"
  have lim: "limits_ok C"
    using conf by (simp add: config_ok_def)
  obtain st m m' pos less s1 s2 where p: "nominate_nominator_state C n c amt nc s = Inr st"
    "candidate_info s c = Some m" "cm_add_nomination C c ?x m s = Inr (m', pos, less, s1)"
    "adjust_bond_lock C st (BondIncrease amt) s1 = Inr s2"
    "top_nominations s' = top_nominations s2" "bottom_nominations s' = bottom_nominations s2"
    using ok by (auto simp: call_nominate_def Let_def deposit_event_def split: if_splits)
  have s2: "top_nominations s2 = top_nominations s1" "bottom_nominations s2 = bottom_nominations s1"
    using adjust_bond_lock_result(2) [OF p(4)] by auto
  obtain t b where tb: "top_nominations s c = Some t" "bottom_nominations s c = Some b" "book_ok C m t b"
    using candidates_okE [OF staking_invD(1) [OF inv] p(2)] by blast
  have "nom_stake s n c = None"
    using nominate_nominator_state_result(2) [OF inv conf room p(1)] by blast
  then have fresh: "book_stakes t b (owner ?x) = None"
    using agreeD [OF staking_invD(4) [OF inv], of n c] tb by simp
  have max: "cm_bond m + sum_amounts (noms t) + sum_amounts (noms b) + amount ?x \<le> u128_max"
    using room p(2) tb by (auto simp: headroom_def)
  obtain t' b' kicked s0 where ad: "admit C ?x t b = Some (t', b', kicked)"
    "kick C c kicked s = Inr s0" "s1 = rewrite_book C c t' b' m s0"
    using p(3) add_nomination_eq [OF tb(3) lim tb(1,2) fresh max]
    by (auto simp: admitted_def split: option.splits)
  show ?thesis
    by (rule that [OF p(2) tb _ ad(1)])
      (use admit_ok(2) [OF tb(3) lim fresh max ad(1)] fresh p(5,6) s2 ad(3) kick_keeps(1,2) [OF ad(2)]
        in \<open>simp_all add: rewrite_book_def set_book_def\<close>)
qed

lemma call_nominate_ledger:
  assumes inv: "staking_inv C s" and conf: "config_ok C" and room: "headroom amt s"
    and ok: "call_nominate C n c amt cnc nc s = Inr s'"
  shows "opened n c amt (ledger_of s) (ledger_of s')"
proof -
  have lim: "limits_ok C"
    using conf by (simp add: config_ok_def)
  have inv': "staking_inv C s'"
    using call_nominate_safe [OF inv conf room, of n c cnc nc] ok by simp
  obtain m t b t' b' kicked where p: "candidate_info s c = Some m" "top_nominations s c = Some t"
    "bottom_nominations s c = Some b" "book_ok C m t b" "book_stakes t b n = None"
    "admit C \<lparr>owner = n, amount = amt\<rparr> t b = Some (t', b', kicked)"
    "book_stakes t' b' = (after_kick kicked (book_stakes t b))(n \<mapsto> amt)"
    "top_nominations s' = (top_nominations s)(c \<mapsto> t')"
    "bottom_nominations s' = (bottom_nominations s)(c \<mapsto> b')"
    by (rule call_nominate_books [OF inv conf room ok])
  note L = ledger_of_cand [OF inv] and L' = ledger_of_cand [OF inv']
  have at: "ledger_of s d c = book_stakes t b d" for d
    using p(2,3) by (simp add: L)
  have after: "ledger_of s' = (\<lambda>d e. if e = c then ((after_kick kicked (book_stakes t b))(n \<mapsto> amt)) d
      else ledger_of s d e)"
    using p(7-9) by (auto simp: L L' fun_eq_iff)
  show ?thesis
  proof (cases kicked)
    case None
    then show ?thesis
      using p(5) at by (auto simp: opened_def after after_kick_def put_stake_def fun_eq_iff)
  next
    case (Some k)
    note kk = admit_kicked [OF p(4) lim p(6) [unfolded Some], simplified]
    have "ledger_of s' = put_stake n c (Some amt) (put_stake (owner k) c None (ledger_of s))"
      using Some at by (auto simp: after after_kick_def put_stake_def fun_eq_iff)
    then show ?thesis
      using p(5) kk unfolding opened_def at
      by (intro conjI disjI2 exI [of _ "owner k"] exI [of _ "amount k"]) auto
  qed
qed

section \<open>The loops of the signed calls\<close>

lemma split_and_nominate_loop_ledger:
  assumes conf: "config_ok C" and "staking_inv C s" "headroom rest s"
    and "split_and_nominate_loop C n per dust k i ts rest cnt s = Inr s'"
  shows "\<exists>ps. list_all2 (\<lambda>t p. lookup C t = Some (fst p)) ts ps \<and> sum_list (map snd ps) \<le> rest \<and>
    all_of (opened n) ps (ledger_of s) (ledger_of s')"
  using assms(2-4)
proof (induction ts arbitrary: i rest cnt s)
  case (Cons t ts)
  let ?a = "actual_amount per dust k i rest s"
  obtain c cs s1 where p: "lookup C t = Some c" "candidate_info s c = Some cs"
    "call_nominate C n c ?a (cm_nomination_count cs) cnt s = Inr s1"
    "split_and_nominate_loop C n per dust k (Suc i) ts (rest - ?a) (wrapping_add32 cnt 1) s1 = Inr s'"
    using Cons.prems(3) by (auto simp: Let_def)
  have room: "headroom ?a s"
    using headroom_mono [OF Cons.prems(2) actual_amount_le] .
  have s1: "staking_inv C s1" "headroom (rest - ?a) s1"
    using call_nominate_room [OF Cons.prems(1) conf room, of n c "cm_nomination_count cs" cnt] p(3)
      room_spent [of ?a s s1 rest, OF _ Cons.prems(2) actual_amount_le] by simp_all
  obtain ps where ps: "list_all2 (\<lambda>t p. lookup C t = Some (fst p)) ts ps"
    "sum_list (map snd ps) \<le> rest - ?a" "all_of (opened n) ps (ledger_of s1) (ledger_of s')"
    using Cons.IH [OF s1 p(4)] by blast
  have "opened n c ?a (ledger_of s) (ledger_of s1)"
    using call_nominate_ledger [OF Cons.prems(1) conf room p(3)] .
  then show ?case
    using ps p(1) actual_amount_le [of per dust k i rest s]
    by (intro exI [of _ "(c, ?a) # ps"]) auto
qed simp

lemma bond_extra_loop_ledger:
  assumes lim: "limits_ok C" and "staking_inv C s" "headroom rest s"
    and "bond_extra_loop C n per dust k i bs rest s = Inr s'"
  shows "\<exists>ps. sum_list (map snd ps) \<le> rest \<and> all_of (raised n) ps (ledger_of s) (ledger_of s')"
  using assms(2-4)
proof (induction bs arbitrary: i rest s)
  case Nil
  then show ?case
    by (intro exI [of _ "[]"]) simp
next
  case (Cons b bs)
  let ?a = "actual_amount per dust k i rest s"
  obtain s1 where p: "call_bond_extra C n (owner b) ?a s = Inr s1"
    "bond_extra_loop C n per dust k (Suc i) bs (rest - ?a) s1 = Inr s'"
    using Cons.prems(3) by (auto simp: Let_def)
  have room: "headroom ?a s"
    using headroom_mono [OF Cons.prems(2) actual_amount_le] .
  have s1: "staking_inv C s1" "headroom (rest - ?a) s1"
    using call_bond_extra_room [OF Cons.prems(1) lim room, of n "owner b"] p(1)
      room_spent [of ?a s s1 rest, OF _ Cons.prems(2) actual_amount_le] by simp_all
  obtain ps where ps: "sum_list (map snd ps) \<le> rest - ?a"
    "all_of (raised n) ps (ledger_of s1) (ledger_of s')"
    using Cons.IH [OF s1 p(2)] by blast
  have "raised n (owner b) ?a (ledger_of s) (ledger_of s1)"
    using call_bond_extra_ledger [OF Cons.prems(1) lim room p(1)] .
  then show ?case
    using ps actual_amount_le [of per dust k i rest s]
    by (intro exI [of _ "(owner b, ?a) # ps"]) auto
qed

lemma execute_request_ledger:
  assumes inv: "staking_inv C s" and lim: "limits_ok C"
    and ok: "nomination_execute_scheduled_request C c n s = Inr s'"
  shows "\<exists>act a. pending s c n = Some act \<and> ledger_of s n c = Some a \<and>
    ledger_of s' = put_stake n c (after_action act a) (ledger_of s)"
proof -
  obtain i where i: "position (\<lambda>r. req_nominator r = n) (nomination_scheduled_requests s c) = Some i"
    using ok by (auto simp: nomination_execute_scheduled_request_def Let_def)
  obtain a where a: "nom_stake s n c = Some a"
    "changes C c n (after_action (req_action (nomination_scheduled_requests s c ! i)) a) s (Inr s')"
    using execute_scheduled_request_changes [OF inv lim i] ok by metis
  have "ledger_of s n c = Some a"
    using a(1) by (simp add: ledger_of_def)
  then show ?thesis
    using changes_ledger [OF a(2)] i by (simp add: pending_def)
qed

lemma lowered_refl: "lowered n L L"
  by (auto simp: lowered_def)

lemma lowered_trans: "lowered n L1 L2 \<Longrightarrow> lowered n L2 L3 \<Longrightarrow> lowered n L1 L3"
  unfolding lowered_def by (metis option.inject option.distinct(1) order_trans)

lemma executed_lowers:
  "L n c = Some a \<Longrightarrow> lowered n L (put_stake n c (after_action act a) L)"
  by (cases act) (auto simp: lowered_def put_stake_def after_action_def)

lemma execute_requests_loop_ledger:
  assumes lim: "limits_ok C" and "staking_inv C s" "execute_requests_loop C n now bs s = Inr s'"
  shows "lowered n (ledger_of s) (ledger_of s')"
  using assms(2,3)
proof (induction bs arbitrary: s)
  case (Cons b bs)
  obtain i s1 where p: "(if req_when_executable (nomination_scheduled_requests s (owner b) ! i) \<le> now
      then nomination_execute_scheduled_request C (owner b) n s else Inr s) = Inr s1"
    "execute_requests_loop C n now bs s1 = Inr s'"
    using Cons.prems(2) by (auto simp: Let_def)
  have "staking_inv C s1 \<and> lowered n (ledger_of s) (ledger_of s1)"
  proof (cases "s1 = s")
    case False
    then have e: "nomination_execute_scheduled_request C (owner b) n s = Inr s1"
      using p(1) by (simp split: if_splits)
    then show ?thesis
      using execute_request_ledger [OF Cons.prems(1) lim e] executed_lowers
        execute_scheduled_request_safe [OF Cons.prems(1) lim, of "owner b" n] by auto
  qed (use Cons.prems lowered_refl in simp)
  then show ?case
    using Cons.IH [of s1] p(2) lowered_trans by blast
qed (simp add: lowered_refl)

section \<open>Calls that leave the ledger alone\<close>

definition same_vectors :: "'w staking \<Rightarrow> 'w staking \<Rightarrow> bool" where
  "same_vectors s s' \<longleftrightarrow>
     top_nominations s' = top_nominations s \<and> bottom_nominations s' = bottom_nominations s"

lemma ledger_same_vectors:
  assumes "staking_inv C s" "staking_inv C s'" "same_vectors s s'"
  shows "ledger_of s' = ledger_of s"
  using assms ledger_of_cand [OF assms(1)] ledger_of_cand [OF assms(2)]
  by (auto simp: same_vectors_def fun_eq_iff)

lemma requests_same_vectors:
  "nomination_schedule_revoke C c n s = Inr s' \<Longrightarrow> same_vectors s s'"
  "nomination_schedule_bond_decrease C c n x s = Inr s' \<Longrightarrow> same_vectors s s'"
  "nomination_cancel_request c n s = Inr s' \<Longrightarrow> same_vectors s s'"
  "nominator_schedule_revoke_all C n s = Inr s' \<Longrightarrow> same_vectors s s'"
  "nominator_cancel_scheduled_revoke_all n s = Inr s' \<Longrightarrow> same_vectors s s'"
  by (auto simp: nomination_schedule_revoke_def nomination_schedule_bond_decrease_def
      nomination_cancel_request_def nominator_schedule_revoke_all_def insert_requests_def
      nominator_cancel_scheduled_revoke_all_def Let_def split_beta deposit_event_def
      same_vectors_def split: if_splits option.splits)

lemma schedule_unbond_loop_same_vectors:
  "schedule_unbond_loop C n xs out s = Inr (out', s') \<Longrightarrow> same_vectors s s'"
proof (induction xs arbitrary: out s)
  case (Cons x xs)
  obtain c a out1 s1 where "nomination_schedule_bond_decrease C c n a s = Inr s1"
    "schedule_unbond_loop C n xs out1 s1 = Inr (out', s')"
    using Cons.prems by (auto simp: Let_def split: prod.splits)
  then show ?case
    using Cons.IH [of out1 s1] requests_same_vectors(2) [of C c n a s s1] by (simp add: same_vectors_def)
qed (simp add: same_vectors_def)

lemma bond_calls_same_vectors:
  "call_candidate_bond_extra C c x s = Inr s' \<Longrightarrow> same_vectors s s'"
  "call_schedule_candidate_unbond c x s = Inr s' \<Longrightarrow> same_vectors s s'"
  "call_execute_candidate_unbond C c s = Inr s' \<Longrightarrow> same_vectors s s'"
  by (auto simp: call_candidate_bond_extra_def cm_bond_extra_def call_schedule_candidate_unbond_def
      call_execute_candidate_unbond_def execute_unbond_def update_active_def Let_def
      deposit_event_def same_vectors_def split: if_splits option.splits prod.splits)

lemma candidate_calls_same_vectors:
  "schedule_leave_candidates origin k s = Inr s' \<Longrightarrow> same_vectors s s'"
  "cancel_leave_candidates C origin k s = Inr s' \<Longrightarrow> same_vectors s s'"
  "go_offline origin s = Inr s' \<Longrightarrow> same_vectors s s'"
  "go_online C origin s = Inr s' \<Longrightarrow> same_vectors s s'"
  "cancel_candidate_unbond origin s = Inr s' \<Longrightarrow> same_vectors s s'"
  by (auto simp: schedule_leave_candidates_def cancel_leave_candidates_def go_offline_def go_online_def
      cancel_candidate_unbond_def cancel_unbond_def Let_def split_beta deposit_event_def
      same_vectors_def split: if_splits option.splits bool.splits prod.splits)

lemma settings_same_vectors:
  "set_total_selected C origin n s = Inr s' \<Longrightarrow> same_vectors s s'"
  "set_blocks_per_era C origin n s = Inr s' \<Longrightarrow> same_vectors s s'"
  "set_admin_setting C origin x s = Inr s' \<Longrightarrow> same_vectors s s'"
  "hotfix_remove_nomination_requests_exited_candidates origin cs s = Inr s' \<Longrightarrow> same_vectors s s'"
  by (auto simp: set_total_selected_def set_blocks_per_era_def set_admin_setting_def
      hotfix_remove_nomination_requests_exited_candidates_def Let_def deposit_event_def
      same_vectors_def split: if_splits admin_settings.splits)

text \<open>A new candidate starts with empty vectors.\<close>

lemma join_candidates_ledger:
  assumes inv: "staking_inv C s" "staking_inv C s'" and ok: "join_candidates C origin b k s = Inr s'"
  shows "ledger_of s' = ledger_of s"
proof -
  obtain acc where "candidate_info s acc = None"
    "top_nominations s' = (top_nominations s)(acc \<mapsto> empty_nominations)"
    "bottom_nominations s' = (bottom_nominations s)(acc \<mapsto> empty_nominations)"
    using ok by (auto simp: join_candidates_def Let_def deposit_event_def is_candidate_def
        split: if_splits option.splits bool.splits)
  then show ?thesis
    using candidates_ok_None [OF staking_invD(1) [OF inv(1)], of acc] ledger_of_cand [OF inv(1)]
      ledger_of_cand [OF inv(2)]
    by (auto simp: fun_eq_iff empty_nominations_def book_stakes_def stakes_def)
qed

section \<open>Every call\<close>

lemma ledger_of_nonce [simp]: "ledger_of (increment_proxy_nonce who s) = ledger_of s"
  by (simp add: increment_proxy_nonce_def ledger_of_def)

lemma same_vectors_nonce [simp]:
  "same_vectors s (increment_proxy_nonce who s') = same_vectors s s'"
  by (simp add: increment_proxy_nonce_def same_vectors_def)

fun neutral_call :: "staking_call \<Rightarrow> bool" where
  "neutral_call (JoinCandidates b k) = False"
| "neutral_call (ExecuteLeaveCandidates c k) = False"
| "neutral_call (Nominate c a k l) = False"
| "neutral_call (BondExtra c x) = False"
| "neutral_call (ExecuteLeaveNominators n k) = False"
| "neutral_call (ExecuteNominationRequest n c) = False"
| "neutral_call (SignedNominate pf ts a) = False"
| "neutral_call (SignedBondExtra pf x) = False"
| "neutral_call (SignedExecuteLeaveNominators pf n) = False"
| "neutral_call (SignedExecuteNominationRequest pf n) = False"
| "neutral_call k = True"

lemmas wrapper_defs = candidate_bond_extra_def schedule_candidate_unbond_def
  execute_candidate_unbond_def nominate_def bond_extra_def schedule_leave_nominators_def
  execute_leave_nominators_def cancel_leave_nominators_def schedule_revoke_nomination_def
  schedule_nominator_unbond_def execute_nomination_request_def cancel_nomination_request_def

lemma neutral_call_vectors:
  assumes "neutral_call k" "dispatch C origin k s = Inr s'"
  shows "same_vectors s s'"
  using assms
  by (cases k)
    (auto simp: wrapper_defs signed_candidate_bond_extra_def signed_schedule_candidate_unbond_def
      signed_execute_candidate_unbond_def signed_schedule_leave_nominators_def
      signed_schedule_revoke_nomination_def signed_schedule_nominator_unbond_def schedule_unbond_all_def
      elim!: signed_call_Inr
      dest: settings_same_vectors candidate_calls_same_vectors bond_calls_same_vectors
        requests_same_vectors schedule_unbond_loop_same_vectors split: if_splits)

lemma neutral_call_effect: "neutral_call k \<Longrightarrow> ledger_effect C s who k L L' \<longleftrightarrow> L' = L"
  by (cases k) simp_all

lemma execute_revoke_all_ledger:
  assumes "staking_inv C s" "limits_ok C" "nominator_execute_scheduled_revoke_all C n k s = Inr s'"
  shows "ledger_of s' = (ledger_of s)(n := (\<lambda>_. None))"
  using execute_revoke_all_result [OF assms(1,2), of n k] assms(3) by (auto simp: ledger_of_def)

lemma signed_effects:
  assumes inv: "staking_inv C s" and conf: "config_ok C"
  shows "signed_nominate C origin pf ts a s = Inr s' \<Longrightarrow> headroom a s \<Longrightarrow>
      ledger_effect C s (caller origin) (SignedNominate pf ts a) (ledger_of s) (ledger_of s')"
    "signed_bond_extra C origin pf x s = Inr s' \<Longrightarrow> headroom x s \<Longrightarrow>
      ledger_effect C s (caller origin) (SignedBondExtra pf x) (ledger_of s) (ledger_of s')"
    "signed_execute_leave_nominators C origin pf n s = Inr s' \<Longrightarrow>
      ledger_effect C s (caller origin) (SignedExecuteLeaveNominators pf n) (ledger_of s) (ledger_of s')"
    "signed_execute_nomination_request C origin pf n s = Inr s' \<Longrightarrow>
      ledger_effect C s (caller origin) (SignedExecuteNominationRequest pf n) (ledger_of s) (ledger_of s')"
proof -
  have lim: "limits_ok C"
    using conf by (simp add: config_ok_def)
  show "ledger_effect C s (caller origin) (SignedNominate pf ts a) (ledger_of s) (ledger_of s')"
    if "signed_nominate C origin pf ts a s = Inr s'" "headroom a s"
    using that split_and_nominate_loop_ledger [OF conf inv]
    by (auto simp: signed_nominate_def split_and_nominate_def caller_def Let_def ensure_signed_Inr
        elim!: signed_call_Inr split: if_splits)
  show "ledger_effect C s (caller origin) (SignedBondExtra pf x) (ledger_of s) (ledger_of s')"
    if "signed_bond_extra C origin pf x s = Inr s'" "headroom x s"
    using that bond_extra_loop_ledger [OF lim inv]
    by (auto simp: signed_bond_extra_def bond_extra_all_def caller_def Let_def ensure_signed_Inr
        elim!: signed_call_Inr split: if_splits)
  show "ledger_effect C s (caller origin) (SignedExecuteLeaveNominators pf n) (ledger_of s) (ledger_of s')"
    if "signed_execute_leave_nominators C origin pf n s = Inr s'"
    using that execute_revoke_all_ledger [OF inv lim]
    by (auto simp: signed_execute_leave_nominators_def elim!: signed_call_Inr split: option.splits)
  show "ledger_effect C s (caller origin) (SignedExecuteNominationRequest pf n) (ledger_of s) (ledger_of s')"
    if "signed_execute_nomination_request C origin pf n s = Inr s'"
    using that execute_requests_loop_ledger [OF lim inv]
    by (auto simp: signed_execute_nomination_request_def elim!: signed_call_Inr)
qed

lemma dispatch_ledger:
  assumes inv: "staking_inv C s" and conf: "config_ok C" and room: "headroom (call_stake k) s"
    and ok: "dispatch C origin k s = Inr s'"
  shows "ledger_effect C s (caller origin) k (ledger_of s) (ledger_of s')"
proof (cases "neutral_call k")
  case True
  have "staking_inv C s'"
    using dispatch_safe [OF inv conf room, of origin] ok by simp
  then show ?thesis
    using ledger_same_vectors [OF inv _ neutral_call_vectors [OF True ok]]
    by (simp add: neutral_call_effect [OF True])
next
  case False
  have lim: "limits_ok C"
    using conf by (simp add: config_ok_def)
  have inv': "staking_inv C s'"
    using dispatch_safe [OF inv conf room, of origin] ok by simp
  have depart: "ledger_of s' = (\<lambda>n. (ledger_of s n)(c := None))"
    if "execute_leave_candidates C origin c l s = Inr s'" for c l
    using execute_leave_candidates_result [OF inv, of c origin l] that
    by (simp add: ledger_of_def fun_eq_iff)
  show ?thesis
    using False ok room signed_effects [OF inv conf, of origin] depart execute_revoke_all_ledger [OF inv lim]
      join_candidates_ledger [OF inv inv'] call_nominate_ledger [OF inv conf]
      call_bond_extra_ledger [OF inv lim] execute_request_ledger [OF inv lim]
    by (cases k) (auto simp: wrapper_defs ensure_signed_Inr caller_def split: if_splits)
qed

end
