(* ===== verification/Staking_Effects.thy ===== *)
theory Staking_Effects
  imports Staking_Ledger
begin

text \<open>
  What single operations of the staking pallet do: requests and their round trips, access
  control, the choice of collators, payouts and growth.
\<close>

section \<open>Requests\<close>

lemma position_append_new:
  assumes "\<not> list_ex P xs" "P x"
  shows "position P (xs @ [x]) = Some (length xs)"
  using assms by (induction xs) auto

lemma remove_at_last: "remove_at (length xs) (xs @ [x]) = xs"
  by (simp add: remove_at_def)

lemma cancel_pushed:
  assumes "\<not> list_ex (\<lambda>r. req_nominator r = n) rq" "req_nominator q = n"
    "try_push k q rq = Some rq'"
  shows "cancel_request_with_state n st rq' =
    Some (q, st\<lparr>nom_less_total := nom_less_total st - action_amount (req_action q)\<rparr>, rq)"
  using assms position_append_new [OF assms(1), of q]
  by (auto simp: try_push_def cancel_request_with_state_def remove_at_last split: if_splits)

text \<open>A request \<open>q\<close> of \<open>n\<close> for \<open>c\<close> has been added, on a stake of \<open>a\<close>.\<close>

definition scheduled ::
  "account \<Rightarrow> account \<Rightarrow> balance \<Rightarrow> scheduled_request \<Rightarrow> nominator \<Rightarrow> 'w staking \<Rightarrow> 'w staking \<Rightarrow> bool" where
  "scheduled c n a q st s s1 \<longleftrightarrow>
     nominator_state s n = Some st \<and> get_bond_amount c st = Some a \<and>
     \<not> list_ex (\<lambda>r. req_nominator r = n) (nomination_scheduled_requests s c) \<and> req_nominator q = n \<and>
     action_amount (req_action q) \<le> a \<and>
     nominator_state s1 = (nominator_state s)(n \<mapsto> st\<lparr>nom_less_total :=
       sat_add (nom_less_total st) (action_amount (req_action q))\<rparr>) \<and>
     nomination_scheduled_requests s1 =
       (nomination_scheduled_requests s)(c := nomination_scheduled_requests s c @ [q])"

lemma schedule_results:
  assumes room: "length (nomination_scheduled_requests s c) < max_nominations_per_nominator C"
  shows "nomination_schedule_revoke C c n s = Inr s1 \<Longrightarrow> \<exists>a q st. scheduled c n a q st s s1"
    "nomination_schedule_bond_decrease C c n x s = Inr s1 \<Longrightarrow> \<exists>a q st. scheduled c n a q st s s1"
proof -
  let ?due = "sat_add32 (era_current (era s)) (delay s)"
  show "\<exists>a q st. scheduled c n a q st s s1" if ok: "nomination_schedule_revoke C c n s = Inr s1"
  proof -
    obtain st a where p: "nominator_state s n = Some st" "get_bond_amount c st = Some a"
      using ok by (auto simp: nomination_schedule_revoke_def Let_def split: if_splits)
    then have "scheduled c n a \<lparr>req_nominator = n, req_when_executable = ?due, req_action = Revoke a\<rparr>
        st s s1"
      using ok room by (auto simp: scheduled_def nomination_schedule_revoke_def Let_def
          deposit_event_def try_push_def split: if_splits)
    then show ?thesis
      by blast
  qed
  show "\<exists>a q st. scheduled c n a q st s s1" if ok: "nomination_schedule_bond_decrease C c n x s = Inr s1"
  proof -
    obtain st a where p: "nominator_state s n = Some st" "get_bond_amount c st = Some a"
      using ok by (auto simp: nomination_schedule_bond_decrease_def Let_def split: if_splits)
    then have "scheduled c n a \<lparr>req_nominator = n, req_when_executable = ?due, req_action = Decrease x\<rparr>
        st s s1"
      using ok room by (auto simp: scheduled_def nomination_schedule_bond_decrease_def Let_def
          deposit_event_def try_push_def split: if_splits)
    then show ?thesis
      by blast
  qed
qed

lemma schedule_then_cancel:
  assumes sch: "scheduled c n a q st s s1" and less: "nom_less_total st + a \<le> u128_max"
  shows "\<exists>s2. nomination_cancel_request c n s1 = Inr s2 \<and>
    nominator_state s2 = nominator_state s \<and>
    nomination_scheduled_requests s2 = nomination_scheduled_requests s"
proof -
  note p = sch [unfolded scheduled_def]
  have exact: "sat_add (nom_less_total st) (action_amount (req_action q)) =
      nom_less_total st + action_amount (req_action q)"
    using less p by simp
  have "cancel_request_with_state n st' (nomination_scheduled_requests s c @ [q]) =
      Some (q, st'\<lparr>nom_less_total := nom_less_total st' - action_amount (req_action q)\<rparr>,
        nomination_scheduled_requests s c)" for st'
    using p cancel_pushed [of n "nomination_scheduled_requests s c" q
        "Suc (length (nomination_scheduled_requests s c))"] by (simp add: try_push_def)
  then show ?thesis
    using p exact by (simp add: nomination_cancel_request_def deposit_event_def fun_upd_idem)
qed

lemma remove_at_others:
  assumes "distinct (map f xs)" "position (\<lambda>r. f r = k) xs = Some i" "r \<in> set (remove_at i xs)"
  shows "f r \<noteq> k"
  using remove_at_filter [OF assms(1,2)] assms(3) by auto

lemma execute_request_due:
  assumes inv: "staking_inv C s" and lim: "limits_ok C"
    and ok: "nomination_execute_scheduled_request C c n s = Inr s'"
  shows "\<exists>r\<in>set (nomination_scheduled_requests s c). req_nominator r = n \<and>
      req_when_executable r \<le> era_current (era s)"
    "nomination_scheduled_requests s' =
      (nomination_scheduled_requests s)(c := requests_without n c s)"
proof -
  obtain i where i: "position (\<lambda>r. req_nominator r = n) (nomination_scheduled_requests s c) = Some i"
    "req_when_executable (nomination_scheduled_requests s c ! i) \<le> era_current (era s)"
    using ok by (auto simp: nomination_execute_scheduled_request_def Let_def split: if_splits)
  show "\<exists>r\<in>set (nomination_scheduled_requests s c). req_nominator r = n \<and>
      req_when_executable r \<le> era_current (era s)"
    using i position_SomeD [OF i(1)] by (metis nth_mem)
  show "nomination_scheduled_requests s' =
      (nomination_scheduled_requests s)(c := requests_without n c s)"
    by (rule execute_scheduled_request_changes [OF inv lim i(1)])
      (use ok in \<open>auto simp: changes_def nomination_change_def\<close>)
qed

text \<open>A due request executes unless the nominator would stay with less than the minimum.\<close>

lemma execute_revoke_progress:
  assumes inv: "staking_inv C s" and lim: "limits_ok C" and st: "nominator_state s n = Some st"
    and has: "stakes (nom_nominations st) c = Some a"
    and act: "action_amount (req_action (rq ! i)) = a"
    and enough: "length (nom_nominations st) = 1 \<or> a + min_total_nominator_stake s \<le> nom_total st"
  shows "\<exists>s'. execute_revoke C c n st rq i s = Inr s'"
proof -
  obtain m t b where c: "candidate_info s c = Some m" "top_nominations s c = Some t"
    "bottom_nominations s c = Some b" "book_ok C m t b" "book_stakes t b n = Some a"
    using nomination_known [OF inv st has] by blast
  let ?st = "st\<lparr>nom_less_total := nom_less_total st - a\<rparr>"
  have nok: "nominator_ok n ?st" "stakes (nom_nominations ?st) c = Some a"
    using nominator_known [OF inv st] has by simp_all
  obtain w where w: "nominator_rm_nomination C c ?st s =
      Inr (Some (nom_total ?st - a), dropped c a ?st, s\<lparr>world := w\<rparr>)"
    using rm_nomination_record(1) [OF nok, where C = C and s = s] by (rule exE)
  obtain s1 where "nominator_leaves_candidate C c n a (s\<lparr>world := w\<rparr>) = Inr s1"
    by (rule leaves_candidate_result [of "s\<lparr>world := w\<rparr>" c m t b C n a]) (use c lim in simp_all)
  then show ?thesis
    using act w enough by (auto simp: execute_revoke_def Let_def)
qed

lemma execute_decrease_progress:
  assumes inv: "staking_inv C s" and lim: "limits_ok C" and st: "nominator_state s n = Some st"
    and has: "stakes (nom_nominations st) c = Some a"
    and act: "action_amount (req_action (rq ! i)) = x" "x < a"
    and enough: "x + min_total_nominator_stake s \<le> nom_total st"
  shows "\<exists>s'. execute_decrease C c n st rq i s = Inr s'"
proof -
  obtain m t b where c: "candidate_info s c = Some m" "top_nominations s c = Some t"
    "bottom_nominations s c = Some b" "book_ok C m t b" "book_stakes t b n = Some a"
    using nomination_known [OF inv st has] by blast
  obtain j where j: "position (\<lambda>b. owner b = c) (nom_nominations st) = Some j"
    "amount (nom_nominations st ! j) = a"
    using shrunk_record(3) [OF nominator_known [OF inv st] has act(2), of 0] by blast
  have min: "min_nomination_per_collator C \<le> min_total_nominator_stake s"
    using staking_invD(9) [OF inv] by (simp add: minimums_ok_def)
  obtain w where w: "adjust_bond_lock C st' BondDecrease s = Inr (s\<lparr>world := w st'\<rparr>)" for st'
    using lock_decrease_result [of C _ s] by metis
  have "\<exists>m' flag s2. cm_decrease_nomination C c n a x m (s\<lparr>world := w'\<rparr>) = Inr (m', flag, s2)" for w'
    using decrease_nomination_update [OF c(4) lim, of "s\<lparr>world := w'\<rparr>" c n a x] c act(2)
    by (auto simp: book_update_def)
  then show ?thesis
    using act j c(1) w min enough by (auto simp: execute_decrease_def total_sub_if_def Let_def)
qed

lemma due_request_executes:
  assumes inv: "staking_inv C s" and lim: "limits_ok C" and st: "nominator_state s n = Some st"
    and r: "r \<in> set (nomination_scheduled_requests s c)" "req_nominator r = n"
    "req_when_executable r \<le> era_current (era s)"
    and enough: "is_revoke (req_action r) \<and> length (nom_nominations st) = 1 \<or>
      action_amount (req_action r) + min_total_nominator_stake s \<le> nom_total st"
  shows "\<exists>s'. nomination_execute_scheduled_request C c n s = Inr s'"
proof -
  obtain i where i: "position (\<lambda>r. req_nominator r = n) (nomination_scheduled_requests s c) = Some i"
    using r position_None [of "\<lambda>r. req_nominator r = n"] by fastforce
  let ?q = "nomination_scheduled_requests s c ! i"
  have mem: "?q \<in> set (nomination_scheduled_requests s c)" "req_nominator ?q = n"
    using position_SomeD [OF i] by auto
  then have q: "?q = r"
    using r requests_distinct [OF inv, of c] by (auto simp: distinct_map dest: inj_onD)
  obtain a where a: "stakes (nom_nominations st) c = Some a"
    and act: "case req_action r of Revoke x \<Rightarrow> x = a | Decrease x \<Rightarrow> x < a"
    using requests_known [OF inv r(1)] r(2) nom_stake_known [OF inv st, of c]
    by (cases "stakes (nom_nominations st) c") (simp_all add: request_ok_def)
  show ?thesis
  proof (cases "req_action r")
    case (Revoke x)
    then show ?thesis
      using execute_revoke_progress [OF inv lim st a, of "nomination_scheduled_requests s c" i]
        act enough r(3) i q st
      by (auto simp: nomination_execute_scheduled_request_def Let_def)
  next
    case (Decrease x)
    then show ?thesis
      using execute_decrease_progress [OF inv lim st a, of "nomination_scheduled_requests s c" i x]
        act enough r(3) i q st
      by (auto simp: nomination_execute_scheduled_request_def Let_def)
  qed
qed

text \<open>A call whose push does not fit returns \<open>Ok\<close> and schedules nothing.\<close>

lemma schedule_when_full:
  assumes "nominator_state s n = Some st" "get_bond_amount c st = Some a"
    "\<not> list_ex (\<lambda>r. req_nominator r = n) (nomination_scheduled_requests s c)"
    "max_nominations_per_nominator C \<le> length (nomination_scheduled_requests s c)"
  shows "nomination_schedule_revoke C c n s = Inr s"
  using assms by (simp add: nomination_schedule_revoke_def Let_def try_push_def)

text \<open>One nomination without a request is enough to stop the execution of all the others.\<close>

lemma execute_requests_need_all:
  assumes lim: "limits_ok C" and "staking_inv C s" "distinct (owners bs)" "b \<in> set bs"
    "\<not> list_ex (\<lambda>r. req_nominator r = n) (nomination_scheduled_requests s (owner b))"
  shows "\<exists>e. execute_requests_loop C n now bs s = Inl e"
  using assms(2-)
proof (induction bs arbitrary: s)
  case (Cons d ds)
  show ?case
  proof (cases "position (\<lambda>r. req_nominator r = n) (nomination_scheduled_requests s (owner d))")
    case (Some i)
    then have "owner d \<noteq> owner b"
      using Cons.prems(4) position_SomeD [OF Some] by (auto simp: list_ex_iff)
    then have b: "b \<in> set ds"
      using Cons.prems(3) by auto
    have go: "\<exists>e. execute_requests_loop C n now ds s1 = Inl e"
      if "s1 = s \<or> nomination_execute_scheduled_request C (owner d) n s = Inr s1" for s1
    proof (rule Cons.IH [OF _ _ b])
      show "staking_inv C s1"
        using that Cons.prems(1) execute_scheduled_request_safe [OF Cons.prems(1) lim, of "owner d" n] by auto
      show "\<not> list_ex (\<lambda>r. req_nominator r = n) (nomination_scheduled_requests s1 (owner b))"
        using that Cons.prems(4) execute_request_due(2) [OF Cons.prems(1) lim, of "owner d" n s1]
          \<open>owner d \<noteq> owner b\<close> by auto
    qed (use Cons.prems(2) in simp)
    then show ?thesis
      using Some go [of s] by (cases "nomination_execute_scheduled_request C (owner d) n s") (auto simp: Let_def)
  qed simp
qed simp

section \<open>Access\<close>

fun admin_call :: "staking_call \<Rightarrow> bool" where
  "admin_call (SetTotalSelected n) = True"
| "admin_call (SetBlocksPerEra n) = True"
| "admin_call (SetAdminSetting x) = True"
| "admin_call _ = False"

lemma ensure_root_Inr: "ensure_root origin = Inr u \<longleftrightarrow> origin = Root"
  by (cases origin) (auto simp: ensure_root_def)

lemma dispatch_origin:
  assumes ok: "dispatch C origin k s = Inr s'"
  shows "if admin_call k then origin = Root else \<exists>who. origin = Signed who"
proof (cases "call_proof k")
  case None
  then show ?thesis
    using ok
    by (cases k)
      (auto simp: set_total_selected_def set_blocks_per_era_def set_admin_setting_def ensure_root_Inr
        join_candidates_def schedule_leave_candidates_def execute_leave_candidates_def
        cancel_leave_candidates_def go_offline_def go_online_def cancel_candidate_unbond_def
        hotfix_remove_nomination_requests_exited_candidates_def wrapper_defs ensure_signed_Inr)
next
  case (Some p)
  then have "\<not> admin_call k" "authorized C origin (fst p) (snd p) s s'"
    using signed_dispatch_authorized [of k "fst p" "snd p", OF _ ok] by (cases k; simp)+
  then show ?thesis
    by (auto simp: authorized_def)
qed

fun stake_call :: "staking_call \<Rightarrow> bool" where
  "stake_call (Nominate c a k l) = True"
| "stake_call (BondExtra c x) = True"
| "stake_call (SignedNominate pf ts a) = True"
| "stake_call (SignedBondExtra pf x) = True"
| "stake_call _ = False"

lemma stake_calls_disabled:
  assumes "stake_call k" "\<not> is_staking_enabled C"
  shows "dispatch C (Signed who) k s = Inl StakingNotAllowed"
  using assms
  by (cases k) (simp_all add: nominate_def bond_extra_def signed_nominate_def signed_bond_extra_def
      ensure_signed_def)

lemma signed_replay:
  assumes call: "call_proof k = Some (pf, payload)" and ok: "dispatch C origin k s = Inr s'"
    and binds: "\<And>p q. verify_signature C pf p \<Longrightarrow> verify_signature C pf q \<Longrightarrow> p = q"
    and small: "proxy_nonces s (proof_signer pf) < 2 ^ 64"
  shows "proxy_nonces s' = (proxy_nonces s)(proof_signer pf :=
      (proxy_nonces s (proof_signer pf) + 1) mod 2 ^ 64)"
    "\<exists>e. dispatch C origin' k s' = Inl e"
proof -
  have signed: "signed_by k = Some (pf, proof_signer pf, payload)"
    using call by (simp add: signed_by_def)
  from staking_signed.accepted [OF this ok] staking_signed.not_replayed [OF this ok binds small]
  show "proxy_nonces s' = (proxy_nonces s)(proof_signer pf :=
      (proxy_nonces s (proof_signer pf) + 1) mod 2 ^ 64)" "\<exists>e. dispatch C origin' k s' = Inl e"
    by simp_all
qed

section \<open>Pausing a candidate\<close>

lemma pool_remove_insert:
  assumes inv: "bounded_inv bound owner pool" and mem: "x \<in> set pool"
  shows "fst (bounded_set_remove owner (owner x) pool)"
    "bounded_set_try_insert bound owner x (snd (bounded_set_remove owner (owner x) pool)) = Some (True, pool)"
proof -
  have "keys_sorted owner pool"
    using inv by (simp add: bounded_inv_def)
  then have view: "set_view owner pool (owner x) = Some x"
    using mem keys_sorted_owner_mem by blast
  then have has: "bounded_set_contains owner (owner x) pool"
    using bset.mem_view [OF inv] by simp
  show "fst (bounded_set_remove owner (owner x) pool)"
    using bset.del_reports [OF inv, of "owner x"] has by simp
  obtain p where p: "bounded_set_try_insert bound owner x (snd (bounded_set_remove owner (owner x) pool)) =
      Some (True, p)" "bounded_inv bound owner p" "set_view owner p = (set_view owner pool)(owner x \<mapsto> x)"
    using bset.replace_succeeds [OF inv has] by blast
  have "y \<in> set p \<longleftrightarrow> y \<in> set pool" for y
    using keys_sorted_owner_mem [of p "owner y" y] keys_sorted_owner_mem [of pool "owner y" y]
      p(2,3) inv view by (simp add: bounded_inv_def fun_upd_idem)
  then have "p = pool"
    using p(2) inv by (intro keys_sorted_unique) (auto simp: bounded_inv_def)
  then show "bounded_set_try_insert bound owner x (snd (bounded_set_remove owner (owner x) pool)) =
      Some (True, pool)"
    using p(1) by simp
qed

lemma offline_online:
  assumes ok: "pool_ok C s" and off: "go_offline (Signed c) s = Inr s1"
  shows "\<exists>s2. go_online C (Signed c) s1 = Inr s2 \<and> candidate_pool s2 = candidate_pool s \<and>
    candidate_info s2 = candidate_info s"
proof -
  obtain m where m: "candidate_info s c = Some m" "is_active m"
    using off by (auto simp: go_offline_def ensure_signed_def Let_def split_beta split: if_splits)
  let ?x = "\<lparr>owner = c, amount = cm_total_counted m\<rparr>"
  have inv: "bounded_inv (max_candidates C) owner (candidate_pool s)" and mem: "?x \<in> set (candidate_pool s)"
    using ok m by (auto simp: pool_ok_def)
  note r = pool_remove_insert [OF inv mem, simplified]
  have s1: "candidate_pool s1 = snd (bounded_set_remove owner c (candidate_pool s))"
    "candidate_info s1 = (candidate_info s)(c \<mapsto> m\<lparr>cm_status := Idle\<rparr>)"
    using off m r(1)
    by (auto simp: go_offline_def ensure_signed_def Let_def split_beta deposit_event_def
        cm_go_offline_def)
  have "m\<lparr>cm_status := Active\<rparr> = m"
    using m(2) by (simp add: is_active_def)
  then show ?thesis
    using s1 r(2) m
    by (simp add: go_online_def ensure_signed_def Let_def cm_go_online_def is_active_def
        is_leaving_def deposit_event_def fun_upd_idem)
qed

section \<open>Selection\<close>

lemma compute_top_spec:
  fixes s :: "'w staking"
  assumes ok: "pool_ok C s"
  defines "cs \<equiv> compute_top_candidates s"
  shows "sorted cs" "distinct cs" "length cs \<le> total_selected s"
    "c \<in> set cs \<Longrightarrow> \<exists>m. candidate_info s c = Some m \<and> is_active m \<and> min_collator_stake s \<le> cm_total_counted m"
    "\<lbrakk>candidate_info s d = Some md; is_active md; min_collator_stake s \<le> cm_total_counted md; d \<notin> set cs\<rbrakk>
       \<Longrightarrow> length cs = total_selected s \<and>
         (\<forall>c m. c \<in> set cs \<longrightarrow> candidate_info s c = Some m \<longrightarrow> cm_total_counted md \<le> cm_total_counted m)"
proof -
  let ?ys = "rev (sort_key amount (candidate_pool s))" and ?k = "total_selected s"
  let ?top = "take ?k ?ys" and ?P = "\<lambda>x. min_collator_stake s \<le> amount x"
  have pool: "x \<in> set (candidate_pool s) \<longleftrightarrow>
      (\<exists>m. candidate_info s (owner x) = Some m \<and> is_active m \<and> amount x = cm_total_counted m)" for x
    using ok by (simp add: pool_ok_def)
  have keys: "distinct (map owner (candidate_pool s))"
    using ok keys_sorted_distinct by (auto simp: pool_ok_def bounded_inv_def)
  have cs: "cs = sort (map owner (filter ?P ?top))"
    by (simp add: cs_def compute_top_candidates_def)
  have "distinct (map owner ?ys)"
    using keys by (simp add: distinct_map rev_map [symmetric])
  then have "distinct (map owner ?top)"
    by (simp add: take_map [symmetric])
  then show "sorted cs" "distinct cs" "length cs \<le> total_selected s"
    by (simp_all add: cs distinct_map_filter order_trans [OF length_filter_le])
  have mem: "c \<in> set cs \<longleftrightarrow> (\<exists>x\<in>set ?top. ?P x \<and> owner x = c)" for c
    by (auto simp: cs)
  have sub: "x \<in> set ?top \<Longrightarrow> x \<in> set (candidate_pool s)" for x
    by (metis in_set_takeD set_rev set_sort)
  show "\<exists>m. candidate_info s c = Some m \<and> is_active m \<and> min_collator_stake s \<le> cm_total_counted m"
    if "c \<in> set cs"
    using that mem sub pool by metis
  assume d: "candidate_info s d = Some md" "is_active md" "min_collator_stake s \<le> cm_total_counted md"
    "d \<notin> set cs"
  let ?z = "\<lparr>owner = d, amount = cm_total_counted md\<rparr>"
  have "?z \<in> set ?ys" "?z \<notin> set ?top"
    using d pool [of ?z] mem [of d] by auto
  then have z: "?z \<in> set (drop ?k ?ys)"
    by (metis Un_iff append_take_drop_id set_append)
  have "sorted_wrt (\<lambda>x y. amount y \<le> amount x) ?ys"
    using sorted_sort_key [of amount "candidate_pool s"] by (simp add: sorted_wrt_rev sorted_map)
  then have above: "amount ?z \<le> amount x" if "x \<in> set ?top" for x
    using z that by (metis append_take_drop_id sorted_wrt_append)
  then have "filter ?P ?top = ?top"
    using d(3) by (intro filter_True) fastforce
  moreover have "length ?top = ?k"
    using z by (cases "length ?ys \<le> ?k") auto
  moreover have "cm_total_counted md \<le> cm_total_counted m" if "c \<in> set cs" "candidate_info s c = Some m"
    for c m
    using that mem [of c] above sub pool by fastforce
  ultimately show "length cs = total_selected s \<and>
      (\<forall>c m. c \<in> set cs \<longrightarrow> candidate_info s c = Some m \<longrightarrow> cm_total_counted md \<le> cm_total_counted m)"
    unfolding cs by auto
qed

section \<open>Payouts\<close>

lemma reward_reserved:
  assumes "compute_total_reward_to_pay C s = (reward, s')"
    and "reward_pot C s \<le> u128_max" "locked_era_payout s \<le> u128_max"
  shows "locked_era_payout s' = max (reward_pot C s) (locked_era_payout s)"
    "locked_era_payout s + reward = locked_era_payout s'"
  using assms by (auto simp: compute_total_reward_to_pay_def Let_def checked_sub128_def
      checked_add128_def deposit_event_def max_def split: if_splits)

definition same_payouts :: "'w staking \<Rightarrow> 'w staking \<Rightarrow> bool" where
  "same_payouts s s' \<longleftrightarrow> awarded_pts s' = awarded_pts s \<and> delayed_payouts s' = delayed_payouts s \<and>
     points s' = points s"

lemma pay_reward_same_payouts: "same_payouts s s1 \<Longrightarrow> same_payouts s (pay_reward C a p s1)"
  by (simp add: pay_reward_def same_payouts_def deposit_event_def split: option.splits)

lemma pay_one_progress:
  assumes "pay_one_collator_reward C e t s = (r, s')"
  shows "r = None \<Longrightarrow> s' = s"
    "r \<noteq> None \<Longrightarrow> delayed_payouts s' = delayed_payouts s \<and>
       length (awarded_pts s' e) < length (awarded_pts s e)"
proof -
  show "r = None \<Longrightarrow> s' = s"
    using assms by (auto simp: pay_one_collator_reward_def Let_def split: if_splits list.splits)
  assume "r \<noteq> None"
  then obtain c pts rest where it: "iter_prefix C (awarded_pts s e) = (c, pts) # rest" "points s e \<noteq> 0"
    using assms by (cases "iter_prefix C (awarded_pts s e)")
      (auto simp: pay_one_collator_reward_def Let_def split: if_splits)
  let ?st = "case alist_get c (at_stake s e) of Some x \<Rightarrow> x | None \<Rightarrow> default_snapshot"
  let ?rw = "perbill_mul C pts (points s e) t"
  let ?s1 = "s\<lparr>awarded_pts := (awarded_pts s)(e := alist_remove c (awarded_pts s e)),
    at_stake := (at_stake s)(e := alist_remove c (at_stake s e))\<rparr>"
  let ?s2 = "pay_reward C (perbill_mul C (snap_bond ?st) (snap_total ?st) ?rw) c ?s1"
  have s': "s' = fold (pay_nominator C (snap_total ?st) ?rw) (snap_nominations ?st) ?s2"
    using assms it by (simp add: pay_one_collator_reward_def Let_def)
  have "same_payouts ?s1 s'"
    unfolding s'
    by (rule fold_preserves [where P = "same_payouts ?s1"])
      (simp_all add: pay_nominator_def Let_def pay_reward_same_payouts same_payouts_def [of ?s1 ?s1])
  moreover have "(c, pts) \<in> set (awarded_pts s e)"
    using arg_cong [OF it(1), of set] by (simp add: iter_prefix_def)
  then have "length (alist_remove c (awarded_pts s e)) < length (awarded_pts s e)"
    unfolding alist_remove_def by (rule length_filter_less) simp
  ultimately show "delayed_payouts s' = delayed_payouts s \<and>
       length (awarded_pts s' e) < length (awarded_pts s e)"
    by (simp add: same_payouts_def)
qed

lemma delayed_payouts_finish:
  assumes "reward_payment_delay C \<le> now" "length (awarded_pts s (now - reward_payment_delay C)) < k"
  shows "delayed_payouts ((handle_delayed_payouts C now ^^ k) s) (now - reward_payment_delay C) = None"
  using assms(2)
proof (induction k arbitrary: s)
  case (Suc k)
  let ?e = "now - reward_payment_delay C" and ?f = "handle_delayed_payouts C now"
  have idle: "(?f ^^ j) s1 = s1" if "delayed_payouts s1 ?e = None" for j s1
    using that assms(1) by (induction j) (simp_all add: handle_delayed_payouts_def Let_def)
  have "delayed_payouts (?f s) ?e = None \<or> length (awarded_pts (?f s) ?e) < k"
  proof (cases "delayed_payouts s ?e")
    case (Some payout)
    obtain r s1 where r: "pay_one_collator_reward C ?e payout s = (r, s1)"
      by fastforce
    have "length (awarded_pts s1 ?e) < k" if "r \<noteq> None"
      using pay_one_progress(2) [OF r that] Suc.prems by linarith
    then show ?thesis
      using Some assms(1) r by (auto simp: handle_delayed_payouts_def Let_def)
  qed (use assms(1) in \<open>simp add: handle_delayed_payouts_def Let_def\<close>)
  then show ?case
    using Suc.IH [of "?f s"] idle [of "?f s" k] by (auto simp: funpow_swap1 funpow_Suc_right simp del: funpow.simps)
qed simp

text \<open>
  What the payment of one collator amounts to: the share of the collator and the shares of its
  nominators that are not zero. Every payment leaves an event, of a transfer or of its failure.
\<close>

definition era_payments ::
  "'w config \<Rightarrow> 'w staking \<Rightarrow> era_index \<Rightarrow> balance \<Rightarrow> account \<times> nat \<Rightarrow> (account \<times> balance) list" where
  "era_payments C s e payout = (\<lambda>(c, pts).
     let reward = perbill_mul C pts (points s e) payout;
         snapshot = (case alist_get c (at_stake s e) of Some x \<Rightarrow> x | None \<Rightarrow> default_snapshot);
         share = (\<lambda>stake. perbill_mul C stake (snap_total snapshot) reward)
     in (c, share (snap_bond snapshot)) #
        filter (\<lambda>(_, amt). amt \<noteq> 0) (map (\<lambda>b. (owner b, share (amount b))) (snap_nominations snapshot)))"

fun payment_of :: "staking_event \<Rightarrow> (account \<times> balance) option" where
  "payment_of (Rewarded payee amt) = Some (payee, amt)"
| "payment_of (ErrorPayingStakingReward payee amt) = Some (payee, amt)"
| "payment_of _ = None"

text \<open>\<open>paid_between s s' ps\<close>: from \<open>s\<close> to \<open>s'\<close> the payments \<open>ps\<close> were made, and nothing the payouts
  rest on has changed.\<close>

definition paid_between :: "'w staking \<Rightarrow> 'w staking \<Rightarrow> (account \<times> balance) list \<Rightarrow> bool" where
  "paid_between s s' ps \<longleftrightarrow> same_payouts s s' \<and> at_stake s' = at_stake s \<and>
     (\<exists>log. events s' = events s @ log \<and> map payment_of log = map Some ps)"

lemma paid_between_trans:
  "paid_between s s1 ps \<Longrightarrow> paid_between s1 s2 qs \<Longrightarrow> paid_between s s2 (ps @ qs)"
  by (fastforce simp: paid_between_def same_payouts_def)

lemma pay_reward_between: "paid_between s (pay_reward C amt payee s) [(payee, amt)]"
  by (auto simp: paid_between_def pay_reward_def same_payouts_def deposit_event_def split: option.split)

lemma pay_nominators_between:
  "paid_between s (fold (pay_nominator C t reward) bs s)
     (filter (\<lambda>(_, amt). amt \<noteq> 0) (map (\<lambda>b. (owner b, perbill_mul C (amount b) t reward)) bs))"
proof (induction bs arbitrary: s)
  case (Cons b bs)
  show ?case
    using Cons.IH [of s] paid_between_trans [OF pay_reward_between [of s C _ "owner b"] Cons.IH]
    by (auto simp: pay_nominator_def Let_def)
qed (simp add: paid_between_def same_payouts_def)

lemma pay_one_pays:
  assumes "iter_prefix C (awarded_pts s e) = (c, pts) # rest" "points s e \<noteq> 0"
  obtains s' where "pay_one_collator_reward C e payout s = (Some (c, perbill_mul C pts (points s e) payout), s')"
    "paid_between (s\<lparr>awarded_pts := (awarded_pts s)(e := alist_remove c (awarded_pts s e)),
       at_stake := (at_stake s)(e := alist_remove c (at_stake s e))\<rparr>) s' (era_payments C s e payout (c, pts))"
proof -
  let ?s1 = "s\<lparr>awarded_pts := (awarded_pts s)(e := alist_remove c (awarded_pts s e)),
    at_stake := (at_stake s)(e := alist_remove c (at_stake s e))\<rparr>"
  let ?st = "case alist_get c (at_stake s e) of Some x \<Rightarrow> x | None \<Rightarrow> default_snapshot"
  let ?rw = "perbill_mul C pts (points s e) payout"
  let ?s2 = "pay_reward C (perbill_mul C (snap_bond ?st) (snap_total ?st) ?rw) c ?s1"
  let ?s3 = "fold (pay_nominator C (snap_total ?st) ?rw) (snap_nominations ?st) ?s2"
  show ?thesis
  proof
    show "pay_one_collator_reward C e payout s = (Some (c, ?rw), ?s3)"
      using assms by (simp add: pay_one_collator_reward_def Let_def)
    show "paid_between ?s1 ?s3 (era_payments C s e payout (c, pts))"
      using paid_between_trans [OF pay_reward_between pay_nominators_between]
      by (simp add: era_payments_def Let_def)
  qed
qed

text \<open>One run of the hook: the first collator with points is paid and struck off, and the record
  of the era stays.\<close>

lemma handle_delayed_pays:
  assumes "reward_payment_delay C \<le> now" "e = now - reward_payment_delay C"
    "delayed_payouts s e = Some payout" "points s e \<noteq> 0" "awarded_pts s e \<noteq> []"
  obtains c pts log where "(c, pts) \<in> set (awarded_pts s e)"
    "awarded_pts (handle_delayed_payouts C now s) e = alist_remove c (awarded_pts s e)"
    "at_stake (handle_delayed_payouts C now s) e = alist_remove c (at_stake s e)"
    "delayed_payouts (handle_delayed_payouts C now s) e = Some payout"
    "points (handle_delayed_payouts C now s) = points s"
    "events (handle_delayed_payouts C now s) = events s @ log"
    "map payment_of log = map Some (era_payments C s e payout (c, pts))"
proof -
  have "set (iter_prefix C (awarded_pts s e)) = set (awarded_pts s e)"
    by (simp add: iter_prefix_def)
  moreover obtain c pts rest where it: "iter_prefix C (awarded_pts s e) = (c, pts) # rest"
    using calculation assms(5) by (cases "iter_prefix C (awarded_pts s e)") auto
  ultimately have mem: "(c, pts) \<in> set (awarded_pts s e)"
    by auto
  obtain s' where s': "pay_one_collator_reward C e payout s = (Some (c, perbill_mul C pts (points s e) payout), s')"
    "paid_between (s\<lparr>awarded_pts := (awarded_pts s)(e := alist_remove c (awarded_pts s e)),
       at_stake := (at_stake s)(e := alist_remove c (at_stake s e))\<rparr>) s' (era_payments C s e payout (c, pts))"
    using pay_one_pays [OF it assms(4)] by blast
  have "handle_delayed_payouts C now s = s'"
    using assms(1-3) s'(1) by (simp add: handle_delayed_payouts_def Let_def)
  moreover obtain log where "events s' = events s @ log"
    "map payment_of log = map Some (era_payments C s e payout (c, pts))"
    using s'(2) by (auto simp: paid_between_def)
  ultimately show ?thesis
    by (intro that [OF mem, of log]) (use s'(2) assms(3) in \<open>simp_all add: paid_between_def same_payouts_def\<close>)
qed

lemma mset_alist_remove:
  "distinct (map fst xs) \<Longrightarrow> (k, v) \<in> set xs \<Longrightarrow> mset xs = add_mset (k, v) (mset (alist_remove k xs))"
proof (induction xs)
  case (Cons x xs)
  show ?case
  proof (cases "fst x = k")
    case True
    then have "x = (k, v)" "k \<notin> fst ` set xs"
      using Cons.prems by (auto simp: rev_image_eqI)
    moreover from this(2) have "filter (\<lambda>(k', _). k' \<noteq> k) xs = xs"
      by (force simp: filter_id_conv)
    ultimately show ?thesis
      by (simp add: alist_remove_def)
  next
    case False
    then have "mset xs = add_mset (k, v) (mset (alist_remove k xs))"
      using Cons by auto
    then show ?thesis
      using False by (simp add: alist_remove_def split_beta)
  qed
qed simp

lemma era_payments_remove:
  assumes "at_stake s' e = alist_remove c (at_stake s e)" "points s' = points s" "fst cp \<noteq> c"
  shows "era_payments C s' e payout cp = era_payments C s e payout cp"
  using assms by (cases cp) (simp add: era_payments_def alist_get_remove Let_def)

lemma delayed_payouts_settle:
  assumes "reward_payment_delay C \<le> now" "e = now - reward_payment_delay C"
    "delayed_payouts s e = Some payout" "points s e \<noteq> 0" "distinct (map fst (awarded_pts s e))"
    "k \<le> length (awarded_pts s e)"
  shows "\<exists>settled log. length settled = k \<and>
    mset settled + mset (awarded_pts ((handle_delayed_payouts C now ^^ k) s) e) = mset (awarded_pts s e) \<and>
    events ((handle_delayed_payouts C now ^^ k) s) = events s @ log \<and>
    map payment_of log = map Some (concat (map (era_payments C s e payout) settled)) \<and>
    delayed_payouts ((handle_delayed_payouts C now ^^ k) s) e = Some payout"
  using assms(3-6)
proof (induction k arbitrary: s)
  case (Suc k)
  let ?f = "handle_delayed_payouts C now"
  have "awarded_pts s e \<noteq> []"
    using Suc.prems(4) by auto
  then obtain c pts log where run: "(c, pts) \<in> set (awarded_pts s e)"
    "awarded_pts (?f s) e = alist_remove c (awarded_pts s e)"
    "at_stake (?f s) e = alist_remove c (at_stake s e)" "delayed_payouts (?f s) e = Some payout"
    "points (?f s) = points s" "events (?f s) = events s @ log"
    "map payment_of log = map Some (era_payments C s e payout (c, pts))"
    by (rule handle_delayed_pays [OF assms(1,2) Suc.prems(1,2)])
  note split = mset_alist_remove [OF Suc.prems(3) run(1)]
  have keys: "distinct (map fst (awarded_pts (?f s) e))"
    using Suc.prems(3) by (simp add: run(2) alist_remove_def distinct_map_filter)
  have "k \<le> length (awarded_pts (?f s) e)"
    using arg_cong [OF split, of size] Suc.prems(4) run(2) by simp
  from Suc.IH [OF run(4) _ keys this] obtain settled log' where rest: "length settled = k"
    "mset settled + mset (awarded_pts ((?f ^^ k) (?f s)) e) = mset (awarded_pts (?f s) e)"
    "events ((?f ^^ k) (?f s)) = events (?f s) @ log'"
    "map payment_of log' = map Some (concat (map (era_payments C (?f s) e payout) settled))"
    "delayed_payouts ((?f ^^ k) (?f s)) e = Some payout"
    using run(5) Suc.prems(2) by auto
  have "set settled \<subseteq> set (awarded_pts (?f s) e)"
    using rest(2) by (metis set_mset_mono mset_subset_eq_add_left set_mset_mset)
  then have "era_payments C (?f s) e payout x = era_payments C s e payout x" if "x \<in> set settled" for x
    using that era_payments_remove [OF run(3,5), of x] by (auto simp: run(2) alist_remove_def)
  then have "concat (map (era_payments C (?f s) e payout) settled) = concat (map (era_payments C s e payout) settled)"
    by (intro arg_cong [of _ _ concat] map_cong) simp_all
  then show ?case
    using rest run(2,6,7) split
    by (intro exI [of _ "(c, pts) # settled"] exI [of _ "log @ log'"]) (simp add: funpow_swap1)
qed simp

end
