(* ===== verification/Staking_Growth.thy ===== *)
theory Staking_Growth
  imports Staking_Effects
begin

text \<open>
  Growth: a payout of a growth period that reaches the last collator marks the period, nothing
  in the pallet removes the mark, and a marked period is refused. A payout that stops at a
  collator it cannot pay does not mark the period.
\<close>

definition same_paid :: "'w staking \<Rightarrow> 'w staking \<Rightarrow> bool" where
  "same_paid s s' \<longleftrightarrow> processed_growth_periods s' = processed_growth_periods s"

lemma same_paid_refl [simp]: "same_paid s s"
  by (simp add: same_paid_def)

lemma same_paid_trans: "same_paid s1 s2 \<Longrightarrow> same_paid s2 s3 \<Longrightarrow> same_paid s1 s3"
  by (simp add: same_paid_def)

section \<open>Hooks\<close>

lemma trigger_growth_paid: "same_paid s s1 \<Longrightarrow> same_paid s (trigger_growth C p s1)"
  by (simp add: trigger_growth_def trigger_growth_on_t1_def growth_mutate_def Let_def same_paid_def
      split: option.splits)

lemma update_collator_payout_paid: "same_paid s (update_collator_payout C e ts p tp sc s)"
proof (cases "is_new_growth_period C e (growth_period s)")
  case True
  have "same_paid s (trigger_outstanding_growths C q s1)" if "same_paid s s1" for q s1
    unfolding trigger_outstanding_growths_def
    by (rule fold_preserves [where P = "same_paid s"]) (simp_all add: trigger_growth_paid that)
  then show ?thesis
    using True by (simp add: update_collator_payout_def Let_def same_paid_def)
next
  case False
  then show ?thesis
    by (simp add: update_collator_payout_def accumulate_payout_for_period_def growth_mutate_def
        same_paid_def)
qed

lemma prepare_payouts_paid: "same_paid s (prepare_staking_payouts C now s)"
proof -
  let ?e = "now - reward_payment_delay C"
  obtain reward s1 where r: "compute_total_reward_to_pay C (s\<lparr>staked := (staked s)(?e := 0)\<rparr>) = (reward, s1)"
    by fastforce
  then have k: "same_paid s (s1\<lparr>delayed_payouts := x\<rparr>)" for x
    by (auto simp: compute_total_reward_to_pay_def Let_def same_paid_def deposit_event_def
        split: option.splits)
  then show ?thesis
    using update_collator_payout_paid same_paid_trans
    by (fastforce simp: prepare_staking_payouts_def Let_def r)
qed

lemma select_top_paid:
  assumes "select_top_candidates C now s = Inr (n, m, t, s')"
  shows "same_paid s s'"
proof -
  have copied: "same_paid s (snd (snd (snd (fold (copy_snapshot now) xs (a, b, c, s)))))" for xs a b c
    by (rule fold_preserves [where P = "\<lambda>x. same_paid s (snd (snd (snd x)))"])
      (auto simp: copy_snapshot_def same_paid_def)
  have chosen: "same_paid s1 s2" if "try_fold (choose_again now sn) xs s1 = Inr s2" for sn xs s1 s2
    by (rule try_fold_invariant [where I = "same_paid s1", OF that])
      (auto simp: choose_again_def same_paid_def deposit_event_def)
  have snapped: "same_paid s s2" if "try_fold (snapshot_collator now) xs (0, 0, 0, s) = Inr (a, b, c, s2)"
    for xs a b c s2
  proof -
    have "same_paid s (snd (snd (snd (a, b, c, s2))))"
      by (rule try_fold_invariant [where I = "\<lambda>x. same_paid s (snd (snd (snd x)))", OF that])
        (auto simp: snapshot_collator_def same_paid_def deposit_event_def Let_def)
    then show ?thesis
      by simp
  qed
  show ?thesis
  proof (cases "compute_top_candidates s = []")
    case True
    obtain n1 m1 t1 s1 where f: "fold (copy_snapshot now) (iter_prefix C (at_stake s (now - 1))) (0, 0, 0, s) =
        (n1, m1, t1, s1)"
      by (metis prod_cases4)
    have "same_paid s s1"
      using copied [of "iter_prefix C (at_stake s (now - 1))" 0 0 0] f by simp
    then show ?thesis
      using assms True f chosen same_paid_trans [of s s1 s']
      by (auto simp: select_top_candidates_def Let_def)
  next
    case False
    then show ?thesis
      using assms snapped by (auto simp: select_top_candidates_def Let_def same_paid_def split: if_splits)
  qed
qed

lemma start_new_era_paid:
  assumes "start_new_era C now e s = Inr (e', s')"
  shows "same_paid s s'"
proof -
  let ?s1 = "if is_staking_enabled C then prepare_staking_payouts C (era_current (era_info_update now e)) s
    else s"
  obtain n m t s2 where "select_top_candidates C (era_current (era_info_update now e)) ?s1 = Inr (n, m, t, s2)"
    "processed_growth_periods s' = processed_growth_periods s2"
    using assms by (auto simp: start_new_era_def Let_def deposit_event_def)
  then have "same_paid ?s1 s'"
    using select_top_paid by (fastforce simp: same_paid_def)
  moreover have "same_paid s ?s1"
    by (simp add: prepare_payouts_paid)
  ultimately show ?thesis
    using same_paid_trans by blast
qed

lemma pay_reward_paid: "same_paid s s1 \<Longrightarrow> same_paid s (pay_reward C a p s1)"
  by (simp add: pay_reward_def same_paid_def deposit_event_def split: option.splits)

lemma pay_one_paid:
  assumes "pay_one_collator_reward C e t s = (r, s')"
  shows "same_paid s s'"
proof -
  have fold: "same_paid s (fold (pay_nominator C a b) xs s1)" if "same_paid s s1" for a b xs s1
    by (rule fold_preserves [where P = "same_paid s"])
      (simp_all add: pay_nominator_def Let_def pay_reward_paid that)
  have "same_paid s (s\<lparr>awarded_pts := f, at_stake := g\<rparr>)" for f g
    by (simp add: same_paid_def)
  then show ?thesis
    using assms fold [OF pay_reward_paid]
    by (auto simp: pay_one_collator_reward_def Let_def split: if_splits list.splits)
qed

lemma handle_delayed_paid: "same_paid s (handle_delayed_payouts C now s)"
proof -
  let ?e = "now - reward_payment_delay C"
  show ?thesis
  proof (cases "delayed_payouts s ?e")
    case (Some payout)
    obtain r s1 where "pay_one_collator_reward C ?e payout s = (r, s1)"
      by fastforce
    then show ?thesis
      using Some pay_one_paid by (fastforce simp: handle_delayed_payouts_def Let_def same_paid_def)
  qed (simp add: handle_delayed_payouts_def Let_def)
qed

lemma on_initialize_paid: "on_initialize C n s = Inr s' \<Longrightarrow> same_paid s s'"
  by (auto simp: on_initialize_def split: if_splits
      intro: handle_delayed_paid start_new_era_paid same_paid_trans [OF start_new_era_paid handle_delayed_paid])

lemma should_end_session_paid: "should_end_session C n s = Inr (b, s') \<Longrightarrow> same_paid s s'"
  using start_new_era_paid [of C n "era s" "s\<lparr>force_new_era := False\<rparr>"]
  by (auto simp: should_end_session_def same_paid_def split: if_splits)

section \<open>Payouts of growth\<close>

lemma payout_collators_marks:
  assumes "payout_collators C amt p s = (None, s')"
  shows "processed_growth_periods s' p"
  using assms by (cases rule: payout_collators_cases) simp_all

lemma payout_collators_keeps_marks:
  assumes "payout_collators C amt p s = (r, s')" "processed_growth_periods s q"
  shows "processed_growth_periods s' q"
  using assms by (cases rule: payout_collators_cases) simp_all

text \<open>A payout that stops at a collator leaves the period as it was, so that the next one starts
  over and pays the collators before that one again.\<close>

lemma failed_payout_repeats:
  assumes "payout_collators C amt p s = (Some ErrorPayingCollator, s1)"
    "payout_collators C amt p (s1\<lparr>world := w\<rparr>) = (None, s2)"
  shows "\<exists>early paid. events s2 = events s @ paid_log p early @ paid_log p paid \<and>
    map fst paid = map fst (payout_shares C amt p s) \<and>
    map fst early = take (length early) (map fst paid) \<and> length early < length paid"
  using assms(1)
proof (cases rule: payout_collators_cases)
  case (failed w1 early)
  have same: "payout_shares C amt p (s1\<lparr>world := w\<rparr>) = payout_shares C amt p s"
    "events (s1\<lparr>world := w\<rparr>) = events s @ paid_log p early"
    using failed(5) by (simp_all add: payout_shares_def split: option.split)
  from assms(2) show ?thesis
  proof (cases rule: payout_collators_cases)
    case (paid w2 paid)
    have "length paid = length (payout_shares C amt p s)"
      using map_eq_imp_length_eq [OF paid(3)] same(1) by simp
    then show ?thesis
      using paid(3,4) same failed(3,4)
      by (intro exI [of _ early] exI [of _ paid]) (simp add: take_map)
  qed simp_all
qed simp_all

lemma dispatch_paid:
  assumes "dispatch C origin k s = Inr s'"
  shows "same_paid s s'"
proof (cases "call_proof k")
  case None
  then show ?thesis
    using unsigned_dispatch_kept [OF None, of s C origin] assms by (simp add: same_paid_def kept_def)
next
  case (Some p)
  then show ?thesis
    using signed_dispatch_authorized [of k "fst p" "snd p" C origin s s'] assms
    by (auto simp: authorized_def increment_proxy_nonce_def same_paid_def kept_def)
qed

lemma paid_forever:
  assumes "reachable C s0 s" "processed_growth_periods s0 p"
  shows "processed_growth_periods s p"
  using assms(1)
proof (induction rule: reachable.induct)
  case (initialize s n s')
  then show ?case using on_initialize_paid same_paid_def by metis
next
  case (end_session s n b s')
  then show ?case using should_end_session_paid same_paid_def by metis
next
  case (call s k origin s')
  then show ?case using dispatch_paid same_paid_def by metis
next
  case (author s a)
  then show ?case by (simp add: note_author_def Let_def)
next
  case (lifted s amt q r s')
  then show ?case using payout_collators_keeps_marks by (metis on_growth_lifted_def)
next
  case (result s tx caller ok)
  then show ?case by (simp add: process_result_def growth_mutate_def split: option.splits)
qed (simp_all add: assms(2))

lemma growth_paid_once:
  assumes "on_growth_lifted C amt p s = (None, s1)" "reachable C s1 s2"
  shows "on_growth_lifted C amt' p s2 = (Some GrowthAlreadyProcessed, s2)"
proof -
  have "processed_growth_periods s1 p"
    using payout_collators_marks assms(1) by (metis on_growth_lifted_def)
  then have "processed_growth_periods s2 p"
    using paid_forever [OF assms(2)] by simp
  then show ?thesis
    by (simp add: on_growth_lifted_def payout_collators_def)
qed

end
