(* ===== verification/Staking_Demo.thy ===== *)
theory Staking_Demo
  imports Staking_Inv
begin

text \<open>
  A small chain on which the staking pallet's properties are evaluated: two candidates, one
  nominator with one nomination and a due revocation of it. Balances are constant, the
  other services of the runtime do nothing.
\<close>

definition demo_config :: "unit config" where
  "demo_config =
     \<lparr>test_build = True, min_blocks_per_era = 5, reward_payment_delay = 2,
      min_selected_candidates = 1, max_top_nominations_per_candidate = 2,
      max_bottom_nominations_per_candidate = 2, max_nominations_per_nominator = 4,
      min_nomination_per_collator = 3, eras_per_growth_period = 2, reward_pot_account = 99,
      max_candidates = 10, growth_enabled = True, minimum_balance = 1,
      free_balance = (\<lambda>_ _. 1000), set_lock = (\<lambda>_ _ _ w. w), remove_lock = (\<lambda>_ _ w. w),
      transfer_keep_alive = (\<lambda>_ _ _ w. Some w),
      deposit_into_existing = (\<lambda>_ amt w. Some (w, amt)),
      drop_imbalance = (\<lambda>_ w. w), handle_dust = (\<lambda>_ w. w), is_registered = (\<lambda>_ _. True),
      perbill_mul = (\<lambda>p q x. p * x div max q 1), lookup = Some,
      verify_signature = (\<lambda>_ _. True), storage_key = (\<lambda>a. a),
      publish_growth = (\<lambda>_ _ _ w. Some (7, w))\<rparr>"

definition demo_top :: nominations where
  "demo_top = \<lparr>noms = [\<lparr>owner = 10, amount = 50\<rparr>], noms_total = 50\<rparr>"

definition demo_candidate :: candidate_metadata where
  "demo_candidate = refresh demo_config demo_top empty_nominations (candidate_metadata_new 100)"

definition demo_state :: "unit staking" where
  "demo_state =
     \<lparr>delay = 2, total_selected = 2, era = \<lparr>era_current = 5, era_first = 20, era_length = 5\<rparr>,
      nominator_state = [10 \<mapsto> nominator_new 10 1 50],
      candidate_info = [1 \<mapsto> demo_candidate, 2 \<mapsto> candidate_metadata_new 80],
      nomination_scheduled_requests = (\<lambda>_. [])
        (1 := [\<lparr>req_nominator = 10, req_when_executable = 4, req_action = Revoke 50\<rparr>]),
      top_nominations = [1 \<mapsto> demo_top, 2 \<mapsto> empty_nominations],
      bottom_nominations = [1 \<mapsto> empty_nominations, 2 \<mapsto> empty_nominations],
      selected_candidates = [1], total = 230,
      candidate_pool = [\<lparr>owner = 1, amount = 150\<rparr>, \<lparr>owner = 2, amount = 80\<rparr>],
      at_stake = (\<lambda>_. [])(5 := [(1, \<lparr>snap_bond = 100, snap_nominations = [], snap_total = 100\<rparr>)]),
      delayed_payouts = Map.empty, staked = (\<lambda>_. 230), points = (\<lambda>_. 20),
      awarded_pts = (\<lambda>_. []), locked_era_payout = 0,
      growth_period = \<lparr>start_era_index = 4, gp_index = 1\<rparr>, growth = Map.empty,
      processed_growth_periods = (\<lambda>_. False), force_new_era = False, min_collator_stake = 10,
      min_total_nominator_stake = 5, proxy_nonces = (\<lambda>_. 0), last_triggered_growth_period = 0,
      published_growth = Map.empty, block_number = 21, events = [], world = ()\<rparr>"

text \<open>The same chain without the request, and one whose first candidate has a bottom nomination.\<close>

definition demo_quiet :: "unit staking" where
  "demo_quiet = demo_state\<lparr>nomination_scheduled_requests := (\<lambda>_. [])\<rparr>"

definition crowd_top :: nominations where
  "crowd_top = \<lparr>noms = [\<lparr>owner = 11, amount = 60\<rparr>, \<lparr>owner = 12, amount = 50\<rparr>], noms_total = 110\<rparr>"

definition crowd_bottom :: nominations where
  "crowd_bottom = \<lparr>noms = [\<lparr>owner = 13, amount = 40\<rparr>], noms_total = 40\<rparr>"

definition crowd_candidate :: candidate_metadata where
  "crowd_candidate = refresh demo_config crowd_top crowd_bottom (candidate_metadata_new 100)"

definition crowd_state :: "unit staking" where
  "crowd_state = demo_state\<lparr>candidate_info := [1 \<mapsto> crowd_candidate],
     top_nominations := [1 \<mapsto> crowd_top], bottom_nominations := [1 \<mapsto> crowd_bottom]\<rparr>"

lemmas demo_defs = demo_config_def demo_top_def demo_candidate_def demo_state_def

lemma demo_limits: "limits_ok demo_config"
  by (simp add: limits_ok_def demo_config_def max_nominations_def)

lemma demo_books:
  "book_ok demo_config demo_candidate demo_top empty_nominations"
  "book_ok demo_config (candidate_metadata_new 80) empty_nominations empty_nominations"
  by (simp_all add: book_ok_def refresh_def demo_defs candidate_metadata_new_def ranked_def
      empty_nominations_def greatest_to_least_def top_capacity_def bottom_capacity_def
      lowest_nomination_amount_def highest_nomination_amount_def u128_max_def)

lemma crowd_book: "book_ok demo_config crowd_candidate crowd_top crowd_bottom"
  by (simp add: book_ok_def refresh_def crowd_candidate_def crowd_top_def crowd_bottom_def demo_defs
      candidate_metadata_new_def ranked_def greatest_to_least_def top_capacity_def bottom_capacity_def
      lowest_nomination_amount_def highest_nomination_amount_def u128_max_def)

lemma demo_stakes:
  "cand_stake demo_state c n = (if c = 1 \<and> n = 10 then Some 50 else None)"
  "nom_stake demo_state n c = (if c = 1 \<and> n = 10 then Some 50 else None)"
  by (auto simp: demo_state_def demo_top_def empty_nominations_def book_stakes_def stakes_def
      nominator_new_def bounded_set_from_def ordered_set_from_def truncate_from_def
      max_nominations_def)

lemma demo_inv: "staking_inv demo_config demo_state"
proof -
  have "candidates_ok demo_config demo_state"
    using demo_books by (auto simp: candidates_ok_def demo_state_def)
  moreover have "pool_ok demo_config demo_state"
    by (auto simp: pool_ok_def demo_defs bounded_inv_def keys_sorted_def refresh_def
        candidate_metadata_new_def is_active_def split: if_splits)
  moreover have "nominators_ok demo_state"
    by (auto simp: nominators_ok_def nominator_ok_def demo_state_def nominator_new_def
        bounded_inv_def keys_sorted_def bounded_set_from_def ordered_set_from_def
        truncate_from_def max_nominations_def split: if_splits)
  moreover have "agree demo_state" "positive demo_state"
    by (simp_all add: agree_def positive_def demo_stakes)
  moreover have "requests_ok demo_state"
    unfolding requests_ok_def request_ok_def demo_stakes by (auto simp: demo_state_def)
  moreover have "apart demo_state" "unbonds_ok demo_state" "minimums_ok demo_config demo_state"
    by (auto simp: apart_def unbonds_ok_def minimums_ok_def demo_defs refresh_def
        candidate_metadata_new_def split: if_splits)
  ultimately show ?thesis
    by (simp add: staking_inv_def)
qed

lemma demo_headroom: "x \<le> 1000 \<Longrightarrow> headroom x demo_state"
  by (auto simp: headroom_def demo_defs refresh_def candidate_metadata_new_def
      empty_nominations_def nominator_new_def u128_max_def split: if_splits)

end
