(* ===== verification/Staking_Properties.thy ===== *)
theory Staking_Properties
  imports Staking_Growth Staking_Demo
begin

text \<open>
  The properties of the staking pallet, with their witnesses on the small chain of
  \<open>Staking_Demo\<close>.
\<close>

section \<open>The small chain\<close>

lemma demo_config_ok: "config_ok demo_config"
  using demo_limits by (simp add: config_ok_def demo_config_def max_nominations_def)

lemma demo_selection: "selection_ok demo_state"
  by (simp add: selection_ok_def demo_state_def)

lemma demo_run: "run_ok demo_config demo_state" "0 < reward_payment_delay demo_config"
  using demo_inv demo_selection by (simp_all add: run_ok_def demo_config_def)

lemma demo_pool: "pool_ok demo_config demo_state"
  using staking_invD(2) [OF demo_inv] .

section \<open>Every run of the pallet\<close>

text \<open>C1: the invariant of the pallet's storage (\<open>staking_inv\<close>: every candidate's two vectors are
  ranked and its cached fields are what the vectors say, the candidate pool holds exactly the
  active candidates with their counted stakes, nominators and candidates agree on every
  nomination, every scheduled request is about a nomination that exists and is covered by it,
  no account is nominator and candidate) and the snapshots of the selected collators are kept
  by every call, every hook and every change of the rest of the runtime, as long as balances
  and era numbers stay within their widths.\<close>

theorem reachable_invariant:
  assumes "reachable C s0 s" "staking_inv C s0" "selection_ok s0" "config_ok C"
    "0 < reward_payment_delay C"
  shows "staking_inv C s \<and> selection_ok s"
  using reachable_run_ok [OF assms(1) _ assms(4,5)] assms(2,3) by (simp add: run_ok_def)

theorem reachable_invariant_witness:
  "\<exists>s. dispatch demo_config (Signed 2) GoOffline demo_state = Inr s \<and> staking_inv demo_config s"
proof -
  obtain s where s: "dispatch demo_config (Signed 2) GoOffline demo_state = Inr s"
    by (simp add: go_offline_def ensure_signed_def demo_state_def is_active_def
        candidate_metadata_new_def Let_def split_beta)
  have "reachable demo_config demo_state s"
    by (rule reachable.call [OF reachable.start _ s]) (simp add: demo_headroom)
  from reachable_invariant [OF this demo_inv demo_selection demo_config_ok demo_run(2)] show ?thesis
    using s by blast
qed

text \<open>C2: no call panics in a reachable state: none of the \<open>expect\<close>s and \<open>unwrap\<close>s on the way of
  any of the 33 dispatchables can fail, whatever the origin and the arguments, as long as the
  stake it adds does not push a total past the width of a balance.\<close>

theorem calls_never_panic:
  assumes "reachable C s0 s" "staking_inv C s0" "selection_ok s0" "config_ok C"
    "0 < reward_payment_delay C" "headroom (call_stake k) s"
  shows "dispatch C origin k s \<noteq> Inl Panic"
  using run_ok_dispatch(1) [OF reachable_run_ok [OF assms(1) _ assms(4,5)] assms(4,6)] assms(2,3)
  by (simp add: run_ok_def)

theorem calls_never_panic_witness:
  "dispatch demo_config (Signed 10) (Nominate 2 100 0 1) (note_author 1 demo_state) \<noteq> Inl Panic"
  by (rule calls_never_panic [OF reachable.author [OF reachable.start] demo_inv demo_selection
        demo_config_ok demo_run(2)])
    (use demo_headroom [of 100] in \<open>simp add: headroom_def note_author_def Let_def\<close>)

text \<open>C3: the hooks never panic in a reachable state: block initialization, with the change of
  era, the selection of collators and the payout of one collator, and the end of a session
  always go through.\<close>

theorem hooks_never_panic:
  assumes "reachable C s0 s" "staking_inv C s0" "selection_ok s0" "config_ok C"
    "0 < reward_payment_delay C" "era_current (era s) < u32_max"
  shows "(\<exists>s'. on_initialize C n s = Inr s') \<and> (\<exists>b s'. should_end_session C n s = Inr (b, s'))"
proof -
  have "staking_inv C s" "selection_ok s"
    using reachable_run_ok [OF assms(1) _ assms(4,5)] assms(2,3) by (simp_all add: run_ok_def)
  then show ?thesis
    using on_initialize_result [OF _ _ assms(6,5)] should_end_session_result [OF _ _ assms(6)] by blast
qed

theorem hooks_never_panic_witness:
  "(\<exists>s'. on_initialize demo_config 25 demo_state = Inr s') \<and>
   (\<exists>b s'. should_end_session demo_config 25 demo_state = Inr (b, s'))"
  by (rule hooks_never_panic [OF reachable.start demo_inv demo_selection demo_config_ok demo_run(2)])
    (simp add: demo_state_def u32_max_def)

text \<open>C4: the pallet refines the ledger of stakes: whatever call succeeds, the stakes before and
  after it are related as the specification of the call says. \<open>nominate\<close> adds one nomination
  and at most pushes out the lowest one, which is strictly smaller; \<open>bond_extra\<close> raises exactly
  one; executing a request removes or lowers exactly the stake it is about; leaving removes
  the row of the nominator or the column of the candidate; and every other call leaves all
  stakes alone.\<close>

theorem calls_refine_ledger:
  assumes "staking_inv C s" "config_ok C" "headroom (call_stake k) s" "dispatch C origin k s = Inr s'"
  shows "ledger_effect C s (caller origin) k (ledger_of s) (ledger_of s')"
  using assms by (rule dispatch_ledger)

theorem calls_refine_ledger_witness:
  "\<exists>s'. dispatch demo_config (Signed 3) (ExecuteNominationRequest 10 1) demo_state = Inr s' \<and>
     ledger_of s' = put_stake 10 1 None (ledger_of demo_state)"
proof -
  obtain s' where "nomination_execute_scheduled_request demo_config 1 10 demo_state = Inr s'"
    using due_request_executes [OF demo_inv demo_limits, of 10 "nominator_new 10 1 50"
        "\<lparr>req_nominator = 10, req_when_executable = 4, req_action = Revoke 50\<rparr>" 1]
    by (auto simp: demo_state_def nominator_new_def bounded_set_from_def ordered_set_from_def
        truncate_from_def max_nominations_def)
  then have "dispatch demo_config (Signed 3) (ExecuteNominationRequest 10 1) demo_state = Inr s'"
    by (simp add: execute_nomination_request_def ensure_signed_def)
  then show ?thesis
    using calls_refine_ledger [OF demo_inv demo_config_ok _, of "ExecuteNominationRequest 10 1" "Signed 3" s']
      demo_headroom [of 0] by (auto simp: after_action_def pending_def demo_state_def)
qed

section \<open>The vectors of a candidate\<close>

text \<open>C13: inserting a nomination by binary search (\<open>insert_sorted_greatest_to_least\<close>) into a
  vector that is in order and has room gives the stable insertion: the new nomination comes
  after every nomination of at least its amount and before all smaller ones, and the total
  grows by its amount.\<close>

theorem insert_sorted_stable:
  assumes "greatest_to_least (noms n)" "length (noms n) < max_nominations"
  shows "insert_sorted_greatest_to_least x n =
    \<lparr>noms = insert_first_come x (noms n), noms_total = sat_add (noms_total n) (amount x)\<rparr>"
  using assms by (rule insert_sorted_eq)

theorem insert_sorted_stable_witness:
  "insert_sorted_greatest_to_least \<lparr>owner = 3, amount = 50\<rparr> demo_top =
     \<lparr>noms = [\<lparr>owner = 10, amount = 50\<rparr>, \<lparr>owner = 3, amount = 50\<rparr>], noms_total = 100\<rparr>"
  using insert_sorted_stable [of demo_top "\<lparr>owner = 3, amount = 50\<rparr>"]
  by (simp add: demo_top_def greatest_to_least_def max_nominations_def insert_first_come_def
      sat_add_def u128_max_def)

text \<open>C5: on a book that is in order, adding a new nominator's nomination
  (\<open>CandidateMetadata::add_nomination\<close>) does exactly what the ranking prescribes: it is
  refused when both vectors are full and it does not beat the lowest bottom nomination,
  otherwise the book becomes the admitted one, every cached field of the candidate is
  recomputed, the lowest bottom nomination is kicked when there is no room, and the pool
  entry follows the counted stake.\<close>

theorem add_nomination_ranked:
  assumes "book_ok C m t b" "limits_ok C"
    and "top_nominations s c = Some t" "bottom_nominations s c = Some b"
    and "book_stakes t b (owner x) = None"
    and "cm_bond m + sum_amounts (noms t) + sum_amounts (noms b) + amount x \<le> u128_max"
  shows "cm_add_nomination C c x m s = admitted C c x t b m s \<and>
    (\<forall>t' b' kicked. admit C x t b = Some (t', b', kicked) \<longrightarrow>
       book_ok C (refresh C t' b' m) t' b' \<and>
       book_stakes t' b' = (after_kick kicked (book_stakes t b))(owner x \<mapsto> amount x))"
  using add_nomination_eq [OF assms] admit_ok [OF assms(1,2,5,6)] by blast

theorem add_nomination_ranked_witness:
  "cm_add_nomination demo_config 1 \<lparr>owner = 3, amount = 60\<rparr> demo_candidate demo_state =
     admitted demo_config 1 \<lparr>owner = 3, amount = 60\<rparr> demo_top empty_nominations demo_candidate demo_state"
  using add_nomination_ranked [OF demo_books(1) demo_limits, of demo_state 1 "\<lparr>owner = 3, amount = 60\<rparr>"]
  by (simp add: demo_defs empty_nominations_def book_stakes_def stakes_def u128_max_def
      refresh_def candidate_metadata_new_def)

text \<open>removing a nomination that the book has (\<open>rm_nomination_if_exists\<close>) succeeds, leaves a
  book that is in order with every cached field recomputed, and removes exactly that
  nominator's stake; a bottom nomination moves up when a top one is removed.\<close>

theorem rm_nomination_removes:
  assumes "book_ok C m t b" "limits_ok C"
    and "top_nominations s c = Some t" "bottom_nominations s c = Some b"
    and "book_stakes t b n = Some a"
  shows "book_update C c t b m s n None (rm_nomination_if_exists C c n a m s)"
  using assms by (rule rm_nomination_update)

theorem rm_nomination_removes_witness:
  "book_update demo_config 1 demo_top empty_nominations demo_candidate demo_state 10 None
     (rm_nomination_if_exists demo_config 1 10 50 demo_candidate demo_state)"
  using rm_nomination_removes [OF demo_books(1) demo_limits, of demo_state 1 10 50]
  by (simp add: demo_defs empty_nominations_def book_stakes_def stakes_def)

text \<open>increasing a nomination (\<open>CandidateMetadata::increase_nomination\<close>) leaves a book in
  order in which exactly that nominator's stake has grown, whether it stays in the top,
  stays in the bottom or is promoted over the lowest top nomination.\<close>

theorem increase_nomination_raises:
  assumes "book_ok C m t b" "limits_ok C"
    and "top_nominations s c = Some t" "bottom_nominations s c = Some b"
    and "book_stakes t b n = Some a"
    and "cm_bond m + sum_amounts (noms t) + sum_amounts (noms b) + extra \<le> u128_max"
  shows "book_update C c t b m s n (Some (a + extra)) (cm_increase_nomination C c n a extra m s)"
  using assms by (rule increase_nomination_update)

theorem increase_nomination_raises_witness:
  "book_update demo_config 1 demo_top empty_nominations demo_candidate demo_state 10 (Some 75)
     (cm_increase_nomination demo_config 1 10 50 25 demo_candidate demo_state)"
  using increase_nomination_raises [OF demo_books(1) demo_limits, of demo_state 1 10 50 25]
  by (simp add: demo_defs empty_nominations_def book_stakes_def stakes_def u128_max_def
      refresh_def candidate_metadata_new_def)

text \<open>decreasing a nomination (\<open>CandidateMetadata::decrease_nomination\<close>) leaves a book in
  order in which exactly that nominator's stake has shrunk; a top nomination that falls
  below the highest bottom one changes places with it.\<close>

theorem decrease_nomination_lowers:
  assumes "book_ok C m t b" "limits_ok C"
    and "top_nominations s c = Some t" "bottom_nominations s c = Some b"
    and "book_stakes t b n = Some a" "reduction \<le> a"
  shows "book_update C c t b m s n (Some (a - reduction))
    (cm_decrease_nomination C c n a reduction m s)"
  using assms by (rule decrease_nomination_update)

theorem decrease_nomination_lowers_witness:
  "book_update demo_config 1 demo_top empty_nominations demo_candidate demo_state 10 (Some 30)
     (cm_decrease_nomination demo_config 1 10 50 20 demo_candidate demo_state)"
  using decrease_nomination_lowers [OF demo_books(1) demo_limits, of demo_state 1 10 50 20]
  by (simp add: demo_defs empty_nominations_def book_stakes_def stakes_def)

section \<open>Requests\<close>

text \<open>C9: a scheduled revocation or decrease can be taken back: cancelling it straight away
  succeeds and restores the nominator's record, with its \<open>less_total\<close>, and the candidate's list
  of requests.\<close>

theorem cancel_undoes_schedule:
  assumes "nomination_schedule_revoke C c n s = Inr s1 \<or>
      nomination_schedule_bond_decrease C c n x s = Inr s1"
    and "length (nomination_scheduled_requests s c) < max_nominations_per_nominator C"
    and "\<And>st. nominator_state s n = Some st \<Longrightarrow>
      nom_less_total st + (case get_bond_amount c st of Some a \<Rightarrow> a | None \<Rightarrow> 0) \<le> u128_max"
  shows "\<exists>s2. nomination_cancel_request c n s1 = Inr s2 \<and>
    nominator_state s2 = nominator_state s \<and>
    nomination_scheduled_requests s2 = nomination_scheduled_requests s"
proof -
  obtain a q st where sch: "scheduled c n a q st s s1"
    using assms(1) schedule_results [OF assms(2)] by metis
  have "nominator_state s n = Some st" "get_bond_amount c st = Some a"
    using sch by (auto simp: scheduled_def)
  then show ?thesis
    using schedule_then_cancel [OF sch] assms(3) [of st] by simp
qed

theorem cancel_undoes_schedule_witness:
  "\<exists>s1 s2. nomination_schedule_revoke demo_config 1 10 demo_quiet = Inr s1 \<and>
     nomination_cancel_request 1 10 s1 = Inr s2 \<and> nominator_state s2 = nominator_state demo_quiet \<and>
     nomination_scheduled_requests s2 = nomination_scheduled_requests demo_quiet"
proof -
  obtain s1 where s1: "nomination_schedule_revoke demo_config 1 10 demo_quiet = Inr s1"
    by (simp add: nomination_schedule_revoke_def demo_quiet_def demo_state_def nominator_new_def
        get_bond_amount_def bounded_set_from_def ordered_set_from_def truncate_from_def
        max_nominations_def try_push_def demo_config_def Let_def)
  have "\<exists>s2. nomination_cancel_request 1 10 s1 = Inr s2 \<and>
      nominator_state s2 = nominator_state demo_quiet \<and>
      nomination_scheduled_requests s2 = nomination_scheduled_requests demo_quiet"
    by (rule cancel_undoes_schedule [OF disjI1 [OF s1]])
      (auto simp: demo_quiet_def demo_state_def demo_config_def nominator_new_def get_bond_amount_def
        bounded_set_from_def ordered_set_from_def truncate_from_def max_nominations_def u128_max_def)
  then show ?thesis
    using s1 by blast
qed

text \<open>a request is executed only once its era has come, and executing it takes exactly the
  requests of that nominator for that candidate off the list.\<close>

theorem request_only_when_due:
  assumes "staking_inv C s" "limits_ok C" "nomination_execute_scheduled_request C c n s = Inr s'"
  shows "(\<exists>r\<in>set (nomination_scheduled_requests s c). req_nominator r = n \<and>
      req_when_executable r \<le> era_current (era s)) \<and>
    nomination_scheduled_requests s' = (nomination_scheduled_requests s)
      (c := filter (\<lambda>r. req_nominator r \<noteq> n) (nomination_scheduled_requests s c))"
  using execute_request_due [OF assms] by blast

lemma demo_due: "\<exists>s'. nomination_execute_scheduled_request demo_config 1 10 demo_state = Inr s'"
  using due_request_executes [OF demo_inv demo_limits, of 10 "nominator_new 10 1 50"
      "\<lparr>req_nominator = 10, req_when_executable = 4, req_action = Revoke 50\<rparr>" 1]
  by (auto simp: demo_state_def nominator_new_def bounded_set_from_def ordered_set_from_def
      truncate_from_def max_nominations_def)

theorem request_only_when_due_witness:
  "\<exists>s'. nomination_execute_scheduled_request demo_config 1 10 demo_state = Inr s' \<and>
     nomination_scheduled_requests s' 1 = []"
proof -
  obtain s' where s': "nomination_execute_scheduled_request demo_config 1 10 demo_state = Inr s'"
    using demo_due by blast
  show ?thesis
    using request_only_when_due [OF demo_inv demo_limits s'] s' by (simp add: demo_state_def)
qed

text \<open>C8: a due request can be executed, by anyone: it goes through as long as the nominator either
  leaves with it or keeps at least the minimum total stake.\<close>

theorem due_request_goes_through:
  assumes "staking_inv C s" "limits_ok C" "nominator_state s n = Some st"
    and "r \<in> set (nomination_scheduled_requests s c)" "req_nominator r = n"
      "req_when_executable r \<le> era_current (era s)"
    and "is_revoke (req_action r) \<and> length (nom_nominations st) = 1 \<or>
      action_amount (req_action r) + min_total_nominator_stake s \<le> nom_total st"
  shows "\<exists>s'. dispatch C (Signed who) (ExecuteNominationRequest n c) s = Inr s'"
  using due_request_executes [OF assms] by (simp add: execute_nomination_request_def ensure_signed_def)

theorem due_request_goes_through_witness:
  "\<exists>s'. dispatch demo_config (Signed 77) (ExecuteNominationRequest 10 1) demo_state = Inr s'"
  by (rule due_request_goes_through [OF demo_inv demo_limits, where st = "nominator_new 10 1 50" and
        r = "\<lparr>req_nominator = 10, req_when_executable = 4, req_action = Revoke 50\<rparr>"])
    (auto simp: demo_state_def nominator_new_def bounded_set_from_def ordered_set_from_def
      truncate_from_def max_nominations_def)

section \<open>Access\<close>

text \<open>C6: a call made with a signed proof succeeds only for its signer and only when the proof is
  good for the call and the signer's current nonce; it moves exactly that nonce on, by one modulo
  \<open>2^64\<close>; and, when a proof is good for one payload only, the same call with the same proof is
  refused afterwards, whoever sends it.\<close>

theorem signed_call_once:
  assumes "call_proof k = Some (pf, payload)" "dispatch C origin k s = Inr s'"
    and "\<And>p q. verify_signature C pf p \<Longrightarrow> verify_signature C pf q \<Longrightarrow> p = q"
    and "proxy_nonces s (proof_signer pf) < 2 ^ 64"
  shows "origin = Signed (proof_signer pf) \<and>
    verify_signature C pf (payload (proxy_nonces s (proof_signer pf))) \<and>
    proxy_nonces s' = (proxy_nonces s)(proof_signer pf :=
      (proxy_nonces s (proof_signer pf) + 1) mod 2 ^ 64) \<and>
    (\<exists>e. dispatch C origin' k s' = Inl e)"
  using signed_replay [OF assms] signed_dispatch_authorized [OF assms(1,2)]
  by (simp add: authorized_def)

text \<open>A chain on which every proof is good for one payload.\<close>

definition strict_config :: "unit config" where
  "strict_config = demo_config\<lparr>verify_signature := (\<lambda>pf p. p =
     ScheduleCandidateUnbondPayload (proof_relayer pf) 20 (proof_signature pf))\<rparr>"

theorem signed_call_once_witness:
  "let pf = \<lparr>proof_signer = 2, proof_relayer = 5, proof_signature = 0\<rparr> in
   \<exists>s' e. dispatch strict_config (Signed 2) (SignedScheduleCandidateUnbond pf 20) demo_state = Inr s' \<and>
     proxy_nonces s' 2 = 1 \<and>
     dispatch strict_config (Signed 2) (SignedScheduleCandidateUnbond pf 20) s' = Inl e"
proof -
  let ?pf = "\<lparr>proof_signer = 2, proof_relayer = 5, proof_signature = 0\<rparr>"
  let ?k = "SignedScheduleCandidateUnbond ?pf 20"
  obtain s' where s': "dispatch strict_config (Signed 2) ?k demo_state = Inr s'"
    by (simp add: signed_schedule_candidate_unbond_def signed_call_def ensure_signed_def
        strict_config_def demo_state_def call_schedule_candidate_unbond_def schedule_unbond_def
        candidate_metadata_new_def wrapping_sub128_def Let_def u128_max_def)
  have "Signed 2 = Signed (proof_signer ?pf) \<and>
      verify_signature strict_config ?pf (ScheduleCandidateUnbondPayload 5 20
        (proxy_nonces demo_state (proof_signer ?pf))) \<and>
      proxy_nonces s' = (proxy_nonces demo_state)(proof_signer ?pf :=
        (proxy_nonces demo_state (proof_signer ?pf) + 1) mod 2 ^ 64) \<and>
      (\<exists>e. dispatch strict_config (Signed 2) ?k s' = Inl e)"
    by (rule signed_call_once [OF _ s']) (simp_all add: strict_config_def demo_state_def)
  then show ?thesis
    using s' by (simp add: demo_state_def)
qed

text \<open>only the root origin changes the settings of the pallet, and every other call needs a
  signed origin.\<close>

theorem calls_need_origin:
  assumes "dispatch C origin k s = Inr s'"
  shows "if admin_call k then origin = Root else \<exists>who. origin = Signed who"
  using assms by (rule dispatch_origin)

theorem calls_need_origin_witness:
  "\<exists>s'. dispatch demo_config (Signed 2) GoOffline demo_state = Inr s' \<and> (\<exists>who. Signed 2 = Signed who)"
proof -
  obtain s' where s': "dispatch demo_config (Signed 2) GoOffline demo_state = Inr s'"
    by (simp add: go_offline_def ensure_signed_def demo_state_def is_active_def
        candidate_metadata_new_def Let_def split_beta)
  show ?thesis
    using calls_need_origin [OF s'] s' by simp
qed

text \<open>while staking is not enabled, every call that would add stake of a nominator, signed or
  not, is refused with \<open>StakingNotAllowed\<close> before anything is read.\<close>

theorem no_stake_while_disabled:
  assumes "stake_call k" "\<not> is_staking_enabled C"
  shows "dispatch C (Signed who) k s = Inl StakingNotAllowed"
  using assms by (rule stake_calls_disabled)

theorem no_stake_while_disabled_witness:
  "dispatch (demo_config\<lparr>test_build := False\<rparr>) (Signed 10) (BondExtra 1 5) demo_state =
     Inl StakingNotAllowed"
  by (rule no_stake_while_disabled) (simp_all add: is_staking_enabled_def demo_config_def)

section \<open>Collators, eras and payouts\<close>

text \<open>C10: the collators of an era are chosen from the active candidates by counted stake: at most
  \<open>TotalSelected\<close> of them, none below \<open>MinCollatorStake\<close>, sorted by account and distinct; and an
  eligible candidate is left out only when the places are taken by candidates with at least
  its stake.\<close>

theorem top_candidates_chosen:
  assumes "pool_ok C s"
  shows "sorted (compute_top_candidates s) \<and> distinct (compute_top_candidates s) \<and>
    length (compute_top_candidates s) \<le> total_selected s \<and>
    (\<forall>c\<in>set (compute_top_candidates s). \<exists>m. candidate_info s c = Some m \<and> is_active m \<and>
       min_collator_stake s \<le> cm_total_counted m) \<and>
    (\<forall>d md. candidate_info s d = Some md \<and> is_active md \<and> min_collator_stake s \<le> cm_total_counted md \<and>
       d \<notin> set (compute_top_candidates s) \<longrightarrow>
       length (compute_top_candidates s) = total_selected s \<and>
       (\<forall>c m. c \<in> set (compute_top_candidates s) \<longrightarrow> candidate_info s c = Some m \<longrightarrow>
          cm_total_counted md \<le> cm_total_counted m))"
  using compute_top_spec [OF assms] by blast

theorem top_candidates_chosen_witness:
  "length (compute_top_candidates demo_state) \<le> 2 \<and> sorted (compute_top_candidates demo_state)"
  using top_candidates_chosen [OF demo_pool] by (simp add: demo_state_def)

text \<open>C11: the delayed payouts of an era are made and come to an end. Each run of the hook settles
  one collator: after \<open>k\<close> runs, as long as there are that many collators with points, \<open>k\<close> of
  them are struck off, and the payments made since are, in order, those owed to these
  collators and their nominators (a transfer that fails is reported and not repeated). With
  one run more than there are collators the record of the era is gone, and it stays gone.\<close>

theorem payouts_come_to_an_end:
  assumes "reward_payment_delay C \<le> now" "e = now - reward_payment_delay C"
    "delayed_payouts s e = Some payout" "points s e \<noteq> 0" "distinct (map fst (awarded_pts s e))"
    "s' = (handle_delayed_payouts C now ^^ k) s"
  shows "if k \<le> length (awarded_pts s e)
    then \<exists>settled log. length settled = k \<and>
      mset settled + mset (awarded_pts s' e) = mset (awarded_pts s e) \<and> events s' = events s @ log \<and>
      map payment_of log = map Some (concat (map (era_payments C s e payout) settled)) \<and>
      delayed_payouts s' e = Some payout
    else delayed_payouts s' e = None"
  using delayed_payouts_settle [OF assms(1-5)] delayed_payouts_finish [OF assms(1), of s k]
  unfolding assms(2,6) by (simp add: not_le)

definition payout_demo :: "unit staking" where
  "payout_demo = demo_state\<lparr>delayed_payouts := [3 \<mapsto> 900],
     awarded_pts := (\<lambda>_. [])(3 := [(1, 20), (2, 40)])\<rparr>"

theorem payouts_come_to_an_end_witness:
  "(\<exists>settled log. length settled = 2 \<and>
      mset settled + mset (awarded_pts ((handle_delayed_payouts demo_config 5 ^^ 2) payout_demo) 3) =
        mset (awarded_pts payout_demo 3) \<and>
      events ((handle_delayed_payouts demo_config 5 ^^ 2) payout_demo) = events payout_demo @ log \<and>
      map payment_of log = map Some (concat (map (era_payments demo_config payout_demo 3 900) settled))) \<and>
   delayed_payouts ((handle_delayed_payouts demo_config 5 ^^ 3) payout_demo) 3 = None"
proof -
  have hyp: "reward_payment_delay demo_config \<le> 5" "3 = 5 - reward_payment_delay demo_config"
    "delayed_payouts payout_demo 3 = Some 900" "points payout_demo 3 \<noteq> 0"
    "distinct (map fst (awarded_pts payout_demo 3))"
    by (simp_all add: demo_config_def payout_demo_def demo_state_def)
  have "length (awarded_pts payout_demo 3) = 2"
    by (simp add: payout_demo_def)
  then show ?thesis
    using payouts_come_to_an_end [OF hyp refl, of 2] payouts_come_to_an_end [OF hyp refl, of 3]
    by (auto simp del: funpow.simps)
qed

text \<open>C12: the reward of an era is what the reward pot holds beyond the payouts that are still
  locked, or nothing; the amount locked never exceeds the pot unless it already did.\<close>

theorem reward_is_unlocked_pot:
  assumes "reward_pot C s \<le> u128_max" "locked_era_payout s \<le> u128_max"
  shows "fst (compute_total_reward_to_pay C s) = reward_pot C s - locked_era_payout s \<and>
    locked_era_payout (snd (compute_total_reward_to_pay C s)) =
      max (reward_pot C s) (locked_era_payout s)"
proof -
  obtain r s' where r: "compute_total_reward_to_pay C s = (r, s')"
    by fastforce
  show ?thesis
    using reward_reserved [OF r assms] r by (auto simp: max_def split: if_splits)
qed

theorem reward_is_unlocked_pot_witness:
  "fst (compute_total_reward_to_pay demo_config (demo_state\<lparr>locked_era_payout := 400\<rparr>)) = 599"
  using reward_is_unlocked_pot [of demo_config "demo_state\<lparr>locked_era_payout := 400\<rparr>"]
  by (simp add: reward_pot_def demo_config_def u128_max_def)

text \<open>C7: a payout of the growth of a period that reaches the last collator is the only one: after
  it, whatever happens to the pallet, every further payout of the period is refused and
  changes nothing, so nobody is paid again. (A payout that fails before the last collator does
  not count as made.)\<close>

theorem growth_paid_at_most_once:
  assumes "on_growth_lifted C amt p s = (None, s1)" "reachable C s1 s2"
  shows "on_growth_lifted C amt' p s2 = (Some GrowthAlreadyProcessed, s2)"
  using assms by (rule growth_paid_once)

theorem growth_paid_at_most_once_witness:
  "\<exists>s1. on_growth_lifted demo_config 100 1 demo_state = (None, s1) \<and>
     on_growth_lifted demo_config 100 1 (note_author 2 s1) = (Some GrowthAlreadyProcessed, note_author 2 s1)"
proof -
  obtain s1 where s1: "on_growth_lifted demo_config 100 1 demo_state = (None, s1)"
    by (simp add: on_growth_lifted_def payout_collators_def payout_shares_def demo_state_def
        demo_config_def equal_shares_def pay_collator_def Let_def)
  show ?thesis
    using growth_paid_at_most_once [OF s1 reachable.author [OF reachable.start]] s1 by blast
qed

text \<open>going offline and back online leaves the candidate and the candidate pool as they
  were.\<close>

theorem offline_then_online:
  assumes "pool_ok C s" "go_offline (Signed c) s = Inr s1"
  shows "\<exists>s2. go_online C (Signed c) s1 = Inr s2 \<and> candidate_pool s2 = candidate_pool s \<and>
    candidate_info s2 = candidate_info s"
  using assms by (rule offline_online)

theorem offline_then_online_witness:
  "\<exists>s1 s2. go_offline (Signed 2) demo_state = Inr s1 \<and> go_online demo_config (Signed 2) s1 = Inr s2 \<and>
     candidate_pool s2 = candidate_pool demo_state"
proof -
  obtain s1 where s1: "go_offline (Signed 2) demo_state = Inr s1"
    by (simp add: go_offline_def ensure_signed_def demo_state_def is_active_def
        candidate_metadata_new_def Let_def split_beta)
  show ?thesis
    using offline_then_online [OF demo_pool s1] s1 by blast
qed

section \<open>Departures from the intent\<close>





text \<open>C14: decreasing a nomination in the bottom vector (\<open>decrease_bottom_nomination\<close>) lowers the
  nominations but not the total that is stored with them: the stored total stays where it
  was while the sum falls by the reduction.\<close>

theorem bottom_total_not_lowered:
  assumes "book_ok C m t b" "limits_ok C" "top_nominations s c = Some t"
    "bottom_nominations s c = Some b" "d \<in> set (noms b)" "reduction \<le> amount d"
  shows "\<exists>m' s' b'. decrease_bottom_nomination C c (owner d) reduction m s = Inr (m', False, s') \<and>
    bottom_nominations s' c = Some b' \<and> noms_total b' = noms_total b \<and>
    sum_amounts (noms b') + reduction = sum_amounts (noms b)"
proof -
  let ?b = "adjust d (\<lambda>a. a - reduction) (noms_total b) b"
  note r = rankedD [OF book_okD(1) [OF assms(1)]]
  have "length (noms b) \<le> max_nominations"
    using r(8) assms(2) by (simp add: limits_ok_def)
  note a = adjust_props(4,6) [OF r(4) assms(5) this, of "\<lambda>a. a - reduction" "noms_total b"]
  show ?thesis
    using decrease_bottom_nomination_eq(1) [OF assms(1-6)] a assms(6)
    by (auto simp: rewrite_book_def set_book_def)
qed

theorem bottom_total_not_lowered_witness:
  "\<exists>m' s' b'. decrease_bottom_nomination demo_config 1 13 15 crowd_candidate crowd_state =
     Inr (m', False, s') \<and> bottom_nominations s' 1 = Some b' \<and> noms_total b' = 40 \<and>
     sum_amounts (noms b') = 25"
  using bottom_total_not_lowered [OF crowd_book demo_limits, of crowd_state 1 "\<lparr>owner = 13, amount = 40\<rparr>" 15]
  by (auto simp: crowd_state_def crowd_bottom_def)

text \<open>C15: when the list of requests of a candidate is full, scheduling a revocation
  (\<open>nomination_schedule_revoke\<close>) reports success, emits nothing and schedules nothing.\<close>

theorem full_list_ignored:
  assumes "nominator_state s n = Some st" "get_bond_amount c st = Some a"
    "\<not> list_ex (\<lambda>r. req_nominator r = n) (nomination_scheduled_requests s c)"
    "max_nominations_per_nominator C \<le> length (nomination_scheduled_requests s c)"
  shows "dispatch C (Signed n) (ScheduleRevokeNomination c) s = Inr s"
  using schedule_when_full [OF assms] by (simp add: schedule_revoke_nomination_def ensure_signed_def)

theorem full_list_ignored_witness:
  "dispatch (demo_config\<lparr>max_nominations_per_nominator := 0\<rparr>) (Signed 10) (ScheduleRevokeNomination 1)
     demo_quiet = Inr demo_quiet"
  by (rule full_list_ignored [where st = "nominator_new 10 1 50" and a = 50])
    (simp_all add: demo_quiet_def demo_state_def nominator_new_def get_bond_amount_def
      bounded_set_from_def ordered_set_from_def truncate_from_def max_nominations_def)

text \<open>C16: \<open>signed_execute_nomination_request\<close> executes nothing as long as one of the nominator's
  nominations has no request, although \<open>signed_schedule_nominator_unbond\<close> schedules requests
  only until the amount to withdraw is reached.\<close>

theorem execute_all_or_nothing:
  assumes "limits_ok C" "staking_inv C s" "nominator_state s n = Some st"
    "b \<in> set (nom_nominations st)"
    "\<not> list_ex (\<lambda>r. req_nominator r = n) (nomination_scheduled_requests s (owner b))"
  shows "\<exists>e. dispatch C origin (SignedExecuteNominationRequest pf n) s = Inl e"
proof -
  have "\<exists>e. execute_requests_loop C n now (nom_nominations st) s = Inl e" for now
    using execute_requests_need_all [OF assms(1,2) _ assms(4,5)] nominator_known [OF assms(2,3)]
      nominator_okD(6) by blast
  then have "\<not> (\<exists>s1. execute_requests_loop C n now (nom_nominations st) s = Inr s1)" for now
    by (metis Inl_Inr_False)
  then show ?thesis
    using assms(3)
    by (cases "dispatch C origin (SignedExecuteNominationRequest pf n) s")
      (auto simp: signed_execute_nomination_request_def elim!: signed_call_Inr)
qed

theorem execute_all_or_nothing_witness:
  "\<exists>e. dispatch demo_config (Signed 10) (SignedExecuteNominationRequest
     \<lparr>proof_signer = 10, proof_relayer = 5, proof_signature = 0\<rparr> 10) demo_quiet = Inl e"
proof (rule execute_all_or_nothing [OF demo_limits])
  have "requests_ok demo_quiet"
    by (simp add: requests_ok_def demo_quiet_def)
  then show "staking_inv demo_config demo_quiet"
    using demo_inv by (simp add: staking_inv_def candidates_ok_def pool_ok_def nominators_ok_def
        agree_def positive_def apart_def unbonds_ok_def minimums_ok_def demo_quiet_def)
  show "nominator_state demo_quiet 10 = Some (nominator_new 10 1 50)"
    by (simp add: demo_quiet_def demo_state_def)
qed (simp_all add: nominator_new_def bounded_set_from_def ordered_set_from_def truncate_from_def
    max_nominations_def demo_quiet_def)

end
