(* ===== verification/Avn_Validators.thy ===== *)
theory Avn_Validators
  imports Avn_Runtime
begin

text \<open>
  The validators of the chain (\<open>pallets/avn/src/lib.rs\<close>): who they are, whose turn it is to
  send a transaction or to author for a block, how many of them make a quorum, and how the
  set follows the sessions. The HTTP calls to the external service and the off-chain locks
  of the pallet are not modelled.
\<close>

section \<open>Definitions\<close>

record validator =
  v_account :: account
  v_key :: nat

definition MaximumValidatorsBound :: nat where
  "MaximumValidatorsBound = 256"

record avn =
  avn_validators :: "validator list"
  primary_collator_index :: nat
  bridge_contract_address :: nat

definition is_validator :: "validator list \<Rightarrow> account \<Rightarrow> bool" where
  "is_validator vs account_id = list_ex (\<lambda>v. v_account v = account_id) vs"

definition try_get_validator :: "validator list \<Rightarrow> account \<Rightarrow> validator option" where
  "try_get_validator vs account_id =
     (case filter (\<lambda>v. v_account v = account_id) vs of [] \<Rightarrow> None | v # _ \<Rightarrow> Some v)"

definition remove_validator_from_active_list :: "account \<Rightarrow> avn \<Rightarrow> avn" where
  "remove_validator_from_active_list validator_id s =
     (case position (\<lambda>v. v_account v = validator_id) (avn_validators s) of
        Some i \<Rightarrow> s\<lparr>avn_validators := remove_at i (avn_validators s)\<rparr>
      | None \<Rightarrow> s)"

definition get_primary_validator_for_sending :: "avn \<Rightarrow> avn_error + account \<times> avn" where
  "get_primary_validator_for_sending s =
     (if avn_validators s = [] then Inl NoValidatorsFound
      else let (index, s1) =
                 (if length (avn_validators s) \<le> primary_collator_index s
                  then (0, s\<lparr>primary_collator_index := 0\<rparr>)
                  else (primary_collator_index s, s))
           in Inr (v_account (avn_validators s ! index), s1))"

definition is_primary_validator_for_sending :: "account \<Rightarrow> avn \<Rightarrow> avn_error + bool \<times> avn" where
  "is_primary_validator_for_sending current_validator s =
     and_then (get_primary_validator_for_sending s) (\<lambda>(primary, s1).
       Inr (primary = current_validator, s1))"

text \<open>The counter is a \<open>u8\<close>, and so is the number of validators it is reduced by.\<close>

definition advance_primary_validator_for_sending :: "avn \<Rightarrow> avn_error + account \<times> avn" where
  "advance_primary_validator_for_sending s =
     (if avn_validators s = [] then Inl NoValidatorsFound
      else let validators_len = length (avn_validators s) mod 256 in
           if validators_len = 0 then Inl AvnPanic
           else let index = min (primary_collator_index s + 1) 255 mod validators_len
                in Inr (v_account (avn_validators s ! index), s\<lparr>primary_collator_index := index\<rparr>))"

definition calculate_primary_validator_for_block :: "validator list \<Rightarrow> nat \<Rightarrow> avn_error + account" where
  "calculate_primary_validator_for_block vs block_number =
     (if vs = [] then Inl NoValidatorsFound
      else Inr (v_account (vs ! (block_number mod length vs))))"

definition is_primary_for_block :: "validator list \<Rightarrow> nat \<Rightarrow> account \<Rightarrow> avn_error + bool" where
  "is_primary_for_block vs block_number current_validator =
     and_then (calculate_primary_validator_for_block vs block_number) (\<lambda>primary.
       Inr (primary = current_validator))"

text \<open>The first validator one of whose keys this node holds.\<close>

definition get_validator_for_current_node :: "nat list \<Rightarrow> validator list \<Rightarrow> validator option" where
  "get_validator_for_current_node keys vs =
     (let local_keys = sort keys in
      case filter (\<lambda>v. is_ok (binary_search_by (\<lambda>k. cmp k (v_key v)) local_keys)) vs of
        [] \<Rightarrow> None | v # _ \<Rightarrow> Some v)"

definition signature_is_valid ::
  "(nat \<Rightarrow> 'd \<Rightarrow> 'sig \<Rightarrow> bool) \<Rightarrow> validator list \<Rightarrow> 'd \<Rightarrow> validator \<Rightarrow> 'sig \<Rightarrow> bool" where
  "signature_is_valid verify vs d v signature =
     (if \<not> is_validator vs (v_account v) then False else verify (v_key v) d signature)"

definition required_for :: "nat \<Rightarrow> nat" where
  "required_for num = wrapping_sub32 num (wrapping_mul32 num 2 div 3)"

definition required_for_supermajority :: "nat \<Rightarrow> nat" where
  "required_for_supermajority num = wrapping_mul32 num 2 div 3"

definition get_quorum :: "validator list \<Rightarrow> nat" where
  "get_quorum vs = required_for (length vs)"

definition get_supermajority_quorum :: "validator list \<Rightarrow> nat" where
  "get_supermajority_quorum vs = required_for_supermajority (length vs)"

definition get_default_ocw_lock_expiry :: nat where
  "get_default_ocw_lock_expiry = 300000 div 12000 + 5"

text \<open>The session hooks return the arguments they hand to the pallets listening to them.\<close>

definition on_genesis_session :: "(account \<times> nat) list \<Rightarrow> avn \<Rightarrow> avn_error + avn" where
  "on_genesis_session vals s =
     (let vs = map (\<lambda>(a, k). \<lparr>v_account = a, v_key = k\<rparr>) vals in
      if vs = [] then Inr s
      else if avn_validators s \<noteq> [] then Inl AvnPanic
      else Inr (s\<lparr>avn_validators := vs\<rparr>))"

definition on_new_session ::
  "(account \<Rightarrow> bool) \<Rightarrow> bool \<Rightarrow> (account \<times> nat) list \<Rightarrow> avn \<Rightarrow> validator list \<times> account list \<times> avn" where
  "on_new_session is_disabled changed vals s =
     (let disabled = map fst (filter (\<lambda>(a, _). is_disabled a) vals);
          active = map (\<lambda>(a, k). \<lparr>v_account = a, v_key = k\<rparr>) (filter (\<lambda>(a, _). \<not> is_disabled a) vals)
      in (active, disabled, if changed then s\<lparr>avn_validators := active\<rparr> else s))"

definition set_bridge_contract :: "origin \<Rightarrow> nat \<Rightarrow> avn \<Rightarrow> unit dispatch_error + avn" where
  "set_bridge_contract origin contract_address s =
     and_then (root_only origin) (\<lambda>_.
     and_then (ensure (contract_address \<noteq> 0) (AvnErr InvalidContractAddress)) (\<lambda>_.
       Inr (s\<lparr>bridge_contract_address := contract_address\<rparr>)))"

section \<open>Quorums\<close>

lemma quorum_exact:
  assumes "n < 2 ^ 31"
  shows "required_for n = n - n * 2 div 3" "required_for_supermajority n = n * 2 div 3"
proof -
  have m: "wrapping_mul32 n 2 = n * 2"
    using assms by (simp add: wrapping_mul32_def)
  then show "required_for_supermajority n = n * 2 div 3"
    by (simp add: required_for_supermajority_def)
  have "n * 2 div 3 \<le> n"
    by simp
  then have "n + 2 ^ 32 - n * 2 div 3 = (n - n * 2 div 3) + 2 ^ 32"
    by simp
  then have "(n + 2 ^ 32 - n * 2 div 3) mod 2 ^ 32 = (n - n * 2 div 3) mod 2 ^ 32"
    by (metis mod_add_self2)
  then show "required_for n = n - n * 2 div 3"
    using assms m by (simp add: required_for_def wrapping_sub32_def)
qed

section \<open>Turns\<close>

lemma position_single:
  "is_validator vs a \<longleftrightarrow> (\<exists>v\<in>set vs. v_account v = a)"
  by (auto simp: is_validator_def list_ex_iff)

lemma advance_rotates:
  assumes "avn_validators s \<noteq> []" "length (avn_validators s) < 256"
    "primary_collator_index s < length (avn_validators s)"
  shows "advance_primary_validator_for_sending s =
    Inr (v_account (avn_validators s ! (Suc (primary_collator_index s) mod length (avn_validators s))),
      s\<lparr>primary_collator_index := Suc (primary_collator_index s) mod length (avn_validators s)\<rparr>)"
  using assms by (simp add: advance_primary_validator_for_sending_def Let_def min_def)

lemma sorted_partitioned: "sorted xs \<Longrightarrow> partitioned (\<lambda>k. cmp k y) xs"
  by (auto simp: partitioned_def sorted_iff_nth_mono)
    (meson less_imp_le order.strict_trans2 order.strict_trans1)+

lemma binary_search_member:
  assumes "sorted xs"
  shows "is_ok (binary_search_by (\<lambda>k. cmp k y) xs) \<longleftrightarrow> y \<in> set xs"
proof (cases "binary_search_by (\<lambda>k. cmp k y) xs")
  case (Inr i)
  then show ?thesis
    using binary_search_Ok [OF Inr sorted_partitioned [OF assms]] by auto
next
  case (Inl i)
  then have "\<forall>j<i. xs ! j < y" "\<forall>j. i \<le> j \<longrightarrow> j < length xs \<longrightarrow> y < xs ! j"
    using binary_search_Err [OF Inl sorted_partitioned [OF assms]] by auto
  then have "\<forall>j<length xs. xs ! j \<noteq> y"
    by (metis less_irrefl not_less)
  then show ?thesis
    using Inl by (auto simp: in_set_conv_nth)
qed

lemma current_node_validator:
  "get_validator_for_current_node keys vs = find (\<lambda>v. v_key v \<in> set keys) vs"
  unfolding get_validator_for_current_node_def Let_def binary_search_member [OF sorted_sort]
  by (induction vs) auto

end
