(* ===== verification/Avn_Vote.thy ===== *)
theory Avn_Vote
  imports Avn_Validators
begin

text \<open>
  Voting among the validators (\<open>pallets/avn/src/vote.rs\<close>). A pallet that lets the
  validators vote implements the trait \<open>VotingSessionManager\<close>, here a record of
  functions on its state; the functions of the module work on any such manager. What the
  trait promises is the locale \<open>voting_session\<close>, and what holds of every vote cast is
  proved there once.
\<close>

section \<open>Definitions\<close>

record voting_session_data =
  voting_session_id :: "nat list"
  threshold :: nat
  ayes :: "account list"
  nays :: "account list"
  end_of_voting_period :: nat
  created_at_block :: nat

definition default_voting_session_data :: voting_session_data where
  "default_voting_session_data = \<lparr>voting_session_id = [], threshold = 0, ayes = [], nays = [],
     end_of_voting_period = 0, created_at_block = 0\<rparr>"

definition new_voting_session_data :: "nat list \<Rightarrow> nat \<Rightarrow> nat \<Rightarrow> nat \<Rightarrow> voting_session_data" where
  "new_voting_session_data session_id thr end_block created =
     \<lparr>voting_session_id = session_id, threshold = thr, ayes = [], nays = [],
      end_of_voting_period = end_block, created_at_block = created\<rparr>"

definition has_outcome :: "voting_session_data \<Rightarrow> bool" where
  "has_outcome d \<longleftrightarrow> threshold d \<le> length (ayes d) \<or> threshold d \<le> length (nays d)"

definition is_approved :: "voting_session_data \<Rightarrow> bool" where
  "is_approved d \<longleftrightarrow> threshold d \<le> length (ayes d)"

definition has_voted :: "account \<Rightarrow> voting_session_data \<Rightarrow> bool" where
  "has_voted voter d \<longleftrightarrow> voter \<in> set (ayes d) \<or> voter \<in> set (nays d)"

definition APPROVE_VOTE_IS_NOT_VALID :: nat where "APPROVE_VOTE_IS_NOT_VALID = 2"
definition REJECT_VOTE_IS_NOT_VALID :: nat where "REJECT_VOTE_IS_NOT_VALID = 3"
definition VOTE_SESSION_IS_NOT_VALID :: nat where "VOTE_SESSION_IS_NOT_VALID = 4"
definition VOTING_SESSION_DATA_IS_NOT_FOUND :: nat where "VOTING_SESSION_DATA_IS_NOT_FOUND = 5"

text \<open>
  The trait. \<open>'s\<close> is the state of the chain the manager works on, from which
  \<open>vsm_validators\<close> reads the validators of the AvN pallet.
\<close>

record ('e, 's) voting_session_manager =
  vsm_validators :: "'s \<Rightarrow> validator list"
  cast_vote_context :: string
  end_voting_period_context :: string
  vsm_state :: "'s \<Rightarrow> 'e dispatch_error + voting_session_data"
  vsm_is_valid :: "'s \<Rightarrow> bool"
  vsm_is_active :: "'s \<Rightarrow> bool"
  record_approve_vote :: "account \<Rightarrow> 's \<Rightarrow> 'e dispatch_error + 's"
  record_reject_vote :: "account \<Rightarrow> 's \<Rightarrow> 'e dispatch_error + 's"
  end_voting_session :: "account \<Rightarrow> 's \<Rightarrow> 'e dispatch_error + 's"

definition validate_vote ::
  "('e, 's) voting_session_manager \<Rightarrow> account \<Rightarrow> 's \<Rightarrow> 'e dispatch_error + unit" where
  "validate_vote V voter s =
     and_then (ensure (is_validator (vsm_validators V s) voter) (AvnErr NotAValidator)) (\<lambda>_.
     and_then (ensure (vsm_is_active V s) (AvnErr InvalidVote)) (\<lambda>_.
     and_then (vsm_state V s) (\<lambda>d.
       ensure (\<not> has_voted voter d) (AvnErr DuplicateVote))))"

definition end_voting_if_outcome_reached ::
  "('e, 's) voting_session_manager \<Rightarrow> account \<Rightarrow> 's \<Rightarrow> 'e dispatch_error + 's" where
  "end_voting_if_outcome_reached V voter s =
     and_then (vsm_state V s) (\<lambda>d.
       if has_outcome d \<and> vsm_is_active V s then end_voting_session V voter s else Inr s)"

definition process_approve_vote ::
  "('e, 's) voting_session_manager \<Rightarrow> account \<Rightarrow> 's \<Rightarrow> 'e dispatch_error + 's" where
  "process_approve_vote V voter s =
     and_then (validate_vote V voter s) (\<lambda>_.
     and_then (record_approve_vote V voter s) (\<lambda>s1.
       end_voting_if_outcome_reached V voter s1))"

definition process_reject_vote ::
  "('e, 's) voting_session_manager \<Rightarrow> account \<Rightarrow> 's \<Rightarrow> 'e dispatch_error + 's" where
  "process_reject_vote V voter s =
     and_then (validate_vote V voter s) (\<lambda>_.
     and_then (record_reject_vote V voter s) (\<lambda>s1.
       end_voting_if_outcome_reached V voter s1))"

text \<open>What a validator signs to vote on a session or to end it.\<close>

datatype vote_payload =
    CastVotePayload string "nat list" bool
  | EndVotingPayload string "nat list"

type_synonym 'sig verifier = "nat \<Rightarrow> vote_payload \<Rightarrow> 'sig \<Rightarrow> bool"
type_synonym vote_tag = "vote_payload \<times> validator"

definition end_voting_period_validate_unsigned ::
  "'sig verifier \<Rightarrow> ('e, 's) voting_session_manager \<Rightarrow> validator \<Rightarrow> 'sig \<Rightarrow> 's \<Rightarrow> vote_tag validity" where
  "end_voting_period_validate_unsigned verify V v signature s =
     (if \<not> vsm_is_valid V s then InvalidCustom VOTE_SESSION_IS_NOT_VALID
      else case vsm_state V s of
        Inl _ \<Rightarrow> InvalidCustom VOTING_SESSION_DATA_IS_NOT_FOUND
      | Inr d \<Rightarrow>
          let payload = EndVotingPayload (end_voting_period_context V) (voting_session_id d) in
          if \<not> signature_is_valid verify (vsm_validators V s) payload v signature then BadProof
          else ValidWith (payload, v))"

definition approve_vote_validate_unsigned ::
  "'sig verifier \<Rightarrow> ('e, 's) voting_session_manager \<Rightarrow> validator \<Rightarrow> 'sig \<Rightarrow> 's \<Rightarrow> vote_tag validity" where
  "approve_vote_validate_unsigned verify V v signature s =
     (if \<not> is_ok (validate_vote V (v_account v) s) then InvalidCustom APPROVE_VOTE_IS_NOT_VALID
      else case vsm_state V s of
        Inl _ \<Rightarrow> InvalidCustom VOTING_SESSION_DATA_IS_NOT_FOUND
      | Inr d \<Rightarrow>
          let payload = CastVotePayload (cast_vote_context V) (voting_session_id d) True in
          if \<not> signature_is_valid verify (vsm_validators V s) payload v signature then BadProof
          else ValidWith (payload, v))"

definition reject_vote_validate_unsigned ::
  "'sig verifier \<Rightarrow> ('e, 's) voting_session_manager \<Rightarrow> validator \<Rightarrow> 'sig \<Rightarrow> 's \<Rightarrow> vote_tag validity" where
  "reject_vote_validate_unsigned verify V v signature s =
     (if \<not> is_ok (validate_vote V (v_account v) s) then InvalidCustom REJECT_VOTE_IS_NOT_VALID
      else case vsm_state V s of
        Inl _ \<Rightarrow> InvalidCustom VOTING_SESSION_DATA_IS_NOT_FOUND
      | Inr d \<Rightarrow>
          let payload = CastVotePayload (cast_vote_context V) (voting_session_id d) False in
          if \<not> signature_is_valid verify (vsm_validators V s) payload v signature then BadProof
          else ValidWith (payload, v))"

section \<open>Sessions in order\<close>

text \<open>Nobody voted twice, and the votes fit their vectors.\<close>

definition session_ok :: "voting_session_data \<Rightarrow> bool" where
  "session_ok d \<longleftrightarrow> distinct (ayes d @ nays d) \<and>
     length (ayes d) \<le> MaximumValidatorsBound \<and> length (nays d) \<le> MaximumValidatorsBound"

definition cast :: "bool \<Rightarrow> account \<Rightarrow> voting_session_data \<Rightarrow> voting_session_data" where
  "cast aye voter d = (if aye then d\<lparr>ayes := ayes d @ [voter]\<rparr> else d\<lparr>nays := nays d @ [voter]\<rparr>)"

definition process_vote ::
  "bool \<Rightarrow> ('e, 's) voting_session_manager \<Rightarrow> account \<Rightarrow> 's \<Rightarrow> 'e dispatch_error + 's" where
  "process_vote aye = (if aye then process_approve_vote else process_reject_vote)"

lemma session_ok_new [simp]: "session_ok (new_voting_session_data i t e c)"
  by (simp add: session_ok_def new_voting_session_data_def)

lemma cast_simps [simp]:
  "threshold (cast aye voter d) = threshold d"
  "voting_session_id (cast aye voter d) = voting_session_id d"
  "end_of_voting_period (cast aye voter d) = end_of_voting_period d"
  "has_voted v (cast aye voter d) \<longleftrightarrow> v = voter \<or> has_voted v d"
  by (auto simp: cast_def has_voted_def)

lemma session_ok_cast:
  assumes "session_ok d" "\<not> has_voted voter d"
    "length (if aye then ayes d else nays d) < MaximumValidatorsBound"
  shows "session_ok (cast aye voter d)"
  using assms by (auto simp: session_ok_def cast_def has_voted_def)

section \<open>The contract of a voting session\<close>

locale voting_session =
  fixes V :: "('e, 's) voting_session_manager"
    and ses :: "'s \<Rightarrow> voting_session_data option"
  assumes state_session: "vsm_state V s = Inr d \<longleftrightarrow> ses s = Some d"
    and approve_recorded: "ses s = Some d \<Longrightarrow> record_approve_vote V voter s = Inr s' \<Longrightarrow>
      length (ayes d) < MaximumValidatorsBound \<and> ses s' = Some (cast True voter d) \<and>
      vsm_validators V s' = vsm_validators V s \<and> (vsm_is_active V s' \<longleftrightarrow> vsm_is_active V s)"
    and reject_recorded: "ses s = Some d \<Longrightarrow> record_reject_vote V voter s = Inr s' \<Longrightarrow>
      length (nays d) < MaximumValidatorsBound \<and> ses s' = Some (cast False voter d) \<and>
      vsm_validators V s' = vsm_validators V s \<and> (vsm_is_active V s' \<longleftrightarrow> vsm_is_active V s)"
    and end_ends: "end_voting_session V sender s = Inr s' \<Longrightarrow>
      ses s' = ses s \<and> vsm_validators V s' = vsm_validators V s \<and> \<not> vsm_is_active V s'"
begin

text \<open>
  A vote that is counted is the first one of a validator in an active session; it is added
  to the votes of its side, and the session is over exactly when that reaches an outcome.
\<close>

lemma vote_counted:
  assumes "process_vote aye V voter s = Inr s'"
  shows "\<exists>d. ses s = Some d \<and> is_validator (vsm_validators V s) voter \<and> vsm_is_active V s \<and>
    \<not> has_voted voter d \<and> length (if aye then ayes d else nays d) < MaximumValidatorsBound \<and>
    ses s' = Some (cast aye voter d) \<and> vsm_validators V s' = vsm_validators V s \<and>
    (vsm_is_active V s' \<longleftrightarrow> \<not> has_outcome (cast aye voter d))"
proof -
  obtain d s1 where v: "is_validator (vsm_validators V s) voter" "vsm_is_active V s"
      "ses s = Some d" "\<not> has_voted voter d"
    and r: "(if aye then record_approve_vote V voter s else record_reject_vote V voter s) = Inr s1"
    and e: "end_voting_if_outcome_reached V voter s1 = Inr s'"
    using assms by (auto simp: process_vote_def process_approve_vote_def process_reject_vote_def
        validate_vote_def state_session split: if_splits)
  have s1: "ses s1 = Some (cast aye voter d)" "vsm_validators V s1 = vsm_validators V s"
      "vsm_is_active V s1" "length (if aye then ayes d else nays d) < MaximumValidatorsBound"
    using r v approve_recorded [OF v(3)] reject_recorded [OF v(3)] by (auto split: if_splits)
  have "ses s' = ses s1" "vsm_validators V s' = vsm_validators V s1"
      "vsm_is_active V s' \<longleftrightarrow> \<not> has_outcome (cast aye voter d)"
    using e s1 end_ends [of voter s1 s']
    by (auto simp: end_voting_if_outcome_reached_def state_session split: if_splits)
  then show ?thesis
    using v s1 by auto
qed

text \<open>Nobody votes a second time, on either side.\<close>

lemma no_second_vote:
  assumes "ses s = Some d" "has_voted voter d"
  shows "\<not> is_ok (process_vote aye V voter s)"
  using vote_counted [of aye voter s] assms by (fastforce simp: is_ok_iff)

lemma vote_keeps_session_ok:
  assumes "process_vote aye V voter s = Inr s'" "\<forall>d. ses s = Some d \<longrightarrow> session_ok d"
  shows "\<forall>d. ses s' = Some d \<longrightarrow> session_ok d"
  using vote_counted [OF assms(1)] assms(2) by (auto intro!: session_ok_cast)

text \<open>A vote admitted to the pool carries the signature of the validator it counts for.\<close>

lemma vote_admitted:
  assumes "(if aye then approve_vote_validate_unsigned verify V v signature s
            else reject_vote_validate_unsigned verify V v signature s) = ValidWith tag"
  shows "\<exists>d. ses s = Some d \<and> is_validator (vsm_validators V s) (v_account v) \<and>
    \<not> has_voted (v_account v) d \<and>
    verify (v_key v) (CastVotePayload (cast_vote_context V) (voting_session_id d) aye) signature"
  using assms state_session
  by (auto simp: approve_vote_validate_unsigned_def reject_vote_validate_unsigned_def Let_def
      validate_vote_def signature_is_valid_def is_ok_iff split: if_splits sum.splits)

end

end
