(* ===== verification/Summary.thy ===== *)
theory Summary
  imports Avn_Vote
begin

text \<open>
  The summary pallet (\<open>pallets/summary/src\<close>: \<open>lib.rs\<close>, \<open>vote.rs\<close>, \<open>challenge.rs\<close>,
  \<open>utils.rs\<close>, \<open>offence.rs\<close>, \<open>types.rs\<close>). In each slot one validator publishes the Merkle root
  of the next range of blocks, the validators vote on it, and an approved root goes to
  Ethereum, to the anchors or to the watchtowers first. The bridge, the watchtowers, the
  offence reports, the hashing and the signatures are parameters; storage maps are association
  lists.
\<close>

section \<open>Constants\<close>

definition MIN_SCHEDULE_PERIOD :: nat where "MIN_SCHEDULE_PERIOD = 30"
definition DEFAULT_SCHEDULE_PERIOD :: nat where "DEFAULT_SCHEDULE_PERIOD = 28800"
definition MIN_VOTING_PERIOD :: nat where "MIN_VOTING_PERIOD = 25"
definition MAX_VOTING_PERIOD :: nat where "MAX_VOTING_PERIOD = 28800"
definition DEFAULT_VOTING_PERIOD :: nat where "DEFAULT_VOTING_PERIOD = 600"
definition ERROR_CODE_VALIDATOR_IS_NOT_PRIMARY :: nat where "ERROR_CODE_VALIDATOR_IS_NOT_PRIMARY = 10"
definition ERROR_CODE_INVALID_ROOT_RANGE :: nat where "ERROR_CODE_INVALID_ROOT_RANGE = 30"
definition UNKNOWN_CHALLENGE_REASON :: nat where "UNKNOWN_CHALLENGE_REASON = 10"
definition CAST_VOTE_CONTEXT :: string where "CAST_VOTE_CONTEXT = ''root_casting_vote''"
definition END_VOTING_PERIOD_CONTEXT :: string where "END_VOTING_PERIOD_CONTEXT = ''root_end_voting_period''"
definition CHALLENGE_CONTEXT :: string where "CHALLENGE_CONTEXT = ''root_challenge''"
definition UPDATE_BLOCK_NUMBER_CONTEXT :: string where
  "UPDATE_BLOCK_NUMBER_CONTEXT = ''update_last_processed_block_number''"
definition ADVANCE_SLOT_CONTEXT :: string where "ADVANCE_SLOT_CONTEXT = ''advance_slot''"
definition PALLET_ID :: string where "PALLET_ID = ''summary-''"
definition VotingSessionIdBound :: nat where "VotingSessionIdBound = 64"

section \<open>Data\<close>

type_synonym hash = nat

record root_range =
  from_block :: nat
  to_block :: nat

record root_id =
  range :: root_range
  ingress_counter :: nat

record root_data =
  root_hash :: hash
  added_by :: "account option"
  is_validated :: bool
  is_finalised :: bool
  tx_id :: "nat option"

definition new_root_data :: "hash \<Rightarrow> account \<Rightarrow> nat option \<Rightarrow> root_data" where
  "new_root_data h who tx =
     \<lparr>root_hash = h, added_by = Some who, is_validated = False, is_finalised = False, tx_id = tx\<rparr>"

definition default_root_data :: root_data where
  "default_root_data =
     \<lparr>root_hash = 0, added_by = None, is_validated = False, is_finalised = False, tx_id = None\<rparr>"

datatype proposal_status = Queued | Active | Resolved bool | Cancelled | Expired | UnknownStatus

datatype external_validation =
  UnknownValidation | ValidationInProgress | PendingAdminReview | Accepted | Rejected

record external_validation_data =
  proposal_id :: hash
  external_ref :: hash
  proposal_status_of :: proposal_status

datatype admin_config =
  ExternalValidationThreshold nat | SchedulePeriod nat | VotingPeriod nat

datatype summary_challenge_reason = SlotNotAdvanced nat | UnknownReason

record summary_challenge =
  challenge_reason :: summary_challenge_reason
  challenger :: account
  challengee :: account

datatype summary_offence_type =
    InvalidSignatureSubmitted
  | InvalidVoteSubmitted
  | SlotNotAdvancedOffence
  | NoSummaryCreated
  | RejectedValidRoot
  | CreatedInvalidRoot
  | ApprovedInvalidRoot

record summary_offence =
  session_index :: nat
  validator_set_count :: nat
  offenders :: "account list"
  offence_type :: summary_offence_type

record proposal_request =
  proposal_title :: string
  proposal_ref :: hash
  proposal_threshold :: nat
  proposal_payload :: "root_id \<times> hash"
  proposal_is_anchor :: bool
  proposal_created_at :: nat

datatype summary_error =
    Overflow
  | ErrorCalculatingChosenValidator
  | ErrorConvertingBlockNumber
  | ErrorGettingSummaryDataFromService
  | InvalidSummaryRange
  | ErrorSubmittingTransaction
  | InvalidKey
  | ErrorSigning
  | InvalidHexString
  | InvalidUTF8Bytes
  | InvalidRootHashLength
  | SummaryPendingOrApproved
  | RootHasAlreadyBeenRegisteredForVoting
  | InvalidRoot
  | SummaryDuplicateVote
  | ErrorEndingVotingPeriod
  | ErrorSubmitCandidateTxnToTier1
  | VotingSessionIsNotValid
  | ErrorRecoveringPublicKeyFromSignature
  | ECDSASignatureNotValid
  | RootDataNotFound
  | InvalidChallenge
  | WrongValidator
  | GracePeriodElapsed
  | TooEarlyToAdvance
  | InvalidIngressCounter
  | SchedulePeriodIsTooShort
  | VotingPeriodIsTooShort
  | VotingPeriodIsTooLong
  | VotingPeriodIsEqualOrLongerThanSchedulePeriod
  | CurrentSlotValidatorNotFound
  | ErrorPublishingSummary
  | ExternalRefNotFound
  | InvalidExternalValidationThreshold
  | ExternalValidationThresholdNotSet
  | ExternalValidationRequestNotFound
  | ExternalValidationStatusMissing

type_synonym summary_fault = "summary_error dispatch_error"

datatype summary_event =
    SchedulePeriodAndVotingPeriodUpdated nat nat
  | SummaryCalculated nat nat hash account
  | VoteAdded account root_id bool
  | VotingEnded root_id bool
  | SummaryOffenceReported summary_offence_type "account list"
  | SlotAdvanced account nat account nat
  | ChallengeAdded summary_challenge_reason account account
  | SummaryNotPublishedOffence account nat nat nat
  | SummaryRootValidated hash nat root_range
  | AdminReviewRequested root_id hash hash proposal_status
  | RootPassedValidation root_id hash
  | RootChallengeResolved root_id bool
  | SchedulePeriodSet nat
  | VotingPeriodSet nat
  | ExternalValidationThresholdSet nat

text \<open>What validators sign for this pallet.\<close>

datatype summary_payload =
    VotePayload vote_payload
  | SummaryPayload "nat \<times> string" hash nat nat
  | SlotPayload "nat \<times> string" nat
  | ChallengePayload string summary_challenge

datatype summary_tag =
    VoteTag vote_tag
  | SummaryTag "nat \<times> string" hash nat
  | SlotTag "nat \<times> string" nat
  | ChallengeTag string summary_challenge validator

text \<open>
  The parameters of the pallet. \<open>'w\<close> is the state of the pallets it calls, \<open>'sig\<close> the
  type of signatures; \<open>encode_root_id\<close> and \<open>hash_of\<close> are the codec and the hashing.
\<close>

record ('w, 'sig) summary_config =
  AdvanceSlotGracePeriod :: nat
  MinBlockAge :: nat
  AutoSubmitSummaries :: bool
  InstanceId :: nat
  ExternalValidationEnabled :: bool
  encode_root_id :: "root_id \<Rightarrow> nat list"
  hash_of :: "root_id \<times> hash \<Rightarrow> hash"
  verify :: "nat \<Rightarrow> summary_payload \<Rightarrow> 'sig \<Rightarrow> bool"
  publish :: "hash \<Rightarrow> string \<times> nat \<Rightarrow> 'w \<Rightarrow> (string + nat) \<times> 'w"
  submit_proposal :: "proposal_request \<Rightarrow> 'w \<Rightarrow> string + 'w"
  current_index :: "'w \<Rightarrow> nat"
  identification :: "'w \<Rightarrow> account \<Rightarrow> account option"
  is_known_offence :: "account list \<Rightarrow> nat \<Rightarrow> 'w \<Rightarrow> bool"
  report_offence :: "account list \<Rightarrow> summary_offence \<Rightarrow> 'w \<Rightarrow> 'w"

record 'w summary =
  next_block_to_process :: nat
  tx_id_to_root :: "(nat \<times> root_id) list"
  next_slot_at_block :: nat
  current_slot :: nat
  current_slots_validator :: "account option"
  slot_of_last_published_summary :: nat
  roots :: "(root_id \<times> root_data) list"
  votes_repository :: "(root_id \<times> voting_session_data) list"
  pending_approval :: "(root_range \<times> nat) list"
  total_ingresses :: nat
  schedule_period :: nat
  voting_period :: nat
  anchor_roots_counter :: nat
  anchor_roots :: "(nat \<times> hash) list"
  external_validation_status :: "(root_id \<times> external_validation) list"
  external_validation_ref :: "(hash \<times> root_id) list"
  pending_admin_reviews :: "(root_id \<times> external_validation_data) list"
  external_validation_threshold :: "nat option"
  summary_validators :: "validator list"
  block_number :: nat
  summary_events :: "summary_event list"
  summary_world :: 'w

definition deposit_event :: "summary_event \<Rightarrow> 'w summary \<Rightarrow> 'w summary" where
  "deposit_event e s = s\<lparr>summary_events := summary_events s @ [e]\<rparr>"

definition empty_root :: hash where
  "empty_root = 0"

definition session_id :: "('w, 'sig) summary_config \<Rightarrow> root_id \<Rightarrow> nat list" where
  "session_id C rid = truncate_from VotingSessionIdBound (encode_root_id C rid)"

definition update_block_number_context :: "('w, 'sig) summary_config \<Rightarrow> nat \<times> string" where
  "update_block_number_context C = (InstanceId C, UPDATE_BLOCK_NUMBER_CONTEXT)"

definition advance_block_context :: "('w, 'sig) summary_config \<Rightarrow> nat \<times> string" where
  "advance_block_context C = (InstanceId C, ADVANCE_SLOT_CONTEXT)"

definition pallet_id :: "('w, 'sig) summary_config \<Rightarrow> string \<times> nat" where
  "pallet_id C = (PALLET_ID, InstanceId C)"

section \<open>Reading the storage\<close>

definition get_vote :: "root_id \<Rightarrow> 'w summary \<Rightarrow> voting_session_data" where
  "get_vote rid s = (case alist_get rid (votes_repository s) of
     Some d \<Rightarrow> d | None \<Rightarrow> default_voting_session_data)"

definition try_get_root_data :: "root_id \<Rightarrow> 'w summary \<Rightarrow> summary_fault + root_data" where
  "try_get_root_data rid s = ok_or (alist_get rid (roots s)) (PalletErr RootDataNotFound)"

text \<open>\<open>Roots::mutate\<close>: a missing root is the default one.\<close>

definition mutate_root :: "root_id \<Rightarrow> (root_data \<Rightarrow> root_data) \<Rightarrow> 'w summary \<Rightarrow> 'w summary" where
  "mutate_root rid f s = s\<lparr>roots := alist_insert rid
     (f (case alist_get rid (roots s) of Some r \<Rightarrow> r | None \<Rightarrow> default_root_data)) (roots s)\<rparr>"

definition summary_is_neither_pending_nor_approved :: "root_range \<Rightarrow> 'w summary \<Rightarrow> bool" where
  "summary_is_neither_pending_nor_approved rng s =
     (let has_been_approved = list_ex (\<lambda>(rid, r). range rid = rng \<and> is_validated r) (roots s);
          is_pending = (alist_get rng (pending_approval s) \<noteq> None)
      in \<not> is_pending \<and> \<not> has_been_approved)"

definition get_target_block :: "'w summary \<Rightarrow> summary_fault + nat" where
  "get_target_block s =
     and_then (map_err (PalletErr Overflow)
       (safe_add_block_numbers (next_block_to_process s) (schedule_period s))) (\<lambda>end_block_number.
     if next_block_to_process s = 0 then Inr end_block_number
     else map_err (PalletErr Overflow) (safe_sub_block_numbers end_block_number 1))"

definition grace_period_elapsed :: "('w, 'sig) summary_config \<Rightarrow> nat \<Rightarrow> 'w summary \<Rightarrow> bool" where
  "grace_period_elapsed C blk s =
     (let diff = (case safe_sub_block_numbers blk (next_slot_at_block s) of Inr d \<Rightarrow> d | Inl _ \<Rightarrow> 0)
      in AdvanceSlotGracePeriod C < diff)"

definition can_end_vote :: "voting_session_data \<Rightarrow> 'w summary \<Rightarrow> bool" where
  "can_end_vote vote s \<longleftrightarrow> has_outcome vote \<or> end_of_voting_period vote \<le> block_number s"

definition validate_schedule_period :: "nat \<Rightarrow> summary_fault + unit" where
  "validate_schedule_period p =
     ensure (MIN_SCHEDULE_PERIOD \<le> p) (PalletErr SchedulePeriodIsTooShort)"

definition validate_voting_period :: "nat \<Rightarrow> nat \<Rightarrow> summary_fault + unit" where
  "validate_voting_period p schedule =
     and_then (ensure (MIN_VOTING_PERIOD \<le> p) (PalletErr VotingPeriodIsTooShort)) (\<lambda>_.
     and_then (ensure (p < schedule)
       (PalletErr VotingPeriodIsEqualOrLongerThanSchedulePeriod)) (\<lambda>_.
       ensure (p \<le> MAX_VOTING_PERIOD) (PalletErr VotingPeriodIsTooLong)))"

section \<open>Offences\<close>

definition create_offenders_identification ::
  "('w, 'sig) summary_config \<Rightarrow> account list \<Rightarrow> 'w summary \<Rightarrow> account list" where
  "create_offenders_identification C accounts s =
     List.map_filter (identification C (summary_world s)) accounts"

definition create_and_report_summary_offence ::
  "('w, 'sig) summary_config \<Rightarrow> account \<Rightarrow> account list \<Rightarrow> summary_offence_type \<Rightarrow>
     'w summary \<Rightarrow> 'w summary" where
  "create_and_report_summary_offence C reporter accounts kind s =
     (let offs = create_offenders_identification C accounts s in
      if offs = [] then s
      else let offence = \<lparr>session_index = current_index C (summary_world s),
                 validator_set_count = length (summary_validators s),
                 offenders = offs, offence_type = kind\<rparr> in
           if is_known_offence C offs (session_index offence) (summary_world s) then s
           else deposit_event (SummaryOffenceReported kind offs)
                  (s\<lparr>summary_world := report_offence C [reporter] offence (summary_world s)\<rparr>))"

definition register_offence_if_no_summary_created_in_slot ::
  "('w, 'sig) summary_config \<Rightarrow> validator \<Rightarrow> 'w summary \<Rightarrow> 'w summary" where
  "register_offence_if_no_summary_created_in_slot C reporter s =
     (if slot_of_last_published_summary s < current_slot s
      then case current_slots_validator s of
          None \<Rightarrow> s
        | Some current_slot_validator \<Rightarrow>
            let s1 = create_and_report_summary_offence C (v_account reporter)
                       [current_slot_validator] NoSummaryCreated s
            in deposit_event (SummaryNotPublishedOffence current_slot_validator (current_slot s1)
                 (slot_of_last_published_summary s1) (next_slot_at_block s1)) s1
      else s)"

section \<open>Approved roots\<close>

text \<open>
  The functions below also run in hooks, where an error does not undo what was written
  before it: they return the state with the result.
\<close>

definition send_root_to_ethereum ::
  "('w, 'sig) summary_config \<Rightarrow> root_id \<Rightarrow> root_data \<Rightarrow> 'w summary \<Rightarrow>
     (summary_fault + unit) \<times> 'w summary" where
  "send_root_to_ethereum C rid r s =
     (case publish C (root_hash r) (pallet_id C) (summary_world s) of
        (Inl e, w) \<Rightarrow> (Inl (OtherErr e), s\<lparr>summary_world := w\<rparr>)
      | (Inr tx, w) \<Rightarrow>
          let s1 = mutate_root rid (\<lambda>root. root\<lparr>tx_id := Some tx\<rparr>) (s\<lparr>summary_world := w\<rparr>)
          in (Inr (), s1\<lparr>tx_id_to_root := alist_insert tx rid (tx_id_to_root s1)\<rparr>))"

definition get_next_approved_root_id :: "'w summary \<Rightarrow> (summary_fault + nat) \<times> 'w summary" where
  "get_next_approved_root_id s =
     (case checked_add32 (anchor_roots_counter s) 1 of
        None \<Rightarrow> (Inl (PalletErr Overflow), s)
      | Some c \<Rightarrow> (Inr (anchor_roots_counter s), s\<lparr>anchor_roots_counter := c\<rparr>))"

definition process_accepted_root ::
  "('w, 'sig) summary_config \<Rightarrow> root_id \<Rightarrow> hash \<Rightarrow> 'w summary \<Rightarrow>
     (summary_fault + unit) \<times> 'w summary" where
  "process_accepted_root C rid h s =
     (case try_get_root_data rid s of
        Inl e \<Rightarrow> (Inl e, s)
      | Inr r \<Rightarrow>
          if root_hash r = empty_root then (Inr (), s)
          else let (res, s1) =
              (if AutoSubmitSummaries C then send_root_to_ethereum C rid r s
               else case get_next_approved_root_id s of
                   (Inl e, s') \<Rightarrow> (Inl e, s')
                 | (Inr i, s') \<Rightarrow>
                     (Inr (), s'\<lparr>anchor_roots := alist_insert i (root_hash r) (anchor_roots s')\<rparr>))
            in case res of
                Inl e \<Rightarrow> (Inl e, s1)
              | Inr _ \<Rightarrow> (Inr (), deposit_event (RootPassedValidation rid h) s1))"

text \<open>Inside a dispatchable an error discards the state.\<close>

definition committed :: "(summary_fault + unit) \<times> 'w summary \<Rightarrow> summary_fault + 'w summary" where
  "committed r = and_then (fst r) (\<lambda>_. Inr (snd r))"

definition set_summary_status :: "root_id \<Rightarrow> external_validation \<Rightarrow> 'w summary \<Rightarrow> 'w summary" where
  "set_summary_status rid status s =
     s\<lparr>external_validation_status := alist_insert rid status (external_validation_status s)\<rparr>"

definition cleanup_external_validation_data :: "root_id \<Rightarrow> hash \<Rightarrow> 'w summary \<Rightarrow> 'w summary" where
  "cleanup_external_validation_data rid eref s =
     s\<lparr>external_validation_status := alist_remove rid (external_validation_status s),
       external_validation_ref := alist_remove eref (external_validation_ref s),
       pending_admin_reviews := alist_remove rid (pending_admin_reviews s)\<rparr>"

definition submit_root_for_external_validation ::
  "('w, 'sig) summary_config \<Rightarrow> root_id \<Rightarrow> hash \<Rightarrow> 'w summary \<Rightarrow> summary_fault + 'w summary" where
  "submit_root_for_external_validation C rid h s =
     (let eref = hash_of C (rid, h) in
      and_then (ok_or (external_validation_threshold s) (PalletErr ExternalValidationThresholdNotSet))
        (\<lambda>threshold_val.
      and_then
        (map_err_with OtherErr (submit_proposal C
            \<lparr>proposal_title = (if AutoSubmitSummaries C then ''Summary Root'' else ''Anchor Root''),
             proposal_ref = eref, proposal_threshold = min threshold_val 100,
             proposal_payload = (rid, h), proposal_is_anchor = (\<not> AutoSubmitSummaries C),
             proposal_created_at = block_number s\<rparr> (summary_world s)))
        (\<lambda>w. Inr (set_summary_status rid ValidationInProgress
            (s\<lparr>summary_world := w,
               external_validation_ref := alist_insert eref rid (external_validation_ref s)\<rparr>)))))"

definition get_root_id_by_external_ref :: "hash \<Rightarrow> 'w summary \<Rightarrow> summary_fault + root_id" where
  "get_root_id_by_external_ref eref s =
     ok_or (alist_get eref (external_validation_ref s)) (PalletErr ExternalRefNotFound)"

definition setup_root_for_admin_review ::
  "root_id \<Rightarrow> hash \<Rightarrow> hash \<Rightarrow> proposal_status \<Rightarrow> 'w summary \<Rightarrow> 'w summary" where
  "setup_root_for_admin_review rid pid eref status s =
     (let s1 = set_summary_status rid PendingAdminReview s in
      deposit_event (AdminReviewRequested rid pid eref status)
        (s1\<lparr>pending_admin_reviews := alist_insert rid
             \<lparr>proposal_id = pid, external_ref = eref, proposal_status_of = status\<rparr>
             (pending_admin_reviews s1)\<rparr>))"

section \<open>The voting session of a root\<close>

definition root_vote_state :: "root_id \<Rightarrow> 'w summary \<Rightarrow> summary_fault + voting_session_data" where
  "root_vote_state rid s =
     (case alist_get rid (votes_repository s) of
        Some d \<Rightarrow> Inr d
      | None \<Rightarrow> Inl (OtherErr ''Root Id is not found in votes repository''))"

definition root_vote_is_valid :: "root_id \<Rightarrow> 'w summary \<Rightarrow> bool" where
  "root_vote_is_valid rid s =
     (case (try_get_root_data rid s, alist_get (range rid) (pending_approval s), root_vote_state rid s) of
        (Inr r, Some counter, Inr _) \<Rightarrow> \<not> is_validated r \<and> counter = ingress_counter rid
      | _ \<Rightarrow> False)"

definition root_vote_is_active :: "root_id \<Rightarrow> 'w summary \<Rightarrow> bool" where
  "root_vote_is_active rid s =
     (case root_vote_state rid s of
        Inr d \<Rightarrow> block_number s < end_of_voting_period d \<and> root_vote_is_valid rid s
      | Inl _ \<Rightarrow> False)"

definition root_record_approve_vote :: "root_id \<Rightarrow> account \<Rightarrow> 'w summary \<Rightarrow> summary_fault + 'w summary" where
  "root_record_approve_vote rid voter s =
     (let vote = get_vote rid s in
      and_then (ok_or (try_push MaximumValidatorsBound voter (ayes vote)) (AvnErr VectorBoundsExceeded))
        (\<lambda>xs. Inr (s\<lparr>votes_repository :=
                 alist_insert rid (vote\<lparr>ayes := xs\<rparr>) (votes_repository s)\<rparr>)))"

definition root_record_reject_vote :: "root_id \<Rightarrow> account \<Rightarrow> 'w summary \<Rightarrow> summary_fault + 'w summary" where
  "root_record_reject_vote rid voter s =
     (let vote = get_vote rid s in
      and_then (ok_or (try_push MaximumValidatorsBound voter (nays vote)) (AvnErr VectorBoundsExceeded))
        (\<lambda>xs. Inr (s\<lparr>votes_repository :=
                 alist_insert rid (vote\<lparr>nays := xs\<rparr>) (votes_repository s)\<rparr>)))"

definition end_voting ::
  "('w, 'sig) summary_config \<Rightarrow> account \<Rightarrow> root_id \<Rightarrow> 'w summary \<Rightarrow> summary_fault + 'w summary" where
  "end_voting C reporter rid s =
     and_then (ensure (root_vote_is_valid rid s) (PalletErr VotingSessionIsNotValid)) (\<lambda>_.
     let vote = get_vote rid s in
     and_then (ensure (can_end_vote vote s) (PalletErr ErrorEndingVotingPeriod)) (\<lambda>_.
     let root_is_approved = is_approved vote in
     and_then (try_get_root_data rid s) (\<lambda>r.
     and_then
       (if root_is_approved then
          and_then
            (if root_hash r = empty_root then Inr s
             else if ExternalValidationEnabled C
               then submit_root_for_external_validation C rid (root_hash r) s
               else committed (process_accepted_root C rid (root_hash r) s)) (\<lambda>s1.
          let s2 = create_and_report_summary_offence C reporter (nays vote) RejectedValidRoot s1 in
          and_then (map_err (PalletErr Overflow)
            (safe_add_block_numbers (to_block (range rid)) 1)) (\<lambda>next_block.
          let s3 = mutate_root rid (\<lambda>root. root\<lparr>is_validated := True\<rparr>)
                     (s2\<lparr>next_block_to_process := next_block\<rparr>)
          in Inr (deposit_event
                (SummaryRootValidated (root_hash r) (ingress_counter rid) (range rid))
                (s3\<lparr>slot_of_last_published_summary := current_slot s3\<rparr>))))
        else
          and_then (ok_or (added_by r) (PalletErr CurrentSlotValidatorNotFound)) (\<lambda>root_creator.
          let s1 = create_and_report_summary_offence C reporter [root_creator] CreatedInvalidRoot s in
          Inr (create_and_report_summary_offence C reporter (ayes vote) ApprovedInvalidRoot s1)))
       (\<lambda>s4. Inr (deposit_event (VotingEnded rid root_is_approved)
            (s4\<lparr>pending_approval := alist_remove (range rid) (pending_approval s4)\<rparr>))))))"

definition get_root_voting_session ::
  "('w, 'sig) summary_config \<Rightarrow> root_id \<Rightarrow> (summary_error, 'w summary) voting_session_manager" where
  "get_root_voting_session C rid =
     \<lparr>vsm_validators = summary_validators,
      cast_vote_context = CAST_VOTE_CONTEXT,
      end_voting_period_context = END_VOTING_PERIOD_CONTEXT,
      vsm_state = root_vote_state rid,
      vsm_is_valid = root_vote_is_valid rid,
      vsm_is_active = root_vote_is_active rid,
      record_approve_vote = root_record_approve_vote rid,
      record_reject_vote = root_record_reject_vote rid,
      end_voting_session = (\<lambda>sender. end_voting C sender rid)\<rparr>"

section \<open>Slots and challenges\<close>

definition validator_can_advance_slot ::
  "('w, 'sig) summary_config \<Rightarrow> validator \<Rightarrow> 'w summary \<Rightarrow> summary_fault + unit" where
  "validator_can_advance_slot C v s =
     and_then (ensure (next_slot_at_block s \<le> block_number s) (PalletErr TooEarlyToAdvance)) (\<lambda>_.
     and_then (ok_or (current_slots_validator s) (PalletErr CurrentSlotValidatorNotFound))
       (\<lambda>current_slot_validator.
     if grace_period_elapsed C (block_number s) s
     then if v_account v = current_slot_validator then Inl (PalletErr GracePeriodElapsed) else Inr ()
     else if v_account v \<noteq> current_slot_validator then Inl (PalletErr WrongValidator) else Inr ()))"

definition update_slot_number ::
  "('w, 'sig) summary_config \<Rightarrow> validator \<Rightarrow> 'w summary \<Rightarrow> summary_fault + 'w summary" where
  "update_slot_number C v s =
     and_then (validator_can_advance_slot C v s) (\<lambda>_.
     let s1 = register_offence_if_no_summary_created_in_slot C v s in
     and_then (map_err (PalletErr Overflow) (safe_add_block_numbers (current_slot s1) 1))
       (\<lambda>new_slot_number.
     and_then (map_err_with AvnErr
       (calculate_primary_validator_for_block (summary_validators s1) new_slot_number)) (\<lambda>new_validator.
     and_then (map_err (PalletErr Overflow)
       (safe_add_block_numbers (next_slot_at_block s1) (schedule_period s1))) (\<lambda>next_slot_start.
     Inr (deposit_event (SlotAdvanced (v_account v) new_slot_number new_validator next_slot_start)
       (s1\<lparr>current_slot := new_slot_number, current_slots_validator := Some new_validator,
           next_slot_at_block := next_slot_start\<rparr>))))))"

definition challenge_is_valid ::
  "('w, 'sig) summary_config \<Rightarrow> summary_challenge \<Rightarrow> nat \<Rightarrow> nat \<Rightarrow> account \<Rightarrow> 'w summary \<Rightarrow> bool" where
  "challenge_is_valid C ch slot_number blk accused s =
     (case challenge_reason ch of
        SlotNotAdvanced slot_to_challenge \<Rightarrow>
          (case current_slots_validator s of
             None \<Rightarrow> False
           | Some current_slot_validator \<Rightarrow> slot_to_challenge = slot_number \<and>
               grace_period_elapsed C blk s \<and> accused = current_slot_validator)
      | UnknownReason \<Rightarrow> False)"

section \<open>Calls\<close>

definition set_periods :: "origin \<Rightarrow> nat \<Rightarrow> nat \<Rightarrow> 'w summary \<Rightarrow> summary_fault + 'w summary" where
  "set_periods origin schedule voting s =
     and_then (root_only origin) (\<lambda>_.
     and_then (validate_schedule_period schedule) (\<lambda>_.
     and_then (validate_voting_period voting schedule) (\<lambda>_.
     and_then (map_err (PalletErr Overflow)
       (safe_add_block_numbers (next_block_to_process s) schedule)) (\<lambda>new_slot_at_block.
     Inr (deposit_event (SchedulePeriodAndVotingPeriodUpdated schedule voting)
       (s\<lparr>schedule_period := schedule, voting_period := voting,
          next_slot_at_block := new_slot_at_block\<rparr>))))))"

definition record_summary_calculation ::
  "('w, 'sig) summary_config \<Rightarrow> origin \<Rightarrow> nat \<Rightarrow> hash \<Rightarrow> nat \<Rightarrow> validator \<Rightarrow> 'w summary \<Rightarrow>
     summary_fault + 'w summary" where
  "record_summary_calculation C origin new_block_number h counter v s =
     and_then (unsigned_only origin) (\<lambda>_.
     and_then (ensure (wrapping_add64 (total_ingresses s) 1 = counter)
       (PalletErr InvalidIngressCounter)) (\<lambda>_.
     and_then (ensure (is_validator (summary_validators s) (v_account v)) (PalletErr InvalidKey)) (\<lambda>_.
     let rng = \<lparr>from_block = next_block_to_process s, to_block = new_block_number\<rparr>;
         rid = \<lparr>range = rng, ingress_counter = counter\<rparr> in
     and_then (get_target_block s) (\<lambda>expected_target_block.
     and_then (ensure (summary_is_neither_pending_nor_approved rng s)
       (PalletErr SummaryPendingOrApproved)) (\<lambda>_.
     and_then (ensure (alist_get rid (votes_repository s) = None)
       (PalletErr RootHasAlreadyBeenRegisteredForVoting)) (\<lambda>_.
     and_then (ensure (new_block_number = expected_target_block) (PalletErr InvalidSummaryRange)) (\<lambda>_.
     let quorum = get_quorum (summary_validators s) in
     and_then (map_err (PalletErr Overflow)
       (safe_add_block_numbers (block_number s) (voting_period s))) (\<lambda>voting_period_end.
     Inr (deposit_event (SummaryCalculated (from_block rng) (to_block rng) h (v_account v))
       (s\<lparr>total_ingresses := counter,
          roots := alist_insert rid (new_root_data h (v_account v) None) (roots s),
          pending_approval := alist_insert rng counter (pending_approval s),
          votes_repository := alist_insert rid
            (new_voting_session_data (session_id C rid) quorum voting_period_end (block_number s))
            (votes_repository s)\<rparr>))))))))))"

definition approve_root ::
  "('w, 'sig) summary_config \<Rightarrow> origin \<Rightarrow> root_id \<Rightarrow> validator \<Rightarrow> 'w summary \<Rightarrow>
     summary_fault + 'w summary" where
  "approve_root C origin rid v s =
     and_then (unsigned_only origin) (\<lambda>_.
     and_then (try_get_root_data rid s) (\<lambda>_.
     and_then (process_approve_vote (get_root_voting_session C rid) (v_account v) s) (\<lambda>s1.
     Inr (deposit_event (VoteAdded (v_account v) rid True) s1))))"

definition reject_root ::
  "('w, 'sig) summary_config \<Rightarrow> origin \<Rightarrow> root_id \<Rightarrow> validator \<Rightarrow> 'w summary \<Rightarrow>
     summary_fault + 'w summary" where
  "reject_root C origin rid v s =
     and_then (unsigned_only origin) (\<lambda>_.
     and_then (process_reject_vote (get_root_voting_session C rid) (v_account v) s) (\<lambda>s1.
     Inr (deposit_event (VoteAdded (v_account v) rid False) s1)))"

definition end_voting_period ::
  "('w, 'sig) summary_config \<Rightarrow> origin \<Rightarrow> root_id \<Rightarrow> validator \<Rightarrow> 'w summary \<Rightarrow>
     summary_fault + 'w summary" where
  "end_voting_period C origin rid v s =
     and_then (unsigned_only origin) (\<lambda>_. end_voting C (v_account v) rid s)"

definition advance_slot ::
  "('w, 'sig) summary_config \<Rightarrow> origin \<Rightarrow> validator \<Rightarrow> 'w summary \<Rightarrow> summary_fault + 'w summary" where
  "advance_slot C origin v s = and_then (unsigned_only origin) (\<lambda>_. update_slot_number C v s)"

definition add_challenge ::
  "('w, 'sig) summary_config \<Rightarrow> origin \<Rightarrow> summary_challenge \<Rightarrow> validator \<Rightarrow> 'w summary \<Rightarrow>
     summary_fault + 'w summary" where
  "add_challenge C origin ch v s =
     and_then (unsigned_only origin) (\<lambda>_.
     and_then (ensure (challenge_is_valid C ch (current_slot s) (block_number s) (challengee ch) s)
       (PalletErr InvalidChallenge)) (\<lambda>_.
     and_then (case challenge_reason ch of
         SlotNotAdvanced _ \<Rightarrow> Inr SlotNotAdvancedOffence
       | UnknownReason \<Rightarrow> Inl (PalletErr InvalidChallenge)) (\<lambda>challenge_type.
     let s1 = create_and_report_summary_offence C (v_account v) [challengee ch] challenge_type s in
     and_then (update_slot_number C v s1) (\<lambda>s2.
     Inr (deposit_event
       (ChallengeAdded (challenge_reason ch) (challenger ch) (challengee ch)) s2)))))"

definition set_admin_config :: "origin \<Rightarrow> admin_config \<Rightarrow> 'w summary \<Rightarrow> summary_fault + 'w summary" where
  "set_admin_config origin config s =
     and_then (root_only origin) (\<lambda>_.
     case config of
       ExternalValidationThreshold thr \<Rightarrow>
         let s1 = s\<lparr>external_validation_threshold := Some thr\<rparr> in
         and_then (ensure (0 < thr \<and> thr \<le> 100)
           (PalletErr InvalidExternalValidationThreshold)) (\<lambda>_.
         Inr (deposit_event (ExternalValidationThresholdSet thr)
           (s1\<lparr>external_validation_threshold := Some thr\<rparr>)))
     | SchedulePeriod period \<Rightarrow>
         and_then (validate_schedule_period period) (\<lambda>_.
         and_then (validate_voting_period (voting_period s) period) (\<lambda>_.
         and_then (map_err (PalletErr Overflow)
           (safe_add_block_numbers (next_block_to_process s) period)) (\<lambda>new_slot_at_block.
         Inr (deposit_event (SchedulePeriodSet period)
           (s\<lparr>schedule_period := period, next_slot_at_block := new_slot_at_block\<rparr>)))))
     | VotingPeriod period \<Rightarrow>
         and_then (validate_voting_period period (schedule_period s)) (\<lambda>_.
         Inr (deposit_event (VotingPeriodSet period) (s\<lparr>voting_period := period\<rparr>))))"

definition admin_resolve_challenge ::
  "('w, 'sig) summary_config \<Rightarrow> origin \<Rightarrow> root_id \<Rightarrow> bool \<Rightarrow> 'w summary \<Rightarrow>
     summary_fault + 'w summary" where
  "admin_resolve_challenge C origin rid accepted s =
     and_then (root_only origin) (\<lambda>_.
     and_then (ok_or (alist_get rid (pending_admin_reviews s))
       (PalletErr ExternalValidationRequestNotFound)) (\<lambda>pending_review.
     and_then (try_get_root_data rid s) (\<lambda>r.
     and_then (ok_or (alist_get rid (external_validation_status s))
       (PalletErr ExternalValidationStatusMissing)) (\<lambda>status.
     and_then (ensure (status = PendingAdminReview) (PalletErr InvalidRoot)) (\<lambda>_.
     and_then (if accepted then committed (process_accepted_root C rid (root_hash r) s) else Inr s)
       (\<lambda>s1.
     Inr (deposit_event (RootChallengeResolved rid accepted)
       (cleanup_external_validation_data rid (external_ref pending_review) s1))))))))"

section \<open>Hooks\<close>

definition on_voting_completed ::
  "('w, 'sig) summary_config \<Rightarrow> hash \<Rightarrow> hash \<Rightarrow> proposal_status \<Rightarrow> 'w summary \<Rightarrow> 'w summary" where
  "on_voting_completed C pid eref result s =
     (case get_root_id_by_external_ref eref s of
        Inl _ \<Rightarrow> s
      | Inr rid \<Rightarrow>
          if result = Expired \<or> result = Resolved True
          then case try_get_root_data rid s of
              Inl _ \<Rightarrow> s
            | Inr r \<Rightarrow>
                case process_accepted_root C rid (root_hash r) (set_summary_status rid Accepted s) of
                  (Inl _, s2) \<Rightarrow> s2
                | (Inr _, s2) \<Rightarrow> cleanup_external_validation_data rid eref s2
          else setup_root_for_admin_review rid pid eref result s)"

definition on_cancelled :: "hash \<Rightarrow> hash \<Rightarrow> 'w summary \<Rightarrow> 'w summary" where
  "on_cancelled pid eref s =
     (case get_root_id_by_external_ref eref s of
        Inl _ \<Rightarrow> s
      | Inr rid \<Rightarrow> setup_root_for_admin_review rid pid eref Cancelled s)"

text \<open>
  The identifier of the caller is the bytes of the name followed by the instance; the old
  identifier has no instance.
\<close>

definition starts_with :: "string \<times> nat \<Rightarrow> string \<times> nat option \<Rightarrow> bool" where
  "starts_with own caller =
     (case snd caller of
        None \<Rightarrow> take (length (fst caller)) (fst own) = fst caller
      | Some i \<Rightarrow> fst caller = fst own \<and> i = snd own)"

definition process_result ::
  "('w, 'sig) summary_config \<Rightarrow> nat \<Rightarrow> string \<times> nat option \<Rightarrow> bool \<Rightarrow> 'w summary \<Rightarrow> 'w summary" where
  "process_result C tx caller_id succeeded s =
     (let matches_caller =
            (if AutoSubmitSummaries C then starts_with (pallet_id C) caller_id
             else caller_id = (PALLET_ID, Some (InstanceId C)))
      in if matches_caller \<and> alist_get tx (tx_id_to_root s) \<noteq> None \<and> succeeded
         then case alist_get tx (tx_id_to_root s) of
             Some rid \<Rightarrow>
               let s1 = mutate_root rid (\<lambda>root. root\<lparr>is_finalised := True\<rparr>) s
               in s1\<lparr>tx_id_to_root := alist_remove tx (tx_id_to_root s1)\<rparr>
           | None \<Rightarrow> s
         else s)"

definition summary_genesis :: "nat \<Rightarrow> nat \<Rightarrow> validator list \<Rightarrow> 'w \<Rightarrow> 'w summary option" where
  "summary_genesis schedule voting vs w =
     (let schedule_blocks = (if schedule = 0 then DEFAULT_SCHEDULE_PERIOD else schedule);
          voting_blocks = (if voting = 0 then MIN_VOTING_PERIOD else voting) in
      if \<not> is_ok (validate_schedule_period schedule_blocks) then None
      else if \<not> is_ok (validate_voting_period voting_blocks schedule_blocks) then None
      else case vs of
          [] \<Rightarrow> None
        | v # _ \<Rightarrow> Some \<lparr>next_block_to_process = 0, tx_id_to_root = [],
            next_slot_at_block = schedule_blocks, current_slot = 0,
            current_slots_validator = Some (v_account v), slot_of_last_published_summary = 0,
            roots = [], votes_repository = [], pending_approval = [], total_ingresses = 0,
            schedule_period = schedule_blocks, voting_period = voting_blocks,
            anchor_roots_counter = 0, anchor_roots = [], external_validation_status = [],
            external_validation_ref = [], pending_admin_reviews = [],
            external_validation_threshold = None, summary_validators = vs, block_number = 0,
            summary_events = [], summary_world = w\<rparr>)"

section \<open>Unsigned transactions\<close>

datatype 'sig summary_call =
    SetPeriods nat nat
  | RecordSummaryCalculation nat hash nat validator 'sig
  | ApproveRoot root_id validator 'sig
  | RejectRoot root_id validator 'sig
  | EndVotingPeriod root_id validator 'sig
  | AdvanceSlot validator 'sig
  | AddChallenge summary_challenge validator 'sig
  | SetAdminConfig admin_config
  | AdminResolveChallenge root_id bool

definition record_summary_validate_unsigned ::
  "('w, 'sig) summary_config \<Rightarrow> nat \<Rightarrow> hash \<Rightarrow> nat \<Rightarrow> validator \<Rightarrow> 'sig \<Rightarrow> 'w summary \<Rightarrow>
     summary_tag validity" where
  "record_summary_validate_unsigned C new_block_number h counter v signature s =
     (if current_slots_validator s \<noteq> Some (v_account v)
      then InvalidCustom ERROR_CODE_VALIDATOR_IS_NOT_PRIMARY
      else if \<not> signature_is_valid (verify C) (summary_validators s)
                (SummaryPayload (update_block_number_context C) h counter new_block_number) v signature
      then BadProof
      else ValidWith (SummaryTag (update_block_number_context C) h counter))"

definition advance_slot_validate_unsigned ::
  "('w, 'sig) summary_config \<Rightarrow> validator \<Rightarrow> 'sig \<Rightarrow> 'w summary \<Rightarrow> summary_tag validity" where
  "advance_slot_validate_unsigned C v signature s =
     (if current_slots_validator s \<noteq> Some (v_account v)
      then InvalidCustom ERROR_CODE_VALIDATOR_IS_NOT_PRIMARY
      else if \<not> signature_is_valid (verify C) (summary_validators s)
                (SlotPayload (advance_block_context C) (current_slot s)) v signature
      then BadProof
      else ValidWith (SlotTag (advance_block_context C) (current_slot s)))"

definition add_challenge_validate_unsigned ::
  "('w, 'sig) summary_config \<Rightarrow> summary_challenge \<Rightarrow> validator \<Rightarrow> 'sig \<Rightarrow> 'w summary \<Rightarrow>
     summary_tag validity" where
  "add_challenge_validate_unsigned C ch v signature s =
     (if challenge_reason ch = UnknownReason then InvalidCustom UNKNOWN_CHALLENGE_REASON
      else if \<not> signature_is_valid (verify C) (summary_validators s)
                (ChallengePayload CHALLENGE_CONTEXT ch) v signature
      then BadProof
      else ValidWith (ChallengeTag CHALLENGE_CONTEXT ch v))"

fun vote_validity :: "vote_tag validity \<Rightarrow> summary_tag validity" where
  "vote_validity (InvalidCustom n) = InvalidCustom n"
| "vote_validity BadProof = BadProof"
| "vote_validity InvalidCall = InvalidCall"
| "vote_validity (ValidWith t) = ValidWith (VoteTag t)"

definition vote_verify :: "('w, 'sig) summary_config \<Rightarrow> 'sig verifier" where
  "vote_verify C k p = verify C k (VotePayload p)"

fun validate_unsigned ::
  "('w, 'sig) summary_config \<Rightarrow> 'sig summary_call \<Rightarrow> 'w summary \<Rightarrow> summary_tag validity" where
  "validate_unsigned C (RecordSummaryCalculation blk h counter v sig) s =
     record_summary_validate_unsigned C blk h counter v sig s"
| "validate_unsigned C (EndVotingPeriod rid v sig) s =
     vote_validity (end_voting_period_validate_unsigned (vote_verify C)
       (get_root_voting_session C rid) v sig s)"
| "validate_unsigned C (ApproveRoot rid v sig) s =
     (if alist_get rid (roots s) = None then InvalidCustom ERROR_CODE_INVALID_ROOT_RANGE
      else vote_validity (approve_vote_validate_unsigned (vote_verify C)
        (get_root_voting_session C rid) v sig s))"
| "validate_unsigned C (RejectRoot rid v sig) s =
     vote_validity (reject_vote_validate_unsigned (vote_verify C)
       (get_root_voting_session C rid) v sig s)"
| "validate_unsigned C (AddChallenge ch v sig) s = add_challenge_validate_unsigned C ch v sig s"
| "validate_unsigned C (AdvanceSlot v sig) s = advance_slot_validate_unsigned C v sig s"
| "validate_unsigned C _ s = InvalidCall"

fun dispatch_summary ::
  "('w, 'sig) summary_config \<Rightarrow> origin \<Rightarrow> 'sig summary_call \<Rightarrow> 'w summary \<Rightarrow>
     summary_fault + 'w summary" where
  "dispatch_summary C origin (SetPeriods a b) s = set_periods origin a b s"
| "dispatch_summary C origin (RecordSummaryCalculation blk h counter v sig) s =
     record_summary_calculation C origin blk h counter v s"
| "dispatch_summary C origin (ApproveRoot rid v sig) s = approve_root C origin rid v s"
| "dispatch_summary C origin (RejectRoot rid v sig) s = reject_root C origin rid v s"
| "dispatch_summary C origin (EndVotingPeriod rid v sig) s = end_voting_period C origin rid v s"
| "dispatch_summary C origin (AdvanceSlot v sig) s = advance_slot C origin v s"
| "dispatch_summary C origin (AddChallenge ch v sig) s = add_challenge C origin ch v s"
| "dispatch_summary C origin (SetAdminConfig c) s = set_admin_config origin c s"
| "dispatch_summary C origin (AdminResolveChallenge rid b) s = admin_resolve_challenge C origin rid b s"

section \<open>Decisions of the off-chain worker\<close>

text \<open>\<open>locked\<close> says whether this node already sent the transaction.\<close>

definition can_process_summary ::
  "('w, 'sig) summary_config \<Rightarrow> bool \<Rightarrow> nat \<Rightarrow> nat \<Rightarrow> validator \<Rightarrow> 'w summary \<Rightarrow> bool" where
  "can_process_summary C locked blk last_block_in_range this_validator s =
     (if locked then False
      else case safe_add_block_numbers last_block_in_range (MinBlockAge C) of
          Inl _ \<Rightarrow> False
        | Inr target_block_with_buffer \<Rightarrow>
            current_slots_validator s = Some (v_account this_validator) \<and>
            blk < next_slot_at_block s \<and>
            target_block_with_buffer < blk \<and>
            summary_is_neither_pending_nor_approved
              \<lparr>from_block = next_block_to_process s, to_block = last_block_in_range\<rparr> s)"

definition root_can_be_voted_on ::
  "('w, 'sig) summary_config \<Rightarrow> bool \<Rightarrow> root_id \<Rightarrow> account \<Rightarrow> 'w summary \<Rightarrow> bool" where
  "root_can_be_voted_on C locked rid voter s =
     (case root_vote_state rid s of
        Inl _ \<Rightarrow> False
      | Inr d \<Rightarrow> \<not> has_voted voter d \<and> \<not> locked \<and> root_vote_is_active rid s)"

definition can_challenge ::
  "('w, 'sig) summary_config \<Rightarrow> bool \<Rightarrow> validator \<Rightarrow> nat \<Rightarrow> 'w summary \<Rightarrow> bool" where
  "can_challenge C locked this_validator blk s =
     (if locked then False
      else (case is_primary_for_block (summary_validators s) blk (v_account this_validator) of
              Inr b \<Rightarrow> b | Inl _ \<Rightarrow> False) \<and> grace_period_elapsed C blk s)"

text \<open>The call that the slot's validator submits for the root \<open>h\<close> it computed.\<close>

definition record_summary ::
  "('w, 'sig) summary_config \<Rightarrow> (nat \<Rightarrow> summary_payload \<Rightarrow> 'sig option) \<Rightarrow> nat \<Rightarrow> hash \<Rightarrow> validator \<Rightarrow>
     'w summary \<Rightarrow> summary_fault + 'sig summary_call" where
  "record_summary C sign last_block h v s =
     (let counter = wrapping_add64 (total_ingresses s) 1 in
      and_then (ok_or (sign (v_key v)
          (SummaryPayload (update_block_number_context C) h counter last_block)) (PalletErr ErrorSigning))
        (\<lambda>signature. Inr (RecordSummaryCalculation last_block h counter v signature)))"

definition send_vote ::
  "('w, 'sig) summary_config \<Rightarrow> (nat \<Rightarrow> summary_payload \<Rightarrow> 'sig option) \<Rightarrow> root_id \<Rightarrow> hash \<Rightarrow> validator \<Rightarrow>
     'w summary \<Rightarrow> 'sig summary_call option" where
  "send_vote C sign rid computed_hash this_validator s =
     (case (try_get_root_data rid s, root_vote_state rid s) of
        (Inr r, Inr d) \<Rightarrow>
          let aye = (computed_hash = root_hash r) in
          (case sign (v_key this_validator)
              (VotePayload (CastVotePayload CAST_VOTE_CONTEXT (voting_session_id d) aye)) of
             None \<Rightarrow> None
           | Some signature \<Rightarrow> Some (if aye then ApproveRoot rid this_validator signature
                                    else RejectRoot rid this_validator signature))
      | _ \<Rightarrow> None)"

end
