(* ===== verification/Summary_Votes.thy ===== *)
theory Summary_Votes
  imports Summary
begin

text \<open>
  What the operations of the summary pallet do to the roots and their votes: the frame of
  every helper, and the contract of the voting session of a root, which the AvN pallet's
  lemmas on voting rest on.
\<close>

named_theorems summary_frame "what the operations of the summary pallet leave alone"

section \<open>Frames\<close>

text \<open>The part of the state that the voting reads; \<open>verdict\<close> is the mark of a root.\<close>

definition verdict :: "root_id \<Rightarrow> 'w summary \<Rightarrow> bool option" where
  "verdict rid s = map_option is_validated (alist_get rid (roots s))"

definition same_votes :: "'w summary \<Rightarrow> 'w summary \<Rightarrow> bool" where
  "same_votes s s' \<longleftrightarrow> votes_repository s' = votes_repository s \<and>
     pending_approval s' = pending_approval s \<and> next_block_to_process s' = next_block_to_process s \<and>
     summary_validators s' = summary_validators s \<and> block_number s' = block_number s \<and>
     total_ingresses s' = total_ingresses s \<and>
     (\<forall>rid. verdict rid s' = verdict rid s) \<and>
     (distinct (map fst (roots s)) \<longrightarrow> distinct (map fst (roots s')))"

definition same_periods :: "'w summary \<Rightarrow> 'w summary \<Rightarrow> bool" where
  "same_periods s s' \<longleftrightarrow> schedule_period s' = schedule_period s \<and> voting_period s' = voting_period s"

text \<open>Every transaction sent to Ethereum belongs to a root that exists.\<close>

definition tx_ok :: "'w summary \<Rightarrow> bool" where
  "tx_ok s \<longleftrightarrow> (\<forall>tx rid. alist_get tx (tx_id_to_root s) = Some rid \<longrightarrow> verdict rid s \<noteq> None)"

definition quiet :: "'w summary \<Rightarrow> 'w summary \<Rightarrow> bool" where
  "quiet s s' \<longleftrightarrow> same_votes s s' \<and> same_periods s s' \<and> (tx_ok s \<longrightarrow> tx_ok s')"

lemma quiet_refl [simp]: "quiet s s"
  by (simp add: quiet_def same_votes_def same_periods_def)

lemma quiet_trans: "quiet s s1 \<Longrightarrow> quiet s1 s2 \<Longrightarrow> quiet s s2"
  by (auto simp: quiet_def same_votes_def same_periods_def)

lemma quiet_update [simp]:
  "quiet s (deposit_event e s1) = quiet s s1"
  "quiet s (s1\<lparr>summary_world := w\<rparr>) = quiet s s1"
  "quiet s (s1\<lparr>next_slot_at_block := n\<rparr>) = quiet s s1"
  "quiet s (s1\<lparr>current_slot := n\<rparr>) = quiet s s1"
  "quiet s (s1\<lparr>current_slots_validator := v\<rparr>) = quiet s s1"
  "quiet s (s1\<lparr>anchor_roots := a\<rparr>) = quiet s s1"
  "quiet s (s1\<lparr>anchor_roots_counter := n\<rparr>) = quiet s s1"
  "quiet s (s1\<lparr>external_validation_status := es\<rparr>) = quiet s s1"
  "quiet s (s1\<lparr>external_validation_ref := er\<rparr>) = quiet s s1"
  "quiet s (s1\<lparr>pending_admin_reviews := pr\<rparr>) = quiet s s1"
  "quiet s (s1\<lparr>external_validation_threshold := thr\<rparr>) = quiet s s1"
  by (simp_all add: quiet_def same_votes_def same_periods_def verdict_def tx_ok_def deposit_event_def)

lemma verdict_tx [simp]: "verdict rid (s\<lparr>tx_id_to_root := m\<rparr>) = verdict rid s"
  by (simp add: verdict_def)

lemma quiet_tx:
  assumes "quiet s s1" "verdict rid s1 \<noteq> None"
  shows "quiet s (s1\<lparr>tx_id_to_root := alist_insert tx rid (tx_id_to_root s1)\<rparr>)"
  using assms by (auto simp: quiet_def same_votes_def same_periods_def tx_ok_def alist_get_insert)

lemma quiet_tx_remove:
  assumes "quiet s s1"
  shows "quiet s (s1\<lparr>tx_id_to_root := alist_remove tx (tx_id_to_root s1)\<rparr>)"
  using assms by (auto simp: quiet_def same_votes_def same_periods_def tx_ok_def alist_get_remove)

lemma verdict_mutate:
  "verdict rid (mutate_root rid' f s) =
     (if rid = rid' then Some (is_validated (f (case alist_get rid (roots s) of
        Some r \<Rightarrow> r | None \<Rightarrow> default_root_data))) else verdict rid s)"
  by (auto simp: verdict_def mutate_root_def alist_get_insert)

lemma quiet_mutate:
  assumes "quiet s s1" "alist_get rid (roots s1) = Some r" "is_validated (f r) = is_validated r"
  shows "quiet s (mutate_root rid f s1)"
proof -
  have "verdict rid' (mutate_root rid f s1) = verdict rid' s1" for rid'
    using assms(2,3) by (simp add: verdict_mutate) (simp add: verdict_def)
  then show ?thesis
    using assms(1) by (simp add: quiet_def same_votes_def same_periods_def tx_ok_def)
      (auto simp: mutate_root_def intro: alist_insert_distinct)
qed

lemma offence_quiet [simp]: "quiet s (create_and_report_summary_offence C reporter accts kind s1) = quiet s s1"
  by (simp add: create_and_report_summary_offence_def Let_def)

lemma offence_verdict [simp]:
  "verdict rid (create_and_report_summary_offence C reporter accts kind s) = verdict rid s"
  "roots (create_and_report_summary_offence C reporter accts kind s) = roots s"
  "current_slot (create_and_report_summary_offence C reporter accts kind s) = current_slot s"
  "current_slots_validator (create_and_report_summary_offence C reporter accts kind s) =
     current_slots_validator s"
  "next_slot_at_block (create_and_report_summary_offence C reporter accts kind s) = next_slot_at_block s"
  by (simp_all add: create_and_report_summary_offence_def Let_def verdict_def deposit_event_def)

lemma register_offence_frame [simp]:
  "quiet s (register_offence_if_no_summary_created_in_slot C v s1) = quiet s s1"
  "current_slot (register_offence_if_no_summary_created_in_slot C v s1) = current_slot s1"
  "next_slot_at_block (register_offence_if_no_summary_created_in_slot C v s1) = next_slot_at_block s1"
  by (simp_all add: register_offence_if_no_summary_created_in_slot_def Let_def split: option.split)
    (simp_all add: deposit_event_def)

lemma accepted_quiet: "quiet s (snd (process_accepted_root C rid h s))"
proof (cases "alist_get rid (roots s)")
  case None
  then show ?thesis
    by (simp add: process_accepted_root_def try_get_root_data_def)
next
  case (Some r)
  have "quiet s (mutate_root rid (\<lambda>root. root\<lparr>tx_id := Some tx\<rparr>) (s\<lparr>summary_world := w\<rparr>))" for tx w
    using Some by (intro quiet_mutate) auto
  then have "quiet s (snd (send_root_to_ethereum C rid r s))"
    by (auto simp: send_root_to_ethereum_def Let_def verdict_mutate intro!: quiet_tx
        split: prod.split sum.split)
  moreover have "quiet s (snd (get_next_approved_root_id s))"
    by (auto simp: get_next_approved_root_id_def split: option.split)
  ultimately show ?thesis
    using Some by (auto simp: process_accepted_root_def try_get_root_data_def split_beta
        split: sum.split)
qed

lemma committed_quiet: "committed (process_accepted_root C rid h s) = Inr s' \<Longrightarrow> quiet s s'"
  using accepted_quiet [of s C rid h] by (auto simp: committed_def)

lemma submit_quiet: "submit_root_for_external_validation C rid h s = Inr s' \<Longrightarrow> quiet s s'"
  by (auto simp: submit_root_for_external_validation_def Let_def set_summary_status_def
      split: sum.splits)

lemma update_slot_quiet: "update_slot_number C v s = Inr s' \<Longrightarrow> quiet s s'"
  by (auto simp: update_slot_number_def Let_def split: sum.splits)

section \<open>The end of a vote\<close>

lemma root_vote_valid:
  "root_vote_is_valid rid s \<longleftrightarrow> alist_get rid (votes_repository s) \<noteq> None \<and> verdict rid s = Some False \<and>
     alist_get (range rid) (pending_approval s) = Some (ingress_counter rid)"
  by (cases "alist_get rid (roots s)"; cases "alist_get rid (votes_repository s)";
      cases "alist_get (range rid) (pending_approval s)")
    (auto simp: root_vote_is_valid_def root_vote_state_def try_get_root_data_def verdict_def)

lemma root_vote_active:
  "root_vote_is_active rid s \<longleftrightarrow> (\<exists>d. alist_get rid (votes_repository s) = Some d \<and>
     block_number s < end_of_voting_period d) \<and> root_vote_is_valid rid s"
  by (auto simp: root_vote_is_active_def root_vote_state_def split: option.splits)

text \<open>
  What the end of the vote on \<open>rid\<close> does: the root leaves the pending ones, and is marked
  exactly when the votes approve it; then the next range starts after it.
\<close>

lemma end_voting_effect:
  assumes "end_voting C reporter rid s = Inr s'"
  shows "\<exists>d r. alist_get rid (votes_repository s) = Some d \<and> alist_get rid (roots s) = Some r \<and>
    \<not> is_validated r \<and> alist_get (range rid) (pending_approval s) = Some (ingress_counter rid) \<and>
    (has_outcome d \<or> end_of_voting_period d \<le> block_number s) \<and>
    votes_repository s' = votes_repository s \<and>
    pending_approval s' = alist_remove (range rid) (pending_approval s) \<and>
    summary_validators s' = summary_validators s \<and> block_number s' = block_number s \<and>
    total_ingresses s' = total_ingresses s \<and> same_periods s s' \<and>
    (\<forall>rid'. verdict rid' s' = (if rid' = rid then Some (is_approved d) else verdict rid' s)) \<and>
    next_block_to_process s' =
      (if is_approved d then Suc (to_block (range rid)) else next_block_to_process s) \<and>
    (distinct (map fst (roots s)) \<longrightarrow> distinct (map fst (roots s'))) \<and> (tx_ok s \<longrightarrow> tx_ok s')"
proof -
  obtain d r where valid: "alist_get rid (votes_repository s) = Some d"
      "alist_get rid (roots s) = Some r" "\<not> is_validated r"
      "alist_get (range rid) (pending_approval s) = Some (ingress_counter rid)"
      "can_end_vote d s" "get_vote rid s = d"
    using assms by (auto simp: end_voting_def root_vote_valid verdict_def Let_def get_vote_def)
  have ends: "has_outcome d \<or> end_of_voting_period d \<le> block_number s"
    using valid(5) by (simp add: can_end_vote_def)
  note frame = quiet_def same_votes_def same_periods_def deposit_event_def
  show ?thesis
  proof (cases "is_approved d")
    case True
    obtain s1 where
      s1: "(if root_hash r = empty_root then Inr s else if ExternalValidationEnabled C
          then submit_root_for_external_validation C rid (root_hash r) s
          else committed (process_accepted_root C rid (root_hash r) s)) = Inr s1" and
      s': "s' = deposit_event (VotingEnded rid True)
        (let s2 = create_and_report_summary_offence C reporter (nays d) RejectedValidRoot s1;
             s3 = mutate_root rid (\<lambda>root. root\<lparr>is_validated := True\<rparr>)
               (s2\<lparr>next_block_to_process := Suc (to_block (range rid))\<rparr>);
             s4 = deposit_event (SummaryRootValidated (root_hash r) (ingress_counter rid) (range rid))
               (s3\<lparr>slot_of_last_published_summary := current_slot s3\<rparr>)
         in s4\<lparr>pending_approval := alist_remove (range rid) (pending_approval s4)\<rparr>)"
      using assms valid True
      by (clarsimp simp: end_voting_def Let_def try_get_root_data_def safe_add_block_numbers_def)
    have "quiet s s1"
      using s1 committed_quiet submit_quiet by (auto split: if_splits)
    then have s2: "quiet s (create_and_report_summary_offence C reporter (nays d) RejectedValidRoot s1)"
      by simp
    have v: "verdict rid' s' = (if rid' = rid then Some True else verdict rid' s)" for rid'
      using s2 by (simp add: s' Let_def frame) (simp add: verdict_def mutate_root_def alist_get_insert)
    moreover have "tx_ok s \<longrightarrow> tx_ok s'"
      unfolding tx_ok_def v using s2 by (auto simp: s' Let_def frame tx_ok_def mutate_root_def)
    ultimately show ?thesis
      using s2 True valid ends
      by (simp add: s' Let_def frame) (simp add: mutate_root_def alist_insert_distinct)
  next
    case False
    obtain creator where
      s': "s' = deposit_event (VotingEnded rid False)
        (let s1 = create_and_report_summary_offence C reporter [creator] CreatedInvalidRoot s;
             s2 = create_and_report_summary_offence C reporter (ayes d) ApprovedInvalidRoot s1
         in s2\<lparr>pending_approval := alist_remove (range rid) (pending_approval s2)\<rparr>)"
      using assms valid False by (clarsimp simp: end_voting_def Let_def try_get_root_data_def)
    have s2: "quiet s (create_and_report_summary_offence C reporter (ayes d) ApprovedInvalidRoot
        (create_and_report_summary_offence C reporter [creator] CreatedInvalidRoot s))"
      by simp
    have v: "verdict rid' s' = (if rid' = rid then Some False else verdict rid' s)" for rid'
      using s2 valid(2,3) by (simp add: s' Let_def frame) (simp add: verdict_def)
    moreover have "tx_ok s \<longrightarrow> tx_ok s'"
      unfolding tx_ok_def v using s2 by (auto simp: s' Let_def frame tx_ok_def)
    ultimately show ?thesis
      using s2 False valid ends by (simp add: s' Let_def frame)
  qed
qed

section \<open>The voting session of a root keeps the contract\<close>

interpretation rv: voting_session "get_root_voting_session C rid"
  "\<lambda>s. alist_get rid (votes_repository s)" for C rid
proof
  fix s s' :: "'a summary" and d voter sender
  let ?V = "get_root_voting_session C rid"
  show "vsm_state ?V s = Inr d \<longleftrightarrow> alist_get rid (votes_repository s) = Some d"
    by (auto simp: get_root_voting_session_def root_vote_state_def split: option.splits)
  assume d: "alist_get rid (votes_repository s) = Some d"
  show "length (ayes d) < MaximumValidatorsBound \<and>
      alist_get rid (votes_repository s') = Some (cast True voter d) \<and>
      vsm_validators ?V s' = vsm_validators ?V s \<and> (vsm_is_active ?V s' \<longleftrightarrow> vsm_is_active ?V s)"
    if "record_approve_vote ?V voter s = Inr s'"
    using that d by (auto simp: get_root_voting_session_def root_record_approve_vote_def Let_def
        get_vote_def try_push_def alist_get_insert cast_def root_vote_active root_vote_valid
        verdict_def split: if_splits)
  show "length (nays d) < MaximumValidatorsBound \<and>
      alist_get rid (votes_repository s') = Some (cast False voter d) \<and>
      vsm_validators ?V s' = vsm_validators ?V s \<and> (vsm_is_active ?V s' \<longleftrightarrow> vsm_is_active ?V s)"
    if "record_reject_vote ?V voter s = Inr s'"
    using that d by (auto simp: get_root_voting_session_def root_record_reject_vote_def Let_def
        get_vote_def try_push_def alist_get_insert cast_def root_vote_active root_vote_valid
        verdict_def split: if_splits)
next
  fix s s' :: "'a summary" and sender
  let ?V = "get_root_voting_session C rid"
  assume "end_voting_session ?V sender s = Inr s'"
  then have "end_voting C sender rid s = Inr s'"
    by (simp add: get_root_voting_session_def)
  from end_voting_effect [OF this]
  show "alist_get rid (votes_repository s') = alist_get rid (votes_repository s) \<and>
      vsm_validators ?V s' = vsm_validators ?V s \<and> \<not> vsm_is_active ?V s'"
    by (auto simp: get_root_voting_session_def root_vote_active root_vote_valid alist_get_remove)
qed

end
