(* ===== verification/Summary_Steps.thy ===== *)
theory Summary_Steps
  imports Summary_Votes
begin

text \<open>
  The summary pallet as a transition system. An action is a call, a hook, a new block or a
  new session; it has one of five effects on the roots and the votes, and every lemma on
  runs of the pallet is a case distinction on them.
\<close>

section \<open>Actions\<close>

datatype ('w, 'sig) summary_action =
    SummaryCall origin "'sig summary_call"
  | NextBlock
  | NewSession "validator list"
  | OtherPallets 'w
  | VotingCompleted hash hash proposal_status
  | ProposalCancelled hash hash
  | BridgeResult nat "string \<times> nat option" bool

text \<open>
  A call that fails leaves the state alone, and an unsigned one is included in a block only
  if \<open>validate_unsigned\<close> accepts it.
\<close>

fun accepted :: "'a validity \<Rightarrow> bool" where
  "accepted (ValidWith _) = True"
| "accepted _ = False"

fun summary_do :: "('w, 'sig) summary_config \<Rightarrow> ('w, 'sig) summary_action \<Rightarrow> 'w summary \<Rightarrow> 'w summary" where
  "summary_do C (SummaryCall origin call) s =
     (if origin = Unsigned \<and> \<not> accepted (validate_unsigned C call s) then s
      else case dispatch_summary C origin call s of Inl _ \<Rightarrow> s | Inr s' \<Rightarrow> s')"
| "summary_do C NextBlock s = s\<lparr>block_number := Suc (block_number s)\<rparr>"
| "summary_do C (NewSession vs) s = s\<lparr>summary_validators := vs\<rparr>"
| "summary_do C (OtherPallets w) s = s\<lparr>summary_world := w\<rparr>"
| "summary_do C (VotingCompleted pid eref result) s = on_voting_completed C pid eref result s"
| "summary_do C (ProposalCancelled pid eref) s = on_cancelled pid eref s"
| "summary_do C (BridgeResult tx caller succeeded) s = process_result C tx caller succeeded s"

fun admissible :: "('w, 'sig) summary_action \<Rightarrow> bool" where
  "admissible (NewSession vs) \<longleftrightarrow> length vs < 2 ^ 31"
| "admissible _ \<longleftrightarrow> True"

fun changes_schedule :: "('w, 'sig) summary_action \<Rightarrow> bool" where
  "changes_schedule (SummaryCall _ (SetPeriods _ _)) \<longleftrightarrow> True"
| "changes_schedule (SummaryCall _ (SetAdminConfig (SchedulePeriod _))) \<longleftrightarrow> True"
| "changes_schedule _ \<longleftrightarrow> False"

inductive summary_reachable ::
  "('w, 'sig) summary_config \<Rightarrow> (('w, 'sig) summary_action \<Rightarrow> bool) \<Rightarrow> 'w summary \<Rightarrow> bool"
  for C P where
  start: "summary_genesis schedule voting vs w = Some s \<Longrightarrow> length vs < 2 ^ 31 \<Longrightarrow>
    summary_reachable C P s"
| act: "summary_reachable C P s \<Longrightarrow> admissible a \<Longrightarrow> P a \<Longrightarrow> summary_reachable C P (summary_do C a s)"

lemma summary_reachable_run:
  "summary_reachable C P s \<Longrightarrow> \<forall>a\<in>set as. admissible a \<and> P a \<Longrightarrow>
     summary_reachable C P (fold (summary_do C) as s)"
  by (induction as arbitrary: s) (auto intro: summary_reachable.act)

lemma summary_reachable_mono:
  "summary_reachable C P s \<Longrightarrow> (\<And>a. P a \<Longrightarrow> Q a) \<Longrightarrow> summary_reachable C Q s"
  by (induction rule: summary_reachable.induct) (auto intro: summary_reachable.intros)

section \<open>Effects\<close>

definition next_range :: "'w summary \<Rightarrow> root_range" where
  "next_range s = \<lparr>from_block = next_block_to_process s,
     to_block = next_block_to_process s + schedule_period s -
       (if next_block_to_process s = 0 then 0 else 1)\<rparr>"

definition periods_ok :: "'w summary \<Rightarrow> bool" where
  "periods_ok s \<longleftrightarrow> MIN_SCHEDULE_PERIOD \<le> schedule_period s \<and> MIN_VOTING_PERIOD \<le> voting_period s \<and>
     voting_period s < schedule_period s \<and> voting_period s \<le> MAX_VOTING_PERIOD"

definition same_roots :: "'w summary \<Rightarrow> 'w summary \<Rightarrow> bool" where
  "same_roots s s' \<longleftrightarrow> roots s' = roots s \<and> votes_repository s' = votes_repository s \<and>
     pending_approval s' = pending_approval s \<and> next_block_to_process s' = next_block_to_process s \<and>
     tx_id_to_root s' = tx_id_to_root s"

definition recorded :: "root_id \<Rightarrow> voting_session_data \<Rightarrow> 'w summary \<Rightarrow> 'w summary \<Rightarrow> bool" where
  "recorded rid d s s' \<longleftrightarrow> range rid = next_range s \<and>
     (\<forall>rid'. range rid' = range rid \<longrightarrow> verdict rid' s \<noteq> Some True) \<and>
     alist_get (range rid) (pending_approval s) = None \<and> alist_get rid (votes_repository s) = None \<and>
     session_ok d \<and> ayes d = [] \<and> nays d = [] \<and> threshold d = get_quorum (summary_validators s) \<and>
     summary_validators s \<noteq> [] \<and> 
     votes_repository s' = alist_insert rid d (votes_repository s) \<and>
     pending_approval s' = alist_insert (range rid) (ingress_counter rid) (pending_approval s) \<and>
     (\<forall>rid'. verdict rid' s' = (if rid' = rid then Some False else verdict rid' s)) \<and>
     (distinct (map fst (roots s)) \<longrightarrow> distinct (map fst (roots s'))) \<and>
     (tx_ok s \<longrightarrow> tx_ok s') \<and> next_block_to_process s' = next_block_to_process s \<and>
     summary_validators s' = summary_validators s \<and> same_periods s s'"

inductive summary_effect ::
  "('w, 'sig) summary_config \<Rightarrow> ('w, 'sig) summary_action \<Rightarrow> 'w summary \<Rightarrow> 'w summary \<Rightarrow> bool" for C a where
  quietly: "quiet s s' \<Longrightarrow> summary_effect C a s s'"
| settings: "same_roots s s' \<Longrightarrow> (periods_ok s \<longrightarrow> periods_ok s') \<Longrightarrow>
    changes_schedule a \<or> schedule_period s' = schedule_period s \<Longrightarrow>
    length (summary_validators s) < 2 ^ 31 \<longrightarrow> length (summary_validators s') < 2 ^ 31 \<Longrightarrow>
    summary_effect C a s s'"
| recording: "recorded rid d s s' \<Longrightarrow> summary_effect C a s s'"
| voting: "alist_get rid (votes_repository s) = Some d \<Longrightarrow> root_vote_is_active rid s \<Longrightarrow>
    \<not> has_voted voter d \<Longrightarrow> is_validator (summary_validators s) voter \<Longrightarrow>
    length (if aye then ayes d else nays d) < MaximumValidatorsBound \<Longrightarrow>
    s1 = s\<lparr>votes_repository := alist_insert rid (cast aye voter d) (votes_repository s)\<rparr> \<Longrightarrow>
    if has_outcome (cast aye voter d) then end_voting C voter rid s1 = Inr s2 else s2 = s1 \<Longrightarrow>
    s' = deposit_event e s2 \<Longrightarrow> summary_effect C a s s'"
| ending: "end_voting C reporter rid s = Inr s' \<Longrightarrow> summary_effect C a s s'"

lemma target_block: "get_target_block s = Inr n \<Longrightarrow> n = to_block (next_range s)"
  by (auto simp: get_target_block_def next_range_def safe_add_block_numbers_def
      safe_sub_block_numbers_def split: if_splits)

lemma record_recorded:
  assumes "record_summary_calculation C origin blk h c v s = Inr s'" "distinct (map fst (roots s))"
  shows "\<exists>d. recorded \<lparr>range = next_range s, ingress_counter = c\<rparr> d s s'"
proof -
  define rid where "rid = \<lparr>range = next_range s, ingress_counter = c\<rparr>"
  define d where "d = new_voting_session_data (session_id C rid) (get_quorum (summary_validators s))
    (block_number s + voting_period s) (block_number s)"
  have blk: "\<lparr>from_block = next_block_to_process s, to_block = blk\<rparr> = next_range s"
    using assms(1) target_block [of s] by (auto simp: record_summary_calculation_def Let_def next_range_def)
  have s': "s' = deposit_event
      (SummaryCalculated (from_block (range rid)) (to_block (range rid)) h (v_account v))
      (s\<lparr>total_ingresses := c, roots := alist_insert rid (new_root_data h (v_account v) None) (roots s),
         pending_approval := alist_insert (range rid) c (pending_approval s),
         votes_repository := alist_insert rid d (votes_repository s)\<rparr>)"
    and free: "summary_is_neither_pending_nor_approved (range rid) s"
    and fresh: "alist_get rid (votes_repository s) = None"
    and v: "is_validator (summary_validators s) (v_account v)"
    using assms(1) unfolding record_summary_calculation_def Let_def blk
    by (auto simp: rid_def d_def safe_add_block_numbers_def blk)
  have "\<forall>rid'. range rid' = range rid \<longrightarrow> verdict rid' s \<noteq> Some True"
    using free assms(2) by (auto simp: summary_is_neither_pending_nor_approved_def verdict_def
        list_ex_iff dest!: alist_get_mem)
  moreover have "verdict rid' s' = (if rid' = rid then Some False else verdict rid' s)" for rid'
    by (simp add: s' deposit_event_def verdict_def alist_get_insert new_root_data_def)
  moreover have "summary_validators s \<noteq> []"
    using v by (auto simp: is_validator_def)
  ultimately have "recorded rid d s s'"
    using free fresh unfolding recorded_def tx_ok_def
    by (auto simp: rid_def s' deposit_event_def d_def new_voting_session_data_def session_ok_def
        summary_is_neither_pending_nor_approved_def same_periods_def alist_insert_distinct)
  then show ?thesis
    by (auto simp: rid_def)
qed

lemma vote_effect:
  assumes "process_vote aye (get_root_voting_session C rid) voter s = Inr s2"
  shows "summary_effect C a s (deposit_event e s2)"
proof -
  let ?V = "get_root_voting_session C rid"
  obtain d s1 where d: "alist_get rid (votes_repository s) = Some d" "root_vote_is_active rid s"
      "\<not> has_voted voter d" "is_validator (summary_validators s) voter"
    and s1: "(if aye then record_approve_vote ?V voter s else record_reject_vote ?V voter s) = Inr s1"
    and e: "end_voting_if_outcome_reached ?V voter s1 = Inr s2"
    using assms by (auto simp: process_vote_def process_approve_vote_def process_reject_vote_def
        validate_vote_def rv.state_session split: if_splits) (auto simp: get_root_voting_session_def)
  have s1': "s1 = s\<lparr>votes_repository := alist_insert rid (cast aye voter d) (votes_repository s)\<rparr>"
      "length (if aye then ayes d else nays d) < MaximumValidatorsBound"
    using s1 d(1) by (auto simp: get_root_voting_session_def root_record_approve_vote_def cast_def
        root_record_reject_vote_def Let_def get_vote_def try_push_def split: if_splits)
  have "root_vote_is_active rid s1"
    using d by (auto simp: s1'(1) root_vote_active root_vote_valid alist_get_insert verdict_def)
  then have "if has_outcome (cast aye voter d) then end_voting C voter rid s1 = Inr s2 else s2 = s1"
    using e by (auto simp: end_voting_if_outcome_reached_def rv.state_session s1'(1) alist_get_insert)
      (auto simp: get_root_voting_session_def)
  then show ?thesis
    using summary_effect.voting [OF d s1'(2,1)] by blast
qed

lemma hooks_quiet:
  "quiet s (on_voting_completed C pid eref result s)"
  "quiet s (on_cancelled pid eref s)"
proof -
  have review: "quiet s (setup_root_for_admin_review rid pid eref st s)" for rid st
    by (simp add: setup_root_for_admin_review_def Let_def set_summary_status_def)
  have accept: "quiet s (snd (process_accepted_root C rid h (set_summary_status rid Accepted s)))" for rid h
    by (rule quiet_trans [OF _ accepted_quiet]) (simp add: set_summary_status_def)
  show "quiet s (on_cancelled pid eref s)"
    by (auto simp: on_cancelled_def review split: sum.split)
  show "quiet s (on_voting_completed C pid eref result s)"
    using accept by (auto simp: on_voting_completed_def review cleanup_external_validation_data_def
        split: sum.split prod.split) (metis snd_conv)+
qed

lemma process_result_quiet:
  assumes "tx_ok s"
  shows "quiet s (process_result C tx caller succeeded s)"
proof (cases "alist_get tx (tx_id_to_root s)")
  case (Some rid)
  then obtain r where "alist_get rid (roots s) = Some r"
    using assms by (auto simp: tx_ok_def verdict_def)
  then have "quiet s (mutate_root rid (\<lambda>root. root\<lparr>is_finalised := True\<rparr>) s)"
    by (intro quiet_mutate) auto
  then show ?thesis
    using Some by (auto simp: process_result_def Let_def intro!: quiet_tx_remove)
qed (simp add: process_result_def)

lemma admin_effect:
  assumes "set_periods origin p q s = Inr s' \<or> set_admin_config origin c s = Inr s'"
    "\<not> changes_schedule a \<longrightarrow> set_admin_config origin c s = Inr s' \<and> (\<forall>n. c \<noteq> SchedulePeriod n)"
  shows "summary_effect C a s s'"
  using assms
  by (intro summary_effect.settings)
    (auto simp: set_periods_def set_admin_config_def same_roots_def periods_ok_def deposit_event_def
      validate_schedule_period_def validate_voting_period_def Let_def split: admin_config.splits)

lemma dispatch_effect:
  assumes "dispatch_summary C origin call s = Inr s'" "distinct (map fst (roots s))"
  shows "summary_effect C (SummaryCall origin call) s s'"
proof (cases call)
  case (ApproveRoot rid v sig)
  then show ?thesis
    using assms(1) vote_effect [of True C rid "v_account v"]
    by (auto simp: approve_root_def process_vote_def)
next
  case (RejectRoot rid v sig)
  then show ?thesis
    using assms(1) vote_effect [of False C rid "v_account v"]
    by (auto simp: reject_root_def process_vote_def)
next
  case (RecordSummaryCalculation blk h c v sig)
  then show ?thesis
    using assms record_recorded [of C origin blk h c v s s'] by (auto intro: summary_effect.recording)
next
  case (EndVotingPeriod rid v sig)
  then show ?thesis
    using assms by (auto simp: end_voting_period_def intro: summary_effect.ending)
next
  case (AdvanceSlot v sig)
  then show ?thesis
    using assms update_slot_quiet by (auto simp: advance_slot_def intro!: summary_effect.quietly)
next
  case (AddChallenge ch v sig)
  then obtain s1 s2 where "quiet s s1" "update_slot_number C v s1 = Inr s2"
      "s' = deposit_event (ChallengeAdded (challenge_reason ch) (challenger ch) (challengee ch)) s2"
    using assms(1) by (auto simp: add_challenge_def Let_def)
      (metis offence_quiet quiet_refl)
  then show ?thesis
    using quiet_trans [OF _ update_slot_quiet] by (auto intro!: summary_effect.quietly)
next
  case (AdminResolveChallenge rid b)
  then show ?thesis
    using assms(1) committed_quiet
    by (auto simp: admin_resolve_challenge_def cleanup_external_validation_data_def
        intro!: summary_effect.quietly split: if_splits)
next
  case (SetPeriods p q)
  then show ?thesis
    using assms(1) by (intro admin_effect) auto
next
  case (SetAdminConfig c)
  then show ?thesis
    using assms(1) by (intro admin_effect) (auto elim: changes_schedule.elims)
qed

lemma summary_do_effect:
  assumes "distinct (map fst (roots s))" "tx_ok s" "admissible a"
  shows "summary_effect C a s (summary_do C a s)"
proof (cases a)
  case (SummaryCall origin call)
  then show ?thesis
    using dispatch_effect [OF _ assms(1)]
    by (auto split: sum.split intro: summary_effect.quietly)
next
  case NextBlock
  then show ?thesis
    by (auto intro!: summary_effect.settings simp: same_roots_def periods_ok_def)
next
  case (NewSession vs)
  then show ?thesis
    using assms(3) by (auto intro!: summary_effect.settings simp: same_roots_def periods_ok_def)
qed (simp_all add: hooks_quiet process_result_quiet assms(2) summary_effect.quietly)

end
