(* ===== verification/Summary_Inv.thy ===== *)
theory Summary_Inv
  imports Summary_Steps
begin

text \<open>
  What holds in every run of the summary pallet: the invariant on roots and votes, the life
  of a root from its vote to its verdict, and, while the schedule is not changed, the tiling
  of the chain by the approved ranges.
\<close>

section \<open>The invariant\<close>

definition is_pending :: "root_id \<Rightarrow> 'w summary \<Rightarrow> bool" where
  "is_pending rid s \<longleftrightarrow> alist_get (range rid) (pending_approval s) = Some (ingress_counter rid)"

text \<open>The verdict of a root is that of its votes, and a pending root has none yet.\<close>

definition root_ok :: "'w summary \<Rightarrow> root_id \<Rightarrow> bool" where
  "root_ok s rid \<longleftrightarrow> (\<forall>d. alist_get rid (votes_repository s) = Some d \<longrightarrow>
     verdict rid s = Some (is_approved d) \<and> (is_pending rid s \<longrightarrow> \<not> has_outcome d))"

text \<open>\<open>E\<close> are the roots whose vote is being ended.\<close>

definition votes_inv :: "root_id set \<Rightarrow> 'w summary \<Rightarrow> bool" where
  "votes_inv E s \<longleftrightarrow>
     (\<forall>rid. verdict rid s = None \<longleftrightarrow> alist_get rid (votes_repository s) = None) \<and>
     (\<forall>rid d. alist_get rid (votes_repository s) = Some d \<longrightarrow> session_ok d \<and> 1 \<le> threshold d) \<and>
     (\<forall>rid. rid \<notin> E \<longrightarrow> root_ok s rid) \<and>
     (\<forall>rid. is_pending rid s \<longrightarrow> verdict rid s = Some False) \<and>
     (\<forall>rid. verdict rid s = Some True \<longrightarrow> alist_get (range rid) (pending_approval s) = None) \<and>
     (\<forall>rid rid'. verdict rid s = Some True \<longrightarrow> verdict rid' s = Some True \<longrightarrow>
        range rid' = range rid \<longrightarrow> rid' = rid)"

definition summary_inv :: "'w summary \<Rightarrow> bool" where
  "summary_inv s \<longleftrightarrow> votes_inv {} s \<and> distinct (map fst (roots s)) \<and> tx_ok s \<and> periods_ok s \<and>
     length (summary_validators s) < 2 ^ 31"

lemma votes_inv_mono: "votes_inv E s \<Longrightarrow> E \<subseteq> F \<Longrightarrow> votes_inv F s"
  unfolding votes_inv_def by blast

lemma votes_inv_cong:
  assumes "votes_inv E s" "votes_repository s' = votes_repository s"
    "pending_approval s' = pending_approval s" "\<And>rid. verdict rid s' = verdict rid s"
  shows "votes_inv E s'"
  using assms(1) unfolding votes_inv_def root_ok_def is_pending_def assms(2-4) .

lemma quiet_votes_inv: "quiet s s' \<Longrightarrow> votes_inv E s \<Longrightarrow> votes_inv E s'"
  by (rule votes_inv_cong) (auto simp: quiet_def same_votes_def)

lemma ended_votes_inv:
  assumes "votes_inv {rid} s" "end_voting C reporter rid s = Inr s'"
  shows "votes_inv {} s'"
proof -
  obtain d where d: "alist_get rid (votes_repository s) = Some d"
    and pend: "is_pending rid s"
    and s': "votes_repository s' = votes_repository s"
      "pending_approval s' = alist_remove (range rid) (pending_approval s)"
      "\<And>rid'. verdict rid' s' = (if rid' = rid then Some (is_approved d) else verdict rid' s)"
    using end_voting_effect [OF assms(2)] by (auto simp: is_pending_def)
  have p': "is_pending rid' s' \<longleftrightarrow> is_pending rid' s \<and> range rid' \<noteq> range rid" for rid'
    by (simp add: is_pending_def s' alist_get_remove)
  have same: "rid' = rid" if "range rid' = range rid" "is_pending rid' s" for rid'
    using that pend by (simp add: is_pending_def)
  have other: "verdict rid' s \<noteq> Some True" if "range rid' = range rid" for rid'
    using assms(1) that pend by (auto simp: votes_inv_def is_pending_def)
  show ?thesis
    using assms(1) d other unfolding votes_inv_def root_ok_def p' s'(1,3)
    by (auto simp: s'(2) alist_get_remove) 
qed

lemma recorded_votes_inv:
  assumes "votes_inv {} s" "recorded rid d s s'" "1 \<le> threshold d"
  shows "votes_inv {} s'"
proof -
  have s': "votes_repository s' = alist_insert rid d (votes_repository s)"
      "pending_approval s' = alist_insert (range rid) (ingress_counter rid) (pending_approval s)"
      "\<And>rid'. verdict rid' s' = (if rid' = rid then Some False else verdict rid' s)"
    and new: "alist_get (range rid) (pending_approval s) = None"
      "\<And>rid'. range rid' = range rid \<Longrightarrow> verdict rid' s \<noteq> Some True"
      "session_ok d" "\<not> has_outcome d" "\<not> is_approved d"
    using assms(2,3) by (auto simp: recorded_def has_outcome_def is_approved_def)
  have p': "is_pending rid' s' \<longleftrightarrow> rid' = rid \<or> is_pending rid' s \<and> range rid' \<noteq> range rid" for rid'
    by (auto simp: is_pending_def s' alist_get_insert)
  show ?thesis
    using assms(1,3) new unfolding votes_inv_def root_ok_def p' s'(3)
    by (auto simp: s'(1,2) alist_get_insert)
qed

lemma cast_votes_inv:
  assumes "votes_inv {} s" "alist_get rid (votes_repository s) = Some d" "root_vote_is_active rid s"
    "\<not> has_voted voter d" "length (if aye then ayes d else nays d) < MaximumValidatorsBound"
    "s1 = s\<lparr>votes_repository := alist_insert rid (cast aye voter d) (votes_repository s)\<rparr>"
  shows "votes_inv (if has_outcome (cast aye voter d) then {rid} else {}) s1"
proof -
  have v: "verdict rid' s1 = verdict rid' s" "is_pending rid' s1 = is_pending rid' s" for rid'
    by (simp_all add: assms(6) verdict_def is_pending_def)
  have "verdict rid s = Some False"
    using assms(3) by (simp add: root_vote_active root_vote_valid)
  moreover have "session_ok (cast aye voter d)" "1 \<le> threshold d"
    using assms(1,2,4,5) by (auto simp: votes_inv_def intro!: session_ok_cast)
  moreover have "\<not> has_outcome d' \<Longrightarrow> \<not> is_approved d'" for d'
    by (simp add: has_outcome_def is_approved_def)
  ultimately show ?thesis
    using assms(1,2) unfolding votes_inv_def root_ok_def v
    by (auto simp: assms(6) alist_get_insert split: if_splits)
qed

lemma quorum_positive: "0 < n \<Longrightarrow> n < 2 ^ 31 \<Longrightarrow> 1 \<le> required_for n"
  by (simp add: quorum_exact)

lemma summary_effect_inv:
  assumes "summary_effect C a s s'" "summary_inv s"
  shows "summary_inv s'"
  using assms(1)
proof cases
  case quietly
  then show ?thesis
    using assms(2) quiet_votes_inv by (auto simp: summary_inv_def quiet_def same_votes_def
        same_periods_def periods_ok_def)
next
  case settings
  then have "votes_inv {} s'"
    using assms(2) by (intro votes_inv_cong [of "{}" s s'])
      (auto simp: summary_inv_def same_roots_def verdict_def)
  then show ?thesis
    using settings assms(2) by (auto simp: summary_inv_def same_roots_def tx_ok_def verdict_def)
next
  case (recording rid d)
  then have "1 \<le> threshold d"
    using assms(2) quorum_positive by (auto simp: recorded_def get_quorum_def summary_inv_def)
  then show ?thesis
    using recorded_votes_inv [OF _ recording] recording assms(2)
    by (auto simp: summary_inv_def recorded_def same_periods_def periods_ok_def)
next
  case (voting rid d voter aye s1 s2 e)
  have s1: "votes_inv (if has_outcome (cast aye voter d) then {rid} else {}) s1"
    using cast_votes_inv [OF _ voting(1-3,5,6)] assms(2) by (simp add: summary_inv_def)
  have "votes_inv {} s2"
    using ended_votes_inv [of rid s1 C voter s2] s1 voting(7) by (auto split: if_splits)
  then have "votes_inv {} s'"
    by (rule votes_inv_cong) (simp_all add: voting(8) deposit_event_def verdict_def)
  moreover have "distinct (map fst (roots s2))" "tx_ok s2" "periods_ok s2"
      "length (summary_validators s2) < 2 ^ 31"
    using assms(2) voting(6,7) end_voting_effect [of C voter rid s1 s2]
    by (auto simp: summary_inv_def same_periods_def periods_ok_def tx_ok_def verdict_def split: if_splits)
  ultimately show ?thesis
    by (simp add: summary_inv_def voting(8) deposit_event_def periods_ok_def tx_ok_def verdict_def)
next
  case (ending reporter rid)
  then have "votes_inv {} s'"
    using ended_votes_inv votes_inv_mono [of "{}" s "{rid}"] assms(2) by (auto simp: summary_inv_def)
  then show ?thesis
    using end_voting_effect [OF ending] assms(2)
    by (auto simp: summary_inv_def same_periods_def periods_ok_def)
qed

lemma genesis_inv:
  assumes "summary_genesis schedule voting vs w = Some s" "length vs < 2 ^ 31"
  shows "summary_inv s"
proof -
  have "votes_inv {} s"
    using assms by (auto simp: summary_genesis_def Let_def votes_inv_def root_ok_def verdict_def
        is_pending_def split: if_splits list.splits)
  then show ?thesis
    using assms by (auto simp: summary_genesis_def Let_def summary_inv_def tx_ok_def periods_ok_def
        validate_schedule_period_def validate_voting_period_def is_ok_iff split: if_splits list.splits)
qed

lemma summary_reachable_inv: "summary_reachable C P s \<Longrightarrow> summary_inv s"
proof (induction rule: summary_reachable.induct)
  case (act s a)
  then show ?case
    using summary_effect_inv summary_do_effect by (metis summary_inv_def)
qed (rule genesis_inv)

section \<open>The life of a root\<close>

datatype root_status = Voting | Approved | Discarded

definition status :: "root_id \<Rightarrow> 'w summary \<Rightarrow> root_status option" where
  "status rid s = map_option (\<lambda>validated. if validated then Approved
     else if is_pending rid s then Voting else Discarded) (verdict rid s)"

inductive lifecycle :: "root_status option \<Rightarrow> root_status option \<Rightarrow> bool" where
  stays: "lifecycle st st"
| proposed: "lifecycle None (Some Voting)"
| approved: "lifecycle (Some Voting) (Some Approved)"
| discarded: "lifecycle (Some Voting) (Some Discarded)"

inductive_simps lifecycle_simps [simp]:
  "lifecycle st (Some Voting)" "lifecycle (Some Approved) st" "lifecycle (Some Discarded) st"
  "lifecycle (Some Voting) st" "lifecycle None st"

lemma status_cong:
  "pending_approval s' = pending_approval s \<Longrightarrow> verdict rid s' = verdict rid s \<Longrightarrow>
     status rid s' = status rid s"
  by (simp add: status_def is_pending_def)

lemma recorded_status: "recorded rid d s s' \<Longrightarrow> status rid s' = Some Voting"
  by (simp add: recorded_def status_def is_pending_def alist_get_insert)

lemma ended_lifecycle:
  assumes "votes_inv {rid'} s" "end_voting C reporter rid' s = Inr s'"
  shows "lifecycle (status rid s) (status rid s')"
proof -
  obtain d where "is_pending rid' s" "verdict rid' s = Some False"
    and s': "pending_approval s' = alist_remove (range rid') (pending_approval s)"
      "\<And>rid. verdict rid s' = (if rid = rid' then Some (is_approved d) else verdict rid s)"
    using end_voting_effect [OF assms(2)] by (auto simp: is_pending_def verdict_def)
  then show ?thesis
    by (cases "rid = rid'"; cases "range rid = range rid'"; cases "verdict rid s")
      (auto simp: status_def is_pending_def alist_get_remove lifecycle.stays)
qed

lemma summary_effect_lifecycle:
  assumes "summary_effect C a s s'" "summary_inv s"
  shows "lifecycle (status rid s) (status rid s')"
  using assms(1)
proof cases
  case quietly
  then have "status rid s' = status rid s"
    by (intro status_cong) (auto simp: quiet_def same_votes_def)
  then show ?thesis
    by (simp add: lifecycle.stays)
next
  case settings
  then have "status rid s' = status rid s"
    by (intro status_cong) (auto simp: same_roots_def verdict_def)
  then show ?thesis
    by (simp add: lifecycle.stays)
next
  case (recording rid' d)
  then have s': "pending_approval s' = alist_insert (range rid') (ingress_counter rid') (pending_approval s)"
      "\<And>rid. verdict rid s' = (if rid = rid' then Some False else verdict rid s)"
      "alist_get (range rid') (pending_approval s) = None" "alist_get rid' (votes_repository s) = None"
    by (auto simp: recorded_def)
  then have "verdict rid' s = None"
    using assms(2) by (auto simp: summary_inv_def votes_inv_def)
  then show ?thesis
    using s' by (cases "rid = rid'"; cases "range rid = range rid'")
      (auto simp: status_def is_pending_def alist_get_insert lifecycle.stays)
next
  case (voting rid' d voter aye s1 s2 e)
  have s1: "votes_inv (if has_outcome (cast aye voter d) then {rid'} else {}) s1"
    using cast_votes_inv [OF _ voting(1-3,5,6)] assms(2) by (simp add: summary_inv_def)
  have "status rid s1 = status rid s" "status rid s' = status rid s2"
    using voting(6,8) by (auto intro!: status_cong simp: deposit_event_def verdict_def)
  then show ?thesis
    using ended_lifecycle [of rid' s1 C voter s2 rid] s1 voting(7)
    by (auto simp: lifecycle.stays split: if_splits)
next
  case (ending reporter rid')
  then show ?thesis
    using ended_lifecycle votes_inv_mono [of "{}" s "{rid'}"] assms(2) by (auto simp: summary_inv_def)
qed

section \<open>The approved ranges tile the chain\<close>

definition covers :: "root_id \<Rightarrow> nat \<Rightarrow> bool" where
  "covers rid b \<longleftrightarrow> from_block (range rid) \<le> b \<and> b \<le> to_block (range rid)"

definition tiled :: "'w summary \<Rightarrow> bool" where
  "tiled s \<longleftrightarrow> (\<forall>rid. is_pending rid s \<longrightarrow> range rid = next_range s) \<and>
     (\<forall>b < next_block_to_process s. \<exists>!rid. verdict rid s = Some True \<and> covers rid b) \<and>
     (\<forall>rid b. verdict rid s = Some True \<longrightarrow> covers rid b \<longrightarrow> b < next_block_to_process s)"

lemma tiled_cong:
  assumes "tiled s" "pending_approval s' = pending_approval s"
    "next_block_to_process s' = next_block_to_process s" "schedule_period s' = schedule_period s"
    "\<And>rid. verdict rid s' = verdict rid s"
  shows "tiled s'"
  using assms(1) unfolding tiled_def is_pending_def next_range_def assms(2-5) .

lemma ended_tiled:
  assumes "tiled s" "end_voting C reporter rid s = Inr s'" "0 < schedule_period s"
  shows "tiled s'"
proof -
  obtain d where pend: "is_pending rid s" and old: "verdict rid s = Some False"
    and s': "pending_approval s' = alist_remove (range rid) (pending_approval s)"
      "\<And>rid'. verdict rid' s' = (if rid' = rid then Some (is_approved d) else verdict rid' s)"
      "next_block_to_process s' =
        (if is_approved d then Suc (to_block (range rid)) else next_block_to_process s)"
      "schedule_period s' = schedule_period s"
    using end_voting_effect [OF assms(2)] by (auto simp: is_pending_def verdict_def same_periods_def)
  have rng: "range rid = next_range s"
    using assms(1) pend by (auto simp: tiled_def)
  have none: "\<not> is_pending rid' s'" for rid'
    using assms(1) rng by (auto simp: tiled_def is_pending_def s' alist_get_remove)
  have new: "covers rid b \<longleftrightarrow> next_block_to_process s \<le> b \<and> b < next_block_to_process s'" if "is_approved d" for b
    using that by (auto simp: covers_def rng s'(3) next_range_def)
  have later: "next_block_to_process s \<le> next_block_to_process s'"
    using assms(3) by (auto simp: s'(3) rng next_range_def)
  show ?thesis
  proof (cases "is_approved d")
    case True
    have T: "\<And>b. b < next_block_to_process s \<Longrightarrow> \<exists>!rid. verdict rid s = Some True \<and> covers rid b"
        "\<And>rid b. verdict rid s = Some True \<Longrightarrow> covers rid b \<Longrightarrow> b < next_block_to_process s"
      using assms(1) by (simp_all add: tiled_def)
    have P: "verdict rid' s' = Some True \<and> covers rid' b \<longleftrightarrow>
        rid' = rid \<and> next_block_to_process s \<le> b \<and> b < next_block_to_process s' \<or>
        verdict rid' s = Some True \<and> covers rid' b" for rid' b
      using new [OF True] old True by (auto simp: s'(2))
    have "\<exists>!rid'. verdict rid' s' = Some True \<and> covers rid' b" if b: "b < next_block_to_process s'" for b
    proof (cases "b < next_block_to_process s")
      case True
      then show ?thesis
        unfolding P using T(1) [OF True] by simp
    next
      case False
      then show ?thesis
        unfolding P using b T(2) by (intro ex1I [of _ rid]) auto
    qed
    moreover have "b < next_block_to_process s'" if "verdict rid' s' = Some True" "covers rid' b" for rid' b
      using P [of rid' b] that T(2) later by (meson less_le_trans)
    ultimately show ?thesis
      using none unfolding tiled_def by blast
  next
    case False
    then have "verdict rid' s' = verdict rid' s" for rid'
      by (simp add: s'(2) old)
    then show ?thesis
      using assms(1) none False unfolding tiled_def s'(3) by simp
  qed
qed

lemma summary_effect_tiled:
  assumes "summary_effect C a s s'" "summary_inv s" "tiled s" "\<not> changes_schedule a"
  shows "tiled s'"
  using assms(1)
proof cases
  case quietly
  then show ?thesis
    using assms(3) by (intro tiled_cong [of s s']) (auto simp: quiet_def same_votes_def same_periods_def)
next
  case settings
  then show ?thesis
    using assms(3,4) by (intro tiled_cong [of s s']) (auto simp: same_roots_def verdict_def)
next
  case (recording rid d)
  then have "\<And>rid'. verdict rid' s' = (if rid' = rid then Some False else verdict rid' s)"
    by (auto simp: recorded_def)
  moreover have "verdict rid s \<noteq> Some True" "next_block_to_process s' = next_block_to_process s"
      "next_range s' = next_range s" "range rid = next_range s"
    using recording by (auto simp: recorded_def next_range_def same_periods_def)
  moreover have "verdict rid' s' = Some True \<longleftrightarrow> verdict rid' s = Some True" for rid'
    using calculation(1,2) by (simp split: if_splits)
  moreover have "is_pending rid' s' \<longrightarrow> range rid' = next_range s" for rid'
    using recording assms(3) by (auto simp: recorded_def is_pending_def alist_get_insert tiled_def split: if_splits)
  ultimately show ?thesis
    using assms(3) unfolding tiled_def by simp
next
  case (voting rid d voter aye s1 s2 e)
  have "tiled s1"
    by (rule tiled_cong [OF assms(3)]) (simp_all add: voting(6) verdict_def)
  moreover have "0 < schedule_period s1"
    using assms(2) voting(6) by (simp add: summary_inv_def periods_ok_def)
  ultimately have "tiled s2"
    using ended_tiled [of s1 C voter rid s2] voting(7) by (auto split: if_splits)
  then show ?thesis
    by (rule tiled_cong) (simp_all add: voting(8) deposit_event_def verdict_def)
next
  case (ending reporter rid)
  then show ?thesis
    using ended_tiled [OF assms(3) ending] assms(2) by (simp add: summary_inv_def periods_ok_def)
qed

lemma summary_reachable_tiled:
  "summary_reachable C (\<lambda>a. \<not> changes_schedule a) s \<Longrightarrow> tiled s"
proof (induction rule: summary_reachable.induct)
  case (start schedule voting vs w s)
  then show ?case
    by (auto simp: summary_genesis_def Let_def tiled_def is_pending_def verdict_def
        split: if_splits list.splits)
next
  case (act s a)
  then show ?case
    using summary_effect_tiled summary_do_effect summary_reachable_inv by (metis summary_inv_def)
qed

end
