(* ===== verification/Summary_Properties.thy ===== *)
theory Summary_Properties
  imports Summary_Inv
begin

text \<open>
  The properties of the AvN pallet's validators and votes and of the summary pallet, each
  with a run of a small chain that it applies to.
\<close>

section \<open>A small chain\<close>

definition demo_validator :: validator where
  "demo_validator = \<lparr>v_account = 7, v_key = 70\<rparr>"

text \<open>The bridge hands out the transaction number 5, and the key signs with its own value.\<close>

definition demo_summary_config :: "(unit, nat) summary_config" where
  "demo_summary_config = \<lparr>AdvanceSlotGracePeriod = 5, MinBlockAge = 1, AutoSubmitSummaries = True,
     InstanceId = 1, ExternalValidationEnabled = False, encode_root_id = (\<lambda>_. []),
     hash_of = (\<lambda>_. 0), verify = (\<lambda>k _ sig. sig = k), publish = (\<lambda>_ _ w. (Inr 5, w)),
     submit_proposal = (\<lambda>_ w. Inr w), current_index = (\<lambda>_. 0), identification = (\<lambda>_ a. Some a),
     is_known_offence = (\<lambda>_ _ _. True), report_offence = (\<lambda>_ _ w. w)\<rparr>"

definition demo_genesis :: "unit summary" where
  "demo_genesis = the (summary_genesis 30 25 [demo_validator] ())"

definition demo_root :: "nat \<Rightarrow> nat \<Rightarrow> root_id" where
  "demo_root to_blk counter =
     \<lparr>range = \<lparr>from_block = 0, to_block = to_blk\<rparr>, ingress_counter = counter\<rparr>"

definition demo_record :: "nat \<Rightarrow> nat \<Rightarrow> (unit, nat) summary_action" where
  "demo_record to_blk counter =
     SummaryCall Unsigned (RecordSummaryCalculation to_blk 9 counter demo_validator 70)"

definition demo_approve :: "nat \<Rightarrow> nat \<Rightarrow> (unit, nat) summary_action" where
  "demo_approve to_blk counter =
     SummaryCall Unsigned (ApproveRoot (demo_root to_blk counter) demo_validator 70)"

abbreviation demo_do :: "(unit, nat) summary_action \<Rightarrow> unit summary \<Rightarrow> unit summary" where
  "demo_do \<equiv> summary_do demo_summary_config"

lemma demo_genesis_some: "summary_genesis 30 25 [demo_validator] () = Some demo_genesis"
  by (simp add: demo_genesis_def summary_genesis_def Let_def validate_schedule_period_def
      validate_voting_period_def MIN_SCHEDULE_PERIOD_def MIN_VOTING_PERIOD_def MAX_VOTING_PERIOD_def)

lemmas demo_defs = demo_summary_config_def demo_validator_def demo_root_def demo_record_def
  demo_approve_def record_summary_validate_unsigned_def signature_is_valid_def is_validator_def
  record_summary_calculation_def Let_def get_target_block_def safe_add_block_numbers_def
  safe_sub_block_numbers_def checked_add32_def checked_sub32_def u32_max_def
  summary_is_neither_pending_nor_approved_def get_quorum_def quorum_exact deposit_event_def
  new_root_data_def new_voting_session_data_def session_id_def truncate_from_def wrapping_add64_def

lemma demo_genesis_simps:
  "demo_genesis = \<lparr>next_block_to_process = 0, tx_id_to_root = [],
            next_slot_at_block = 30, current_slot = 0,
            current_slots_validator = Some 7, slot_of_last_published_summary = 0,
            roots = [], votes_repository = [], pending_approval = [], total_ingresses = 0,
            schedule_period = 30, voting_period = 25,
            anchor_roots_counter = 0, anchor_roots = [], external_validation_status = [],
            external_validation_ref = [], pending_admin_reviews = [],
            external_validation_threshold = None, summary_validators = [demo_validator], block_number = 0,
            summary_events = [], summary_world = ()\<rparr>"
  by (simp add: demo_genesis_def summary_genesis_def Let_def validate_schedule_period_def
      validate_voting_period_def MIN_SCHEDULE_PERIOD_def MIN_VOTING_PERIOD_def MAX_VOTING_PERIOD_def
      demo_validator_def)

lemmas demo_vote_defs = approve_vote_validate_unsigned_def validate_vote_def get_root_voting_session_def
  root_vote_active root_vote_valid verdict_def root_vote_state_def has_voted_def approve_root_def
  vote_verify_def try_get_root_data_def process_approve_vote_def root_record_approve_vote_def get_vote_def
  try_push_def MaximumValidatorsBound_def end_voting_if_outcome_reached_def has_outcome_def end_voting_def
  can_end_vote_def is_approved_def empty_root_def committed_def process_accepted_root_def
  send_root_to_ethereum_def mutate_root_def create_and_report_summary_offence_def
  create_offenders_identification_def

lemma demo_reachable: "summary_reachable demo_summary_config P demo_genesis"
  by (rule summary_reachable.start [OF demo_genesis_some]) simp

definition demo_voting :: "unit summary" where
  "demo_voting = demo_do (demo_record 30 1) demo_genesis"

definition demo_approved :: "unit summary" where
  "demo_approved = demo_do (demo_approve 30 1) demo_voting"

lemma demo_voting_reachable: "(\<And>a. \<not> changes_schedule a \<Longrightarrow> P a) \<Longrightarrow>
    summary_reachable demo_summary_config P demo_voting"
  unfolding demo_voting_def by (rule summary_reachable.act [OF demo_reachable]) (simp_all add: demo_record_def)

lemma demo_approved_reachable: "(\<And>a. \<not> changes_schedule a \<Longrightarrow> P a) \<Longrightarrow>
    summary_reachable demo_summary_config P demo_approved"
  unfolding demo_approved_def by (rule summary_reachable.act [OF demo_voting_reachable])
    (simp_all add: demo_approve_def)

lemma demo_approved_facts:
  "map_option is_validated (alist_get (demo_root 30 1) (roots demo_approved)) = Some True"
  "next_block_to_process demo_approved = 31"
  by (simp_all add: demo_approved_def demo_voting_def demo_defs demo_vote_defs demo_genesis_simps)

lemma demo_voting_facts:
  "alist_get (demo_root 30 1) (roots demo_voting) = Some
     \<lparr>root_hash = 9, added_by = Some 7, is_validated = False, is_finalised = False, tx_id = None\<rparr>"
  "is_pending (demo_root 30 1) demo_voting"
  by (simp_all add: demo_voting_def demo_defs demo_genesis_simps is_pending_def)

text \<open>The second slot, in which the first range can be summarised.\<close>

definition demo_ready :: "unit summary" where
  "demo_ready = demo_do (SummaryCall Unsigned (AdvanceSlot demo_validator 70))
     (fold demo_do (replicate 30 NextBlock) demo_genesis)"

lemma demo_ready_reachable: "(\<And>a. \<not> changes_schedule a \<Longrightarrow> P a) \<Longrightarrow>
    summary_reachable demo_summary_config P demo_ready"
  unfolding demo_ready_def
  by (rule summary_reachable.act [OF summary_reachable_run [OF demo_reachable]]) auto

lemma demo_blocks: "fold demo_do (replicate n NextBlock) s = s\<lparr>block_number := n + block_number s\<rparr>"
  by (induction n arbitrary: s) simp_all

lemma demo_ready_eq:
  "demo_ready = demo_genesis\<lparr>block_number := 30, current_slot := 1, next_slot_at_block := 60,
     summary_events := [SlotAdvanced 7 1 7 60]\<rparr>"
  unfolding demo_ready_def demo_blocks
  by (simp add: demo_defs demo_genesis_simps advance_slot_validate_unsigned_def advance_slot_def
      update_slot_number_def validator_can_advance_slot_def grace_period_elapsed_def
      register_offence_if_no_summary_created_in_slot_def calculate_primary_validator_for_block_def)

section \<open>Validators\<close>

text \<open>C23: The turn to send a transaction passes to the next validator in the list and comes
  round again after the last one. With exactly 256 validators, the bound of the list, the
  number of validators does not fit the counter's type, and the reduction divides by zero.\<close>

theorem sending_turn_passes_on:
  assumes "avn_validators s \<noteq> []" "length (avn_validators s) \<le> MaximumValidatorsBound"
    "primary_collator_index s < length (avn_validators s)"
  shows "advance_primary_validator_for_sending s =
    (if length (avn_validators s) = MaximumValidatorsBound then Inl AvnPanic
     else let i = Suc (primary_collator_index s) mod length (avn_validators s)
          in Inr (v_account (avn_validators s ! i), s\<lparr>primary_collator_index := i\<rparr>))"
  using assms advance_rotates [of s]
  by (auto simp: MaximumValidatorsBound_def advance_primary_validator_for_sending_def Let_def)

theorem sending_turn_passes_on_witness:
  "advance_primary_validator_for_sending
     \<lparr>avn_validators = [\<lparr>v_account = 1, v_key = 10\<rparr>, \<lparr>v_account = 2, v_key = 20\<rparr>],
      primary_collator_index = 1, bridge_contract_address = 0\<rparr> =
   Inr (1, \<lparr>avn_validators = [\<lparr>v_account = 1, v_key = 10\<rparr>, \<lparr>v_account = 2, v_key = 20\<rparr>],
      primary_collator_index = 0, bridge_contract_address = 0\<rparr>)"
  by (subst sending_turn_passes_on) (simp_all add: MaximumValidatorsBound_def)

section \<open>Votes\<close>

text \<open>C17: In every run of the summary pallet a root carries the mark of approval exactly when
  its votes reach the threshold, nobody's vote is counted twice, and a root that is still
  pending has not reached the threshold on either side.\<close>

theorem root_verdict_is_the_votes:
  assumes "summary_reachable C P s" "alist_get rid (roots s) = Some r"
  shows "\<exists>d. alist_get rid (votes_repository s) = Some d \<and> distinct (ayes d @ nays d) \<and>
    1 \<le> threshold d \<and> (is_validated r \<longleftrightarrow> threshold d \<le> length (ayes d)) \<and>
    (is_pending rid s \<longrightarrow> length (ayes d) < threshold d \<and> length (nays d) < threshold d)"
proof -
  have inv: "votes_inv {} s"
    using summary_reachable_inv [OF assms(1)] by (simp add: summary_inv_def)
  have v: "verdict rid s = Some (is_validated r)"
    by (simp add: verdict_def assms(2))
  then obtain d where "alist_get rid (votes_repository s) = Some d"
    using inv unfolding votes_inv_def by (metis option.distinct(1) option.exhaust)
  moreover from this have "session_ok d" "1 \<le> threshold d" "root_ok s rid"
    using inv by (auto simp: votes_inv_def)
  ultimately show ?thesis
    using v by (auto simp: root_ok_def session_ok_def is_approved_def has_outcome_def not_le)
qed

theorem root_verdict_is_the_votes_witness:
  "\<exists>d. alist_get (demo_root 30 1) (votes_repository demo_voting) = Some d \<and>
    length (ayes d) < threshold d"
  using root_verdict_is_the_votes [OF demo_voting_reachable demo_voting_facts(1), of "\<lambda>_. True"]
    demo_voting_facts(2) by blast

text \<open>C18: A root goes from its vote to its verdict once: one action of the chain proposes it,
  approves it or discards it, and an approved or discarded root stays so.\<close>

theorem root_lifecycle:
  assumes "summary_reachable C P s" "admissible a"
  shows "lifecycle (status rid s) (status rid (summary_do C a s))"
proof (rule summary_effect_lifecycle)
  show inv: "summary_inv s"
    using assms(1) by (rule summary_reachable_inv)
  then show "summary_effect C a s (summary_do C a s)"
    using assms(2) by (intro summary_do_effect) (simp_all add: summary_inv_def)
qed

theorem root_lifecycle_witness:
  "lifecycle (status (demo_root 30 1) demo_voting)
     (status (demo_root 30 1) (demo_do (demo_approve 30 1) demo_voting))"
  by (rule root_lifecycle [OF demo_voting_reachable [of "\<lambda>_. True"]]) (simp_all add: demo_approve_def)

text \<open>C19: As long as nobody changes the schedule period, the approved ranges tile the chain:
  a block lies in exactly one approved root if it is before the next one to process, and in
  none otherwise.\<close>

theorem blocks_summarised_once:
  assumes "summary_reachable C (\<lambda>a. \<not> changes_schedule a) s"
  shows "if b < next_block_to_process s then \<exists>!rid. status rid s = Some Approved \<and> covers rid b
    else \<not> (\<exists>rid. status rid s = Some Approved \<and> covers rid b)"
proof -
  have "status r s = Some Approved \<longleftrightarrow> verdict r s = Some True" for r
    by (auto simp: status_def split: if_splits)
  then show ?thesis
    using summary_reachable_tiled [OF assms] unfolding tiled_def by auto
qed

theorem blocks_summarised_once_witness:
  "\<exists>!rid. status rid demo_approved = Some Approved \<and> covers rid 30"
  using blocks_summarised_once [OF demo_approved_reachable, of 30] by (simp add: demo_approved_facts)



text \<open>C21: A validator who has voted on a root, on either side, cannot vote on it again.\<close>

theorem one_vote_each:
  assumes "alist_get rid (votes_repository s) = Some d" "has_voted (v_account v) d"
  shows "\<not> is_ok (approve_root C origin rid v s) \<and> \<not> is_ok (reject_root C origin rid v s)"
  using rv.no_second_vote [OF assms, where aye = True and C = C]
    rv.no_second_vote [OF assms, where aye = False and C = C]
  by (auto simp: approve_root_def reject_root_def process_vote_def is_ok_iff)

theorem one_vote_each_witness:
  "\<not> is_ok (reject_root demo_summary_config Unsigned (demo_root 30 1) demo_validator demo_approved)"
proof -
  obtain d where "alist_get (demo_root 30 1) (votes_repository demo_approved) = Some d"
      "has_voted (v_account demo_validator) d"
    by (simp add: demo_approved_def demo_voting_def demo_defs demo_vote_defs demo_genesis_simps)
  from one_vote_each [OF this] show ?thesis
    by blast
qed

text \<open>C22: The key that a vote is checked against is the one submitted with it. Only the account
  has to be a validator's: whatever the key \<open>k\<close>, and whichever key is registered for the account, a
  vote that \<open>k\<close> has signed is admitted to the pool for every validator who has not voted yet. A
  vote that does not yet decide is then counted as the validator's.\<close>

theorem foreign_key_votes:
  assumes "alist_get rid (votes_repository s) = Some d" "root_vote_is_active rid s"
    "is_validator (summary_validators s) a" "\<not> has_voted a d" "alist_get rid (roots s) \<noteq> None"
    and "verify C k (VotePayload (CastVotePayload CAST_VOTE_CONTEXT (voting_session_id d) True)) sig"
    and "length (ayes d) < MaximumValidatorsBound" "\<not> has_outcome (cast True a d)"
    and "call = ApproveRoot rid \<lparr>v_account = a, v_key = k\<rparr> sig"
  shows "accepted (validate_unsigned C call s) \<and>
    alist_get rid (votes_repository (summary_do C (SummaryCall Unsigned call) s)) = Some (cast True a d)"
proof -
  let ?V = "get_root_voting_session C rid"
  have state: "root_vote_state rid s = Inr d"
    using assms(1) rv.state_session [of C rid s d] by (simp add: get_root_voting_session_def)
  then have valid: "validate_vote ?V a s = Inr ()"
    using assms(2-4) by (simp add: validate_vote_def get_root_voting_session_def)
  have ok: "accepted (validate_unsigned C call s)"
    using valid [unfolded get_root_voting_session_def] state assms(3,5,6)
    by (simp add: assms(9) approve_vote_validate_unsigned_def get_root_voting_session_def Let_def
        signature_is_valid_def vote_verify_def)
  let ?s1 = "s\<lparr>votes_repository := alist_insert rid (cast True a d) (votes_repository s)\<rparr>"
  have "record_approve_vote ?V a s = Inr ?s1"
    using assms(1,7) by (simp add: get_root_voting_session_def root_record_approve_vote_def Let_def get_vote_def
        try_push_def cast_def)
  moreover have "end_voting_if_outcome_reached ?V a ?s1 = Inr ?s1"
    using assms(8) rv.state_session [of C rid ?s1 "cast True a d"]
    by (simp add: end_voting_if_outcome_reached_def alist_get_insert)
  ultimately have "process_approve_vote ?V a s = Inr ?s1"
    using valid by (simp add: process_approve_vote_def)
  then show ?thesis
    using ok assms(5)
    by (auto simp: assms(9) approve_root_def try_get_root_data_def deposit_event_def alist_get_insert)
qed

text \<open>The same vote on the small chain, when it needs two votes.\<close>

definition demo_two_votes :: "unit summary" where
  "demo_two_votes = demo_voting\<lparr>votes_repository := [(demo_root 30 1, new_voting_session_data [] 2 25 0)]\<rparr>"

theorem foreign_key_votes_witness:
  "let v = \<lparr>v_account = v_account demo_validator, v_key = 99\<rparr>; call = ApproveRoot (demo_root 30 1) v 99 in
   v \<notin> set (summary_validators demo_two_votes) \<and> accepted (validate_unsigned demo_summary_config call demo_two_votes) \<and>
   alist_get (demo_root 30 1) (votes_repository (demo_do (SummaryCall Unsigned call) demo_two_votes)) =
     Some (cast True 7 (new_voting_session_data [] 2 25 0))"
proof -
  have "accepted (validate_unsigned demo_summary_config (ApproveRoot (demo_root 30 1) \<lparr>v_account = 7, v_key = 99\<rparr> 99) demo_two_votes) \<and>
    alist_get (demo_root 30 1) (votes_repository
      (demo_do (SummaryCall Unsigned (ApproveRoot (demo_root 30 1) \<lparr>v_account = 7, v_key = 99\<rparr> 99)) demo_two_votes)) =
     Some (cast True 7 (new_voting_session_data [] 2 25 0))"
    by (rule foreign_key_votes)
      (simp_all add: demo_two_votes_def demo_voting_def demo_defs demo_genesis_simps root_vote_active root_vote_valid
        verdict_def has_voted_def MaximumValidatorsBound_def has_outcome_def cast_def)
  moreover have "\<lparr>v_account = 7, v_key = 99\<rparr> \<notin> set (summary_validators demo_two_votes)"
    by (simp add: demo_two_votes_def demo_voting_def demo_defs demo_genesis_simps)
  ultimately show ?thesis
    by (simp add: demo_validator_def Let_def del: summary_do.simps validate_unsigned.simps)
qed

section \<open>The off-chain worker\<close>

text \<open>What the worker of the slot's validator submits is taken: when it may process the
  next range, the transaction it signs passes the checks of the pool and of the call, and
  the root is then pending.\<close>

theorem worker_summary_accepted:
  assumes "summary_reachable C P s"
    and "can_process_summary C False blk target v s" "get_target_block s = Inr target"
    and "record_summary C sign target h v s = Inr call"
    and "\<And>p sig. sign (v_key v) p = Some sig \<Longrightarrow> verify C (v_key v) p sig"
    and "is_validator (summary_validators s) (v_account v)"
    and "alist_get \<lparr>range = next_range s, ingress_counter = wrapping_add64 (total_ingresses s) 1\<rparr>
      (votes_repository s) = None"
    and "block_number s + voting_period s \<le> u32_max"
  shows "accepted (validate_unsigned C call s) \<and>
    (\<exists>s'. dispatch_summary C Unsigned call s = Inr s' \<and>
      status \<lparr>range = next_range s, ingress_counter = wrapping_add64 (total_ingresses s) 1\<rparr> s' =
        Some Voting)"
proof -
  have rng: "\<lparr>from_block = next_block_to_process s, to_block = target\<rparr> = next_range s"
    using target_block [OF assms(3)] by (simp add: next_range_def)
  obtain sig where sig: "sign (v_key v) (SummaryPayload (update_block_number_context C) h
        (wrapping_add64 (total_ingresses s) 1) target) = Some sig"
    and call: "call = RecordSummaryCalculation target h (wrapping_add64 (total_ingresses s) 1) v sig"
    using assms(4) by (auto simp: record_summary_def Let_def)
  have can: "current_slots_validator s = Some (v_account v)"
      "summary_is_neither_pending_nor_approved (next_range s) s"
    using assms(2) by (auto simp: can_process_summary_def rng split: sum.splits)
  have "validate_unsigned C call s = ValidWith (SummaryTag (update_block_number_context C) h
      (wrapping_add64 (total_ingresses s) 1))"
    using can assms(5) [OF sig] assms(6)
    by (simp add: call record_summary_validate_unsigned_def signature_is_valid_def)
  moreover have "\<exists>s'. dispatch_summary C Unsigned call s = Inr s'"
    using can(2) assms(3,6-8) by (simp add: call record_summary_calculation_def Let_def rng
        safe_add_block_numbers_def checked_add32_def)
  moreover have "distinct (map fst (roots s))"
    using summary_reachable_inv [OF assms(1)] by (simp add: summary_inv_def)
  ultimately show ?thesis
    using record_recorded recorded_status by (fastforce simp: call)
qed

theorem worker_summary_accepted_witness:
  "\<exists>s'. dispatch_summary demo_summary_config Unsigned
      (RecordSummaryCalculation 30 9 1 demo_validator 70) demo_ready = Inr s'"
  using worker_summary_accepted [OF demo_ready_reachable [of "\<lambda>_. True"],
      where blk = 32 and target = 30 and v = demo_validator and h = 9 and sign = "\<lambda>k _. Some k"
        and call = "RecordSummaryCalculation 30 9 1 demo_validator 70"]
  by (simp add: demo_ready_eq demo_genesis_simps demo_defs can_process_summary_def record_summary_def
      next_range_def)

end
