(* ===== verification/Eth_Codec.thy ===== *)
theory Eth_Codec
  imports Avn_Runtime
begin

text \<open>
  Bytes and their layout on the way to Ethereum (\<open>primitives/avn-common/src/eth/mod.rs\<close>).
  A byte is a natural number below 256, an \<open>H160\<close> and an \<open>H256\<close> are the numbers their
  bytes denote, the most significant byte first. The parameters of a lower are packed into
  116 bytes and unpacked again when the proof is made.
\<close>

section \<open>Big-endian bytes\<close>

type_synonym bytes = "nat list"

fun to_be_bytes :: "nat \<Rightarrow> nat \<Rightarrow> bytes" where
  "to_be_bytes 0 x = []"
| "to_be_bytes (Suc n) x = to_be_bytes n (x div 256) @ [x mod 256]"

definition from_be_bytes :: "bytes \<Rightarrow> nat" where
  "from_be_bytes bs = foldl (\<lambda>a b. a * 256 + b) 0 bs"

definition bytes_ok :: "bytes \<Rightarrow> bool" where
  "bytes_ok bs \<longleftrightarrow> (\<forall>b\<in>set bs. b < 256)"

lemma length_to_be_bytes [simp]: "length (to_be_bytes n x) = n"
  by (induction n x rule: to_be_bytes.induct) simp_all

lemma bytes_ok_to_be_bytes [simp]: "bytes_ok (to_be_bytes n x)"
  by (induction n x rule: to_be_bytes.induct) (auto simp: bytes_ok_def)

lemma from_be_bytes_Nil [simp]: "from_be_bytes [] = 0"
  by (simp add: from_be_bytes_def)

lemma from_be_bytes_snoc: "from_be_bytes (bs @ [b]) = from_be_bytes bs * 256 + b"
  by (simp add: from_be_bytes_def)

lemma from_to_be_bytes: "from_be_bytes (to_be_bytes n x) = x mod 256 ^ n"
proof (induction n x rule: to_be_bytes.induct)
  case (2 n x)
  have "x mod 256 ^ Suc n = 256 * (x div 256 mod 256 ^ n) + x mod 256"
    by (simp add: mod_mult2_eq)
  then show ?case
    using 2 by (simp add: from_be_bytes_snoc)
qed simp

lemma from_to_be_bytes_exact [simp]: "x < 256 ^ n \<Longrightarrow> from_be_bytes (to_be_bytes n x) = x"
  by (simp add: from_to_be_bytes)

lemma from_be_bytes_bound: "bytes_ok bs \<Longrightarrow> from_be_bytes bs < 256 ^ length bs"
proof (induction bs rule: rev_induct)
  case (snoc b bs)
  then have "from_be_bytes bs < 256 ^ length bs" "b < 256"
    by (auto simp: bytes_ok_def)
  then have "from_be_bytes bs * 256 + b < 256 ^ length bs * 256"
    by linarith
  then show ?case
    by (simp add: from_be_bytes_snoc)
qed simp

lemma to_from_be_bytes: "bytes_ok bs \<Longrightarrow> to_be_bytes (length bs) (from_be_bytes bs) = bs"
  by (induction bs rule: rev_induct) (auto simp: from_be_bytes_snoc bytes_ok_def)

section \<open>Spans of a buffer\<close>

definition span :: "nat \<Rightarrow> nat \<Rightarrow> bytes \<Rightarrow> bytes" where
  "span a b buf = take (b - a) (drop a buf)"

definition write_span :: "nat \<Rightarrow> bytes \<Rightarrow> bytes \<Rightarrow> bytes" where
  "write_span a src buf = take a buf @ src @ drop (a + length src) buf"

lemma length_write_span [simp]: "a + length src \<le> length buf \<Longrightarrow> length (write_span a src buf) = length buf"
  by (simp add: write_span_def)

lemma span_write_same:
  "a + length src \<le> length buf \<Longrightarrow> span a (a + length src) (write_span a src buf) = src"
  by (simp add: span_def write_span_def)

lemma span_write_other:
  assumes "a + length src \<le> length buf" "b' \<le> a \<or> a + length src \<le> a'"
  shows "span a' b' (write_span a src buf) = span a' b' buf"
  using assms by (auto simp: span_def write_span_def intro!: nth_equalityI)

lemma bytes_ok_zeros [simp]: "bytes_ok (replicate n 0)"
  by (simp add: bytes_ok_def)

lemma bytes_ok_write: "bytes_ok src \<Longrightarrow> bytes_ok buf \<Longrightarrow> bytes_ok (write_span a src buf)"
  by (auto simp: bytes_ok_def write_span_def dest: in_set_takeD in_set_dropD)

section \<open>The parameters of a lower\<close>

definition PACKED_LOWER_V1_PARAMS_SIZE :: nat where "PACKED_LOWER_V1_PARAMS_SIZE = 76"
definition PACKED_LOWER_V2_PARAMS_SIZE :: nat where "PACKED_LOWER_V2_PARAMS_SIZE = 116"

type_synonym lower_params = bytes

record lower_data =
  lower_token :: nat
  lower_amount :: nat
  lower_recipient :: nat
  lowerId :: nat
  t2Sender :: nat
  t2Timestamp :: nat

definition concat_lower_data :: "nat \<Rightarrow> nat \<Rightarrow> nat \<Rightarrow> nat \<Rightarrow> nat \<Rightarrow> nat \<Rightarrow> lower_params" where
  "concat_lower_data lower_id token_id amt t1_recipient t2_sender t2_timestamp =
     (let p0 = replicate PACKED_LOWER_V2_PARAMS_SIZE 0;
          p1 = write_span 0 (to_be_bytes 20 token_id) p0;
          p2 = write_span 20 (replicate 16 0) p1;
          p3 = write_span 36 (to_be_bytes 16 amt) p2;
          p4 = write_span 52 (to_be_bytes 20 t1_recipient) p3;
          p5 = write_span 72 (to_be_bytes 4 lower_id) p4;
          p6 = write_span PACKED_LOWER_V1_PARAMS_SIZE (to_be_bytes 32 t2_sender) p5
      in write_span 108 (to_be_bytes 8 t2_timestamp) p6)"

definition lower_data_try_from :: "lower_params \<Rightarrow> unit + lower_data" where
  "lower_data_try_from p =
     (if length p \<noteq> PACKED_LOWER_V2_PARAMS_SIZE then Inl ()
      else Inr \<lparr>lower_token = from_be_bytes (span 0 20 p),
                lower_amount = from_be_bytes (span 36 52 p),
                lower_recipient = from_be_bytes (span 52 72 p),
                lowerId = from_be_bytes (span 72 PACKED_LOWER_V1_PARAMS_SIZE p),
                t2Sender = from_be_bytes (span PACKED_LOWER_V1_PARAMS_SIZE 108 p),
                t2Timestamp = from_be_bytes (span 108 PACKED_LOWER_V2_PARAMS_SIZE p)\<rparr>)"

text \<open>\<open>hash_struct\<close> is the EIP-712 hash of the library.\<close>

definition create_lower_proof_hash :: "(lower_data \<Rightarrow> 'dom \<Rightarrow> nat) \<Rightarrow> lower_params \<Rightarrow> 'dom \<Rightarrow> unit + nat" where
  "create_lower_proof_hash hash_struct p domain =
     and_then (lower_data_try_from p) (\<lambda>d. Inr (hash_struct d domain))"

lemma concat_lower_data_typed:
  "length (concat_lower_data i t a r s ts) = PACKED_LOWER_V2_PARAMS_SIZE"
  "bytes_ok (concat_lower_data i t a r s ts)"
  by (simp_all add: concat_lower_data_def Let_def PACKED_LOWER_V2_PARAMS_SIZE_def
      PACKED_LOWER_V1_PARAMS_SIZE_def bytes_ok_write)

lemma span_written:
  "length src = n \<Longrightarrow> a + n \<le> length buf \<Longrightarrow> b = a + n \<Longrightarrow> span a b (write_span a src buf) = src"
  using span_write_same by blast

lemma concat_lower_data_spans:
  "span 0 20 (concat_lower_data i t a r s ts) = to_be_bytes 20 t"
  "span 36 52 (concat_lower_data i t a r s ts) = to_be_bytes 16 a"
  "span 52 72 (concat_lower_data i t a r s ts) = to_be_bytes 20 r"
  "span 72 76 (concat_lower_data i t a r s ts) = to_be_bytes 4 i"
  "span 76 108 (concat_lower_data i t a r s ts) = to_be_bytes 32 s"
  "span 108 116 (concat_lower_data i t a r s ts) = to_be_bytes 8 ts"
  by (simp_all add: concat_lower_data_def Let_def PACKED_LOWER_V2_PARAMS_SIZE_def
      PACKED_LOWER_V1_PARAMS_SIZE_def span_write_other span_written del: to_be_bytes.simps)

lemma lower_data_round_trip:
  assumes "t < 2 ^ 160" "a < 2 ^ 128" "r < 2 ^ 160" "i < 2 ^ 32" "s < 2 ^ 256" "ts < 2 ^ 64"
  shows "lower_data_try_from (concat_lower_data i t a r s ts) =
    Inr \<lparr>lower_token = t, lower_amount = a, lower_recipient = r, lowerId = i, t2Sender = s,
      t2Timestamp = ts\<rparr>"
  unfolding lower_data_try_from_def concat_lower_data_typed
    PACKED_LOWER_V1_PARAMS_SIZE_def PACKED_LOWER_V2_PARAMS_SIZE_def concat_lower_data_spans
  using assms by (simp add: from_to_be_bytes del: to_be_bytes.simps)

end
