(* ===== verification/Eth_Messages.thy ===== *)
theory Eth_Messages
  imports Eth_Codec
begin

text \<open>
  The messages the validators sign for the bridge contract
  (\<open>primitives/avn-common/src/eth/mod.rs\<close>): the networks and instances of the bridge, the
  functions of the contract, and the structure each of them is hashed as. The EIP-712 hash
  itself belongs to a library and is a parameter. The conversions of the standard library
  between numbers and their decimal text, and its check of UTF-8, are written out.
\<close>

section \<open>Text\<close>

fun decimal :: "nat \<Rightarrow> bytes" where
  "decimal n = (if n < 10 then [48 + n] else decimal (n div 10) @ [48 + n mod 10])"

declare decimal.simps [simp del]

fun parse_digits :: "nat \<Rightarrow> nat \<Rightarrow> bytes \<Rightarrow> nat option" where
  "parse_digits maxv acc [] = Some acc"
| "parse_digits maxv acc (b # bs) =
     (if 48 \<le> b \<and> b \<le> 57 \<and> acc * 10 + (b - 48) \<le> maxv then parse_digits maxv (acc * 10 + (b - 48)) bs
      else None)"

text \<open>\<open>str::parse\<close> for an unsigned type with maximum \<open>maxv\<close>: one plus sign may lead the digits.\<close>

definition parse_uint :: "nat \<Rightarrow> bytes \<Rightarrow> nat option" where
  "parse_uint maxv bs =
     (let digits = (if bs \<noteq> [] \<and> hd bs = 43 then tl bs else bs) in
      if digits = [] then None else parse_digits maxv 0 digits)"

definition continuation :: "nat \<Rightarrow> bool" where
  "continuation b \<longleftrightarrow> 128 \<le> b \<and> b \<le> 191"

fun utf8_valid :: "bytes \<Rightarrow> bool" where
  "utf8_valid [] = True"
| "utf8_valid (b # bs) =
     (if b < 128 then utf8_valid bs
      else if 194 \<le> b \<and> b \<le> 223 then
        (case bs of c # cs \<Rightarrow> continuation c \<and> utf8_valid cs | _ \<Rightarrow> False)
      else if 224 \<le> b \<and> b \<le> 239 then
        (case bs of c # d # cs \<Rightarrow>
           continuation c \<and> (b = 224 \<longrightarrow> 160 \<le> c) \<and> (b = 237 \<longrightarrow> c \<le> 159) \<and> continuation d \<and> utf8_valid cs
         | _ \<Rightarrow> False)
      else if 240 \<le> b \<and> b \<le> 244 then
        (case bs of c # d # e # cs \<Rightarrow>
           continuation c \<and> (b = 240 \<longrightarrow> 144 \<le> c) \<and> (b = 244 \<longrightarrow> c \<le> 143) \<and>
           continuation d \<and> continuation e \<and> utf8_valid cs
         | _ \<Rightarrow> False)
      else False)"

definition parse_from_utf8 :: "nat \<Rightarrow> bytes \<Rightarrow> nat option" where
  "parse_from_utf8 maxv bs = (if utf8_valid bs then parse_uint maxv bs else None)"

definition ascii :: "string \<Rightarrow> bytes" where
  "ascii = map of_char"

lemma decimal_nonempty: "decimal n \<noteq> []"
  by (subst decimal.simps) simp

lemma decimal_digits: "b \<in> set (decimal n) \<Longrightarrow> 48 \<le> b \<and> b \<le> 57"
proof (induction n rule: decimal.induct)
  case (1 n)
  then show ?case
    by (cases "n < 10") (auto simp: decimal.simps [of n])
qed

lemma parse_digits_append:
  "parse_digits maxv acc (xs @ ys) = Option.bind (parse_digits maxv acc xs) (\<lambda>a. parse_digits maxv a ys)"
  by (induction maxv acc xs rule: parse_digits.induct) auto

lemma parse_digits_decimal: "n \<le> maxv \<Longrightarrow> parse_digits maxv 0 (decimal n) = Some n"
proof (induction n rule: decimal.induct)
  case (1 n)
  show ?case
  proof (cases "n < 10")
    case True
    then show ?thesis
      using "1.prems" by (subst decimal.simps) simp
  next
    case False
    then have "parse_digits maxv 0 (decimal (n div 10)) = Some (n div 10)"
      using "1.IH" "1.prems" by simp
    then show ?thesis
      using False "1.prems" by (subst decimal.simps) (simp add: parse_digits_append)
  qed
qed

lemma utf8_ascii: "\<forall>b\<in>set bs. b < 128 \<Longrightarrow> utf8_valid bs"
  by (induction bs) auto

lemma parse_decimal:
  assumes "n \<le> maxv"
  shows "parse_from_utf8 maxv (decimal n) = Some n"
proof -
  obtain d ds where ds: "decimal n = d # ds"
    using decimal_nonempty [of n] by (cases "decimal n") auto
  have "d \<noteq> 43"
    using decimal_digits [of d n] ds by auto
  moreover have "utf8_valid (decimal n)"
    using decimal_digits by (intro utf8_ascii) force
  ultimately show ?thesis
    using parse_digits_decimal [OF assms] ds
    by (simp add: parse_from_utf8_def parse_uint_def)
qed

section \<open>Instances of the bridge\<close>

datatype ethereum_network = Ethereum | EWC | Sepolia | Holesky | Volta | CustomNetwork nat

fun chain_id :: "ethereum_network \<Rightarrow> nat" where
  "chain_id Ethereum = 1"
| "chain_id EWC = 246"
| "chain_id Sepolia = 11155111"
| "chain_id Holesky = 17000"
| "chain_id Volta = 73799"
| "chain_id (CustomNetwork v) = v"

definition network_from :: "nat \<Rightarrow> ethereum_network" where
  "network_from v =
     (if v = 1 then Ethereum else if v = 246 then EWC else if v = 11155111 then Sepolia
      else if v = 17000 then Holesky else if v = 73799 then Volta else CustomNetwork v)"

lemma chain_id_network_from: "chain_id (network_from v) = v"
  by (simp add: network_from_def)

record eth_bridge_instance =
  network :: ethereum_network
  bridge_contract :: nat
  instance_name :: bytes
  instance_version :: bytes
  salt :: "bytes option"

definition instance_is_valid :: "eth_bridge_instance \<Rightarrow> bool" where
  "instance_is_valid i \<longleftrightarrow> bridge_contract i \<noteq> 0 \<and> instance_name i \<noteq> [] \<and> instance_version i \<noteq> []"

text \<open>The domain of the signatures leaves the salt out; its strings are kept as bytes.\<close>

record eip712_domain =
  domain_name :: bytes
  domain_version :: bytes
  domain_chain_id :: nat
  verifying_contract :: nat

definition into_domain :: "eth_bridge_instance \<Rightarrow> eip712_domain" where
  "into_domain i = \<lparr>domain_name = instance_name i, domain_version = instance_version i,
     domain_chain_id = chain_id (network i), verifying_contract = bridge_contract i\<rparr>"

section \<open>Functions of the contract\<close>

datatype bridge_contract_method =
    ReferenceRateUpdatedAt
  | CheckReferenceRate
  | UpdateReferenceRate
  | PublishRoot
  | TriggerGrowth
  | AddAuthor
  | RemoveAuthor
  | MintRewards

fun name_as_bytes :: "bridge_contract_method \<Rightarrow> bytes" where
  "name_as_bytes ReferenceRateUpdatedAt = ascii ''referenceRateUpdatedAt''"
| "name_as_bytes CheckReferenceRate = ascii ''checkReferenceRate''"
| "name_as_bytes UpdateReferenceRate = ascii ''updateReferenceRate''"
| "name_as_bytes PublishRoot = ascii ''publishRoot''"
| "name_as_bytes TriggerGrowth = ascii ''triggerGrowth''"
| "name_as_bytes AddAuthor = ascii ''addAuthor''"
| "name_as_bytes RemoveAuthor = ascii ''removeAuthor''"
| "name_as_bytes MintRewards = ascii ''mintRewards''"

definition method_try_from :: "bytes \<Rightarrow> bridge_contract_method option" where
  "method_try_from name =
     (if name = ascii ''referenceRateUpdatedAt'' then Some ReferenceRateUpdatedAt
      else if name = ascii ''checkReferenceRate'' then Some CheckReferenceRate
      else if name = ascii ''updateReferenceRate'' then Some UpdateReferenceRate
      else if name = ascii ''publishRoot'' then Some PublishRoot
      else if name = ascii ''triggerGrowth'' then Some TriggerGrowth
      else if name = ascii ''addAuthor'' then Some AddAuthor
      else if name = ascii ''removeAuthor'' then Some RemoveAuthor
      else if name = ascii ''mintRewards'' then Some MintRewards
      else None)"

lemma method_round_trip: "method_try_from (name_as_bytes m) = Some m"
  by (cases m) (simp_all add: method_try_from_def ascii_def)

text \<open>The structures that are hashed, with the fields in the order of the contract.\<close>

datatype sol_struct =
    SolPublishRoot nat nat nat
  | SolTriggerGrowth nat nat nat nat nat
  | SolAddAuthor bytes nat nat nat
  | SolRemoveAuthor nat bytes nat nat
  | SolMintRewards nat nat nat
  | SolLowerData lower_data

type_synonym eth_params = "(bytes \<times> bytes) list"

text \<open>A hash fails with an error, or panics on a slice of the wrong size.\<close>

datatype hash_error = HashErr | HashPanic

definition extract_tx_id_and_expiry :: "eth_params \<Rightarrow> hash_error + nat \<times> nat" where
  "extract_tx_id_and_expiry params =
     (if length params < 2 then Inl HashErr
      else let last_two_elements = drop (length params - 2) params in
        and_then (ok_or (parse_from_utf8 u64_max (snd (last_two_elements ! 0))) HashErr) (\<lambda>expiry.
        and_then (ok_or (parse_from_utf8 u32_max (snd (last_two_elements ! 1))) HashErr) (\<lambda>tx_id.
          Inr (tx_id, expiry))))"

text \<open>\<open>from_slice\<close> of a 32 byte type.\<close>

definition word_from_slice :: "bytes \<Rightarrow> hash_error + nat" where
  "word_from_slice bs = (if length bs = 32 then Inr (from_be_bytes bs) else Inl HashPanic)"

definition confirmation_struct :: "bytes \<Rightarrow> eth_params \<Rightarrow> hash_error + sol_struct" where
  "confirmation_struct function_name params =
     (case method_try_from function_name of
        Some PublishRoot \<Rightarrow>
          if length params \<noteq> 3 then Inl HashErr
          else and_then (word_from_slice (snd (params ! 0))) (\<lambda>root_data.
               and_then (extract_tx_id_and_expiry params) (\<lambda>(tx_id, expiry).
                 Inr (SolPublishRoot root_data expiry tx_id)))
      | Some TriggerGrowth \<Rightarrow>
          if length params \<noteq> 5 then Inl HashErr
          else and_then (ok_or (parse_from_utf8 u128_max (snd (params ! 0))) HashErr) (\<lambda>rewards.
               and_then (ok_or (parse_from_utf8 u128_max (snd (params ! 1))) HashErr) (\<lambda>avg_staked.
               and_then (ok_or (parse_from_utf8 u32_max (snd (params ! 2))) HashErr) (\<lambda>period.
               and_then (extract_tx_id_and_expiry params) (\<lambda>(tx_id, expiry).
                 Inr (SolTriggerGrowth rewards avg_staked period expiry tx_id)))))
      | Some AddAuthor \<Rightarrow>
          if length params \<noteq> 4 then Inl HashErr
          else and_then (word_from_slice (snd (params ! 1))) (\<lambda>t2_pub_key.
               and_then (extract_tx_id_and_expiry params) (\<lambda>(tx_id, expiry).
                 Inr (SolAddAuthor (snd (params ! 0)) t2_pub_key expiry tx_id)))
      | Some RemoveAuthor \<Rightarrow>
          if length params \<noteq> 4 then Inl HashErr
          else and_then (word_from_slice (snd (params ! 0))) (\<lambda>t2_pub_key.
               and_then (extract_tx_id_and_expiry params) (\<lambda>(tx_id, expiry).
                 Inr (SolRemoveAuthor t2_pub_key (snd (params ! 1)) expiry tx_id)))
      | Some MintRewards \<Rightarrow>
          if length params \<noteq> 3 then Inl HashErr
          else and_then (ok_or (parse_from_utf8 u128_max (snd (params ! 0))) HashErr) (\<lambda>amount.
               and_then (extract_tx_id_and_expiry params) (\<lambda>(tx_id, expiry).
                 Inr (SolMintRewards amount expiry tx_id)))
      | _ \<Rightarrow> Inl HashErr)"

definition create_function_confirmation_hash ::
  "(sol_struct \<Rightarrow> eip712_domain \<Rightarrow> nat) \<Rightarrow> bytes \<Rightarrow> eth_params \<Rightarrow> eip712_domain \<Rightarrow> hash_error + nat" where
  "create_function_confirmation_hash eip712_hash function_name params domain =
     and_then (confirmation_struct function_name params) (\<lambda>data. Inr (eip712_hash data domain))"

lemma extract_appended:
  assumes "expiry \<le> u64_max" "tx_id \<le> u32_max"
  shows "extract_tx_id_and_expiry (ps @ [(t1, decimal expiry), (t2, decimal tx_id)]) = Inr (tx_id, expiry)"
  using assms by (simp add: extract_tx_id_and_expiry_def parse_decimal)

end
