(* ===== verification/Eth_Events.thy ===== *)
theory Eth_Events
  imports Eth_Codec
begin

text \<open>
  The events of the contracts on Ethereum (\<open>primitives/avn-common/src/event_types.rs\<close>): their
  signatures, their data, and the parsers that read the data of a log from its bytes and
  topics. Indexing and slicing out of range, and conversions from a slice of another length,
  panic in Rust; in the model they give the error \<open>ParsePanic\<close>.
\<close>

section \<open>Errors and kinds\<close>

text \<open>The errors the parsers return.\<close>

datatype event_error =
    AddedValidatorEventMissingData
  | AddedValidatorEventBadDataLength
  | AddedValidatorEventWrongTopicCount
  | AddedValidatorEventBadTopicLength
  | LiftedEventMissingData
  | LiftedEventDataOverflow
  | LiftedEventBadDataLength
  | LiftedEventWrongTopicCount
  | LiftedEventBadTopicLength
  | NftMintedEventMissingData
  | NftMintedEventWrongTopicCount
  | NftMintedEventBadTopicLength
  | NftMintedEventBadDataLength
  | NftMintedEventBadRefLength
  | NftMintedEventSaleIndexConversion
  | NftTransferToEventShouldOnlyContainTopics
  | NftTransferToEventWrongTopicCount
  | NftTransferToEventBadTopicLength
  | NftTransferToEventTranferNonceConversion
  | NftCancelListingEventShouldOnlyContainTopics
  | NftCancelListingEventWrongTopicCount
  | NftCancelListingEventBadTopicLength
  | NftCancelListingEventDataOverflow
  | NftCancelListingEventTranferNonceConversion
  | NftEndBatchListingEventShouldOnlyContainTopics
  | NftEndBatchListingEventWrongTopicCount
  | NftEndBatchListingEventBadTopicLength
  | AvtGrowthLiftedEventShouldOnlyContainTopics
  | AvtGrowthLiftedEventWrongTopicCount
  | AvtGrowthLiftedEventBadTopicLength
  | AvtGrowthLiftedEventDataOverflow
  | AvtGrowthLiftedEventPeriodConversion
  | AvtLowerClaimedEventMissingData
  | AvtLowerClaimedEventWrongTopicCount
  | AvtLowerClaimedEventBadTopicLength
  | AvtLowerClaimedEventIdConversion
  | LowerRevertedEventMissingData
  | LowerRevertedEventWrongTopicCount
  | LowerRevertedEventBadTopicLength
  | LowerRevertedEventBadDataLength
  | LowerRevertedEventAmountOverflow
  | LowerRevertedEventLowerIdConversion
  | AvtRewardsMintedEventShouldOnlyContainTopics
  | AvtRewardsMintedEventWrongTopicCount
  | AvtRewardsMintedEventBadTopicLength
  | AvtRewardsMintedEventAmountOverflow
  | AvtRewardsMintedEventNewSupplyOverflow
  | AvtRewardsMintedEventTxIdConversion
  | ParsePanic

datatype valid_event =
    AddedValidator
  | Lifted
  | NftMint
  | NftTransferTo
  | NftCancelListing
  | NftEndBatchListing
  | AvtGrowthLifted
  | AvtLowerClaimed
  | LiftedToPredictionMarket
  | Erc20DirectTransfer
  | LowerReverted
  | AvtRewardsMinted

fun event_signature :: "valid_event \<Rightarrow> nat" where
  "event_signature AddedValidator =
     0xff083a6e395a67771f3c9108922bc274c27b38b48c210b0f6a8c5f4710c0494b"
| "event_signature Lifted =
     0x418da8f85cfa851601f87634c6950491b6b8785a6445c8584f5658048d512cae"
| "event_signature LiftedToPredictionMarket =
     0x2bf8107bf8c15cdcd8d6360f4a02ee97d7098a46b18fccd32df8796775552fc0"
| "event_signature NftMint =
     0x242e8a2c5335295f6294a23543699a458e6d5ed7a5839f93cc420116e0a31f99"
| "event_signature NftTransferTo =
     0xfff226ba128aca9718a568817388f3711cfeedd8c81cec4d02dcefc50f3c67bb"
| "event_signature NftCancelListing =
     0xeb0a71ca01b1505be834cafcd54b651d77eafd1ca915d21c0898575bcab53358"
| "event_signature NftEndBatchListing =
     0x20c46236a16e176bc83a795b3a64ad94e5db8bc92afc8cc6d3fd4a3864211f8f"
| "event_signature AvtGrowthLifted =
     0x3ad58a8dc1110baa37ad88a68db14181b4ef0c69192dfa7699a9588960eca7fd"
| "event_signature AvtLowerClaimed =
     0x9853e4c075911a10a89a0f7a46bac6f8a246c4e9152480d16d86aa6a2391a4f1"
| "event_signature Erc20DirectTransfer =
     0xddf252ad1be2c89b69c2b068fc378daa952ba7f163c4a11628f55a4df523b3ef"
| "event_signature LowerReverted =
     0x3a534ee35b9cf37cfa5e5aac24f8d0d3a2a2841b1ff92db68501d3c46956daa8"
| "event_signature AvtRewardsMinted =
     0x8780503b6efc49186826d97ab83686b74d0c76aa1052e08a81fa36a349472545"

fun is_nft_event :: "valid_event \<Rightarrow> bool" where
  "is_nft_event NftMint = True"
| "is_nft_event NftTransferTo = True"
| "is_nft_event NftCancelListing = True"
| "is_nft_event NftEndBatchListing = True"
| "is_nft_event _ = False"

definition valid_event_values :: "valid_event list" where
  "valid_event_values = [AddedValidator, Lifted, NftMint, NftTransferTo, NftCancelListing, NftEndBatchListing, AvtGrowthLifted, AvtLowerClaimed, LiftedToPredictionMarket, Erc20DirectTransfer, LowerReverted, AvtRewardsMinted]"

fun is_primary :: "valid_event \<Rightarrow> bool" where
  "is_primary Erc20DirectTransfer = False"
| "is_primary _ = True"

definition valid_event_try_from :: "nat \<Rightarrow> unit + valid_event" where
  "valid_event_try_from value = ok_or (find (\<lambda>e. event_signature e = value) valid_event_values) ()"

section \<open>Data of the events\<close>

record added_validator_data =
  eth_public_key :: nat
  t2_address :: nat
  validator_account_id :: nat

record lifted_data =
  token_contract :: nat
  sender_address :: nat
  receiver_address :: nat
  lift_amount :: nat
  lift_nonce :: nat

record nft_mint_data =
  mint_batch_id :: nat
  t2_owner_public_key :: nat
  mint_op_id :: nat
  t1_contract_issuer :: nat
  sale_index :: nat
  unique_external_ref :: bytes

record nft_transfer_to_data =
  transfer_nft_id :: nat
  t2_transfer_to_public_key :: nat
  transfer_op_id :: nat

record nft_cancel_listing_data =
  cancel_nft_id :: nat
  cancel_op_id :: nat

record nft_end_batch_listing_data =
  end_batch_id :: nat

record avt_growth_lifted_data =
  growth_amount :: nat
  growth_period :: nat

record avt_lower_claimed_data =
  claimed_lower_id :: nat

record lower_reverted_data =
  reverted_token :: nat
  reverted_receiver :: nat
  reverted_t1_recipient :: nat
  reverted_amount :: nat
  reverted_lower_id :: nat

record total_supply_updated_data =
  minted_amount :: nat
  new_supply :: nat
  t2_tx_id :: nat

datatype event_data =
    LogAddedValidator added_validator_data
  | LogLifted lifted_data
  | EmptyEvent
  | LogNftMinted nft_mint_data
  | LogNftTransferTo nft_transfer_to_data
  | LogNftCancelListing nft_cancel_listing_data
  | LogNftEndBatchListing nft_end_batch_listing_data
  | LogAvtGrowthLifted avt_growth_lifted_data
  | LogLowerClaimed avt_lower_claimed_data
  | LogLowerReverted lower_reverted_data
  | LogLiftedToPredictionMarket lifted_data
  | LogErc20Transfer lifted_data
  | LogRewardsMinted total_supply_updated_data

record eth_event_id =
  id_signature :: nat
  transaction_hash :: nat

record eth_event =
  event_id :: eth_event_id
  event_data_of :: event_data

datatype check_result =
  CheckOk | CheckInvalid | HttpErrorCheckingEvent | InsufficientConfirmations | CheckUnknown

record eth_event_check_result =
  checked_event :: eth_event
  check_result_of :: check_result
  checked_by :: account
  checked_at_block :: nat
  ready_for_processing_after_block :: nat
  min_challenge_votes :: nat

definition new_eth_event_check_result ::
  "nat \<Rightarrow> check_result \<Rightarrow> eth_event_id \<Rightarrow> event_data \<Rightarrow> account \<Rightarrow> nat \<Rightarrow> nat \<Rightarrow> eth_event_check_result" where
  "new_eth_event_check_result ready_after result eid ed who at_block votes =
     \<lparr>checked_event = \<lparr>event_id = eid, event_data_of = ed\<rparr>, check_result_of = result, checked_by = who,
      checked_at_block = at_block, ready_for_processing_after_block = ready_after,
      min_challenge_votes = votes\<rparr>"

datatype event_challenge_reason = IncorrectResult | IncorrectEventData | UnknownChallenge

record event_challenge =
  challenged_event_id :: eth_event_id
  event_challenge_reason_of :: event_challenge_reason
  challenged_by :: account

section \<open>Parsers\<close>

definition WORD_LENGTH :: nat where "WORD_LENGTH = 32"
definition HALF_WORD_LENGTH :: nat where "HALF_WORD_LENGTH = 16"
definition TWENTY_FOUR_BYTES :: nat where "TWENTY_FOUR_BYTES = 24"
definition TWENTY_EIGHT_BYTES :: nat where "TWENTY_EIGHT_BYTES = 28"
definition DISCARDED_ZERO_BYTES :: nat where "DISCARDED_ZERO_BYTES = 12"
definition BYTE_LENGTH :: nat where "BYTE_LENGTH = 1"

lemmas word_lengths = WORD_LENGTH_def HALF_WORD_LENGTH_def TWENTY_FOUR_BYTES_def
  TWENTY_EIGHT_BYTES_def DISCARDED_ZERO_BYTES_def BYTE_LENGTH_def

text \<open>
  What the parsers use of Rust: the index of a vector, a slice of a vector, the conversion of a
  slice to an array of a length (with the error that \<open>map_err\<close> gives, or a panic for \<open>expect\<close>),
  \<open>from_slice\<close> of the fixed hashes, which asserts the length, and \<open>U256::from_big_endian\<close>, which
  asserts that there are no more than 32 bytes. Arrays and hashes are the numbers they stand
  for in the order of their bytes.
\<close>

definition at_index :: "'a list \<Rightarrow> nat \<Rightarrow> event_error + 'a" where
  "at_index xs i = (if i < length xs then Inr (xs ! i) else Inl ParsePanic)"

definition slice :: "nat \<Rightarrow> nat \<Rightarrow> 'a list \<Rightarrow> event_error + 'a list" where
  "slice a b xs = (if a \<le> b \<and> b \<le> length xs then Inr (take (b - a) (drop a xs)) else Inl ParsePanic)"

definition to_array :: "nat \<Rightarrow> event_error \<Rightarrow> bytes \<Rightarrow> event_error + nat" where
  "to_array n e bs = (if length bs = n then Inr (from_be_bytes bs) else Inl e)"

definition from_slice :: "nat \<Rightarrow> bytes \<Rightarrow> event_error + nat" where
  "from_slice n bs = (if length bs = n then Inr (from_be_bytes bs) else Inl ParsePanic)"

definition u256_from_big_endian :: "bytes \<Rightarrow> event_error + nat" where
  "u256_from_big_endian bs = (if length bs \<le> 32 then Inr (from_be_bytes bs) else Inl ParsePanic)"

definition any_byte :: "bytes \<Rightarrow> bool" where
  "any_byte bs = list_ex (\<lambda>b. 0 < b) bs"

text \<open>The conditions \<open>topics[i].len() != WORD_LENGTH || ...\<close>, from left to right.\<close>

fun wrong_topic :: "bytes list \<Rightarrow> nat list \<Rightarrow> event_error + bool" where
  "wrong_topic topics [] = Inr False"
| "wrong_topic topics (i # is) =
     and_then (at_index topics i) (\<lambda>t. if length t \<noteq> WORD_LENGTH then Inr True else wrong_topic topics is)"

text \<open>The bytes from \<open>a\<close> to \<open>b\<close> of the topic \<open>i\<close>.\<close>

definition topic_slice :: "bytes list \<Rightarrow> nat \<Rightarrow> nat \<Rightarrow> nat \<Rightarrow> event_error + bytes" where
  "topic_slice topics i a b = and_then (at_index topics i) (slice a b)"

definition added_validator_is_valid :: "added_validator_data \<Rightarrow> bool" where
  "added_validator_is_valid d \<longleftrightarrow> eth_public_key d \<noteq> 0 \<and> t2_address d \<noteq> 0 \<and> validator_account_id d \<noteq> 0"

definition parse_added_validator ::
  "bytes option \<Rightarrow> bytes list \<Rightarrow> event_error + added_validator_data" where
  "parse_added_validator data topics =
     (if data = None then Inl AddedValidatorEventMissingData else
      and_then (ok_or data ParsePanic) (\<lambda>bs.
      if length bs \<noteq> WORD_LENGTH then Inl AddedValidatorEventBadDataLength
      else if length topics \<noteq> 4 then Inl AddedValidatorEventWrongTopicCount
      else and_then (wrong_topic topics [1, 2, 3]) (\<lambda>wrong.
      if wrong then Inl AddedValidatorEventBadTopicLength
      else and_then (at_index topics 1) (\<lambda>lhs.
        and_then (at_index topics 2) (\<lambda>rhs.
        and_then (from_slice 64 (lhs @ rhs)) (\<lambda>key.
        and_then (at_index topics 3) (\<lambda>t2.
        and_then (from_slice 32 t2) (\<lambda>t2_addr.
        and_then (u256_from_big_endian bs) (\<lambda>validator_id.
        Inr \<lparr>eth_public_key = key, t2_address = t2_addr, validator_account_id = validator_id\<rparr>)))))))))"

definition lifted_is_valid :: "lifted_data \<Rightarrow> bool" where
  "lifted_is_valid d \<longleftrightarrow> token_contract d \<noteq> 0 \<and> receiver_address d \<noteq> 0"

definition new_lifted_data :: "nat \<Rightarrow> nat \<Rightarrow> nat \<Rightarrow> lifted_data" where
  "new_lifted_data token receiver amt = \<lparr>token_contract = token, sender_address = 0,
     receiver_address = receiver, lift_amount = amt, lift_nonce = 0\<rparr>"

definition parse_lifted :: "bytes option \<Rightarrow> bytes list \<Rightarrow> event_error + lifted_data" where
  "parse_lifted data topics =
     (if data = None then Inl LiftedEventMissingData else
      and_then (ok_or data ParsePanic) (\<lambda>bs.
      if length bs \<noteq> WORD_LENGTH then Inl LiftedEventBadDataLength
      else if length topics \<noteq> 3 then Inl LiftedEventWrongTopicCount
      else and_then (wrong_topic topics [1, 2]) (\<lambda>wrong.
      if wrong then Inl LiftedEventBadTopicLength
      else and_then (topic_slice topics 1 DISCARDED_ZERO_BYTES WORD_LENGTH) (\<lambda>token_bytes.
        and_then (from_slice 20 token_bytes) (\<lambda>token.
        and_then (at_index topics 2) (\<lambda>receiver_bytes.
        and_then (from_slice 32 receiver_bytes) (\<lambda>receiver.
        and_then (slice 0 HALF_WORD_LENGTH bs) (\<lambda>high.
        if any_byte high then Inl LiftedEventDataOverflow
        else and_then (slice HALF_WORD_LENGTH WORD_LENGTH bs) (\<lambda>low.
        and_then (to_array 16 ParsePanic low) (\<lambda>amt.
        Inr \<lparr>token_contract = token, sender_address = 0, receiver_address = receiver,
             lift_amount = amt, lift_nonce = 0\<rparr>))))))))))"

definition from_erc_20_contract_transfer_bytes ::
  "bytes option \<Rightarrow> bytes list \<Rightarrow> event_error + lifted_data" where
  "from_erc_20_contract_transfer_bytes data topics =
     (if data = None then Inl LiftedEventMissingData else
      and_then (ok_or data ParsePanic) (\<lambda>bs.
      if length bs \<noteq> WORD_LENGTH then Inl LiftedEventBadDataLength
      else if length topics \<noteq> 3 then Inl LiftedEventWrongTopicCount
      else and_then (wrong_topic topics [2, 1]) (\<lambda>wrong.
      if wrong then Inl LiftedEventBadTopicLength
      else and_then (topic_slice topics 2 DISCARDED_ZERO_BYTES WORD_LENGTH) (\<lambda>bridge_bytes.
        and_then (from_slice 20 bridge_bytes) (\<lambda>bridge_contract.
        and_then (topic_slice topics 1 DISCARDED_ZERO_BYTES WORD_LENGTH) (\<lambda>sender_bytes.
        and_then (from_slice 20 sender_bytes) (\<lambda>sender.
        and_then (slice 0 HALF_WORD_LENGTH bs) (\<lambda>high.
        if any_byte high then Inl LiftedEventDataOverflow
        else and_then (slice HALF_WORD_LENGTH WORD_LENGTH bs) (\<lambda>low.
        and_then (to_array 16 ParsePanic low) (\<lambda>amt.
        Inr \<lparr>token_contract = 0, sender_address = sender, receiver_address = bridge_contract,
             lift_amount = amt, lift_nonce = 0\<rparr>))))))))))"

definition nft_mint_is_valid :: "nft_mint_data \<Rightarrow> bool" where
  "nft_mint_is_valid d \<longleftrightarrow> mint_batch_id d \<noteq> 0 \<and> t2_owner_public_key d \<noteq> 0 \<and> unique_external_ref d \<noteq> []"

definition NftExternalRefBound :: nat where "NftExternalRefBound = 1024"

definition parse_nft_mint :: "bytes option \<Rightarrow> bytes list \<Rightarrow> event_error + nft_mint_data" where
  "parse_nft_mint data topics =
     (if data = None then Inl NftMintedEventMissingData else
      and_then (ok_or data ParsePanic) (\<lambda>bs.
      if length bs \<noteq> 4 * WORD_LENGTH then Inl NftMintedEventBadDataLength
      else if length topics \<noteq> 4 then Inl NftMintedEventWrongTopicCount
      else and_then (wrong_topic topics [1, 3, 2]) (\<lambda>wrong.
      if wrong then Inl NftMintedEventBadTopicLength
      else and_then (at_index topics 1) (\<lambda>batch_bytes.
        and_then (u256_from_big_endian batch_bytes) (\<lambda>batch.
        and_then (topic_slice topics 2 TWENTY_FOUR_BYTES WORD_LENGTH) (\<lambda>sale_bytes.
        and_then (to_array 8 NftMintedEventSaleIndexConversion sale_bytes) (\<lambda>sale.
        and_then (at_index topics 3) (\<lambda>owner_bytes.
        and_then (from_slice 32 owner_bytes) (\<lambda>owner_key.
        let ref_size = WORD_LENGTH + 4 * BYTE_LENGTH in
        and_then (slice (2 * WORD_LENGTH) (2 * WORD_LENGTH + ref_size) bs) (\<lambda>ext_ref.
        if NftExternalRefBound < length ext_ref then Inl NftMintedEventBadRefLength
        else Inr \<lparr>mint_batch_id = batch, t2_owner_public_key = owner_key, mint_op_id = 0,
                  t1_contract_issuer = 0, sale_index = sale, unique_external_ref = ext_ref\<rparr>))))))))))"

definition nft_transfer_to_is_valid :: "nft_transfer_to_data \<Rightarrow> bool" where
  "nft_transfer_to_is_valid d \<longleftrightarrow> t2_transfer_to_public_key d \<noteq> 0"

definition parse_nft_transfer_to :: "bytes option \<Rightarrow> bytes list \<Rightarrow> event_error + nft_transfer_to_data" where
  "parse_nft_transfer_to data topics =
     (if data \<noteq> None then Inl NftTransferToEventShouldOnlyContainTopics
      else if length topics \<noteq> 4 then Inl NftTransferToEventWrongTopicCount
      else and_then (wrong_topic topics [1, 2, 3]) (\<lambda>wrong.
      if wrong then Inl NftTransferToEventBadTopicLength
      else and_then (at_index topics 1) (\<lambda>nft_bytes.
        and_then (u256_from_big_endian nft_bytes) (\<lambda>nft.
        and_then (at_index topics 2) (\<lambda>key_bytes.
        and_then (from_slice 32 key_bytes) (\<lambda>key.
        and_then (topic_slice topics 3 TWENTY_FOUR_BYTES WORD_LENGTH) (\<lambda>op_bytes.
        and_then (to_array 8 NftTransferToEventTranferNonceConversion op_bytes) (\<lambda>op_id.
        Inr \<lparr>transfer_nft_id = nft, t2_transfer_to_public_key = key, transfer_op_id = op_id\<rparr>))))))))"

text \<open>The length of the topic with the operation is not checked before it is sliced.\<close>

definition parse_nft_cancel_listing ::
  "bytes option \<Rightarrow> bytes list \<Rightarrow> event_error + nft_cancel_listing_data" where
  "parse_nft_cancel_listing data topics =
     (if data \<noteq> None then Inl NftCancelListingEventShouldOnlyContainTopics
      else if length topics \<noteq> 3 then Inl NftCancelListingEventWrongTopicCount
      else and_then (wrong_topic topics [1]) (\<lambda>wrong.
      if wrong then Inl NftCancelListingEventBadTopicLength
      else and_then (topic_slice topics 2 0 TWENTY_FOUR_BYTES) (\<lambda>high.
        if any_byte high then Inl NftCancelListingEventDataOverflow
        else and_then (at_index topics 1) (\<lambda>nft_bytes.
        and_then (u256_from_big_endian nft_bytes) (\<lambda>nft.
        and_then (topic_slice topics 2 TWENTY_FOUR_BYTES WORD_LENGTH) (\<lambda>op_bytes.
        and_then (to_array 8 NftCancelListingEventTranferNonceConversion op_bytes) (\<lambda>op_id.
        Inr \<lparr>cancel_nft_id = nft, cancel_op_id = op_id\<rparr>)))))))"

definition parse_nft_end_batch_listing ::
  "bytes option \<Rightarrow> bytes list \<Rightarrow> event_error + nft_end_batch_listing_data" where
  "parse_nft_end_batch_listing data topics =
     (if data \<noteq> None then Inl NftEndBatchListingEventShouldOnlyContainTopics
      else if length topics \<noteq> 2 then Inl NftEndBatchListingEventWrongTopicCount
      else and_then (wrong_topic topics [1]) (\<lambda>wrong.
      if wrong then Inl NftEndBatchListingEventBadTopicLength
      else and_then (at_index topics 1) (\<lambda>batch_bytes.
        and_then (u256_from_big_endian batch_bytes) (\<lambda>batch.
        Inr \<lparr>end_batch_id = batch\<rparr>))))"

definition avt_growth_lifted_is_valid :: "avt_growth_lifted_data \<Rightarrow> bool" where
  "avt_growth_lifted_is_valid d \<longleftrightarrow> 0 < growth_amount d"

definition parse_avt_growth_lifted ::
  "bytes option \<Rightarrow> bytes list \<Rightarrow> event_error + avt_growth_lifted_data" where
  "parse_avt_growth_lifted data topics =
     (if data \<noteq> None then Inl AvtGrowthLiftedEventShouldOnlyContainTopics
      else if length topics \<noteq> 3 then Inl AvtGrowthLiftedEventWrongTopicCount
      else and_then (wrong_topic topics [1, 2]) (\<lambda>wrong.
      if wrong then Inl AvtGrowthLiftedEventBadTopicLength
      else and_then (topic_slice topics 1 0 HALF_WORD_LENGTH) (\<lambda>high.
        if any_byte high then Inl AvtGrowthLiftedEventDataOverflow
        else and_then (topic_slice topics 1 HALF_WORD_LENGTH WORD_LENGTH) (\<lambda>low.
        and_then (to_array 16 ParsePanic low) (\<lambda>amt.
        and_then (topic_slice topics 2 TWENTY_EIGHT_BYTES WORD_LENGTH) (\<lambda>period_bytes.
        and_then (to_array 4 AvtGrowthLiftedEventPeriodConversion period_bytes) (\<lambda>period.
        Inr \<lparr>growth_amount = amt, growth_period = period\<rparr>)))))))"

definition parse_avt_lower_claimed ::
  "bytes option \<Rightarrow> bytes list \<Rightarrow> event_error + avt_lower_claimed_data" where
  "parse_avt_lower_claimed data topics =
     (if data \<noteq> None then Inl AvtLowerClaimedEventMissingData
      else if length topics \<noteq> 2 then Inl AvtLowerClaimedEventWrongTopicCount
      else and_then (wrong_topic topics [1]) (\<lambda>wrong.
      if wrong then Inl AvtLowerClaimedEventBadTopicLength
      else and_then (topic_slice topics 1 TWENTY_EIGHT_BYTES WORD_LENGTH) (\<lambda>id_bytes.
        and_then (to_array 4 AvtLowerClaimedEventIdConversion id_bytes) (\<lambda>lower_id.
        Inr \<lparr>claimed_lower_id = lower_id\<rparr>))))"

definition lower_reverted_is_valid :: "lower_reverted_data \<Rightarrow> bool" where
  "lower_reverted_is_valid d \<longleftrightarrow> reverted_token d \<noteq> 0 \<and> reverted_receiver d \<noteq> 0 \<and> 0 < reverted_amount d"

definition parse_lower_reverted :: "bytes option \<Rightarrow> bytes list \<Rightarrow> event_error + lower_reverted_data" where
  "parse_lower_reverted data topics =
     (if data = None then Inl LowerRevertedEventMissingData else
      and_then (ok_or data ParsePanic) (\<lambda>bs.
      if length bs \<noteq> 2 * WORD_LENGTH then Inl LowerRevertedEventBadDataLength
      else if length topics \<noteq> 4 then Inl LowerRevertedEventWrongTopicCount
      else and_then (wrong_topic topics [1, 2, 3]) (\<lambda>wrong.
      if wrong then Inl LowerRevertedEventBadTopicLength
      else and_then (topic_slice topics 1 DISCARDED_ZERO_BYTES WORD_LENGTH) (\<lambda>token_bytes.
        and_then (from_slice 20 token_bytes) (\<lambda>token.
        and_then (at_index topics 2) (\<lambda>receiver_bytes.
        and_then (from_slice 32 receiver_bytes) (\<lambda>receiver.
        and_then (topic_slice topics 3 DISCARDED_ZERO_BYTES WORD_LENGTH) (\<lambda>recipient_bytes.
        and_then (from_slice 20 recipient_bytes) (\<lambda>t1_recipient.
        and_then (slice 0 WORD_LENGTH bs) (\<lambda>amount_bytes.
        and_then (slice 0 HALF_WORD_LENGTH amount_bytes) (\<lambda>high.
        if any_byte high then Inl LowerRevertedEventAmountOverflow
        else and_then (slice HALF_WORD_LENGTH WORD_LENGTH amount_bytes) (\<lambda>low.
        and_then (to_array 16 ParsePanic low) (\<lambda>amt.
        and_then (slice WORD_LENGTH (2 * WORD_LENGTH) bs) (\<lambda>lower_id_bytes.
        and_then (slice TWENTY_EIGHT_BYTES WORD_LENGTH lower_id_bytes) (\<lambda>id_bytes.
        and_then (to_array 4 LowerRevertedEventLowerIdConversion id_bytes) (\<lambda>lower_id.
        Inr \<lparr>reverted_token = token, reverted_receiver = receiver, reverted_t1_recipient = t1_recipient,
             reverted_amount = amt, reverted_lower_id = lower_id\<rparr>))))))))))))))))"

definition total_supply_updated_is_valid :: "total_supply_updated_data \<Rightarrow> bool" where
  "total_supply_updated_is_valid d \<longleftrightarrow> 0 < minted_amount d"

definition parse_total_supply_updated ::
  "bytes option \<Rightarrow> bytes list \<Rightarrow> event_error + total_supply_updated_data" where
  "parse_total_supply_updated data topics =
     (if data \<noteq> None then Inl AvtRewardsMintedEventShouldOnlyContainTopics
      else if length topics \<noteq> 4 then Inl AvtRewardsMintedEventWrongTopicCount
      else and_then (wrong_topic topics [1, 2, 3]) (\<lambda>wrong.
      if wrong then Inl AvtRewardsMintedEventBadTopicLength
      else and_then (topic_slice topics 1 0 HALF_WORD_LENGTH) (\<lambda>high.
        if any_byte high then Inl AvtRewardsMintedEventAmountOverflow
        else and_then (topic_slice topics 2 0 HALF_WORD_LENGTH) (\<lambda>high_supply.
        if any_byte high_supply then Inl AvtRewardsMintedEventNewSupplyOverflow
        else and_then (topic_slice topics 1 HALF_WORD_LENGTH WORD_LENGTH) (\<lambda>low.
        and_then (to_array 16 ParsePanic low) (\<lambda>amt.
        and_then (topic_slice topics 2 HALF_WORD_LENGTH WORD_LENGTH) (\<lambda>low_supply.
        and_then (to_array 16 ParsePanic low_supply) (\<lambda>supply_now.
        and_then (topic_slice topics 3 TWENTY_EIGHT_BYTES WORD_LENGTH) (\<lambda>id_bytes.
        and_then (to_array 4 AvtRewardsMintedEventTxIdConversion id_bytes) (\<lambda>tx.
        Inr \<lparr>minted_amount = amt, new_supply = supply_now, t2_tx_id = tx\<rparr>))))))))))"

text \<open>A claimed lower is never valid: the branch for it is missing.\<close>

fun event_data_is_valid :: "event_data \<Rightarrow> bool" where
  "event_data_is_valid (LogAddedValidator d) = added_validator_is_valid d"
| "event_data_is_valid (LogLifted d) = lifted_is_valid d"
| "event_data_is_valid (LogNftMinted d) = nft_mint_is_valid d"
| "event_data_is_valid (LogNftTransferTo d) = nft_transfer_to_is_valid d"
| "event_data_is_valid (LogNftCancelListing d) = True"
| "event_data_is_valid (LogNftEndBatchListing d) = True"
| "event_data_is_valid (LogAvtGrowthLifted d) = avt_growth_lifted_is_valid d"
| "event_data_is_valid (LogLiftedToPredictionMarket d) = lifted_is_valid d"
| "event_data_is_valid (LogErc20Transfer d) = lifted_is_valid d"
| "event_data_is_valid (LogLowerReverted d) = lower_reverted_is_valid d"
| "event_data_is_valid (LogRewardsMinted d) = total_supply_updated_is_valid d"
| "event_data_is_valid EmptyEvent = True"
| "event_data_is_valid (LogLowerClaimed d) = False"

section \<open>Signatures\<close>

lemma valid_event_values_all: "set valid_event_values = UNIV"
proof
  show "UNIV \<subseteq> set valid_event_values"
    by (rule subsetI, rename_tac e, case_tac e) (simp_all add: valid_event_values_def)
qed simp

lemma event_signature_inj: "event_signature e = event_signature e' \<Longrightarrow> e = e'"
  by (cases e; cases e') simp_all

lemma valid_event_round_trip: "valid_event_try_from v = Inr e \<longleftrightarrow> event_signature e = v"
proof
  show "valid_event_try_from v = Inr e \<Longrightarrow> event_signature e = v"
    by (auto simp: valid_event_try_from_def find_Some_iff)
  show "event_signature e = v \<Longrightarrow> valid_event_try_from v = Inr e"
    by (cases e) (auto simp: valid_event_try_from_def valid_event_values_def)
qed

section \<open>Words\<close>

text \<open>The word of the contract ABI that holds a number.\<close>

definition abi_word :: "nat \<Rightarrow> bytes" where
  "abi_word x = to_be_bytes WORD_LENGTH x"

lemma length_abi_word [simp]: "length (abi_word x) = WORD_LENGTH"
  by (simp add: abi_word_def)

lemma to_be_bytes_append: "to_be_bytes (m + n) x = to_be_bytes m (x div 256 ^ n) @ to_be_bytes n x"
proof (induction n arbitrary: x)
  case (Suc n)
  have "x div 256 div 256 ^ n = x div (256 * 256 ^ n)"
    by (simp add: div_mult2_eq)
  then show ?case
    using Suc by simp
qed simp

lemma abi_word_split: "n \<le> WORD_LENGTH \<Longrightarrow>
    abi_word x = to_be_bytes (WORD_LENGTH - n) (x div 256 ^ n) @ to_be_bytes n x"
  using to_be_bytes_append [of "WORD_LENGTH - n" n x] by (simp add: abi_word_def)

lemma slice_abi:
  assumes "a \<le> WORD_LENGTH"
  shows "slice a WORD_LENGTH (abi_word x) = Inr (to_be_bytes (WORD_LENGTH - a) x)"
  using abi_word_split [of "WORD_LENGTH - a" x] assms by (simp add: slice_def)

lemma to_be_bytes_zero_iff: "(\<forall>b\<in>set (to_be_bytes n x). b = 0) \<longleftrightarrow> x mod 256 ^ n = 0"
proof (induction n x rule: to_be_bytes.induct)
  case (2 n x)
  have "x mod 256 ^ Suc n = 256 * (x div 256 mod 256 ^ n) + x mod 256"
    by (simp add: mod_mult2_eq)
  then show ?case
    using 2 by auto
qed simp

lemma any_byte_abi:
  assumes "n \<le> WORD_LENGTH" "x < 256 ^ WORD_LENGTH" "slice 0 n (abi_word x) = Inr bs"
  shows "any_byte bs \<longleftrightarrow> 256 ^ (WORD_LENGTH - n) \<le> x"
proof -
  let ?k = "WORD_LENGTH - n"
  have "bs = to_be_bytes n (x div 256 ^ ?k)"
    using abi_word_split [of ?k x] assms(1,3) by (simp add: slice_def split: if_splits)
  then have "any_byte bs \<longleftrightarrow> x div 256 ^ ?k mod 256 ^ n \<noteq> 0"
    using to_be_bytes_zero_iff [of n "x div 256 ^ ?k"] by (auto simp: any_byte_def list_ex_iff)
  moreover have "x div 256 ^ ?k < 256 ^ n"
    using assms(1,2) by (simp add: less_mult_imp_div_less flip: power_add)
  ultimately show ?thesis
    by (simp add: div_eq_0_iff not_less)
qed

section \<open>Panics\<close>

text \<open>
  A parser does not panic when every operation it reaches is within bounds. There is one rule for
  each operation of Rust; its premises are the bounds.
\<close>

definition no_panic :: "event_error + 'a \<Rightarrow> bool" where
  "no_panic r \<longleftrightarrow> r \<noteq> Inl ParsePanic"

lemma wrong_topic_checked:
  assumes "\<forall>i\<in>set is. i < length topics"
  shows "wrong_topic topics is = Inr (\<exists>i\<in>set is. length (topics ! i) \<noteq> WORD_LENGTH)"
  using assms by (induction "is") (auto simp: at_index_def)

lemma no_panic_result: "no_panic (Inr x)" "e \<noteq> ParsePanic \<Longrightarrow> no_panic (Inl e)"
  by (simp_all add: no_panic_def)

lemma no_panic_if: "(c \<Longrightarrow> no_panic a) \<Longrightarrow> (\<not> c \<Longrightarrow> no_panic b) \<Longrightarrow> no_panic (if c then a else b)"
  by simp

lemma no_panic_expect: "d \<noteq> None \<Longrightarrow> (\<And>x. d = Some x \<Longrightarrow> no_panic (f x)) \<Longrightarrow> no_panic (and_then (ok_or d e) f)"
  by auto

lemma no_panic_at_index:
  "i < length xs \<Longrightarrow> no_panic (f (xs ! i)) \<Longrightarrow> no_panic (and_then (at_index xs i) f)"
  by (simp add: at_index_def)

lemma no_panic_slice:
  assumes "a \<le> b" "b \<le> length xs" "\<And>ys. length ys = b - a \<Longrightarrow> no_panic (f ys)"
  shows "no_panic (and_then (slice a b xs) f)"
  using assms by (simp add: slice_def)

lemma no_panic_topic_slice:
  assumes "i < length topics" "a \<le> b" "b \<le> length (topics ! i)"
    "\<And>ys. length ys = b - a \<Longrightarrow> no_panic (f ys)"
  shows "no_panic (and_then (topic_slice topics i a b) f)"
  using assms by (simp add: topic_slice_def at_index_def slice_def)

lemma no_panic_array:
  "length bs = n \<Longrightarrow> (\<And>x. no_panic (f x)) \<Longrightarrow> no_panic (and_then (to_array n e bs) f)"
  "length bs = n \<Longrightarrow> (\<And>x. no_panic (f x)) \<Longrightarrow> no_panic (and_then (from_slice n bs) f)"
  "length bs \<le> 32 \<Longrightarrow> (\<And>x. no_panic (f x)) \<Longrightarrow> no_panic (and_then (u256_from_big_endian bs) f)"
  by (simp_all add: to_array_def from_slice_def u256_from_big_endian_def)

lemma no_panic_wrong_topic:
  assumes "\<forall>i\<in>set is. i < length topics" "no_panic (f True)"
    "\<forall>i\<in>set is. length (topics ! i) = WORD_LENGTH \<Longrightarrow> no_panic (f False)"
  shows "no_panic (and_then (wrong_topic topics is) f)"
  using assms(2,3) by (cases "\<exists>i\<in>set is. length (topics ! i) \<noteq> WORD_LENGTH") (auto simp: wrong_topic_checked [OF assms(1)])

lemmas no_panic_rules = no_panic_result no_panic_if no_panic_expect no_panic_at_index no_panic_slice
  no_panic_topic_slice no_panic_array no_panic_wrong_topic

lemma no_panic_lifted:
  "no_panic (parse_lifted data topics)" "no_panic (from_erc_20_contract_transfer_bytes data topics)"
  unfolding parse_lifted_def from_erc_20_contract_transfer_bytes_def
  by (intro no_panic_rules; simp add: word_lengths)+

lemma no_panic_nft:
  "no_panic (parse_nft_mint data topics)" "no_panic (parse_nft_transfer_to data topics)"
  "no_panic (parse_nft_end_batch_listing data topics)"
  unfolding parse_nft_mint_def parse_nft_transfer_to_def parse_nft_end_batch_listing_def Let_def
  by (intro no_panic_rules; simp add: word_lengths)+

lemma no_panic_lower:
  "no_panic (parse_avt_lower_claimed data topics)" "no_panic (parse_lower_reverted data topics)"
  unfolding parse_avt_lower_claimed_def parse_lower_reverted_def
  by (intro no_panic_rules; simp add: word_lengths)+

lemma no_panic_supply:
  "no_panic (parse_added_validator data topics)" "no_panic (parse_avt_growth_lifted data topics)"
  "no_panic (parse_total_supply_updated data topics)"
  unfolding parse_added_validator_def parse_avt_growth_lifted_def parse_total_supply_updated_def
  by (intro no_panic_rules; simp add: word_lengths)+

lemmas parsers_never_panic = no_panic_lifted no_panic_nft no_panic_lower no_panic_supply

lemma parse_cancel_panics:
  "parse_nft_cancel_listing data topics = Inl ParsePanic \<longleftrightarrow>
     data = None \<and> length topics = 3 \<and> length (topics ! 1) = 32 \<and>
     (length (topics ! 2) < 24 \<or> length (topics ! 2) < 32 \<and> \<not> any_byte (take 24 (topics ! 2)))"
proof (cases "data = None \<and> length topics = 3")
  case True
  then show ?thesis
    by (simp add: parse_nft_cancel_listing_def topic_slice_def at_index_def slice_def to_array_def
        u256_from_big_endian_def word_lengths)
qed (auto simp: parse_nft_cancel_listing_def)

end
