(* ===== verification/Event_Discovery.thy ===== *)
theory Event_Discovery
  imports Eth_Events "HOL-Library.Product_Lexorder"
begin

text \<open>
  Discovery of the events of Ethereum (\<open>primitives/avn-common/src/event_discovery.rs\<close>): the
  ranges of blocks the validators look through, the partitions into which the events of a
  range are cut for the votes, and the filters on the kinds of events.
\<close>

section \<open>Ranges\<close>

record eth_block_range =
  start_block :: nat
  range_length :: nat

definition next_block_range :: "eth_block_range \<Rightarrow> eth_block_range" where
  "next_block_range r = \<lparr>start_block = sat_add32 (start_block r) (range_length r),
                   range_length = range_length r\<rparr>"

definition end_block :: "eth_block_range \<Rightarrow> nat" where
  "end_block r = sat_add32 (start_block r) (range_length r) - 1"

definition eth_range :: "eth_block_range \<Rightarrow> nat \<times> nat" where
  "eth_range r = (start_block r, end_block r)"

definition compute_start_block_from_finalised_block_number :: "nat \<Rightarrow> nat \<Rightarrow> unit + nat" where
  "compute_start_block_from_finalised_block_number ethereum_block len =
     (let calculation_block = ethereum_block - wrapping_mul32 5 len in
      if len = 0 then Inl () else Inr (calculation_block - calculation_block mod len))"

section \<open>Partitions\<close>

definition MAX_INCOMING_EVENTS_BATCH_SIZE :: nat where
  "MAX_INCOMING_EVENTS_BATCH_SIZE = 32"

record discovered_event =
  discovered :: eth_event
  in_block :: nat

text \<open>The order of the events: by block, then by the hash of the transaction.\<close>

definition discovery_key :: "discovered_event \<Rightarrow> nat \<times> nat" where
  "discovery_key e = (in_block e, transaction_hash (event_id (discovered e)))"

record events_partition =
  part_range :: eth_block_range
  part_index :: nat
  part_is_last :: bool
  part_events :: "discovered_event list"

definition new_events_partition ::
  "eth_block_range \<Rightarrow> nat \<Rightarrow> bool \<Rightarrow> discovered_event list \<Rightarrow> events_partition" where
  "new_events_partition r i lst es =
     \<lparr>part_range = r, part_index = i, part_is_last = lst, part_events = es\<rparr>"

text \<open>Building a set from a sorted sequence drops an element that equals its successor.\<close>

definition collect_events :: "discovered_event list \<Rightarrow> discovered_event list" where
  "collect_events es = remdups_adj (sort_key discovery_key es)"

fun chunks :: "nat \<Rightarrow> 'a list \<Rightarrow> 'a list list" where
  "chunks n [] = []"
| "chunks n (x # xs) = (if n = 0 then [x # xs] else take n (x # xs) # chunks n (drop n (x # xs)))"

fun push_partitions ::
  "eth_block_range \<Rightarrow> nat \<Rightarrow> nat \<Rightarrow> discovered_event list list \<Rightarrow> events_partition list" where
  "push_partitions r count i [] = []"
| "push_partitions r count i (c # cs) =
     (let inner = collect_events c in
      if MAX_INCOMING_EVENTS_BATCH_SIZE < length inner then []
      else new_events_partition r (i mod 2 ^ 16) (count = Suc i) inner # push_partitions r count (Suc i) cs)"

definition create_partitions :: "eth_block_range \<Rightarrow> discovered_event list \<Rightarrow> events_partition list" where
  "create_partitions r events =
     (let event_chunks = chunks MAX_INCOMING_EVENTS_BATCH_SIZE (sort_key discovery_key events);
          partitions = push_partitions r (length event_chunks) 0 event_chunks in
      if partitions = [] then [new_events_partition r 0 True []] else partitions)"

section \<open>Filters\<close>

type_synonym events_filter = "valid_event list"

definition EventsTypesLimit :: nat where "EventsTypesLimit = 20"

text \<open>A set with a bound on its size; a set over the bound becomes the empty one.\<close>

definition bounded_filter :: "valid_event list \<Rightarrow> events_filter" where
  "bounded_filter es = (if length es \<le> EventsTypesLimit then es else [])"

definition get_primary :: "events_filter \<Rightarrow> events_filter" where
  "get_primary f = filter (\<lambda>e. \<not> List.member (filter (\<lambda>e. \<not> is_primary e) valid_event_values) e) f"

definition get_remaining :: "events_filter \<Rightarrow> events_filter" where
  "get_remaining f = bounded_filter (filter (\<lambda>e. \<not> List.member f e) valid_event_values)"

definition all_events_filter :: events_filter where
  "all_events_filter = bounded_filter valid_event_values"

definition no_events_filter :: events_filter where
  "no_events_filter = []"

definition all_primary_events_filter :: events_filter where
  "all_primary_events_filter = get_primary all_events_filter"

definition nft_events_filter :: events_filter where
  "nft_events_filter = bounded_filter (filter is_nft_event valid_event_values)"

definition core_primary_events_filter :: events_filter where
  "core_primary_events_filter = bounded_filter (filter is_primary (get_remaining nft_events_filter))"

lemma filters_split:
  "set all_primary_events_filter = set nft_events_filter \<union> set core_primary_events_filter"
  "set nft_events_filter \<inter> set core_primary_events_filter = {}"
  by (auto simp: all_primary_events_filter_def nft_events_filter_def core_primary_events_filter_def
      all_events_filter_def get_primary_def get_remaining_def bounded_filter_def EventsTypesLimit_def
      valid_event_values_def)

section \<open>What the partitions hold\<close>

lemma concat_chunks: "concat (chunks n xs) = xs"
  by (induction n xs rule: chunks.induct) (auto simp del: take_Suc_Cons)

lemma chunks_bounded: "0 < n \<Longrightarrow> c \<in> set (chunks n xs) \<Longrightarrow> length c \<le> n \<and> c \<noteq> []"
  by (induction n xs rule: chunks.induct) auto

lemma length_collect_events: "length (collect_events es) \<le> length es"
  unfolding collect_events_def by (metis length_sort remdups_adj_length)

lemma set_collect_events [simp]: "set (collect_events es) = set es"
  by (simp add: collect_events_def)

lemma push_partitions_nth:
  assumes "\<forall>c\<in>set cs. length c \<le> MAX_INCOMING_EVENTS_BATCH_SIZE"
  shows "push_partitions r n i cs =
    map (\<lambda>k. new_events_partition r ((i + k) mod 2 ^ 16) (n = Suc (i + k)) (collect_events (cs ! k)))
      [0..<length cs]"
  using assms
proof (induction cs arbitrary: i)
  case (Cons c cs)
  have "[0..<length (c # cs)] = 0 # map Suc [0..<length cs]"
    by (simp add: upt_conv_Cons map_Suc_upt del: upt_Suc)
  then show ?case
    using Cons le_trans [OF length_collect_events, of c MAX_INCOMING_EVENTS_BATCH_SIZE]
    by (auto simp: Let_def not_less simp del: upt_Suc)
qed simp

definition event_chunks_of :: "discovered_event list \<Rightarrow> discovered_event list list" where
  "event_chunks_of es = chunks MAX_INCOMING_EVENTS_BATCH_SIZE (sort_key discovery_key es)"

lemma chunk_bounds:
  "c \<in> set (event_chunks_of es) \<Longrightarrow> length c \<le> MAX_INCOMING_EVENTS_BATCH_SIZE \<and> c \<noteq> []"
  unfolding event_chunks_of_def
  by (rule chunks_bounded) (simp_all add: MAX_INCOMING_EVENTS_BATCH_SIZE_def)

lemma set_chunks: "set es = (\<Union>c\<in>set (event_chunks_of es). set c)"
proof -
  have "set (concat (event_chunks_of es)) = set es"
    by (simp add: event_chunks_of_def concat_chunks)
  then show ?thesis
    by simp
qed

lemma create_partitions_eq:
  assumes "es \<noteq> []"
  shows "create_partitions r es =
    map (\<lambda>k. new_events_partition r (k mod 2 ^ 16) (length (event_chunks_of es) = Suc k)
      (collect_events (event_chunks_of es ! k))) [0..<length (event_chunks_of es)]"
proof -
  have "event_chunks_of es \<noteq> []"
    using assms set_chunks [of es] by auto
  then show ?thesis
    using push_partitions_nth [of "event_chunks_of es" r "length (event_chunks_of es)" 0] chunk_bounds
    by (simp add: create_partitions_def Let_def flip: event_chunks_of_def)
qed

end
