(* ===== verification/Eth_Bridge.thy ===== *)
theory Eth_Bridge
  imports Eth_Messages Event_Discovery Avn_Validators
begin

text \<open>
  The bridge to Ethereum (\<open>pallets/eth-bridge/src\<close>). Other pallets hand it transactions to
  send and lowers to prove. One request is active at a time, the others wait in a queue;
  the validators confirm the active one, a sender is appointed for it, and what they report
  about it decides what the pallet that asked for it is told. In the other direction the
  validators vote on the events of ranges of Ethereum blocks, and the events of a range
  that a quorum agrees on are handed to the pallets that handle them.

  The pallets behind \<open>BridgeInterfaceNotification\<close>, the offences pallet and the cryptography
  are parameters of the configuration; \<open>'w\<close> is the state of the other pallets. The calls of
  the notification interface are recorded in \<open>notified\<close> in their order. The checker of
  processed events is the pallet itself, as the runtime configures it.
\<close>

section \<open>Types\<close>

text \<open>The errors of the calls and of the worker; those of the conversions of the responses of the
  external service, which are not modelled, are left out.\<close>

datatype bridge_error =
    CorroborateCallFailed
  | DuplicateConfirmation
  | EmptyFunctionName
  | ErrorAssigningSender
  | EthTxHashAlreadySet
  | EthTxHashMustBeSetBySender
  | ExceedsConfirmationLimit
  | ExceedsCorroborationLimit
  | ExceedsFunctionNameLimit
  | EventAlreadyProcessed
  | FunctionEncodingError
  | FunctionNameError
  | HandlePublishingResultFailed
  | InvalidBytes
  | InvalidCorroborateCalldata
  | InvalidCorroborateResult
  | InvalidECDSASignature
  | InvalidSendCalldata
  | InvalidUint
  | InvalidUTF8
  | MsgHashError
  | ParamsLimitExceeded
  | ParamTypeEncodingError
  | SendTransactionFailed
  | TxRequestQueueFull
  | TypeNameLengthExceeded
  | ValueLengthExceeded
  | ErrorGettingEthereumCallData
  | InvalidSendRequest
  | LowerParamsError
  | CallerIdLengthExceeded
  | NoActiveRequest
  | CannotCorroborateOwnTransaction
  | EventVotesFull
  | EventVoteExists
  | NonActiveEthereumRange
  | VotingEnded
  | InvalidEthereumBlockRange
  | EventBelongsInFutureRange
  | QuotaReachedForAdditionalEvents
  | EventAlreadyAccepted
  | InvalidInstance
  | AuthorNotSender
  | SigningError
  | InvalidCorroborationData
  | BridgePanic

definition FunctionLimit :: nat where "FunctionLimit = 32"
definition CallerIdLimit :: nat where "CallerIdLimit = 50"
definition ParamsLimit :: nat where "ParamsLimit = 5"
definition TypeLimit :: nat where "TypeLimit = 7"
definition ValueLimit :: nat where "ValueLimit = 130"
definition MAX_CONFIRMATIONS :: nat where "MAX_CONFIRMATIONS = 100"
definition DEFAULT_ETH_RANGE :: nat where "DEFAULT_ETH_RANGE = 20"
definition UINT256 :: bytes where "UINT256 = ascii ''uint256''"
definition UINT32 :: bytes where "UINT32 = ascii ''uint32''"

record send_request_data =
  tx_id :: nat
  function_name :: bytes
  send_params :: eth_params
  send_caller_id :: bytes

record lower_proof_request_data =
  lower_id :: nat
  proof_params :: lower_params
  proof_caller_id :: bytes

datatype request = Send send_request_data | LowerProof lower_proof_request_data

fun id_matches :: "request \<Rightarrow> nat \<Rightarrow> bool" where
  "id_matches (Send req) i = (tx_id req = i)"
| "id_matches (LowerProof req) i = (lower_id req = i)"

record active_confirmation =
  msg_hash :: nat
  confirmations :: "bytes list"

record transaction_data =
  settled_function_name :: bytes
  settled_params :: eth_params
  settled_sender :: account
  settled_eth_tx_hash :: nat
  settled_tx_succeeded :: bool

record active_eth_transaction =
  eth_function_name :: bytes
  eth_tx_params :: eth_params
  eth_sender :: account
  eth_expiry :: nat
  eth_tx_hash :: nat
  success_corroborations :: "account list"
  failure_corroborations :: "account list"
  valid_tx_hash_corroborations :: "account list"
  invalid_tx_hash_corroborations :: "account list"
  tx_succeeded :: bool
  replay_attempt :: nat

record active_request_data =
  active_req :: request
  active_conf :: active_confirmation
  active_tx_data :: "active_eth_transaction option"
  last_updated :: nat

record active_transaction_data =
  atx_request :: send_request_data
  atx_confirmation :: active_confirmation
  atx_data :: active_eth_transaction
  atx_replay_attempt :: nat

definition as_active_tx :: "active_request_data \<Rightarrow> bridge_error + active_transaction_data" where
  "as_active_tx r =
     and_then (ok_or (active_tx_data r) InvalidSendRequest) (\<lambda>d.
       case active_req r of
         Send req \<Rightarrow> Inr \<lparr>atx_request = req, atx_confirmation = active_conf r, atx_data = d,
                         atx_replay_attempt = replay_attempt d\<rparr>
       | LowerProof _ \<Rightarrow> Inl InvalidSendRequest)"

record active_eth_range =
  ar_range :: eth_block_range
  ar_partition :: nat
  event_types_filter :: events_filter
  additional_transactions :: "nat list"

definition is_initial_range :: "active_eth_range \<Rightarrow> bool" where
  "is_initial_range r \<longleftrightarrow>
     r = \<lparr>ar_range = \<lparr>start_block = 0, range_length = 0\<rparr>, ar_partition = 0, event_types_filter = [],
          additional_transactions = []\<rparr>"

datatype bridge_admin_settings =
    EthereumTransactionLifetimeSeconds nat
  | EthereumTransactionId nat
  | RemoveActiveRequest
  | QueueAdditionalEthereumEvent nat
  | RestartEventDiscoveryOnRange
  | SetEthBridgeInstance eth_bridge_instance

datatype bridge_offence_type =
    ChallengeAttemptedOnSuccessfulTransaction
  | ChallengeAttemptedOnUnsuccessfulTransaction
  | InvalidEthereumRangeData

record bridge_offence =
  offence_session_index :: nat
  offence_offenders :: "(nat \<times> nat) list"
  offence_type :: bridge_offence_type
  offence_validator_set_count :: nat

datatype event_reason = BridgeReason bridge_error | HandlerReason string

datatype bridge_event =
    PublishToEthereum nat bytes eth_params bytes
  | LowerProofRequested nat lower_params bytes
  | EthTxIdUpdated nat
  | EthTxLifetimeUpdated nat
  | CorroborationOffenceReported bridge_offence_type "(nat \<times> nat) list"
  | ActiveRequestRemoved nat
  | ActiveRequestRetried bytes eth_params bytes
  | EventAccepted eth_event_id
  | EventRejected eth_event_id event_reason
  | EventMigrated eth_event_id bool
  | AdditionalEventQueued nat

record eth_processed_event =
  processed_id :: valid_event
  processed_accepted :: bool

text \<open>The calls of the notification interface.\<close>

datatype notification =
    ResultOf nat bytes bool
  | LowerProofOf nat bytes "unit + bytes"
  | Incoming eth_event

text \<open>What the validators sign when they submit to the pallet.\<close>

datatype bridge_payload =
    AddConfirmationData nat nat bytes account
  | AddEthTxHashData nat nat nat account
  | AddCorroborationData nat nat bool bool account nat
  | SubmitEventsData nat account events_partition
  | SubmitLatestBlockData nat account nat

record 'w bridge_config =
  process_result :: "nat \<Rightarrow> bytes \<Rightarrow> bool \<Rightarrow> 'w \<Rightarrow> bool \<times> 'w"
  process_lower_proof_result :: "nat \<Rightarrow> bytes \<Rightarrow> unit + bytes \<Rightarrow> 'w \<Rightarrow> bool \<times> 'w"
  on_incoming_event_processed :: "eth_event \<Rightarrow> 'w \<Rightarrow> string option \<times> 'w"
  max_queued_tx_requests :: nat
  min_eth_block_confirmation :: nat
  processed_events_handler :: events_filter
  eip712_hash :: "sol_struct \<Rightarrow> eip712_domain \<Rightarrow> nat"
  instance_hash :: "eth_bridge_instance \<Rightarrow> nat"
  recover_ecdsa_key :: "bytes \<Rightarrow> nat \<Rightarrow> nat option"
  validator_for_eth_public_key :: "nat \<Rightarrow> account option"
  verify_key :: "nat \<Rightarrow> bridge_payload \<Rightarrow> nat \<Rightarrow> bool"
  validator_id_of :: "account \<Rightarrow> nat option"
  full_identification_of :: "nat \<Rightarrow> nat option"
  is_known_offence :: "(nat \<times> nat) list \<Rightarrow> nat \<Rightarrow> 'w \<Rightarrow> bool"
  report_offence :: "account list \<Rightarrow> bridge_offence \<Rightarrow> 'w \<Rightarrow> 'w"
  current_session :: "'w \<Rightarrow> nat"

record 'w bridge =
  next_tx_id :: nat
  eth_tx_lifetime_secs :: nat
  request_queue :: "request list option"
  settled_transactions :: "(nat \<times> transaction_data) list"
  active_request :: "active_request_data option"
  active_ethereum_range :: "active_eth_range option"
  ethereum_events :: "(events_partition \<times> account list) list"
  submitted_eth_blocks :: "(nat \<times> account list) list"
  eth_block_range_size :: nat
  processed_ethereum_events :: "(nat \<times> eth_processed_event) list"
  additional_ethereum_events_queue :: "nat list"
  the_instance :: eth_bridge_instance
  bridge_avn :: avn
  bridge_block :: nat
  bridge_time :: nat
  bridge_world :: 'w
  notified :: "notification list"
  deposited :: "bridge_event list"

text \<open>A bounded ordered set of at most \<open>n\<close> elements.\<close>

definition set_try_insert :: "nat \<Rightarrow> nat \<Rightarrow> nat list \<Rightarrow> nat list option" where
  "set_try_insert n x xs =
     (if length xs < n \<or> List.member xs x then Some (if List.member xs x then xs else insort x xs) else None)"

definition bridge_event_deposit :: "bridge_event \<Rightarrow> 'w bridge \<Rightarrow> 'w bridge" where
  "bridge_event_deposit e s = s\<lparr>deposited := deposited s @ [e]\<rparr>"

definition bridge_validators :: "'w bridge \<Rightarrow> validator list" where
  "bridge_validators s = avn_validators (bridge_avn s)"

section \<open>Notifications and offences\<close>

definition notify_result :: "'w bridge_config \<Rightarrow> nat \<Rightarrow> bytes \<Rightarrow> bool \<Rightarrow> 'w bridge \<Rightarrow> bool \<times> 'w bridge" where
  "notify_result C i caller ok s =
     (let (done_ok, w) = process_result C i caller ok (bridge_world s)
      in (done_ok, s\<lparr>bridge_world := w, notified := notified s @ [ResultOf i caller ok]\<rparr>))"

definition notify_lower_proof ::
  "'w bridge_config \<Rightarrow> nat \<Rightarrow> bytes \<Rightarrow> unit + bytes \<Rightarrow> 'w bridge \<Rightarrow> bool \<times> 'w bridge" where
  "notify_lower_proof C i caller proof s =
     (let (done_ok, w) = process_lower_proof_result C i caller proof (bridge_world s)
      in (done_ok, s\<lparr>bridge_world := w, notified := notified s @ [LowerProofOf i caller proof]\<rparr>))"

definition notify_event :: "'w bridge_config \<Rightarrow> eth_event \<Rightarrow> 'w bridge \<Rightarrow> string option \<times> 'w bridge" where
  "notify_event C ev s =
     (let (err, w) = on_incoming_event_processed C ev (bridge_world s)
      in (err, s\<lparr>bridge_world := w, notified := notified s @ [Incoming ev]\<rparr>))"

definition bridge_offenders_identification :: "'w bridge_config \<Rightarrow> account list \<Rightarrow> (nat \<times> nat) list" where
  "bridge_offenders_identification C accounts =
     List.map_filter (\<lambda>i. map_option (\<lambda>full_id. (i, full_id)) (full_identification_of C i))
       (List.map_filter (validator_id_of C) accounts)"

definition create_and_report_bridge_offence ::
  "'w bridge_config \<Rightarrow> account \<Rightarrow> account list \<Rightarrow> bridge_offence_type \<Rightarrow> 'w bridge \<Rightarrow> 'w bridge" where
  "create_and_report_bridge_offence C reporter accounts kind s =
     (let offenders = bridge_offenders_identification C accounts;
          session = current_session C (bridge_world s) in
      if offenders = [] then s
      else if is_known_offence C offenders session (bridge_world s) then s
      else let offence = \<lparr>offence_session_index = session, offence_offenders = offenders,
                          offence_type = kind,
                          offence_validator_set_count = length (bridge_validators s) mod 2 ^ 32\<rparr> in
           bridge_event_deposit (CorroborationOffenceReported kind offenders)
             (s\<lparr>bridge_world := report_offence C [reporter] offence (bridge_world s)\<rparr>))"

text \<open>The fraction of its stake a validator loses, in parts of a billion.\<close>

definition slash_fraction :: "bridge_offence \<Rightarrow> nat \<Rightarrow> nat" where
  "slash_fraction offence offenders_count =
     (let n = wrapping_mul32 3 offenders_count; d = offence_validator_set_count offence;
          p = (if d \<le> n then 1000000000 else n * 1000000000 div d)
      in p * p div 1000000000)"

section \<open>Confirmations and corroborations\<close>

definition has_enough_corroborations :: "nat \<Rightarrow> 'w bridge \<Rightarrow> bool" where
  "has_enough_corroborations corroborations s =
     (let num_authors_excluding_sender = wrapping_sub32 (length (bridge_validators s) mod 2 ^ 32) 1
      in required_for num_authors_excluding_sender \<le> corroborations mod 2 ^ 32)"

definition has_sender_and_confirmations :: "nat \<Rightarrow> 'w bridge \<Rightarrow> bool" where
  "has_sender_and_confirmations n s \<longleftrightarrow> get_quorum (bridge_validators s) \<le> wrapping_add32 n 1"

definition has_supermajority_confirmations :: "nat \<Rightarrow> 'w bridge \<Rightarrow> bool" where
  "has_supermajority_confirmations n s \<longleftrightarrow> get_supermajority_quorum (bridge_validators s) \<le> n"

definition has_enough_confirmations :: "active_request_data \<Rightarrow> 'w bridge \<Rightarrow> bool" where
  "has_enough_confirmations r s =
     (let n = length (confirmations (active_conf r)) in
      case active_req r of
        Send _ \<Rightarrow> has_sender_and_confirmations n s
      | LowerProof _ \<Rightarrow> has_supermajority_confirmations n s)"

definition requires_corroboration :: "active_eth_transaction \<Rightarrow> validator \<Rightarrow> bool" where
  "requires_corroboration tx author \<longleftrightarrow>
     \<not> List.member (success_corroborations tx) (v_account author) \<and>
     \<not> List.member (failure_corroborations tx) (v_account author)"

definition eth_signature_is_valid :: "'w bridge_config \<Rightarrow> nat \<Rightarrow> validator \<Rightarrow> bytes \<Rightarrow> 'w bridge \<Rightarrow> bool" where
  "eth_signature_is_valid C hash v signature s =
     (if \<not> is_validator (bridge_validators s) (v_account v) then False
      else case recover_ecdsa_key C signature hash of
             None \<Rightarrow> False
           | Some key \<Rightarrow> (case validator_for_eth_public_key C key of
                            Some maybe_validator \<Rightarrow> maybe_validator = v_account v
                          | None \<Rightarrow> False))"

definition verify_eth_signature ::
  "'w bridge_config \<Rightarrow> nat \<Rightarrow> validator \<Rightarrow> bytes \<Rightarrow> 'w bridge \<Rightarrow> bridge_error + unit" where
  "verify_eth_signature C hash author confirmation s =
     (if eth_signature_is_valid C hash author confirmation s then Inr () else Inl InvalidECDSASignature)"

definition encode_confirmations :: "bytes list \<Rightarrow> bytes" where
  "encode_confirmations cs = concat cs"

definition generate_encoded_lower_proof :: "lower_proof_request_data \<Rightarrow> bytes list \<Rightarrow> bytes" where
  "generate_encoded_lower_proof req cs = proof_params req @ encode_confirmations cs"

section \<open>Setting requests up\<close>

fun bound_each :: "eth_params \<Rightarrow> bridge_error + eth_params" where
  "bound_each [] = Inr []"
| "bound_each ((t, v) # ps) =
     (if TypeLimit < length t then Inl TypeNameLengthExceeded
      else if ValueLimit < length v then Inl ValueLengthExceeded
      else and_then (bound_each ps) (\<lambda>qs. Inr ((t, v) # qs)))"

definition bound_params :: "eth_params \<Rightarrow> bridge_error + eth_params" where
  "bound_params ps = and_then (bound_each ps) (\<lambda>qs.
     if ParamsLimit < length qs then Inl ParamsLimitExceeded else Inr qs)"

definition extend_params :: "send_request_data \<Rightarrow> nat \<Rightarrow> bridge_error + eth_params" where
  "extend_params req expiry =
     bound_params (send_params req @ [(UINT256, decimal expiry), (UINT32, decimal (tx_id req))])"

definition assign_sender :: "'w bridge \<Rightarrow> bridge_error + account \<times> 'w bridge" where
  "assign_sender s =
     and_then (map_err_with (\<lambda>e. if e = AvnPanic then BridgePanic else ErrorAssigningSender)
                 (advance_primary_validator_for_sending (bridge_avn s))) (\<lambda>(sender, a).
       Inr (sender, s\<lparr>bridge_avn := a\<rparr>))"

fun hash_failure :: "hash_error \<Rightarrow> bridge_error \<Rightarrow> bridge_error" where
  "hash_failure HashErr e = e"
| "hash_failure HashPanic e = BridgePanic"

definition set_up_active_tx ::
  "'w bridge_config \<Rightarrow> send_request_data \<Rightarrow> nat option \<Rightarrow> 'w bridge \<Rightarrow> bridge_error + 'w bridge" where
  "set_up_active_tx C req replay_maybe s =
     (let expiry = wrapping_add64 (bridge_time s) (eth_tx_lifetime_secs s) in
      and_then (extend_params req expiry) (\<lambda>extended_params.
      and_then (map_err_with (\<lambda>e. hash_failure e MsgHashError)
                 (create_function_confirmation_hash (eip712_hash C) (function_name req) extended_params
                   (into_domain (the_instance s)))) (\<lambda>hash.
      and_then (assign_sender s) (\<lambda>(sender, s1).
        Inr (s1\<lparr>active_request := Some
          \<lparr>active_req = Send req, active_conf = \<lparr>msg_hash = hash, confirmations = []\<rparr>,
           active_tx_data = Some
             \<lparr>eth_function_name = function_name req, eth_tx_params = extended_params,
              eth_sender = sender, eth_expiry = expiry, eth_tx_hash = 0,
              success_corroborations = [], failure_corroborations = [],
              valid_tx_hash_corroborations = [], invalid_tx_hash_corroborations = [],
              tx_succeeded = False,
              replay_attempt = (case replay_maybe of None \<Rightarrow> 0 | Some n \<Rightarrow> n)\<rparr>,
           last_updated = bridge_block s1\<rparr>\<rparr>)))))"

definition set_up_active_lower_proof ::
  "'w bridge_config \<Rightarrow> lower_proof_request_data \<Rightarrow> 'w bridge \<Rightarrow> bridge_error + 'w bridge" where
  "set_up_active_lower_proof C req s =
     and_then (map_err LowerParamsError
                 (create_lower_proof_hash (\<lambda>d. eip712_hash C (SolLowerData d)) (proof_params req)
                   (into_domain (the_instance s)))) (\<lambda>hash.
       Inr (s\<lparr>active_request := Some
          \<lparr>active_req = LowerProof req, active_conf = \<lparr>msg_hash = hash, confirmations = []\<rparr>,
           active_tx_data = None, last_updated = bridge_block s\<rparr>\<rparr>))"

definition queue_request :: "'w bridge_config \<Rightarrow> request \<Rightarrow> 'w bridge \<Rightarrow> bridge_error + 'w bridge" where
  "queue_request C req s =
     (let queue = (case request_queue s of None \<Rightarrow> [] | Some q \<Rightarrow> q) in
      if length queue < max_queued_tx_requests C
      then Inr (s\<lparr>request_queue := Some (queue @ [req])\<rparr>)
      else Inl TxRequestQueueFull)"

definition dequeue_request :: "'w bridge \<Rightarrow> request option \<times> 'w bridge" where
  "dequeue_request s =
     (let s0 = s\<lparr>request_queue := None\<rparr> in
      case request_queue s of
        Some (r # q) \<Rightarrow> (Some r, if q = [] then s0 else s0\<lparr>request_queue := Some q\<rparr>)
      | _ \<Rightarrow> (None, s0))"

definition queued :: "'w bridge \<Rightarrow> request list" where
  "queued s = (case request_queue s of None \<Rightarrow> [] | Some q \<Rightarrow> q)"

lemma dequeue_shorter:
  "dequeue_request s = (Some r, s1) \<Longrightarrow> queued s = r # queued s1"
  by (auto simp: dequeue_request_def queued_def Let_def split: option.splits list.splits if_splits)

lemma queued_frame [simp]:
  "queued (s\<lparr>active_request := a\<rparr>) = queued s"
  "queued (snd (notify_result C i c ok s)) = queued s"
  "queued (snd (notify_lower_proof C i c p s)) = queued s"
  by (simp_all add: queued_def notify_result_def notify_lower_proof_def split_beta)

text \<open>An error of the set-up answers the request and goes on to the next one; only a panic ends
  the loop, which ends the call it is made in.\<close>

function process_next_request :: "'w bridge_config \<Rightarrow> 'w bridge \<Rightarrow> bridge_error + 'w bridge" where
  "process_next_request C s =
     (case dequeue_request (s\<lparr>active_request := None\<rparr>) of
        (None, s1) \<Rightarrow> Inr s1
      | (Some (Send r), s1) \<Rightarrow>
          (case set_up_active_tx C r None s1 of
             Inr s2 \<Rightarrow> Inr s2
           | Inl e \<Rightarrow> if e = BridgePanic then Inl e
                     else process_next_request C (snd (notify_result C (tx_id r) (send_caller_id r) False s1)))
      | (Some (LowerProof r), s1) \<Rightarrow>
          (case set_up_active_lower_proof C r s1 of
             Inr s2 \<Rightarrow> Inr s2
           | Inl e \<Rightarrow> process_next_request C
                       (snd (notify_lower_proof C (lower_id r) (proof_caller_id r) (Inl ()) s1))))"
  by pat_completeness auto
termination
  by (relation "measure (\<lambda>(C, s). length (queued s))")
    (auto dest!: dequeue_shorter [OF sym])

declare process_next_request.simps [simp del]

definition use_next_tx_id :: "'w bridge \<Rightarrow> nat \<times> 'w bridge" where
  "use_next_tx_id s = (next_tx_id s, s\<lparr>next_tx_id := wrapping_add32 (next_tx_id s) 1\<rparr>)"

text \<open>A failed request has still used an identifier.\<close>

definition add_new_send_request ::
  "'w bridge_config \<Rightarrow> bytes \<Rightarrow> eth_params \<Rightarrow> bytes \<Rightarrow> 'w bridge \<Rightarrow> (bridge_error + nat) \<times> 'w bridge" where
  "add_new_send_request C name params caller s =
     (if \<not> utf8_valid name then (Inl FunctionNameError, s)
      else if name = [] then (Inl EmptyFunctionName, s)
      else let (i, s1) = use_next_tx_id s in
        case and_then (ensure (length name \<le> FunctionLimit) ExceedsFunctionNameLimit) (\<lambda>_.
             and_then (bound_params params) (\<lambda>ps.
             and_then (ensure (length caller \<le> CallerIdLimit) CallerIdLengthExceeded) (\<lambda>_.
               let req = \<lparr>tx_id = i, function_name = name, send_params = ps, send_caller_id = caller\<rparr> in
               if active_request s1 \<noteq> None then queue_request C (Send req) s1
               else set_up_active_tx C req None s1))) of
          Inl e \<Rightarrow> (Inl e, s1)
        | Inr s2 \<Rightarrow> (Inr i, s2))"

definition add_new_lower_proof_request ::
  "'w bridge_config \<Rightarrow> nat \<Rightarrow> lower_params \<Rightarrow> bytes \<Rightarrow> 'w bridge \<Rightarrow> bridge_error + 'w bridge" where
  "add_new_lower_proof_request C i params caller s =
     and_then (ensure (length caller \<le> CallerIdLimit) CallerIdLengthExceeded) (\<lambda>_.
       let req = \<lparr>lower_id = i, proof_params = params, proof_caller_id = caller\<rparr> in
       if active_request s \<noteq> None then queue_request C (LowerProof req) s
       else set_up_active_lower_proof C req s)"

text \<open>The interface for the other pallets.\<close>

definition publish ::
  "'w bridge_config \<Rightarrow> bytes \<Rightarrow> eth_params \<Rightarrow> bytes \<Rightarrow> 'w bridge \<Rightarrow> (bridge_error + nat) \<times> 'w bridge" where
  "publish C name params caller s =
     (case add_new_send_request C name params caller s of
        (Inl e, s1) \<Rightarrow> (Inl e, s1)
      | (Inr i, s1) \<Rightarrow> (Inr i, bridge_event_deposit (PublishToEthereum i name params caller) s1))"

definition generate_lower_proof ::
  "'w bridge_config \<Rightarrow> nat \<Rightarrow> lower_params \<Rightarrow> bytes \<Rightarrow> 'w bridge \<Rightarrow> bridge_error + 'w bridge" where
  "generate_lower_proof C i params caller s =
     and_then (add_new_lower_proof_request C i params caller s) (\<lambda>s1.
       Inr (bridge_event_deposit (LowerProofRequested i params caller) s1))"

section \<open>Settling requests\<close>

definition complete_lower_proof_request ::
  "'w bridge_config \<Rightarrow> lower_proof_request_data \<Rightarrow> bytes list \<Rightarrow> 'w bridge \<Rightarrow> bridge_error + 'w bridge" where
  "complete_lower_proof_request C req cs s =
     (let lower_proof = generate_encoded_lower_proof req cs;
          (_, s1) = notify_lower_proof C (lower_id req) (proof_caller_id req) (Inr lower_proof) s
      in process_next_request C s1)"

definition replay_send_request ::
  "'w bridge_config \<Rightarrow> active_transaction_data \<Rightarrow> 'w bridge \<Rightarrow> bridge_error + 'w bridge" where
  "replay_send_request C tx s =
     (let req = atx_request tx;
          s1 = bridge_event_deposit
                 (ActiveRequestRetried (function_name req) (send_params req) (send_caller_id req)) s
      in set_up_active_tx C req (Some (min (atx_replay_attempt tx + 1) (2 ^ 16 - 1))) s1)"

text \<open>The validators who reported the other outcome have committed an offence.\<close>

definition report_dissent ::
  "'w bridge_config \<Rightarrow> bool \<Rightarrow> active_eth_transaction \<Rightarrow> 'w bridge \<Rightarrow> 'w bridge" where
  "report_dissent C success d s =
     (if success then
        (if failure_corroborations d \<noteq> []
         then create_and_report_bridge_offence C (eth_sender d) (failure_corroborations d)
                ChallengeAttemptedOnSuccessfulTransaction s
         else s)
      else
        (if success_corroborations d \<noteq> []
         then create_and_report_bridge_offence C (eth_sender d) (success_corroborations d)
                ChallengeAttemptedOnUnsuccessfulTransaction s
         else s))"

definition complete_transaction ::
  "'w bridge_config \<Rightarrow> active_transaction_data \<Rightarrow> bool \<Rightarrow> 'w bridge \<Rightarrow> bridge_error + 'w bridge" where
  "complete_transaction C tx success s =
     (let req = atx_request tx; d = atx_data tx;
          (ok, s1) = notify_result C (tx_id req) (send_caller_id req) success s in
      and_then (ensure ok HandlePublishingResultFailed) (\<lambda>_.
      let s2 = report_dissent C success d s1;
          hash = (if success \<and> has_enough_corroborations (length (invalid_tx_hash_corroborations d)) s2
                  then 0 else eth_tx_hash d);
          s3 = s2\<lparr>settled_transactions := alist_insert (tx_id req)
                 \<lparr>settled_function_name = function_name req, settled_params = eth_tx_params d,
                  settled_sender = eth_sender d, settled_eth_tx_hash = hash,
                  settled_tx_succeeded = success\<rparr> (settled_transactions s2)\<rparr>
      in process_next_request C s3))"

definition finalize_state ::
  "'w bridge_config \<Rightarrow> active_transaction_data \<Rightarrow> bool \<Rightarrow> 'w bridge \<Rightarrow> bridge_error + 'w bridge" where
  "finalize_state C tx success s =
     (if \<not> success \<and> has_enough_corroborations (length (invalid_tx_hash_corroborations (atx_data tx))) s
      then replay_send_request C tx s
      else complete_transaction C tx success s)"

section \<open>Calls on the active request\<close>

definition is_active_request :: "nat \<Rightarrow> 'w bridge \<Rightarrow> bool" where
  "is_active_request i s = (case active_request s of None \<Rightarrow> False | Some r \<Rightarrow> id_matches (active_req r) i)"

definition save_active_request_to_storage :: "active_request_data \<Rightarrow> 'w bridge \<Rightarrow> 'w bridge" where
  "save_active_request_to_storage tx s = s\<lparr>active_request := Some (tx\<lparr>last_updated := bridge_block s\<rparr>)\<rparr>"

definition sent_by :: "validator \<Rightarrow> active_request_data \<Rightarrow> bool" where
  "sent_by author r =
     (case (active_req r, active_tx_data r) of
        (Send _, Some d) \<Rightarrow> v_account author = eth_sender d
      | _ \<Rightarrow> False)"

definition add_confirmation ::
  "'w bridge_config \<Rightarrow> origin \<Rightarrow> nat \<Rightarrow> bytes \<Rightarrow> validator \<Rightarrow> 'w bridge \<Rightarrow> bridge_error dispatch_error + 'w bridge" where
  "add_confirmation C origin request_id confirmation author s =
     and_then (unsigned_only origin) (\<lambda>_.
     map_err_with PalletErr
     (case active_request s of
        None \<Rightarrow> Inr s
      | Some req \<Rightarrow>
         if \<not> is_active_request request_id s then Inr s
         else if has_enough_confirmations req s then Inr s
         else if sent_by author req then Inr s
         else and_then (verify_eth_signature C (msg_hash (active_conf req)) author confirmation s) (\<lambda>_.
           and_then (ensure (\<not> List.member (confirmations (active_conf req)) confirmation)
                       DuplicateConfirmation) (\<lambda>_.
           and_then (ok_or (try_push MAX_CONFIRMATIONS confirmation (confirmations (active_conf req)))
                       ExceedsConfirmationLimit) (\<lambda>cs.
             let req1 = req\<lparr>active_conf := (active_conf req)\<lparr>confirmations := cs\<rparr>\<rparr> in
             case active_req req1 of
               LowerProof lower_req \<Rightarrow>
                 if has_enough_confirmations req1 s then complete_lower_proof_request C lower_req cs s
                 else Inr (save_active_request_to_storage req1 s)
             | Send _ \<Rightarrow> Inr (save_active_request_to_storage req1 s))))))"

definition add_eth_tx_hash ::
  "origin \<Rightarrow> nat \<Rightarrow> nat \<Rightarrow> validator \<Rightarrow> 'w bridge \<Rightarrow> bridge_error dispatch_error + 'w bridge" where
  "add_eth_tx_hash origin i hash author s =
     and_then (unsigned_only origin) (\<lambda>_.
     map_err_with PalletErr
     (case active_request s of
        None \<Rightarrow> Inr s
      | Some tx \<Rightarrow>
         if \<not> is_active_request i s then Inr s
         else case active_tx_data tx of
                None \<Rightarrow> Inr s
              | Some d \<Rightarrow>
                  and_then (ensure (eth_tx_hash d = 0) EthTxHashAlreadySet) (\<lambda>_.
                  and_then (ensure (eth_sender d = v_account author) EthTxHashMustBeSetBySender) (\<lambda>_.
                    Inr (save_active_request_to_storage
                           (tx\<lparr>active_tx_data := Some (d\<lparr>eth_tx_hash := hash\<rparr>)\<rparr>) s)))))"

text \<open>The report of one author on the hash and on the outcome of the transaction.\<close>

definition record_corroboration ::
  "bool \<Rightarrow> bool \<Rightarrow> account \<Rightarrow> active_eth_transaction \<Rightarrow> bridge_error + active_eth_transaction" where
  "record_corroboration succeeded hash_is_valid who d =
     and_then (if hash_is_valid
       then and_then (ok_or (try_push MAX_CONFIRMATIONS who (valid_tx_hash_corroborations d))
                        ExceedsCorroborationLimit) (\<lambda>xs. Inr (d\<lparr>valid_tx_hash_corroborations := xs\<rparr>))
       else and_then (ok_or (try_push MAX_CONFIRMATIONS who (invalid_tx_hash_corroborations d))
                        ExceedsCorroborationLimit) (\<lambda>xs. Inr (d\<lparr>invalid_tx_hash_corroborations := xs\<rparr>)))
     (\<lambda>d1. if succeeded
       then and_then (ok_or (try_push MAX_CONFIRMATIONS who (success_corroborations d1))
                        ExceedsCorroborationLimit) (\<lambda>xs. Inr (d1\<lparr>success_corroborations := xs\<rparr>))
       else and_then (ok_or (try_push MAX_CONFIRMATIONS who (failure_corroborations d1))
                        ExceedsCorroborationLimit) (\<lambda>xs. Inr (d1\<lparr>failure_corroborations := xs\<rparr>)))"

definition matching_corroborations :: "bool \<Rightarrow> active_eth_transaction \<Rightarrow> account list" where
  "matching_corroborations succeeded d = (if succeeded then success_corroborations d else failure_corroborations d)"

definition add_corroboration ::
  "'w bridge_config \<Rightarrow> origin \<Rightarrow> nat \<Rightarrow> bool \<Rightarrow> bool \<Rightarrow> validator \<Rightarrow> nat \<Rightarrow> 'w bridge
     \<Rightarrow> bridge_error dispatch_error + 'w bridge" where
  "add_corroboration C origin i succeeded hash_is_valid author attempt s =
     and_then (unsigned_only origin) (\<lambda>_.
     map_err_with PalletErr
     (case active_request s of
        None \<Rightarrow> Inr s
      | Some tx \<Rightarrow>
         if \<not> is_active_request i s then Inr s
         else case active_tx_data tx of
                None \<Rightarrow> Inr s
              | Some d \<Rightarrow>
                  and_then (ensure (attempt = replay_attempt d) InvalidCorroborationData) (\<lambda>_.
                  and_then (ensure (v_account author \<noteq> eth_sender d) CannotCorroborateOwnTransaction) (\<lambda>_.
                  if \<not> requires_corroboration d author then Inr s
                  else and_then (record_corroboration succeeded hash_is_valid (v_account author) d) (\<lambda>d1.
                    let tx1 = tx\<lparr>active_tx_data := Some d1\<rparr> in
                    if has_enough_corroborations (length (matching_corroborations succeeded d1)) s
                    then and_then (as_active_tx tx1) (\<lambda>atx. finalize_state C atx succeeded s)
                    else Inr (save_active_request_to_storage tx1 s))))))"

definition remove_active_request_impl :: "'w bridge_config \<Rightarrow> 'w bridge \<Rightarrow> bridge_error + 'w bridge" where
  "remove_active_request_impl C s =
     (case active_request s of
        None \<Rightarrow> Inl NoActiveRequest
      | Some r \<Rightarrow>
         let (request_id, s1) =
               (case active_req r of
                  Send req \<Rightarrow> (tx_id req, snd (notify_result C (tx_id req) (send_caller_id req) False s))
                | LowerProof req \<Rightarrow>
                    (lower_id req, snd (notify_lower_proof C (lower_id req) (proof_caller_id req) (Inl ()) s)))
         in and_then (process_next_request C s1) (\<lambda>s2.
              Inr (bridge_event_deposit (ActiveRequestRemoved request_id) s2)))"

section \<open>Processed events\<close>

definition LEGACY_LIFT_SIGNATURE :: "nat list" where
  "LEGACY_LIFT_SIGNATURE =
     [0x8964776336bc2fa8ecaaf70b6f8e8450807efb1ff78f8b87980707aa821f0ec0,
      0x53dbd0621188344e69521ce5392debdff038d57d0ebd39536df06b20d9142bc0]"

definition ethereum_event_has_already_been_accepted :: "nat \<Rightarrow> 'w bridge \<Rightarrow> bool" where
  "ethereum_event_has_already_been_accepted hash s =
     (case alist_get hash (processed_ethereum_events s) of
        Some processed_event \<Rightarrow> processed_accepted processed_event
      | None \<Rightarrow> False)"

definition processed_event_exists :: "eth_event_id \<Rightarrow> 'w bridge \<Rightarrow> bool" where
  "processed_event_exists eid s \<longleftrightarrow> alist_get (transaction_hash eid) (processed_ethereum_events s) \<noteq> None"

definition add_processed_event :: "eth_event_id \<Rightarrow> bool \<Rightarrow> 'w bridge \<Rightarrow> unit + 'w bridge" where
  "add_processed_event eid accepted s =
     (let hash = transaction_hash eid in
      and_then (ensure (\<not> ethereum_event_has_already_been_accepted hash s) ()) (\<lambda>_.
      and_then (if List.member LEGACY_LIFT_SIGNATURE (id_signature eid) then Inr Lifted
                else valid_event_try_from (id_signature eid)) (\<lambda>kind.
        Inr (s\<lparr>processed_ethereum_events := alist_insert hash
               \<lparr>processed_id = kind, processed_accepted = accepted\<rparr> (processed_ethereum_events s)\<rparr>))))"

datatype event_processing_error = EventAlreadyProcessedErr | InvalidNetwork | InvalidInstanceErr

definition network_processed_event_exists :: "ethereum_network \<Rightarrow> eth_event_id \<Rightarrow> 'w bridge \<Rightarrow> bool" where
  "network_processed_event_exists net eid s =
     (if \<not> instance_is_valid (the_instance s) \<or> network (the_instance s) \<noteq> net then False
      else processed_event_exists eid s)"

definition network_add_processed_event ::
  "ethereum_network \<Rightarrow> eth_event_id \<Rightarrow> bool \<Rightarrow> 'w bridge \<Rightarrow> event_processing_error + 'w bridge" where
  "network_add_processed_event net eid accepted s =
     and_then (ensure (instance_is_valid (the_instance s)) InvalidInstanceErr) (\<lambda>_.
     and_then (ensure (network (the_instance s) = net) InvalidNetwork) (\<lambda>_.
       map_err EventAlreadyProcessedErr (add_processed_event eid accepted s)))"

text \<open>The first failure leaves the state as it was; an event the handlers reject stays recorded.\<close>

definition process_ethereum_event ::
  "'w bridge_config \<Rightarrow> ethereum_network \<Rightarrow> eth_event \<Rightarrow> 'w bridge \<Rightarrow> bridge_error + 'w bridge" where
  "process_ethereum_event C net ev s =
     and_then (ensure (\<not> network_processed_event_exists net (event_id ev) s) EventAlreadyProcessed) (\<lambda>_.
     and_then (map_err EventAlreadyProcessed (network_add_processed_event net (event_id ev) True s)) (\<lambda>s1.
       case notify_event C ev s1 of
         (None, s2) \<Rightarrow> Inr (bridge_event_deposit (EventAccepted (event_id ev)) s2)
       | (Some err, s2) \<Rightarrow>
           Inr (bridge_event_deposit (EventRejected (event_id ev) (HandlerReason err)) s2)))"

section \<open>Votes on ranges\<close>

definition process_discovered_event ::
  "'w bridge_config \<Rightarrow> ethereum_network \<Rightarrow> active_eth_range \<Rightarrow> discovered_event \<Rightarrow> 'w bridge \<Rightarrow> 'w bridge" where
  "process_discovered_event C net rng e s =
     (case valid_event_try_from (id_signature (event_id (discovered e))) of
        Inl _ \<Rightarrow> s
      | Inr kind \<Rightarrow>
          if List.member (event_types_filter rng) kind then
            (if end_block (ar_range rng) < in_block e
             then bridge_event_deposit
                    (EventRejected (event_id (discovered e)) (BridgeReason EventBelongsInFutureRange)) s
             else case process_ethereum_event C net (discovered e) s of
                    Inl err \<Rightarrow> bridge_event_deposit
                                 (EventRejected (event_id (discovered e)) (BridgeReason err)) s
                  | Inr s1 \<Rightarrow> s1)
          else s)"

definition process_ethereum_events_partition ::
  "'w bridge_config \<Rightarrow> ethereum_network \<Rightarrow> active_eth_range \<Rightarrow> events_partition \<Rightarrow> validator \<Rightarrow> 'w bridge \<Rightarrow> 'w bridge" where
  "process_ethereum_events_partition C net rng part author s =
     (let s1 = s\<lparr>ethereum_events := alist_remove part (ethereum_events s)\<rparr>;
          s2 = fold (process_discovered_event C net rng) (part_events part) s1;
          invalid_votes = ethereum_events s2
      in fold (\<lambda>(_, votes). create_and_report_bridge_offence C (v_account author) votes InvalidEthereumRangeData)
           invalid_votes (s2\<lparr>ethereum_events := []\<rparr>))"

definition advance_partition ::
  "'w bridge_config \<Rightarrow> active_eth_range \<Rightarrow> events_partition \<Rightarrow> 'w bridge \<Rightarrow> 'w bridge" where
  "advance_partition C rng approved s =
     (if part_is_last approved
      then s\<lparr>active_ethereum_range := Some
               \<lparr>ar_range = next_block_range (ar_range rng), ar_partition = 0,
                event_types_filter = processed_events_handler C,
                additional_transactions = additional_ethereum_events_queue s\<rparr>,
             additional_ethereum_events_queue := []\<rparr>
      else s\<lparr>active_ethereum_range := Some (rng\<lparr>ar_partition := min (ar_partition rng + 1) (2 ^ 16 - 1)\<rparr>)\<rparr>)"

definition author_has_cast_event_vote :: "account \<Rightarrow> 'w bridge \<Rightarrow> bool" where
  "author_has_cast_event_vote author s = list_ex (\<lambda>(_, votes). List.member votes author) (ethereum_events s)"

definition author_has_submitted_latest_block :: "account \<Rightarrow> 'w bridge \<Rightarrow> bool" where
  "author_has_submitted_latest_block author s =
     list_ex (\<lambda>(_, votes). List.member votes author) (submitted_eth_blocks s)"

definition does_range_matches_active :: "events_partition \<Rightarrow> 'w bridge \<Rightarrow> bool" where
  "does_range_matches_active part s =
     (case active_ethereum_range s of
        None \<Rightarrow> False
      | Some active \<Rightarrow> part_range part = ar_range active \<and> part_index part = ar_partition active)"

definition votes_on :: "'k \<Rightarrow> ('k \<times> account list) list \<Rightarrow> account list" where
  "votes_on k m = (case alist_get k m of None \<Rightarrow> [] | Some votes \<Rightarrow> votes)"

definition submit_ethereum_events ::
  "'w bridge_config \<Rightarrow> origin \<Rightarrow> validator \<Rightarrow> events_partition \<Rightarrow> 'w bridge \<Rightarrow> bridge_error dispatch_error + 'w bridge" where
  "submit_ethereum_events C origin author part s =
     and_then (unsigned_only origin) (\<lambda>_.
     map_err_with PalletErr
     (and_then (ensure (instance_is_valid (the_instance s)) InvalidInstance) (\<lambda>_.
      and_then (ok_or (active_ethereum_range s) NonActiveEthereumRange) (\<lambda>active.
      and_then (ensure (part_range part = ar_range active \<and> part_index part = ar_partition active)
                  NonActiveEthereumRange) (\<lambda>_.
      and_then (ensure (\<not> author_has_cast_event_vote (v_account author) s) EventVoteExists) (\<lambda>_.
      and_then (ok_or (set_try_insert MaximumValidatorsBound (v_account author)
                         (votes_on part (ethereum_events s))) EventVotesFull) (\<lambda>votes.
        if length votes < get_quorum (bridge_validators s)
        then Inr (s\<lparr>ethereum_events := alist_insert part votes (ethereum_events s)\<rparr>)
        else Inr (advance_partition C active part
               (process_ethereum_events_partition C (network (the_instance s)) active part author s)))))))))"

text \<open>The lowest block such that fewer than a quorum of the votes that count are left above it.\<close>

fun select_start :: "nat \<Rightarrow> nat \<Rightarrow> (nat \<times> nat) list \<Rightarrow> nat option" where
  "select_start quorum remaining [] = None"
| "select_start quorum remaining ((block, count) # bs) =
     (if remaining - count < quorum then Some block else select_start quorum (remaining - count) bs)"

definition submit_latest_ethereum_block ::
  "'w bridge_config \<Rightarrow> origin \<Rightarrow> validator \<Rightarrow> nat \<Rightarrow> 'w bridge \<Rightarrow> bridge_error dispatch_error + 'w bridge" where
  "submit_latest_ethereum_block C origin author latest_seen_block s =
     and_then (unsigned_only origin) (\<lambda>_.
     map_err_with PalletErr
     (and_then (ensure (instance_is_valid (the_instance s)) InvalidInstance) (\<lambda>_.
      and_then (ensure (active_ethereum_range s = None) VotingEnded) (\<lambda>_.
      and_then (ensure (\<not> author_has_submitted_latest_block (v_account author) s) EventVoteExists) (\<lambda>_.
      and_then (map_err InvalidEthereumBlockRange
                  (compute_start_block_from_finalised_block_number latest_seen_block
                     (eth_block_range_size s))) (\<lambda>latest_finalised_block.
      and_then (ok_or (set_try_insert MaximumValidatorsBound (v_account author)
                         (votes_on latest_finalised_block (submitted_eth_blocks s))) EventVotesFull) (\<lambda>votes.
      let s1 = s\<lparr>submitted_eth_blocks :=
                   alist_insert latest_finalised_block votes (submitted_eth_blocks s)\<rparr>;
          submitted_blocks = sort (map (\<lambda>(block, vs). (block, length vs)) (submitted_eth_blocks s1));
          total_votes_count = sum_list (map snd submitted_blocks);
          threshold = get_supermajority_quorum (bridge_validators s) in
      if threshold \<le> total_votes_count
      then let quorum = get_quorum (bridge_validators s);
               selected_range = (case select_start quorum threshold submitted_blocks of
                   None \<Rightarrow> \<lparr>start_block = 0, range_length = 0\<rparr>
                 | Some block \<Rightarrow> \<lparr>start_block = block, range_length = eth_block_range_size s\<rparr>)
           in Inr (s1\<lparr>active_ethereum_range := Some
                       \<lparr>ar_range = selected_range, ar_partition = 0,
                        event_types_filter = processed_events_handler C,
                        additional_transactions = additional_ethereum_events_queue s\<rparr>,
                     additional_ethereum_events_queue := [],
                     submitted_eth_blocks := drop MaximumValidatorsBound (submitted_eth_blocks s1)\<rparr>)
      else Inr s1)))))))"

definition event_signatures :: "'w bridge \<Rightarrow> nat list" where
  "event_signatures s =
     (case active_ethereum_range s of
        Some active \<Rightarrow> map event_signature (event_types_filter active)
      | None \<Rightarrow> [])"

section \<open>Administration\<close>

definition AdditionalEventsLimit :: nat where
  "AdditionalEventsLimit = 16"

fun apply_admin_setting ::
  "'w bridge_config \<Rightarrow> bridge_admin_settings \<Rightarrow> 'w bridge \<Rightarrow> bridge_error + 'w bridge" where
  "apply_admin_setting C (EthereumTransactionLifetimeSeconds secs) s =
     Inr (bridge_event_deposit (EthTxLifetimeUpdated secs) (s\<lparr>eth_tx_lifetime_secs := secs\<rparr>))"
| "apply_admin_setting C (EthereumTransactionId i) s =
     Inr (bridge_event_deposit (EthTxIdUpdated i) (s\<lparr>next_tx_id := i\<rparr>))"
| "apply_admin_setting C RemoveActiveRequest s = remove_active_request_impl C s"
| "apply_admin_setting C (QueueAdditionalEthereumEvent hash) s =
     and_then (ensure (\<not> ethereum_event_has_already_been_accepted hash s) EventAlreadyAccepted) (\<lambda>_.
     and_then (ok_or (set_try_insert AdditionalEventsLimit hash (additional_ethereum_events_queue s))
                 QuotaReachedForAdditionalEvents) (\<lambda>q.
       Inr (bridge_event_deposit (AdditionalEventQueued hash)
              (s\<lparr>additional_ethereum_events_queue := q\<rparr>))))"
| "apply_admin_setting C RestartEventDiscoveryOnRange s =
     Inr (s\<lparr>ethereum_events := drop 100 (ethereum_events s)\<rparr>)"
| "apply_admin_setting C (SetEthBridgeInstance i) s =
     and_then (ensure (instance_is_valid i) InvalidInstance) (\<lambda>_.
       let s1 = s\<lparr>ethereum_events := drop 1 (drop 100 (ethereum_events s)), the_instance := i\<rparr> in
       case active_request s1 of
         None \<Rightarrow> Inr s1
       | Some tx \<Rightarrow> (case active_req tx of
                       Send req \<Rightarrow> set_up_active_tx C req None s1
                     | LowerProof _ \<Rightarrow> Inr s1))"

definition bridge_set_admin_setting ::
  "'w bridge_config \<Rightarrow> origin \<Rightarrow> bridge_admin_settings \<Rightarrow> 'w bridge \<Rightarrow> bridge_error dispatch_error + 'w bridge" where
  "bridge_set_admin_setting C origin setting s =
     and_then (root_only origin) (\<lambda>_. map_err_with PalletErr (apply_admin_setting C setting s))"

text \<open>Genesis.\<close>

definition bridge_genesis ::
  "nat \<Rightarrow> nat \<Rightarrow> nat \<Rightarrow> eth_bridge_instance \<Rightarrow> avn \<Rightarrow> 'w \<Rightarrow> bridge_error + 'w bridge" where
  "bridge_genesis lifetime first_tx_id range_size inst a w =
     and_then (ensure (0 < range_size) BridgePanic) (\<lambda>_. Inr
       \<lparr>next_tx_id = first_tx_id, eth_tx_lifetime_secs = lifetime, request_queue = None,
        settled_transactions = [], active_request = None, active_ethereum_range = None,
        ethereum_events = [], submitted_eth_blocks = [], eth_block_range_size = range_size,
        processed_ethereum_events = [], additional_ethereum_events_queue = [],
        the_instance = inst, bridge_avn = a, bridge_block = 0, bridge_time = 0, bridge_world = w,
        notified = [], deposited = []\<rparr>)"

section \<open>Unsigned transactions\<close>

datatype bridge_call =
    AddConfirmation nat bytes validator nat
  | AddEthTxHash nat nat validator nat
  | AddCorroboration nat bool bool validator nat nat
  | SubmitEthereumEvents validator events_partition nat
  | SubmitLatestEthereumBlock validator nat nat
  | SetAdminSetting bridge_admin_settings

definition bridge_signed ::
  "'w bridge_config \<Rightarrow> bridge_payload \<Rightarrow> validator \<Rightarrow> nat \<Rightarrow> 'w bridge \<Rightarrow> bool" where
  "bridge_signed C d v sig s = signature_is_valid (verify_key C) (bridge_validators s) d v sig"

fun bridge_validate_unsigned :: "'w bridge_config \<Rightarrow> bridge_call \<Rightarrow> 'w bridge \<Rightarrow> bridge_call validity" where
  "bridge_validate_unsigned C (AddConfirmation i c author sig) s =
     (if bridge_signed C (AddConfirmationData (instance_hash C (the_instance s)) i c (v_account author)) author sig s
      then ValidWith (AddConfirmation i c author sig) else InvalidCustom 1)"
| "bridge_validate_unsigned C (AddEthTxHash i h author sig) s =
     (if bridge_signed C (AddEthTxHashData (instance_hash C (the_instance s)) i h (v_account author)) author sig s
      then ValidWith (AddEthTxHash i h author sig) else InvalidCustom 2)"
| "bridge_validate_unsigned C (AddCorroboration i ok valid author attempt sig) s =
     (if bridge_signed C (AddCorroborationData (instance_hash C (the_instance s)) i ok valid (v_account author) attempt)
           author sig s
      then ValidWith (AddCorroboration i ok valid author attempt sig) else InvalidCustom 3)"
| "bridge_validate_unsigned C (SubmitEthereumEvents author part sig) s =
     (if does_range_matches_active part s \<and>
         bridge_signed C (SubmitEventsData (instance_hash C (the_instance s)) (v_account author) part) author sig s
      then ValidWith (SubmitEthereumEvents author part sig) else InvalidCustom 4)"
| "bridge_validate_unsigned C (SubmitLatestEthereumBlock author latest sig) s =
     (if active_ethereum_range s \<noteq> None then InvalidCustom 5
      else if bridge_signed C (SubmitLatestBlockData (instance_hash C (the_instance s)) (v_account author) latest)
                author sig s
      then ValidWith (SubmitLatestEthereumBlock author latest sig) else InvalidCustom 5)"
| "bridge_validate_unsigned C (SetAdminSetting _) s = InvalidCall"

fun bridge_dispatch ::
  "'w bridge_config \<Rightarrow> origin \<Rightarrow> bridge_call \<Rightarrow> 'w bridge \<Rightarrow> bridge_error dispatch_error + 'w bridge" where
  "bridge_dispatch C origin (AddConfirmation i c author _) s = add_confirmation C origin i c author s"
| "bridge_dispatch C origin (AddEthTxHash i h author _) s = add_eth_tx_hash origin i h author s"
| "bridge_dispatch C origin (AddCorroboration i ok valid author attempt _) s =
     add_corroboration C origin i ok valid author attempt s"
| "bridge_dispatch C origin (SubmitEthereumEvents author part _) s = submit_ethereum_events C origin author part s"
| "bridge_dispatch C origin (SubmitLatestEthereumBlock author latest _) s =
     submit_latest_ethereum_block C origin author latest s"
| "bridge_dispatch C origin (SetAdminSetting setting) s = bridge_set_admin_setting C origin setting s"

end
