(* ===== verification/Eth_Bridge_Queue.thy ===== *)
theory Eth_Bridge_Queue
  imports Eth_Bridge
begin

text \<open>
  The bridge as a queue. The requests the pallets were told are accepted are, in their order,
  the ones that have been answered followed by the active one and the ones that wait: none is
  lost, none is answered twice, and none overtakes another. The theory also has the steps of
  the pallet and the states they reach.
\<close>

section \<open>Steps\<close>

text \<open>
  A step is a call of another pallet, an unsigned transaction that has passed its check, a
  change of a setting by the root, or what goes on around the pallet: time, the validators
  of a new session, and the other pallets.
\<close>

datatype 'w bridge_action =
    Publish bytes eth_params bytes
  | GenerateLowerProof nat lower_params bytes
  | SubmitUnsigned bridge_call
  | Administer bridge_admin_settings
  | TimePasses nat nat
  | ValidatorsChange avn
  | OthersAct 'w

definition kept_or :: "'e + 's \<Rightarrow> 's \<Rightarrow> 's" where
  "kept_or r s = (case r of Inl _ \<Rightarrow> s | Inr s' \<Rightarrow> s')"

fun bridge_do :: "'w bridge_config \<Rightarrow> 'w bridge_action \<Rightarrow> 'w bridge \<Rightarrow> 'w bridge" where
  "bridge_do C (Publish name params caller) s =
     (case publish C name params caller s of
        (Inl e, s') \<Rightarrow> if e = BridgePanic then s else s'
      | (Inr _, s') \<Rightarrow> s')"
| "bridge_do C (GenerateLowerProof i params caller) s = kept_or (generate_lower_proof C i params caller s) s"
| "bridge_do C (SubmitUnsigned call) s =
     (if bridge_validate_unsigned C call s = ValidWith call
      then kept_or (bridge_dispatch C Unsigned call s) s else s)"
| "bridge_do C (Administer setting) s = kept_or (bridge_set_admin_setting C Root setting s) s"
| "bridge_do C (TimePasses block time) s = s\<lparr>bridge_block := block, bridge_time := time\<rparr>"
| "bridge_do C (ValidatorsChange a) s = s\<lparr>bridge_avn := a\<rparr>"
| "bridge_do C (OthersAct w) s = s\<lparr>bridge_world := w\<rparr>"

inductive bridge_reachable :: "'w bridge_config \<Rightarrow> 'w bridge \<Rightarrow> bool" for C where
  start: "bridge_genesis lifetime first_id rsize inst a w = Inr s \<Longrightarrow> bridge_reachable C s"
| step: "bridge_reachable C s \<Longrightarrow> bridge_reachable C (bridge_do C act s)"

inductive_cases bridge_reachableE: "bridge_reachable C s"

text \<open>A property of the genesis states that every step keeps holds of every reachable state.\<close>

lemma bridge_reachable_invariant:
  assumes "bridge_reachable C s"
    and "\<And>lifetime first_id rsize inst a w s. bridge_genesis lifetime first_id rsize inst a w = Inr s \<Longrightarrow> I s"
    and "\<And>s act. I s \<Longrightarrow> I (bridge_do C act s)"
  shows "I s"
  using assms(1) by induction (auto intro: assms)

section \<open>Asked, answered, outstanding\<close>

fun ident :: "request \<Rightarrow> bool \<times> nat \<times> bytes" where
  "ident (Send r) = (True, tx_id r, send_caller_id r)"
| "ident (LowerProof r) = (False, lower_id r, proof_caller_id r)"

fun announces :: "bridge_event \<Rightarrow> (bool \<times> nat \<times> bytes) option" where
  "announces (PublishToEthereum i _ _ caller) = Some (True, i, caller)"
| "announces (LowerProofRequested i _ caller) = Some (False, i, caller)"
| "announces _ = None"

fun answers :: "notification \<Rightarrow> (bool \<times> nat \<times> bytes) option" where
  "answers (ResultOf i caller _) = Some (True, i, caller)"
| "answers (LowerProofOf i caller _) = Some (False, i, caller)"
| "answers (Incoming _) = None"

definition asked :: "'w bridge \<Rightarrow> (bool \<times> nat \<times> bytes) list" where
  "asked s = List.map_filter announces (deposited s)"

definition answered :: "'w bridge \<Rightarrow> (bool \<times> nat \<times> bytes) list" where
  "answered s = List.map_filter answers (notified s)"

definition in_hand :: "'w bridge \<Rightarrow> (bool \<times> nat \<times> bytes) list" where
  "in_hand s = (case active_request s of None \<Rightarrow> [] | Some r \<Rightarrow> [ident (active_req r)])"

definition waiting :: "'w bridge \<Rightarrow> (bool \<times> nat \<times> bytes) list" where
  "waiting s = map ident (queued s)"

definition fifo :: "'w bridge \<Rightarrow> bool" where
  "fifo s \<longleftrightarrow> asked s = answered s @ in_hand s @ waiting s \<and> (active_request s = None \<longrightarrow> queued s = [])"

lemmas queue_views = asked_def answered_def in_hand_def waiting_def queued_def

lemma map_filter_append: "List.map_filter f (xs @ ys) = List.map_filter f xs @ List.map_filter f ys"
  by (simp add: List.map_filter_def)

lemma map_filter_single: "List.map_filter f [x] = (case f x of None \<Rightarrow> [] | Some y \<Rightarrow> [y])"
  by (auto simp: List.map_filter_def split: option.splits)

lemma map_filter_cong_nil: "\<forall>x\<in>set xs. f x = None \<Longrightarrow> List.map_filter f xs = []"
  by (auto simp: List.map_filter_def)

text \<open>Which states look the same to the queue.\<close>

definition same_queue :: "'w bridge \<Rightarrow> 'w bridge \<Rightarrow> bool" where
  "same_queue s s' \<longleftrightarrow> asked s' = asked s \<and> answered s' = answered s \<and> queued s' = queued s \<and>
     map_option active_req (active_request s') = map_option active_req (active_request s)"

lemma same_queue_fifo: "same_queue s s' \<Longrightarrow> fifo s \<Longrightarrow> fifo s'"
  by (auto simp: same_queue_def fifo_def in_hand_def waiting_def split: option.splits)

lemma same_queue_refl [simp]: "same_queue s s"
  by (simp add: same_queue_def)

lemma same_queue_trans: "same_queue s s' \<Longrightarrow> same_queue s' s'' \<Longrightarrow> same_queue s s''"
  by (simp add: same_queue_def)

lemma deposit_same_queue: "announces e = None \<Longrightarrow> same_queue s (bridge_event_deposit e s)"
  by (simp add: same_queue_def queue_views bridge_event_deposit_def map_filter_append map_filter_single)

lemma offence_same_queue: "same_queue s (create_and_report_bridge_offence C who accounts kind s)"
  by (simp add: create_and_report_bridge_offence_def Let_def same_queue_def queue_views
      bridge_event_deposit_def map_filter_append map_filter_single)

lemma dissent_same_queue: "same_queue s (report_dissent C success d s)"
  by (simp add: report_dissent_def offence_same_queue)

lemma save_same_queue:
  assumes "active_request s = Some r" "active_req r' = active_req r"
  shows "same_queue s (save_active_request_to_storage r' s)"
  using assms by (simp add: same_queue_def save_active_request_to_storage_def queue_views)

section \<open>Setting up\<close>

lemma set_up_active_tx_effect:
  assumes "set_up_active_tx C req m s = Inr s'"
  shows "\<exists>r. active_request s' = Some r \<and> active_req r = Send req \<and> asked s' = asked s \<and>
    answered s' = answered s \<and> queued s' = queued s"
  using assms
  by (auto simp: set_up_active_tx_def Let_def assign_sender_def queue_views split: prod.splits)

lemma set_up_active_lower_proof_effect:
  assumes "set_up_active_lower_proof C req s = Inr s'"
  shows "\<exists>r. active_request s' = Some r \<and> active_req r = LowerProof req \<and> asked s' = asked s \<and>
    answered s' = answered s \<and> queued s' = queued s"
  using assms by (auto simp: set_up_active_lower_proof_def queue_views)

lemma set_up_tx_keeps:
  assumes "set_up_active_tx C req m s = Inr s'" "active_request s = Some r" "active_req r = Send req"
  shows "same_queue s s'"
  using set_up_active_tx_effect [OF assms(1)] assms(2,3) by (auto simp: same_queue_def)

lemma dequeue_views:
  assumes "dequeue_request s = (mr, s1)"
  shows "asked s1 = asked s" "answered s1 = answered s" "active_request s1 = active_request s"
    "mr = None \<Longrightarrow> queued s = [] \<and> queued s1 = []"
  using assms
  by (auto simp: dequeue_request_def queue_views Let_def split: option.splits list.splits if_splits)

lemma notify_views [simp]:
  "asked (snd (notify_result C i c ok s)) = asked s"
  "answered (snd (notify_result C i c ok s)) = answered s @ [(True, i, c)]"
  "active_request (snd (notify_result C i c ok s)) = active_request s"
  "asked (snd (notify_lower_proof C i c p s)) = asked s"
  "answered (snd (notify_lower_proof C i c p s)) = answered s @ [(False, i, c)]"
  "active_request (snd (notify_lower_proof C i c p s)) = active_request s"
  by (simp_all add: asked_def answered_def notify_result_def notify_lower_proof_def split_beta
      map_filter_append map_filter_single)

lemma views_frame [simp]:
  "asked (s\<lparr>active_request := a\<rparr>) = asked s" "answered (s\<lparr>active_request := a\<rparr>) = answered s"
  "asked (s\<lparr>settled_transactions := m\<rparr>) = asked s" "answered (s\<lparr>settled_transactions := m\<rparr>) = answered s"
  "queued (s\<lparr>settled_transactions := m\<rparr>) = queued s"
  by (simp_all add: queue_views)

text \<open>With the active request answered, the next one takes its place.\<close>

lemma process_next_request_fifo:
  assumes "process_next_request C s = Inr s'" "asked s = answered s @ waiting s"
  shows "fifo s'"
  using assms
proof (induction C s rule: process_next_request.induct)
  case (1 C s)
  obtain mr s1 where deq: "dequeue_request (s\<lparr>active_request := None\<rparr>) = (mr, s1)"
    by (cases "dequeue_request (s\<lparr>active_request := None\<rparr>)")
  note views = dequeue_views [OF deq]
  show ?case
  proof (cases mr)
    case None
    then have "s' = s1"
      using "1.prems"(1) deq by (simp add: process_next_request.simps [of C s])
    then show ?thesis
      using views None "1.prems"(2) by (simp add: fifo_def in_hand_def waiting_def)
  next
    case (Some r)
    have q: "queued s = r # queued s1"
      using dequeue_shorter deq Some by fastforce
    show ?thesis
    proof (cases r)
      case (Send req)
      show ?thesis
      proof (cases "set_up_active_tx C req None s1")
        case (Inr s2)
        then have "s' = s2"
          using "1.prems"(1) deq Some Send by (simp add: process_next_request.simps [of C s])
        then show ?thesis
          using set_up_active_tx_effect [OF Inr] views q "1.prems"(2) Send
          by (auto simp: fifo_def in_hand_def waiting_def)
      next
        case (Inl e)
        let ?s2 = "snd (notify_result C (tx_id req) (send_caller_id req) False s1)"
        have e: "e \<noteq> BridgePanic" and nxt: "process_next_request C ?s2 = Inr s'"
          using "1.prems"(1) deq Some Send Inl
          by (auto simp: process_next_request.simps [of C s] split: if_splits)
        show ?thesis
          using "1.IH"(1) [OF deq [symmetric] Some Send Inl e nxt] views q "1.prems"(2) Send
          by (simp add: waiting_def)
      qed
    next
      case (LowerProof req)
      show ?thesis
      proof (cases "set_up_active_lower_proof C req s1")
        case (Inr s2)
        then have "s' = s2"
          using "1.prems"(1) deq Some LowerProof by (simp add: process_next_request.simps [of C s])
        then show ?thesis
          using set_up_active_lower_proof_effect [OF Inr] views q "1.prems"(2) LowerProof
          by (auto simp: fifo_def in_hand_def waiting_def)
      next
        case (Inl e)
        let ?s2 = "snd (notify_lower_proof C (lower_id req) (proof_caller_id req) (Inl ()) s1)"
        have nxt: "process_next_request C ?s2 = Inr s'"
          using "1.prems"(1) deq Some LowerProof Inl by (simp add: process_next_request.simps [of C s])
        show ?thesis
          using "1.IH"(2) [OF deq [symmetric] Some LowerProof Inl nxt] views q "1.prems"(2) LowerProof
          by (simp add: waiting_def)
      qed
    qed
  qed
qed

section \<open>Accepting requests\<close>

lemma queue_request_effect:
  assumes "queue_request C req s = Inr s'"
  shows "queued s' = queued s @ [req]" "asked s' = asked s" "answered s' = answered s"
    "active_request s' = active_request s"
  using assms by (auto simp: queue_request_def queue_views Let_def split: if_splits)

text \<open>What a new request does before it is announced.\<close>

definition accepted_request :: "(bool \<times> nat \<times> bytes) \<Rightarrow> 'w bridge \<Rightarrow> 'w bridge \<Rightarrow> bool" where
  "accepted_request k s s' \<longleftrightarrow> asked s' = asked s \<and> answered s' = answered s \<and>
     in_hand s' @ waiting s' = in_hand s @ waiting s @ [k] \<and> active_request s' \<noteq> None"

lemma queued_is_accepted:
  assumes "queue_request C req s = Inr s'" "active_request s \<noteq> None"
  shows "accepted_request (ident req) s s'"
  using queue_request_effect [OF assms(1)] assms(2)
  by (auto simp: accepted_request_def in_hand_def waiting_def)

lemma set_up_is_accepted:
  assumes "active_request s' = Some r \<and> active_req r = req \<and> asked s' = asked s \<and>
    answered s' = answered s \<and> queued s' = queued s"
    and "active_request s = None" "fifo s"
  shows "accepted_request (ident req) s s'"
  using assms by (auto simp: accepted_request_def in_hand_def waiting_def fifo_def)

lemma announced_fifo:
  assumes "accepted_request k s s'" "fifo s" "announces e = Some k"
  shows "fifo (bridge_event_deposit e s')"
  using assms
  by (auto simp: accepted_request_def fifo_def bridge_event_deposit_def asked_def answered_def
      map_filter_append map_filter_single in_hand_def waiting_def queued_def)

lemma use_next_tx_id_same: "same_queue s (s\<lparr>next_tx_id := i\<rparr>)"
  by (simp add: same_queue_def queue_views)

lemma add_new_send_request_effect:
  assumes "add_new_send_request C name params caller s = (r, s')" "fifo s"
  shows "case r of Inl _ \<Rightarrow> same_queue s s' | Inr i \<Rightarrow> accepted_request (True, i, caller) s s'"
proof -
  let ?s1 = "s\<lparr>next_tx_id := wrapping_add32 (next_tx_id s) 1\<rparr>"
  have f1: "fifo ?s1"
    using same_queue_fifo use_next_tx_id_same assms(2) by blast
  have unused_id: "accepted_request k ?s1 s'' \<Longrightarrow> accepted_request k s s''" for k s''
    by (simp add: accepted_request_def queue_views)
  show ?thesis
  proof (cases r)
    case (Inl e)
    then have "s' = s \<or> s' = ?s1"
      using assms(1)
      by (auto simp: add_new_send_request_def use_next_tx_id_def split: if_splits sum.splits)
    then show ?thesis
      using Inl use_next_tx_id_same by auto
  next
    case (Inr i)
    then obtain ps where
      "(if active_request ?s1 \<noteq> None
        then queue_request C (Send \<lparr>tx_id = i, function_name = name, send_params = ps, send_caller_id = caller\<rparr>) ?s1
        else set_up_active_tx C \<lparr>tx_id = i, function_name = name, send_params = ps, send_caller_id = caller\<rparr> None ?s1)
       = Inr s'"
      using assms(1)
      by (cases "active_request s")
        (auto simp: add_new_send_request_def use_next_tx_id_def Let_def simp del: One_nat_def
          split: if_splits sum.splits)
    then have "accepted_request (True, i, caller) ?s1 s'"
      using queued_is_accepted [of C "Send _" ?s1 s'] set_up_active_tx_effect [of C _ None ?s1 s']
        set_up_is_accepted [of s' _ "Send _" ?s1] f1
      by (fastforce split: if_splits)
    then show ?thesis
      using unused_id Inr by simp
  qed
qed

lemma publish_fifo:
  assumes "publish C name params caller s = (r, s')" "fifo s"
  shows "fifo s'"
proof -
  obtain r1 s1 where add: "add_new_send_request C name params caller s = (r1, s1)"
    by (cases "add_new_send_request C name params caller s")
  show ?thesis
    using add_new_send_request_effect [OF add assms(2)] assms add
      announced_fifo [of "(True, _, caller)" s s1] same_queue_fifo
    by (auto simp: publish_def split: sum.splits)
qed

lemma generate_lower_proof_fifo:
  assumes "generate_lower_proof C i params caller s = Inr s'" "fifo s"
  shows "fifo s'"
proof -
  let ?req = "\<lparr>lower_id = i, proof_params = params, proof_caller_id = caller\<rparr>"
  obtain s1 where
    s1: "(if active_request s \<noteq> None then queue_request C (LowerProof ?req) s
          else set_up_active_lower_proof C ?req s) = Inr s1"
    and s': "s' = bridge_event_deposit (LowerProofRequested i params caller) s1"
    using assms(1)
    by (auto simp: generate_lower_proof_def add_new_lower_proof_request_def Let_def)
  have "accepted_request (ident (LowerProof ?req)) s s1"
    using s1 queued_is_accepted [of C "LowerProof ?req" s s1]
      set_up_active_lower_proof_effect [of C ?req s s1] set_up_is_accepted [of s1 _ "LowerProof ?req" s] assms(2)
    by (fastforce split: if_splits)
  then show ?thesis
    using announced_fifo assms(2) s' by fastforce
qed

section \<open>Settling requests\<close>

lemma fifo_active:
  assumes "fifo s" "active_request s = Some r"
  shows "asked s = answered s @ ident (active_req r) # waiting s"
  using assms by (simp add: fifo_def in_hand_def)

lemma answered_then_next:
  assumes "process_next_request C s1 = Inr s'" "fifo s" "active_request s = Some r"
    "asked s1 = asked s" "answered s1 = answered s @ [ident (active_req r)]" "queued s1 = queued s"
  shows "fifo s'"
  using process_next_request_fifo [OF assms(1)] fifo_active [OF assms(2,3)] assms(4-6)
  by (simp add: waiting_def)

lemma complete_lower_proof_fifo:
  assumes "complete_lower_proof_request C req cs s = Inr s'" "fifo s" "active_request s = Some r"
    "active_req r = LowerProof req"
  shows "fifo s'"
proof -
  let ?s1 = "snd (notify_lower_proof C (lower_id req) (proof_caller_id req)
    (Inr (generate_encoded_lower_proof req cs)) s)"
  have "process_next_request C ?s1 = Inr s'"
    using assms(1) by (simp add: complete_lower_proof_request_def split_beta)
  then show ?thesis
    using answered_then_next [OF _ assms(2,3), of C ?s1 s'] assms(4) by simp
qed

lemma complete_transaction_fifo:
  assumes "complete_transaction C tx success s = Inr s'" "fifo s" "active_request s = Some r"
    "active_req r = Send (atx_request tx)"
  shows "fifo s'"
proof -
  let ?req = "atx_request tx"
  let ?s1 = "snd (notify_result C (tx_id ?req) (send_caller_id ?req) success s)"
  let ?s2 = "report_dissent C success (atx_data tx) ?s1"
  obtain m where nxt: "process_next_request C (?s2\<lparr>settled_transactions := m\<rparr>) = Inr s'"
    using assms(1) by (auto simp: complete_transaction_def Let_def split_beta)
  show ?thesis
    by (rule answered_then_next [OF nxt assms(2,3)])
      (use dissent_same_queue [of ?s1 C success "atx_data tx"] assms(4) in \<open>simp_all add: same_queue_def\<close>)
qed

lemma replay_same_queue:
  assumes "replay_send_request C tx s = Inr s'" "active_request s = Some r"
    "active_req r = Send (atx_request tx)"
  shows "same_queue s s'"
proof -
  let ?req = "atx_request tx"
  let ?e = "ActiveRequestRetried (function_name ?req) (send_params ?req) (send_caller_id ?req)"
  have "set_up_active_tx C ?req (Some (min (atx_replay_attempt tx + 1) (2 ^ 16 - 1)))
    (bridge_event_deposit ?e s) = Inr s'"
    using assms(1) by (simp add: replay_send_request_def Let_def)
  moreover have "active_request (bridge_event_deposit ?e s) = Some r"
    using assms(2) by (simp add: bridge_event_deposit_def)
  ultimately have "same_queue (bridge_event_deposit ?e s) s'"
    using set_up_tx_keeps assms(3) by blast
  then show ?thesis
    using deposit_same_queue [of ?e s] same_queue_trans by fastforce
qed

lemma finalize_state_fifo:
  assumes "finalize_state C tx success s = Inr s'" "fifo s" "active_request s = Some r"
    "active_req r = Send (atx_request tx)"
  shows "fifo s'"
  using assms complete_transaction_fifo replay_same_queue same_queue_fifo
  by (fastforce simp: finalize_state_def split: if_splits)

lemma remove_active_fifo:
  assumes "remove_active_request_impl C s = Inr s'" "fifo s"
  shows "fifo s'"
proof -
  obtain r where r: "active_request s = Some r"
    using assms(1) by (auto simp: remove_active_request_impl_def split: option.splits)
  obtain i s1 s2 where nxt: "process_next_request C s1 = Inr s2"
    and s1: "asked s1 = asked s" "answered s1 = answered s @ [ident (active_req r)]" "queued s1 = queued s"
    and s': "s' = bridge_event_deposit (ActiveRequestRemoved i) s2"
    using assms(1) r
    by (cases "active_req r") (auto simp: remove_active_request_impl_def split_beta)
  show ?thesis
    using same_queue_fifo [OF deposit_same_queue answered_then_next [OF nxt assms(2) r s1]] s' by simp
qed

section \<open>Calls\<close>

lemma add_confirmation_fifo:
  assumes "add_confirmation C origin i c author s = Inr s'" "fifo s"
  shows "fifo s'"
proof (cases "active_request s")
  case None
  then show ?thesis
    using assms by (auto simp: add_confirmation_def)
next
  case (Some r)
  then have "same_queue s s' \<or>
     (\<exists>req cs. active_req r = LowerProof req \<and> complete_lower_proof_request C req cs s = Inr s')"
    using assms(1)
    by (cases "active_req r")
      (auto simp: add_confirmation_def Let_def split: if_splits intro!: save_same_queue [OF Some])
  then show ?thesis
    using assms(2) same_queue_fifo complete_lower_proof_fifo [OF _ assms(2) Some]
    by blast
qed

lemma add_eth_tx_hash_fifo:
  assumes "add_eth_tx_hash origin i h author s = Inr s'" "fifo s"
  shows "fifo s'"
proof (cases "active_request s")
  case None
  then show ?thesis
    using assms by (auto simp: add_eth_tx_hash_def)
next
  case (Some r)
  then have "same_queue s s'"
    using assms(1)
    by (auto simp: add_eth_tx_hash_def split: if_splits option.splits intro!: save_same_queue [OF Some])
  then show ?thesis
    using assms(2) same_queue_fifo by blast
qed

lemma as_active_tx_request: "as_active_tx r = Inr atx \<Longrightarrow> active_req r = Send (atx_request atx)"
  by (cases "active_req r") (auto simp: as_active_tx_def)

lemma add_corroboration_cases:
  assumes "add_corroboration C origin i ok valid author n s = Inr s'" "active_request s = Some r"
  shows "s' = s \<or>
    (\<exists>d d1. active_tx_data r = Some d \<and> v_account author \<noteq> eth_sender d \<and>
       requires_corroboration d author \<and>
       record_corroboration ok valid (v_account author) d = Inr d1 \<and>
       (if has_enough_corroborations (length (matching_corroborations ok d1)) s
        then \<exists>atx. as_active_tx (r\<lparr>active_tx_data := Some d1\<rparr>) = Inr atx \<and> finalize_state C atx ok s = Inr s'
        else s' = save_active_request_to_storage (r\<lparr>active_tx_data := Some d1\<rparr>) s))"
  using assms
  by (auto simp: add_corroboration_def Let_def split: if_splits option.splits)

lemma add_corroboration_fifo:
  assumes "add_corroboration C origin i ok valid author n s = Inr s'" "fifo s"
  shows "fifo s'"
proof (cases "active_request s")
  case None
  then show ?thesis
    using assms by (auto simp: add_corroboration_def)
next
  case (Some r)
  have "fifo s'" if "as_active_tx (r\<lparr>active_tx_data := x\<rparr>) = Inr atx" "finalize_state C atx ok s = Inr s'" for x atx
    using finalize_state_fifo [OF that(2) assms(2) Some] as_active_tx_request [OF that(1)] by simp
  moreover have "fifo (save_active_request_to_storage (r\<lparr>active_tx_data := x\<rparr>) s)" for x
    by (rule same_queue_fifo [OF save_same_queue [OF Some] assms(2)]) simp
  ultimately show ?thesis
    using add_corroboration_cases [OF assms(1) Some] assms(2) by (auto split: if_splits)
qed

lemma processed_same_queue: "same_queue s (s\<lparr>processed_ethereum_events := m\<rparr>)"
  by (simp add: same_queue_def queue_views)

lemma add_processed_event_effect:
  assumes "network_add_processed_event net eid ok s = Inr s'"
  shows "\<exists>kind. s' = s\<lparr>processed_ethereum_events := alist_insert (transaction_hash eid)
    \<lparr>processed_id = kind, processed_accepted = ok\<rparr> (processed_ethereum_events s)\<rparr>"
  using assms by (auto simp: network_add_processed_event_def add_processed_event_def Let_def)

lemma notify_event_same_queue: "same_queue s (snd (notify_event C ev s))"
  by (simp add: notify_event_def split_beta same_queue_def queue_views map_filter_append map_filter_single)

lemma process_ethereum_event_effect:
  assumes "process_ethereum_event C net ev s = Inr s'"
  shows "\<exists>kind e s1. \<not> network_processed_event_exists net (event_id ev) s \<and> announces e = None \<and>
    network_add_processed_event net (event_id ev) True s = Inr s1 \<and>
    s1 = s\<lparr>processed_ethereum_events := alist_insert (transaction_hash (event_id ev))
      \<lparr>processed_id = kind, processed_accepted = True\<rparr> (processed_ethereum_events s)\<rparr> \<and>
    s' = bridge_event_deposit e (snd (notify_event C ev s1))"
proof -
  obtain s1 where s1: "\<not> network_processed_event_exists net (event_id ev) s"
      "network_add_processed_event net (event_id ev) True s = Inr s1"
    and s': "(case notify_event C ev s1 of
         (None, s2) \<Rightarrow> Inr (bridge_event_deposit (EventAccepted (event_id ev)) s2)
       | (Some err, s2) \<Rightarrow>
           Inr (bridge_event_deposit (EventRejected (event_id ev) (HandlerReason err)) s2)) =
       (Inr s' :: bridge_error + _)"
    using assms unfolding process_ethereum_event_def by auto
  have "\<exists>e. announces e = None \<and> s' = bridge_event_deposit e (snd (notify_event C ev s1))"
    using s' by (auto split: prod.splits option.splits intro: announces.simps)
  then show ?thesis
    using s1 add_processed_event_effect [OF s1(2)] by metis
qed

lemma process_ethereum_event_same_queue:
  "process_ethereum_event C net ev s = Inr s' \<Longrightarrow> same_queue s s'"
  by (drule process_ethereum_event_effect)
    (auto intro: same_queue_trans [OF processed_same_queue
        same_queue_trans [OF notify_event_same_queue deposit_same_queue]])

lemma discovered_event_same_queue: "same_queue s (process_discovered_event C net rng e s)"
  by (auto simp: process_discovered_event_def deposit_same_queue
      split: sum.splits dest: process_ethereum_event_same_queue)

lemma fold_same_queue:
  assumes "\<And>x s. same_queue s (f x s)"
  shows "same_queue s (fold f xs s)"
proof (induction xs arbitrary: s)
  case (Cons x xs)
  then show ?case
    using assms same_queue_trans by fastforce
qed simp

lemma partition_same_queue: "same_queue s (process_ethereum_events_partition C net rng part author s)"
proof -
  let ?s1 = "s\<lparr>ethereum_events := alist_remove part (ethereum_events s)\<rparr>"
  let ?s2 = "fold (process_discovered_event C net rng) (part_events part) ?s1"
  have s1: "same_queue s ?s1" and s3: "same_queue ?s2 (?s2\<lparr>ethereum_events := []\<rparr>)"
    by (simp_all add: same_queue_def queue_views)
  have s2: "same_queue ?s1 ?s2"
    by (rule fold_same_queue) (rule discovered_event_same_queue)
  have off: "same_queue t (fold (\<lambda>(_, votes).
      create_and_report_bridge_offence C (v_account author) votes InvalidEthereumRangeData) xs t)" for t xs
    by (rule fold_same_queue) (simp add: offence_same_queue split: prod.splits)
  show ?thesis
    unfolding process_ethereum_events_partition_def Let_def
    by (rule same_queue_trans [OF s1 same_queue_trans [OF s2 same_queue_trans [OF s3 off]]])
qed

lemma advance_same_queue: "same_queue s (advance_partition C rng part s)"
  by (simp add: advance_partition_def same_queue_def queue_views)

lemma submit_ethereum_events_fifo:
  assumes "submit_ethereum_events C origin author part s = Inr s'" "fifo s"
  shows "fifo s'"
proof -
  have "same_queue s (s\<lparr>ethereum_events := m\<rparr>)" for m
    by (simp add: same_queue_def queue_views)
  moreover have "same_queue s (advance_partition C a part (process_ethereum_events_partition C n a part author s))"
    for n a
    using partition_same_queue advance_same_queue same_queue_trans by blast
  ultimately have "same_queue s s'"
    using assms(1) by (auto simp: submit_ethereum_events_def split: if_splits)
  then show ?thesis
    using assms(2) same_queue_fifo by blast
qed

lemma submit_latest_ethereum_block_fifo:
  assumes "submit_latest_ethereum_block C origin author latest s = Inr s'" "fifo s"
  shows "fifo s'"
proof -
  have "same_queue s s'"
    using assms(1)
    by (auto simp: submit_latest_ethereum_block_def Let_def same_queue_def queue_views split: if_splits)
  then show ?thesis
    using assms(2) same_queue_fifo by blast
qed

lemma settings_same_queue:
  assumes "apply_admin_setting C setting s = Inr s'" "setting \<noteq> RemoveActiveRequest"
    "\<And>i. setting \<noteq> SetEthBridgeInstance i"
  shows "same_queue s s'"
  using assms
  by (cases setting) (auto simp: same_queue_def queue_views bridge_event_deposit_def map_filter_append
      map_filter_single)

lemma bridge_admin_setting_fifo:
  assumes "bridge_set_admin_setting C origin setting s = Inr s'" "fifo s"
  shows "fifo s'"
proof (cases setting)
  case RemoveActiveRequest
  then show ?thesis
    using assms remove_active_fifo by (auto simp: bridge_set_admin_setting_def)
next
  case (SetEthBridgeInstance i)
  let ?s1 = "s\<lparr>ethereum_events := drop 1 (drop 100 (ethereum_events s)), the_instance := i\<rparr>"
  have s1: "same_queue s ?s1"
    by (simp add: same_queue_def queue_views)
  have "s' = ?s1 \<or> (\<exists>r req. active_request ?s1 = Some r \<and> active_req r = Send req \<and>
      set_up_active_tx C req None ?s1 = Inr s')"
    using assms(1) SetEthBridgeInstance
    by (auto simp: bridge_set_admin_setting_def Let_def split: option.splits request.splits)
  then have "same_queue s s'"
    using s1 same_queue_trans set_up_tx_keeps by blast
  then show ?thesis
    using assms(2) same_queue_fifo by blast
qed (use assms settings_same_queue [of C setting s s'] same_queue_fifo in \<open>auto simp: bridge_set_admin_setting_def\<close>)

section \<open>The queue over any run\<close>

lemma bridge_dispatch_fifo:
  assumes "bridge_dispatch C origin call s = Inr s'" "fifo s"
  shows "fifo s'"
  using assms
  by (cases call) (simp_all add: add_confirmation_fifo add_eth_tx_hash_fifo add_corroboration_fifo
      submit_ethereum_events_fifo submit_latest_ethereum_block_fifo bridge_admin_setting_fifo)

lemma kept_or_invariant: "(\<And>s'. r = Inr s' \<Longrightarrow> I s') \<Longrightarrow> I s \<Longrightarrow> I (kept_or r s)"
  by (simp add: kept_or_def split: sum.splits)

lemma environment_fifo [simp]:
  "fifo (s\<lparr>bridge_block := block, bridge_time := time\<rparr>) = fifo s"
  "fifo (s\<lparr>bridge_avn := a\<rparr>) = fifo s" "fifo (s\<lparr>bridge_world := w\<rparr>) = fifo s"
  by (simp_all add: fifo_def queue_views)

lemma bridge_do_fifo:
  assumes "fifo s"
  shows "fifo (bridge_do C act s)"
proof (cases act)
  case (Publish name params caller)
  then show ?thesis
    using publish_fifo [of C name params caller s] assms
    by (cases "publish C name params caller s") (auto split: sum.splits)
qed (use assms in \<open>auto intro!: kept_or_invariant [where I = fifo]
      intro: generate_lower_proof_fifo bridge_dispatch_fifo bridge_admin_setting_fifo\<close>)

lemma genesis_fifo: "bridge_genesis lifetime first_id rsize inst a w = Inr s \<Longrightarrow> fifo s"
  by (auto simp: bridge_genesis_def fifo_def queue_views List.map_filter_def)

lemma bridge_reachable_fifo: "bridge_reachable C s \<Longrightarrow> fifo s"
  by (erule bridge_reachable_invariant [where I = fifo]) (erule genesis_fifo, erule bridge_do_fifo)

end
