(* ===== verification/Eth_Bridge_Votes.thy ===== *)
theory Eth_Bridge_Votes
  imports Eth_Bridge_Queue "HOL-Library.Multiset"
begin

text \<open>
  What the votes of the validators decide. A transaction is reported as a success only after
  enough different validators other than its sender have said so, an Ethereum transaction is
  handed to the pallets at most once, and the first range of blocks starts where enough of
  the validators' submissions allow it.
\<close>

section \<open>What is observed\<close>

fun success_of :: "notification \<Rightarrow> (nat \<times> bytes) option" where
  "success_of (ResultOf i caller ok) = (if ok then Some (i, caller) else None)"
| "success_of _ = None"

fun incoming_hash :: "notification \<Rightarrow> nat option" where
  "incoming_hash (Incoming ev) = Some (transaction_hash (event_id ev))"
| "incoming_hash _ = None"

definition successes :: "'w bridge \<Rightarrow> (nat \<times> bytes) list" where
  "successes s = List.map_filter success_of (notified s)"

definition handed_over :: "'w bridge \<Rightarrow> nat list" where
  "handed_over s = List.map_filter incoming_hash (notified s)"

definition fair_reports :: "active_eth_transaction \<Rightarrow> bool" where
  "fair_reports d \<longleftrightarrow> distinct (success_corroborations d @ failure_corroborations d) \<and>
     eth_sender d \<notin> set (success_corroborations d) \<union> set (failure_corroborations d)"

definition fair :: "'w bridge \<Rightarrow> bool" where
  "fair s \<longleftrightarrow> (\<forall>r d. active_request s = Some r \<longrightarrow> active_tx_data r = Some d \<longrightarrow> fair_reports d)"

definition once :: "'w bridge \<Rightarrow> bool" where
  "once s \<longleftrightarrow> distinct (handed_over s) \<and>
     (\<forall>h\<in>set (handed_over s). alist_get h (processed_ethereum_events s) \<noteq> None)"

text \<open>Steps that report no success and hand over no event.\<close>

definition calm :: "'w bridge \<Rightarrow> 'w bridge \<Rightarrow> bool" where
  "calm s s' \<longleftrightarrow> successes s' = successes s \<and> handed_over s' = handed_over s \<and>
     processed_ethereum_events s' = processed_ethereum_events s \<and> (fair s \<longrightarrow> fair s')"

lemmas vote_views = successes_def handed_over_def

lemma calm_refl [simp]: "calm s s"
  by (simp add: calm_def)

lemma calm_trans: "calm s s' \<Longrightarrow> calm s' s'' \<Longrightarrow> calm s s''"
  by (simp add: calm_def)

lemma calm_once: "calm s s' \<Longrightarrow> once s \<Longrightarrow> once s'"
  by (simp add: calm_def once_def)

lemma fair_None: "active_request s = None \<Longrightarrow> fair s"
  by (simp add: fair_def)

lemma deposit_calm: "calm s (bridge_event_deposit e s)"
  by (simp add: calm_def vote_views fair_def bridge_event_deposit_def)

lemma offence_calm: "calm s (create_and_report_bridge_offence C who accounts kind s)"
  by (simp add: create_and_report_bridge_offence_def Let_def calm_def vote_views fair_def
      bridge_event_deposit_def)

lemma dissent_calm: "calm s (report_dissent C success d s)"
  by (simp add: report_dissent_def offence_calm)

lemma settle_calm: "calm s (s\<lparr>settled_transactions := m\<rparr>)"
  by (simp add: calm_def vote_views fair_def)

lemma notify_calm:
  "calm s (snd (notify_result C i c False s))" "calm s (snd (notify_lower_proof C i c p s))"
  by (simp_all add: calm_def vote_views fair_def notify_result_def notify_lower_proof_def split_beta
      map_filter_append map_filter_single)

section \<open>Setting up\<close>

lemma set_up_active_tx_calm: "set_up_active_tx C req m s = Inr s' \<Longrightarrow> calm s s'"
  by (auto simp: set_up_active_tx_def Let_def assign_sender_def calm_def vote_views fair_def
      fair_reports_def split: prod.splits)

lemma set_up_active_lower_proof_calm: "set_up_active_lower_proof C req s = Inr s' \<Longrightarrow> calm s s'"
  by (auto simp: set_up_active_lower_proof_def calm_def vote_views fair_def)

lemma dequeue_calm:
  "dequeue_request (s\<lparr>active_request := None\<rparr>) = (mr, s1) \<Longrightarrow> calm s s1"
  by (auto simp: dequeue_request_def calm_def vote_views fair_def Let_def
      split: option.splits list.splits if_splits)

lemma process_next_request_calm:
  assumes "process_next_request C s = Inr s'"
  shows "calm s s'"
  using assms
proof (induction C s rule: process_next_request.induct)
  case (1 C s)
  obtain mr s1 where deq: "dequeue_request (s\<lparr>active_request := None\<rparr>) = (mr, s1)"
    by (cases "dequeue_request (s\<lparr>active_request := None\<rparr>)")
  note s1 = dequeue_calm [OF deq]
  show ?case
  proof (cases mr)
    case None
    then show ?thesis
      using "1.prems" deq s1 by (simp add: process_next_request.simps [of C s])
  next
    case (Some r)
    show ?thesis
    proof (cases r)
      case (Send req)
      show ?thesis
      proof (cases "set_up_active_tx C req None s1")
        case (Inr s2)
        then show ?thesis
          using "1.prems" deq Some Send calm_trans [OF s1 set_up_active_tx_calm [OF Inr]]
          by (simp add: process_next_request.simps [of C s])
      next
        case (Inl e)
        then have e: "e \<noteq> BridgePanic" and nxt:
          "process_next_request C (snd (notify_result C (tx_id req) (send_caller_id req) False s1)) = Inr s'"
          using "1.prems" deq Some Send
          by (auto simp: process_next_request.simps [of C s] split: if_splits)
        show ?thesis
          using calm_trans [OF s1 calm_trans [OF notify_calm(1)
                "1.IH"(1) [OF deq [symmetric] Some Send Inl e nxt]]] .
      qed
    next
      case (LowerProof req)
      show ?thesis
      proof (cases "set_up_active_lower_proof C req s1")
        case (Inr s2)
        then show ?thesis
          using "1.prems" deq Some LowerProof calm_trans [OF s1 set_up_active_lower_proof_calm [OF Inr]]
          by (simp add: process_next_request.simps [of C s])
      next
        case (Inl e)
        then have nxt: "process_next_request C
            (snd (notify_lower_proof C (lower_id req) (proof_caller_id req) (Inl ()) s1)) = Inr s'"
          using "1.prems" deq Some LowerProof by (simp add: process_next_request.simps [of C s])
        show ?thesis
          using calm_trans [OF s1 calm_trans [OF notify_calm(2)
                "1.IH"(2) [OF deq [symmetric] Some LowerProof Inl nxt]]] .
      qed
    qed
  qed
qed

lemma queue_request_calm: "queue_request C req s = Inr s' \<Longrightarrow> calm s s'"
  by (auto simp: queue_request_def calm_def vote_views fair_def Let_def split: if_splits)

lemma publish_calm:
  assumes "publish C name params caller s = (r, s')"
  shows "calm s s'"
proof -
  let ?s1 = "s\<lparr>next_tx_id := wrapping_add32 (next_tx_id s) 1\<rparr>"
  have "calm s ?s1"
    by (simp add: calm_def vote_views fair_def)
  obtain r1 s1 where add: "add_new_send_request C name params caller s = (r1, s1)"
    by (cases "add_new_send_request C name params caller s")
  then have "s1 = s \<or> s1 = ?s1 \<or> calm ?s1 s1"
    by (auto simp: add_new_send_request_def use_next_tx_id_def Let_def simp del: One_nat_def
        split: if_splits sum.splits dest!: queue_request_calm set_up_active_tx_calm)
  then have "calm s s1"
    using \<open>calm s ?s1\<close> calm_trans by auto
  then show ?thesis
    using assms add calm_trans [OF _ deposit_calm] by (auto simp: publish_def split: sum.splits)
qed

lemma generate_lower_proof_calm:
  assumes "generate_lower_proof C i params caller s = Inr s'"
  shows "calm s s'"
  using assms
  by (auto simp: generate_lower_proof_def add_new_lower_proof_request_def Let_def split: if_splits
      intro!: calm_trans [OF _ deposit_calm] dest: queue_request_calm set_up_active_lower_proof_calm)

section \<open>Settling\<close>

lemma complete_lower_proof_calm: "complete_lower_proof_request C req cs s = Inr s' \<Longrightarrow> calm s s'"
  by (auto simp: complete_lower_proof_request_def Let_def split_beta
      intro: calm_trans [OF notify_calm(2) process_next_request_calm])

lemma remove_active_calm: "remove_active_request_impl C s = Inr s' \<Longrightarrow> calm s s'"
  by (auto simp: remove_active_request_impl_def Let_def split: option.splits request.splits
      intro!: calm_trans [OF _ deposit_calm]
      intro: calm_trans [OF notify_calm(1) process_next_request_calm]
        calm_trans [OF notify_calm(2) process_next_request_calm])

text \<open>A step that reports at most one success, the given one.\<close>

definition settles :: "(nat \<times> bytes) list \<Rightarrow> 'w bridge \<Rightarrow> 'w bridge \<Rightarrow> bool" where
  "settles done s s' \<longleftrightarrow> successes s' = successes s @ done \<and> handed_over s' = handed_over s \<and>
     processed_ethereum_events s' = processed_ethereum_events s \<and> (fair s \<longrightarrow> fair s')"

lemma settles_Nil: "settles [] s s' = calm s s'"
  by (simp add: settles_def calm_def)

lemma settles_calm: "settles done s s1 \<Longrightarrow> calm s1 s' \<Longrightarrow> settles done s s'"
  by (simp add: settles_def calm_def)

lemma notify_result_settles:
  "settles (if ok then [(i, c)] else []) s (snd (notify_result C i c ok s))"
  by (simp add: settles_def vote_views fair_def notify_result_def split_beta map_filter_append
      map_filter_single)

lemma complete_transaction_settles:
  assumes "complete_transaction C tx ok s = Inr s'"
  shows "settles (if ok then [(tx_id (atx_request tx), send_caller_id (atx_request tx))] else []) s s'"
proof -
  let ?req = "atx_request tx"
  let ?s1 = "snd (notify_result C (tx_id ?req) (send_caller_id ?req) ok s)"
  let ?s2 = "report_dissent C ok (atx_data tx) ?s1"
  obtain m where nxt: "process_next_request C (?s2\<lparr>settled_transactions := m\<rparr>) = Inr s'"
    using assms by (auto simp: complete_transaction_def Let_def split_beta)
  have "calm ?s1 s'"
    by (rule calm_trans [OF dissent_calm calm_trans [OF settle_calm process_next_request_calm [OF nxt]]])
  then show ?thesis
    by (rule settles_calm [OF notify_result_settles])
qed

lemma replay_calm: "replay_send_request C tx s = Inr s' \<Longrightarrow> calm s s'"
  by (auto simp: replay_send_request_def Let_def intro: calm_trans [OF deposit_calm set_up_active_tx_calm])

lemma finalize_state_settles:
  assumes "finalize_state C tx ok s = Inr s'"
  shows "settles (if ok then [(tx_id (atx_request tx), send_caller_id (atx_request tx))] else []) s s'"
proof (cases "\<not> ok \<and> has_enough_corroborations (length (invalid_tx_hash_corroborations (atx_data tx))) s")
  case True
  then show ?thesis
    using assms replay_calm by (auto simp: finalize_state_def settles_Nil)
next
  case False
  then show ?thesis
    using assms complete_transaction_settles [of C tx ok s s'] by (auto simp: finalize_state_def)
qed

section \<open>Calls on the active request\<close>

lemma save_calm:
  assumes "active_request s = Some r" "active_tx_data r = Some d \<Longrightarrow> fair_reports d \<Longrightarrow> fair_reports d'"
    "active_tx_data r' = map_option (\<lambda>_. d') (active_tx_data r)" "active_tx_data r = Some d \<or> active_tx_data r = None"
  shows "calm s (save_active_request_to_storage r' s)"
  using assms by (auto simp: calm_def vote_views fair_def save_active_request_to_storage_def)

lemma save_same_calm:
  assumes "active_request s = Some r" "active_tx_data r' = active_tx_data r"
  shows "calm s (save_active_request_to_storage r' s)"
  using assms by (auto simp: calm_def vote_views fair_def save_active_request_to_storage_def)

lemma add_confirmation_calm:
  assumes "add_confirmation C origin i c author s = Inr s'"
  shows "calm s s'"
proof (cases "active_request s")
  case None
  then show ?thesis
    using assms by (auto simp: add_confirmation_def)
next
  case (Some r)
  then show ?thesis
    using assms
    by (cases "active_req r")
      (auto simp: add_confirmation_def Let_def split: if_splits intro!: save_same_calm [OF Some]
        dest: complete_lower_proof_calm)
qed

lemma add_eth_tx_hash_calm:
  assumes "add_eth_tx_hash origin i h author s = Inr s'"
  shows "calm s s'"
proof (cases "active_request s")
  case None
  then show ?thesis
    using assms by (auto simp: add_eth_tx_hash_def)
next
  case (Some r)
  have "calm s (save_active_request_to_storage (r\<lparr>active_tx_data := Some (d\<lparr>eth_tx_hash := h\<rparr>)\<rparr>) s)"
    if "active_tx_data r = Some d" for d
    using save_calm [OF Some, of d "d\<lparr>eth_tx_hash := h\<rparr>"] that by (simp add: fair_reports_def)
  then show ?thesis
    using assms Some by (auto simp: add_eth_tx_hash_def split: if_splits option.splits)
qed

lemma record_corroboration_effect:
  assumes "record_corroboration ok valid who d = Inr d1"
  shows "success_corroborations d1 = success_corroborations d @ (if ok then [who] else [])"
    "failure_corroborations d1 = failure_corroborations d @ (if ok then [] else [who])"
    "eth_sender d1 = eth_sender d"
  using assms by (auto simp: record_corroboration_def try_push_def split: if_splits)

lemma record_corroboration_fair:
  assumes "record_corroboration ok valid (v_account author) d = Inr d1" "fair_reports d"
    "requires_corroboration d author" "v_account author \<noteq> eth_sender d"
  shows "fair_reports d1"
  using record_corroboration_effect [OF assms(1)] assms(2-4)
  by (auto simp: fair_reports_def requires_corroboration_def)

text \<open>The reports that make a success.\<close>

definition decided_by :: "'w bridge \<Rightarrow> nat \<times> bytes \<Rightarrow> validator \<Rightarrow> bool" where
  "decided_by s result author \<longleftrightarrow>
     (\<exists>r req d. active_request s = Some r \<and> active_req r = Send req \<and> active_tx_data r = Some d \<and>
        result = (tx_id req, send_caller_id req) \<and>
        distinct (v_account author # success_corroborations d) \<and>
        eth_sender d \<notin> set (v_account author # success_corroborations d) \<and>
        has_enough_corroborations (length (v_account author # success_corroborations d)) s)"

lemma add_corroboration_settles:
  assumes "add_corroboration C origin i ok valid author n s = Inr s'"
  shows "calm s s' \<or> (\<exists>result. settles [result] s s' \<and> (fair s \<longrightarrow> decided_by s result author))"
proof (cases "active_request s")
  case None
  then show ?thesis
    using assms by (auto simp: add_corroboration_def)
next
  case (Some r)
  from add_corroboration_cases [OF assms Some] show ?thesis
  proof (elim disjE exE conjE)
    fix d d1
    assume d: "active_tx_data r = Some d" and other: "v_account author \<noteq> eth_sender d"
      and req: "requires_corroboration d author"
      and rec: "record_corroboration ok valid (v_account author) d = Inr d1"
      and cont: "if has_enough_corroborations (length (matching_corroborations ok d1)) s
        then \<exists>atx. as_active_tx (r\<lparr>active_tx_data := Some d1\<rparr>) = Inr atx \<and> finalize_state C atx ok s = Inr s'
        else s' = save_active_request_to_storage (r\<lparr>active_tx_data := Some d1\<rparr>) s"
    note fair1 = record_corroboration_fair [OF rec _ req other]
    show ?thesis
    proof (cases "has_enough_corroborations (length (matching_corroborations ok d1)) s")
      case False
      then show ?thesis
        using cont save_calm [OF Some, of d d1 "r\<lparr>active_tx_data := Some d1\<rparr>"] d fair1 by simp
    next
      case True
      then obtain atx where atx: "as_active_tx (r\<lparr>active_tx_data := Some d1\<rparr>) = Inr atx"
        and fin: "finalize_state C atx ok s = Inr s'"
        using cont by auto
      note set = finalize_state_settles [OF fin]
      show ?thesis
      proof (cases ok)
        case False
        then show ?thesis
          using set by (simp add: settles_Nil)
      next
        case True
        have "decided_by s (tx_id (atx_request atx), send_caller_id (atx_request atx)) author" if "fair s"
        proof -
          have "fair_reports d"
            using that Some d by (auto simp: fair_def)
          moreover have "has_enough_corroborations (Suc (length (success_corroborations d))) s"
            using \<open>has_enough_corroborations (length (matching_corroborations ok d1)) s\<close> \<open>ok\<close>
              record_corroboration_effect(1) [OF rec] by (simp add: matching_corroborations_def)
          ultimately show ?thesis
            unfolding decided_by_def
            using Some d as_active_tx_request [OF atx] req other
            by (auto simp: fair_reports_def requires_corroboration_def)
        qed
        then show ?thesis
          using set True by auto
      qed
    qed
  qed simp
qed

section \<open>Incoming events\<close>

text \<open>Steps on the events: the request in hand stays, and no success is reported.\<close>

definition eventful :: "'w bridge \<Rightarrow> 'w bridge \<Rightarrow> bool" where
  "eventful s s' \<longleftrightarrow> successes s' = successes s \<and> active_request s' = active_request s \<and> (once s \<longrightarrow> once s')"

lemma eventful_refl [simp]: "eventful s s"
  by (simp add: eventful_def)

lemma eventful_trans: "eventful s s' \<Longrightarrow> eventful s' s'' \<Longrightarrow> eventful s s''"
  by (simp add: eventful_def)

lemma eventful_fair: "eventful s s' \<Longrightarrow> fair s \<Longrightarrow> fair s'"
  by (simp add: eventful_def fair_def)

lemma calm_eventful: "calm s s' \<Longrightarrow> active_request s' = active_request s \<Longrightarrow> eventful s s'"
  using calm_once by (auto simp: eventful_def calm_def)

lemma deposit_eventful: "eventful s (bridge_event_deposit e s)"
  by (rule calm_eventful [OF deposit_calm]) (simp add: bridge_event_deposit_def)

lemma offence_eventful: "eventful s (create_and_report_bridge_offence C who accounts kind s)"
  by (rule calm_eventful [OF offence_calm])
    (simp add: create_and_report_bridge_offence_def Let_def bridge_event_deposit_def)

text \<open>An event that gets through was not known before and is known from then on.\<close>

lemma unknown_event:
  assumes "\<not> network_processed_event_exists net eid s" "network_add_processed_event net eid ok s = Inr s'"
  shows "alist_get (transaction_hash eid) (processed_ethereum_events s) = None"
  using assms
  by (auto simp: network_processed_event_exists_def network_add_processed_event_def processed_event_exists_def)

lemma process_ethereum_event_eventful:
  assumes "process_ethereum_event C net ev s = Inr s'"
  shows "eventful s s'"
proof -
  let ?h = "transaction_hash (event_id ev)"
  obtain kind e s1 where not_known: "\<not> network_processed_event_exists net (event_id ev) s"
    and add: "network_add_processed_event net (event_id ev) True s = Inr s1"
    and s1: "s1 = s\<lparr>processed_ethereum_events := alist_insert ?h
      \<lparr>processed_id = kind, processed_accepted = True\<rparr> (processed_ethereum_events s)\<rparr>"
    and s': "s' = bridge_event_deposit e (snd (notify_event C ev s1))"
    using process_ethereum_event_effect [OF assms] by blast
  have "handed_over s' = handed_over s @ [?h]" "successes s' = successes s"
    "active_request s' = active_request s"
    "processed_ethereum_events s' = processed_ethereum_events s1"
    by (simp_all add: s' s1 vote_views bridge_event_deposit_def notify_event_def split_beta
        map_filter_append map_filter_single)
  then show ?thesis
    using unknown_event [OF not_known add]
    by (auto simp: eventful_def once_def s1 alist_get_insert)
qed

lemma discovered_event_eventful: "eventful s (process_discovered_event C net rng e s)"
  by (auto simp: process_discovered_event_def deposit_eventful split: sum.splits
      dest: process_ethereum_event_eventful)

lemma fold_eventful:
  assumes "\<And>x s. eventful s (f x s)"
  shows "eventful s (fold f xs s)"
proof (induction xs arbitrary: s)
  case (Cons x xs)
  then show ?case
    using eventful_trans [OF assms Cons] by simp
qed simp

lemma votes_eventful: "eventful s (s\<lparr>ethereum_events := m\<rparr>)"
  by (simp add: eventful_def once_def vote_views)

lemma partition_eventful: "eventful s (process_ethereum_events_partition C net rng part author s)"
proof -
  have events: "eventful t (fold (process_discovered_event C net rng) es t)" for t es
    by (rule fold_eventful) (rule discovered_event_eventful)
  have offences: "eventful t (fold (\<lambda>(_, votes).
      create_and_report_bridge_offence C (v_account author) votes InvalidEthereumRangeData) xs t)" for t xs
    by (rule fold_eventful) (simp add: offence_eventful split: prod.splits)
  show ?thesis
    unfolding process_ethereum_events_partition_def Let_def
    by (rule eventful_trans [OF votes_eventful eventful_trans [OF events
            eventful_trans [OF votes_eventful offences]]])
qed

lemma advance_eventful: "eventful s (advance_partition C rng part s)"
  by (simp add: advance_partition_def eventful_def once_def vote_views)

lemma submit_ethereum_events_eventful:
  assumes "submit_ethereum_events C origin author part s = Inr s'"
  shows "eventful s s'"
  using assms
  by (auto simp: submit_ethereum_events_def votes_eventful split: if_splits
      intro: eventful_trans [OF partition_eventful advance_eventful])

lemma submit_latest_ethereum_block_eventful:
  assumes "submit_latest_ethereum_block C origin author latest s = Inr s'"
  shows "eventful s s'"
  using assms
  by (auto simp: submit_latest_ethereum_block_def Let_def eventful_def once_def vote_views split: if_splits)

section \<open>Runs\<close>

lemma set_instance_calm:
  assumes "apply_admin_setting C (SetEthBridgeInstance i) s = Inr s'"
  shows "calm s s'"
proof -
  let ?s1 = "s\<lparr>ethereum_events := drop 1 (drop 100 (ethereum_events s)), the_instance := i\<rparr>"
  have s1: "calm s ?s1"
    by (simp add: calm_def vote_views fair_def)
  have "s' = ?s1 \<or> (\<exists>req. set_up_active_tx C req None ?s1 = Inr s')"
    using assms by (auto simp: Let_def split: option.splits request.splits)
  then show ?thesis
    using s1 calm_trans [OF s1 set_up_active_tx_calm] by auto
qed

lemma apply_admin_setting_calm: "apply_admin_setting C setting s = Inr s' \<Longrightarrow> calm s s'"
proof (cases setting)
  case RemoveActiveRequest
  then show "apply_admin_setting C setting s = Inr s' \<Longrightarrow> calm s s'"
    by (simp add: remove_active_calm)
next
  case (SetEthBridgeInstance i)
  then show "apply_admin_setting C setting s = Inr s' \<Longrightarrow> calm s s'"
    using set_instance_calm by metis
qed (auto simp: calm_def vote_views fair_def bridge_event_deposit_def)

definition votes_respected :: "'w bridge \<Rightarrow> bool" where
  "votes_respected s \<longleftrightarrow> fair s \<and> once s"

text \<open>Every step keeps both invariants, and reports a success only on the last report it takes.\<close>

lemma calm_respects:
  "calm s s' \<Longrightarrow> votes_respected s \<Longrightarrow> votes_respected s' \<and> successes s' = successes s"
  using calm_once by (auto simp: votes_respected_def calm_def)

lemma eventful_respects:
  "eventful s s' \<Longrightarrow> votes_respected s \<Longrightarrow> votes_respected s' \<and> successes s' = successes s"
  using eventful_fair by (auto simp: votes_respected_def eventful_def)

definition vote_step :: "'w bridge_config \<Rightarrow> 'w bridge_action \<Rightarrow> 'w bridge \<Rightarrow> 'w bridge \<Rightarrow> bool" where
  "vote_step C act s s' \<longleftrightarrow> votes_respected s' \<and>
     (successes s' = successes s \<or>
      (\<exists>i valid author n sig result. act = SubmitUnsigned (AddCorroboration i True valid author n sig) \<and>
         bridge_validate_unsigned C (AddCorroboration i True valid author n sig) s =
           ValidWith (AddCorroboration i True valid author n sig) \<and>
         successes s' = successes s @ [result] \<and> decided_by s result author))"

lemma add_corroboration_failure_calm:
  assumes "add_corroboration C origin i False valid author n s = Inr s'"
  shows "calm s s'"
proof (cases "active_request s")
  case None
  then show ?thesis
    using assms by (auto simp: add_corroboration_def)
next
  case (Some r)
  have "calm s (save_active_request_to_storage (r\<lparr>active_tx_data := Some d1\<rparr>) s)"
    if "active_tx_data r = Some d" "record_corroboration False valid (v_account author) d = Inr d1"
      "requires_corroboration d author" "v_account author \<noteq> eth_sender d" for d d1
    using save_calm [OF Some, of d d1 "r\<lparr>active_tx_data := Some d1\<rparr>"] that record_corroboration_fair by auto
  then show ?thesis
    using add_corroboration_cases [OF assms Some] finalize_state_settles [of C _ False s s']
    by (auto simp: settles_Nil split: if_splits)
qed

lemma bridge_do_respects:
  assumes "votes_respected s"
  shows "vote_step C act s (bridge_do C act s)"
proof (cases act)
  case (Publish name params caller)
  then have "calm s (bridge_do C act s)"
    using publish_calm [of C name params caller s]
    by (cases "publish C name params caller s") (auto split: sum.splits)
  then show ?thesis
    using calm_respects assms by (auto simp: vote_step_def)
next
  case (GenerateLowerProof i params caller)
  then have "calm s (bridge_do C act s)"
    by (auto intro!: kept_or_invariant [where I = "calm s"] dest: generate_lower_proof_calm)
  then show ?thesis
    using calm_respects assms by (auto simp: vote_step_def)
next
  case (Administer setting)
  then have "calm s (bridge_do C act s)"
    using apply_admin_setting_calm [of C setting s]
    by (auto simp: bridge_set_admin_setting_def intro!: kept_or_invariant [where I = "calm s"])
  then show ?thesis
    using calm_respects assms by (auto simp: vote_step_def)
next
  case (SubmitUnsigned call)
  have "vote_step C act s s'"
    if "bridge_dispatch C Unsigned call s = Inr s'" "bridge_validate_unsigned C call s = ValidWith call" for s'
  proof (cases call)
    case (AddCorroboration i ok valid author n sig)
    then have add: "add_corroboration C Unsigned i ok valid author n s = Inr s'"
      using that(1) by simp
    show ?thesis
    proof (cases ok)
      case False
      then show ?thesis
        using calm_respects [OF add_corroboration_failure_calm assms] add by (simp add: vote_step_def)
    next
      case True
      have "fair s"
        using assms by (simp add: votes_respected_def)
      then consider "calm s s'" | result where "settles [result] s s'" "decided_by s result author"
        using add_corroboration_settles [OF add] by blast
      then show ?thesis
      proof cases
        case 1
        then show ?thesis
          using calm_respects assms by (auto simp: vote_step_def)
      next
        case 2
        then have "votes_respected s'" "successes s' = successes s @ [result]"
          using assms by (auto simp: settles_def votes_respected_def once_def)
        then show ?thesis
          using 2(2) SubmitUnsigned AddCorroboration True that(2) by (auto simp: vote_step_def)
      qed
    qed
  next
    case (SetAdminSetting x)
    then show ?thesis
      using that(2) by simp
  qed (use that(1) assms in \<open>auto simp: vote_step_def
        dest!: add_confirmation_calm add_eth_tx_hash_calm calm_respects
          submit_ethereum_events_eventful submit_latest_ethereum_block_eventful eventful_respects\<close>)
  moreover have "vote_step C act s s"
    using assms by (simp add: vote_step_def)
  ultimately show ?thesis
    using SubmitUnsigned by (auto intro!: kept_or_invariant [where I = "vote_step C (SubmitUnsigned call) s"])
qed (use assms in \<open>simp_all add: vote_step_def votes_respected_def fair_def once_def vote_views\<close>)

lemma bridge_reachable_respects: "bridge_reachable C s \<Longrightarrow> votes_respected s"
proof (erule bridge_reachable_invariant [where I = votes_respected])
  show "votes_respected s" if "bridge_genesis lifetime first_id rsize inst a w = Inr s" for s :: "'a bridge"
      and lifetime first_id rsize inst a w
    using that by (auto simp: bridge_genesis_def votes_respected_def fair_def once_def vote_views List.map_filter_def)
  show "votes_respected (bridge_do C act s)" if "votes_respected s" for s act
    using bridge_do_respects [OF that] by (simp add: vote_step_def)
qed

section \<open>The first range\<close>

definition votes_below :: "nat \<Rightarrow> (nat \<times> nat) list \<Rightarrow> nat" where
  "votes_below b bs = sum_list (map snd (filter (\<lambda>x. fst x < b) bs))"

definition votes_upto :: "nat \<Rightarrow> (nat \<times> nat) list \<Rightarrow> nat" where
  "votes_upto b bs = sum_list (map snd (filter (\<lambda>x. fst x \<le> b) bs))"

lemma sum_list_filter_le: "sum_list (map snd (filter P bs)) \<le> sum_list (map snd bs)" for bs :: "(nat \<times> nat) list"
  by (induction bs) auto

lemma select_start_bounds:
  assumes "sorted (map fst bs)" "t \<le> sum_list (map snd bs)" "0 < q" "bs \<noteq> []"
  shows "\<exists>b. select_start q t bs = Some b \<and> b \<in> fst ` set bs \<and> t < votes_upto b bs + q \<and>
    (votes_below b bs = 0 \<or> votes_below b bs + q \<le> t)"
  using assms
proof (induction bs arbitrary: t)
  case (Cons x bs)
  obtain b c where x: "x = (b, c)"
    by (cases x)
  show ?case
  proof (cases "t - c < q")
    case True
    have "filter (\<lambda>y. fst y < b) bs = []"
      using Cons.prems(1) x by (auto simp: filter_empty_conv)
    then show ?thesis
      using True x by (auto simp: votes_upto_def votes_below_def)
  next
    case False
    have "bs \<noteq> []"
      using Cons.prems False x by auto
    then obtain b' where IH: "select_start q (t - c) bs = Some b'" "b' \<in> fst ` set bs"
      "t - c < votes_upto b' bs + q" "votes_below b' bs = 0 \<or> votes_below b' bs + q \<le> t - c"
      using Cons.IH [of "t - c"] Cons.prems x by (auto simp: le_diff_conv add.commute)
    have "b \<le> b'"
      using IH(2) Cons.prems(1) x by auto
    then have "votes_upto b' (x # bs) = c + votes_upto b' bs" "votes_below b' (x # bs) \<le> c + votes_below b' bs"
      using x by (auto simp: votes_upto_def votes_below_def)
    moreover have "c + q \<le> t"
      using False Cons.prems(3) by linarith
    ultimately have "t < votes_upto b' (x # bs) + q" "votes_below b' (x # bs) + q \<le> t"
      using IH(3,4) by linarith+
    then show ?thesis
      using IH(1,2) False x by auto
  qed
qed simp

lemma mset_votes:
  "mset bs = mset bs' \<Longrightarrow> votes_below b bs = votes_below b bs'"
  "mset bs = mset bs' \<Longrightarrow> votes_upto b bs = votes_upto b bs'"
  "mset bs = mset bs' \<Longrightarrow> sum_list (map snd bs) = sum_list (map snd bs')"
  by (simp_all add: votes_below_def votes_upto_def flip: sum_mset_sum_list)

lemma sorted_fst: "sorted (xs :: (nat \<times> nat) list) \<Longrightarrow> sorted (map fst xs)"
  by (induction xs) (auto simp: less_eq_prod_def)

text \<open>The number of votes for each block.\<close>

definition vote_counts :: "(nat \<times> account list) list \<Rightarrow> (nat \<times> nat) list" where
  "vote_counts m = map (\<lambda>(block, vs). (block, length vs)) m"

lemma first_range_from:
  assumes "submit_latest_ethereum_block C origin author latest s = Inr s'"
    and "active_ethereum_range s' = Some rng" "0 < get_quorum (bridge_validators s)"
  shows "\<exists>block votes. let m = alist_insert block votes (submitted_eth_blocks s); start = start_block (ar_range rng) in
    compute_start_block_from_finalised_block_number latest (eth_block_range_size s) = Inr block \<and>
    set votes = insert (v_account author) (set (votes_on block (submitted_eth_blocks s))) \<and>
    get_supermajority_quorum (bridge_validators s) \<le> sum_list (map snd (vote_counts m)) \<and>
    start \<in> fst ` set m \<and>
    get_supermajority_quorum (bridge_validators s) <
      votes_upto start (vote_counts m) + get_quorum (bridge_validators s) \<and>
    (votes_below start (vote_counts m) = 0 \<or>
     votes_below start (vote_counts m) + get_quorum (bridge_validators s)
       \<le> get_supermajority_quorum (bridge_validators s))"
proof -
  let ?t = "get_supermajority_quorum (bridge_validators s)"
  let ?q = "get_quorum (bridge_validators s)"
  obtain block votes where block:
      "compute_start_block_from_finalised_block_number latest (eth_block_range_size s) = Inr block"
    and votes: "set_try_insert MaximumValidatorsBound (v_account author)
      (votes_on block (submitted_eth_blocks s)) = Some votes"
    and none: "active_ethereum_range s = None"
    and cont: "(let m = alist_insert block votes (submitted_eth_blocks s); bs = sort (vote_counts m) in
      if ?t \<le> sum_list (map snd bs) then
        ar_range rng = (case select_start ?q ?t bs of None \<Rightarrow> \<lparr>start_block = 0, range_length = 0\<rparr>
          | Some b \<Rightarrow> \<lparr>start_block = b, range_length = eth_block_range_size s\<rparr>)
      else False)"
    using assms(1,2)
    by (auto simp: submit_latest_ethereum_block_def Let_def vote_counts_def split: if_splits)
  define m where "m = alist_insert block votes (submitted_eth_blocks s)"
  let ?bs = "sort (vote_counts m)"
  have "?bs \<noteq> []"
    using alist_insert_keys [of block votes "submitted_eth_blocks s"]
    by (auto simp: m_def vote_counts_def simp flip: set_empty)
  moreover have t: "?t \<le> sum_list (map snd ?bs)"
    and rng: "ar_range rng = (case select_start ?q ?t ?bs of None \<Rightarrow> \<lparr>start_block = 0, range_length = 0\<rparr>
          | Some b \<Rightarrow> \<lparr>start_block = b, range_length = eth_block_range_size s\<rparr>)"
    using cont by (auto simp: Let_def m_def split: if_splits)
  ultimately obtain b where b: "select_start ?q ?t ?bs = Some b" "b \<in> fst ` set ?bs"
    "?t < votes_upto b ?bs + ?q" "votes_below b ?bs = 0 \<or> votes_below b ?bs + ?q \<le> ?t"
    using select_start_bounds [OF sorted_fst [OF sorted_sort] t assms(3)] by blast
  have ms: "mset ?bs = mset (vote_counts m)"
    by simp
  have "set votes = insert (v_account author) (set (votes_on block (submitted_eth_blocks s)))"
    using votes by (auto simp: set_try_insert_def set_insort_key split: if_splits)
  moreover have "b \<in> fst ` set m"
    using b(2) by (force simp: vote_counts_def)
  ultimately show ?thesis
    using block b rng t unfolding mset_votes [OF ms]
    by (intro exI [of _ block] exI [of _ votes]) (simp add: Let_def flip: m_def)
qed

end
