(* ===== verification/Eth_Bridge_Worker.thy ===== *)
theory Eth_Bridge_Worker
  imports Eth_Bridge_Votes
begin

text \<open>
  The off-chain worker of the bridge (\<open>pallets/eth-bridge/src/lib.rs\<close>, \<open>eth.rs\<close> and \<open>call.rs\<close>):
  what a validator's node does about the active request when a block is imported. The
  external service that signs, sends and queries, and the encoder of the contract interface,
  are parameters; the HTTP transport is not modelled. The worker returns the call it submits.
\<close>

section \<open>Encoding of calls to the contract\<close>

datatype param_type = BytesType | FixedBytesType nat | UintType nat | AddressType

datatype abi_token = BytesToken bytes | UintToken nat | FixedBytesToken bytes | AddressToken nat

definition to_param_type :: "bytes \<Rightarrow> param_type option" where
  "to_param_type key =
     (if key = ascii ''bytes'' then Some BytesType
      else if key = ascii ''bytes32'' then Some (FixedBytesType 32)
      else if key = UINT32 then Some (UintType 32)
      else if key = ascii ''uint128'' then Some (UintType 128)
      else if key = UINT256 then Some (UintType 256)
      else if key = ascii ''address'' then Some AddressType
      else None)"

text \<open>\<open>Address::from_slice\<close> panics on a slice of another size.\<close>

fun to_token_type :: "param_type \<Rightarrow> bytes \<Rightarrow> bridge_error + abi_token" where
  "to_token_type BytesType v = Inr (BytesToken v)"
| "to_token_type (UintType _) v =
     (if \<not> utf8_valid v then Inl InvalidUTF8
      else case parse_digits (2 ^ 256 - 1) 0 v of
             None \<Rightarrow> Inl InvalidUint
           | Some n \<Rightarrow> Inr (UintToken n))"
| "to_token_type (FixedBytesType n) v =
     (if length v \<noteq> n then Inl InvalidBytes else Inr (FixedBytesToken v))"
| "to_token_type AddressType v =
     (if length v \<noteq> 20 then Inl BridgePanic else Inr (AddressToken (from_be_bytes v)))"

fun to_tokens :: "eth_params \<Rightarrow> bridge_error + abi_token list" where
  "to_tokens [] = Inr []"
| "to_tokens ((t, v) # ps) =
     and_then (ok_or (to_param_type t) ParamTypeEncodingError) (\<lambda>kind.
     and_then (to_token_type kind v) (\<lambda>tok.
     and_then (to_tokens ps) (\<lambda>toks. Inr (tok # toks))))"

text \<open>\<open>encode_input\<close> is the encoder of the library, for a name, the types and the values.\<close>

definition abi_encode_function ::
  "(bytes \<Rightarrow> param_type list \<Rightarrow> abi_token list \<Rightarrow> bytes option) \<Rightarrow> bytes \<Rightarrow> eth_params \<Rightarrow> bridge_error + bytes" where
  "abi_encode_function encode_input name params =
     (let tokens = to_tokens params in
      if tokens = Inl BridgePanic then Inl BridgePanic
      else if \<not> utf8_valid name then Inl FunctionNameError
      else and_then tokens (\<lambda>toks.
        ok_or (encode_input name (List.map_filter (\<lambda>(t, _). to_param_type t) params) toks)
          FunctionEncodingError))"

section \<open>The worker\<close>

text \<open>The external service, the signing key of the node and the encoder.\<close>

record bridge_service =
  encode_input :: "bytes \<Rightarrow> param_type list \<Rightarrow> abi_token list \<Rightarrow> bytes option"
  sign_msg_hash :: "validator \<Rightarrow> nat \<Rightarrow> bytes option"
  send_transaction :: "bytes \<Rightarrow> validator \<Rightarrow> nat option"
  call_corroborate_method :: "bytes \<Rightarrow> account \<Rightarrow> int option"
  get_transaction_call_data :: "nat \<Rightarrow> account \<Rightarrow> (bytes \<times> nat) option"
  sign_payload :: "validator \<Rightarrow> bridge_payload \<Rightarrow> nat option"
  send_lock_free :: "nat \<Rightarrow> bool"

definition generate_send_calldata :: "bridge_service \<Rightarrow> active_transaction_data \<Rightarrow> bridge_error + bytes" where
  "generate_send_calldata S tx =
     abi_encode_function (encode_input S) (function_name (atx_request tx))
       (eth_tx_params (atx_data tx) @
        [(ascii ''bytes'', encode_confirmations (confirmations (atx_confirmation tx)))])"

definition generate_corroborate_calldata :: "bridge_service \<Rightarrow> nat \<Rightarrow> nat \<Rightarrow> bridge_error + bytes" where
  "generate_corroborate_calldata S i expiry =
     abi_encode_function (encode_input S) (ascii ''corroborate'')
       [(UINT32, decimal i), (UINT256, decimal expiry)]"

definition send_tx :: "bridge_service \<Rightarrow> validator \<Rightarrow> active_transaction_data \<Rightarrow> bridge_error + nat" where
  "send_tx S author tx =
     (if v_account author \<noteq> eth_sender (atx_data tx) then Inl AuthorNotSender
      else case generate_send_calldata S tx of
             Inl e \<Rightarrow> Inl (if e = BridgePanic then e else InvalidSendCalldata)
           | Inr calldata \<Rightarrow> ok_or (send_transaction S calldata author) SendTransactionFailed)"

definition check_tx_status ::
  "bridge_service \<Rightarrow> active_transaction_data \<Rightarrow> validator \<Rightarrow> bridge_error + bool option" where
  "check_tx_status S tx author =
     (case generate_corroborate_calldata S (tx_id (atx_request tx)) (eth_expiry (atx_data tx)) of
        Inl _ \<Rightarrow> Inl InvalidCorroborateCalldata
      | Inr calldata \<Rightarrow>
          (case call_corroborate_method S calldata (v_account author) of
             None \<Rightarrow> Inl CorroborateCallFailed
           | Some r \<Rightarrow> if r = 0 then Inr None
                      else if r = 1 then Inr (Some True)
                      else if r = -1 then Inr (Some False)
                      else Inl InvalidCorroborateResult))"

definition check_tx_hash ::
  "bridge_service \<Rightarrow> active_transaction_data \<Rightarrow> validator \<Rightarrow> bridge_error + bool \<times> nat option" where
  "check_tx_hash S tx author =
     (if eth_tx_hash (atx_data tx) \<noteq> 0 then
        (case get_transaction_call_data S (eth_tx_hash (atx_data tx)) (v_account author) of
           None \<Rightarrow> Inl ErrorGettingEthereumCallData
         | Some (call_data, num_confirmations) \<Rightarrow>
             and_then (generate_send_calldata S tx) (\<lambda>expected.
               Inr (expected = call_data, Some num_confirmations)))
      else Inr (False, None))"

definition corroborate ::
  "'w bridge_config \<Rightarrow> bridge_service \<Rightarrow> active_transaction_data \<Rightarrow> validator
     \<Rightarrow> bridge_error + bool option \<times> bool option" where
  "corroborate C S tx author =
     and_then (check_tx_status S tx author) (\<lambda>status.
       if status = None then Inr (None, None)
       else and_then (check_tx_hash S tx author) (\<lambda>(tx_hash_is_valid, confs).
         if tx_hash_is_valid \<and> (case confs of None \<Rightarrow> 0 | Some n \<Rightarrow> n) < min_eth_block_confirmation C
         then Inr (None, None)
         else Inr (status, Some tx_hash_is_valid)))"

text \<open>Submitting a call: the node signs what the pallet will check.\<close>

definition submit_confirmation ::
  "'w bridge_config \<Rightarrow> bridge_service \<Rightarrow> nat \<Rightarrow> bytes \<Rightarrow> validator \<Rightarrow> 'w bridge \<Rightarrow> bridge_error + bridge_call option" where
  "submit_confirmation C S i c author s =
     (case sign_payload S author
             (AddConfirmationData (instance_hash C (the_instance s)) i c (v_account author)) of
        None \<Rightarrow> Inl BridgePanic
      | Some sig \<Rightarrow> Inr (Some (AddConfirmation i c author sig)))"

definition submit_eth_tx_hash ::
  "'w bridge_config \<Rightarrow> bridge_service \<Rightarrow> nat \<Rightarrow> nat \<Rightarrow> validator \<Rightarrow> 'w bridge \<Rightarrow> bridge_error + bridge_call option" where
  "submit_eth_tx_hash C S i h author s =
     (case sign_payload S author
             (AddEthTxHashData (instance_hash C (the_instance s)) i h (v_account author)) of
        None \<Rightarrow> Inl BridgePanic
      | Some sig \<Rightarrow> Inr (Some (AddEthTxHash i h author sig)))"

definition submit_corroboration ::
  "'w bridge_config \<Rightarrow> bridge_service \<Rightarrow> nat \<Rightarrow> bool \<Rightarrow> bool \<Rightarrow> validator \<Rightarrow> nat \<Rightarrow> 'w bridge
     \<Rightarrow> bridge_error + bridge_call option" where
  "submit_corroboration C S i ok valid author attempt s =
     (case sign_payload S author
             (AddCorroborationData (instance_hash C (the_instance s)) i ok valid (v_account author) attempt) of
        None \<Rightarrow> Inl BridgePanic
      | Some sig \<Rightarrow> Inr (Some (AddCorroboration i ok valid author attempt sig)))"

definition process_active_tx_request ::
  "'w bridge_config \<Rightarrow> bridge_service \<Rightarrow> validator \<Rightarrow> active_transaction_data \<Rightarrow> bool \<Rightarrow> bool \<Rightarrow> 'w bridge
     \<Rightarrow> bridge_error + bridge_call option" where
  "process_active_tx_request C S author tx self_is_sender enough s =
     (let tx_is_sent = (eth_tx_hash (atx_data tx) \<noteq> 0);
          tx_is_past_expiry = (eth_expiry (atx_data tx) < bridge_time s);
          i = tx_id (atx_request tx) in
      if self_is_sender \<and> enough \<and> \<not> tx_is_sent then
        (if send_lock_free S i
         then and_then (send_tx S author tx) (\<lambda>h. submit_eth_tx_hash C S i h author s)
         else Inr None)
      else if \<not> self_is_sender \<and> (tx_is_sent \<or> tx_is_past_expiry) then
        (if requires_corroboration (atx_data tx) author
         then and_then (corroborate C S tx author) (\<lambda>(status, hash_valid).
           case status of
             None \<Rightarrow> Inr None
           | Some ok \<Rightarrow> submit_corroboration C S i ok (hash_valid = Some True) author (atx_replay_attempt tx) s)
         else Inr None)
      else Inr None)"

definition process_active_request ::
  "'w bridge_config \<Rightarrow> bridge_service \<Rightarrow> validator \<Rightarrow> nat \<Rightarrow> 'w bridge \<Rightarrow> bridge_error + bridge_call option" where
  "process_active_request C S author finalised_block_number s =
     (case active_request s of
        None \<Rightarrow> Inr None
      | Some req \<Rightarrow>
         if finalised_block_number < last_updated req then Inr None
         else let enough = has_enough_confirmations req s in
           case active_req req of
             LowerProof lower_req \<Rightarrow>
               if enough then Inr None
               else and_then (ok_or (sign_msg_hash S author (msg_hash (active_conf req))) SigningError) (\<lambda>c.
                 if List.member (confirmations (active_conf req)) c then Inr None
                 else submit_confirmation C S (lower_id lower_req) c author s)
           | Send _ \<Rightarrow>
               and_then (as_active_tx req) (\<lambda>tx.
               let self_is_sender = (v_account author = eth_sender (atx_data tx)) in
               if \<not> self_is_sender \<and> \<not> enough
               then and_then (ok_or (sign_msg_hash S author (msg_hash (atx_confirmation tx))) SigningError) (\<lambda>c.
                 if List.member (confirmations (atx_confirmation tx)) c then Inr None
                 else submit_confirmation C S (tx_id (atx_request tx)) c author s)
               else process_active_tx_request C S author tx self_is_sender enough s))"

section \<open>The worker and the chain\<close>

text \<open>What the node of an honest validator can count on.\<close>

definition honest_service :: "'w bridge_config \<Rightarrow> bridge_service \<Rightarrow> validator \<Rightarrow> 'w bridge \<Rightarrow> bool" where
  "honest_service C S author s \<longleftrightarrow> is_validator (bridge_validators s) (v_account author) \<and>
     (\<forall>d sig. sign_payload S author d = Some sig \<longrightarrow> verify_key C (v_key author) d sig) \<and>
     (\<forall>h c. sign_msg_hash S author h = Some c \<longrightarrow>
        (\<exists>key. recover_ecdsa_key C c h = Some key \<and> validator_for_eth_public_key C key = Some (v_account author)))"

lemma submit_confirmation_valid:
  assumes "submit_confirmation C S i c author s = Inr (Some call)" "honest_service C S author s"
  shows "\<exists>sig. call = AddConfirmation i c author sig \<and> bridge_validate_unsigned C call s = ValidWith call"
  using assms
  by (auto simp: submit_confirmation_def honest_service_def bridge_signed_def signature_is_valid_def
      split: option.splits)

lemma submit_corroboration_valid:
  assumes "submit_corroboration C S i ok valid author n s = Inr (Some call)" "honest_service C S author s"
  shows "\<exists>sig. call = AddCorroboration i ok valid author n sig \<and>
    bridge_validate_unsigned C call s = ValidWith call"
  using assms
  by (auto simp: submit_corroboration_def honest_service_def bridge_signed_def signature_is_valid_def
      split: option.splits)

lemma submit_eth_tx_hash_valid:
  assumes "submit_eth_tx_hash C S i h author s = Inr (Some call)" "honest_service C S author s"
  shows "\<exists>sig. call = AddEthTxHash i h author sig \<and> bridge_validate_unsigned C call s = ValidWith call"
  using assms
  by (auto simp: submit_eth_tx_hash_def honest_service_def bridge_signed_def signature_is_valid_def
      split: option.splits)

lemma signed_hash_verifies:
  "sign_msg_hash S author h = Some c \<Longrightarrow> honest_service C S author s \<Longrightarrow>
     verify_eth_signature C h author c s = Inr ()"
  by (fastforce simp: honest_service_def verify_eth_signature_def eth_signature_is_valid_def)

lemma process_active_tx_request_valid:
  assumes "process_active_tx_request C S author tx self enough s = Inr (Some call)"
    "honest_service C S author s"
  shows "bridge_validate_unsigned C call s = ValidWith call"
  using assms submit_eth_tx_hash_valid [OF _ assms(2)] submit_corroboration_valid [OF _ assms(2)]
  by (fastforce simp: process_active_tx_request_def Let_def split: if_splits option.splits)

text \<open>A confirmation of the worker is for the active request, by someone who did not send it.\<close>

lemma worker_confirms:
  assumes "process_active_request C S author fin s = Inr (Some (AddConfirmation i c who sig))"
  shows "\<exists>r. active_request s = Some r \<and> is_active_request i s \<and> who = author \<and>
    \<not> has_enough_confirmations r s \<and> \<not> sent_by author r \<and>
    sign_msg_hash S author (msg_hash (active_conf r)) = Some c \<and> c \<notin> set (confirmations (active_conf r))"
proof -
  obtain r where r: "active_request s = Some r" "\<not> fin < last_updated r"
    using assms by (auto simp: process_active_request_def split: option.splits if_splits)
  show ?thesis
  proof (cases "active_req r")
    case (LowerProof req)
    then show ?thesis
      using assms r
      by (auto simp: process_active_request_def submit_confirmation_def is_active_request_def sent_by_def
          split: if_splits option.splits)
  next
    case (Send req)
    then obtain d where d: "active_tx_data r = Some d"
      using assms r by (cases "active_tx_data r") (auto simp: process_active_request_def as_active_tx_def)
    have "process_active_tx_request C S author tx self enough s \<noteq> Inr (Some (AddConfirmation i c who sig))"
      for tx self enough
      by (auto simp: process_active_tx_request_def submit_eth_tx_hash_def submit_corroboration_def Let_def
          split: option.splits)
    then show ?thesis
      using assms r Send d
      by (auto simp: process_active_request_def as_active_tx_def submit_confirmation_def
          is_active_request_def sent_by_def Let_def split: if_splits option.splits)
  qed
qed

lemma process_active_request_valid:
  assumes "process_active_request C S author fin s = Inr (Some call)" "honest_service C S author s"
  shows "bridge_validate_unsigned C call s = ValidWith call"
  using assms submit_confirmation_valid [OF _ assms(2)] process_active_tx_request_valid [OF _ assms(2)]
  by (fastforce simp: process_active_request_def Let_def split: if_splits option.splits request.splits)

end
