(* ===== verification/Eth_Demo.thy ===== *)
theory Eth_Demo
  imports Eth_Bridge
begin

text \<open>
  A small chain on which the properties of the bridge are applied: one instance and four
  validators, whose account, key and Ethereum key are the same number. A confirmation is the
  number of the validator followed by a number chosen when signing: as with ECDSA, there are
  many signatures of one message by one key. The other pallets accept everything.
\<close>

definition small_config :: "unit bridge_config" where
  "small_config = \<lparr>process_result = (\<lambda>_ _ _ w. (True, w)),
     process_lower_proof_result = (\<lambda>_ _ _ w. (True, w)),
     on_incoming_event_processed = (\<lambda>_ w. (None, w)),
     max_queued_tx_requests = 100, min_eth_block_confirmation = 20,
     processed_events_handler = [Lifted], eip712_hash = (\<lambda>_ _. 7), instance_hash = (\<lambda>_. 5),
     recover_ecdsa_key = (\<lambda>c _. if c = [] then None else Some (hd c)),
     validator_for_eth_public_key = Some, verify_key = (\<lambda>k _ sig. sig = k),
     validator_id_of = Some, full_identification_of = Some,
     is_known_offence = (\<lambda>_ _ _. False), report_offence = (\<lambda>_ _ w. w), current_session = (\<lambda>_. 0)\<rparr>"

definition validator_no :: "nat \<Rightarrow> validator" where
  "validator_no n = \<lparr>v_account = n, v_key = n\<rparr>"

definition small_avn :: avn where
  "small_avn = \<lparr>avn_validators = map validator_no [1, 2, 3, 4], primary_collator_index = 0,
     bridge_contract_address = 9\<rparr>"

definition small_instance :: eth_bridge_instance where
  "small_instance = \<lparr>network = Sepolia, bridge_contract = 9, instance_name = [65], instance_version = [49],
     salt = None\<rparr>"

end
