(* ===== verification/Eth_Properties.thy ===== *)
theory Eth_Properties
  imports Eth_Bridge_Worker Eth_Demo
begin

text \<open>
  The properties of the bridge, of the messages it has signed and of the events it reads,
  with a small bridge on which they are applied.
\<close>

section \<open>A small bridge\<close>

definition small_start :: "unit bridge" where
  "small_start = \<lparr>next_tx_id = 7, eth_tx_lifetime_secs = 60, request_queue = None,
     settled_transactions = [], active_request = None, active_ethereum_range = None,
     ethereum_events = [], submitted_eth_blocks = [], eth_block_range_size = 20,
     processed_ethereum_events = [], additional_ethereum_events_queue = [],
     the_instance = small_instance, bridge_avn = small_avn, bridge_block = 0, bridge_time = 0,
     bridge_world = (), notified = [], deposited = []\<rparr>"

definition root_request :: send_request_data where
  "root_request = \<lparr>tx_id = 7, function_name = name_as_bytes PublishRoot,
     send_params = [(ascii ''bytes32'', replicate 32 9)], send_caller_id = [83]\<rparr>"

definition published :: "unit bridge" where
  "published = small_start\<lparr>next_tx_id := 8, bridge_avn := small_avn\<lparr>primary_collator_index := 1\<rparr>,
     active_request := Some
       \<lparr>active_req = Send root_request, active_conf = \<lparr>msg_hash = 7, confirmations = []\<rparr>,
        active_tx_data = Some
          \<lparr>eth_function_name = name_as_bytes PublishRoot,
           eth_tx_params = [(ascii ''bytes32'', replicate 32 9), (UINT256, [54, 48]), (UINT32, [55])],
           eth_sender = 2, eth_expiry = 60, eth_tx_hash = 0,
           success_corroborations = [], failure_corroborations = [],
           valid_tx_hash_corroborations = [], invalid_tx_hash_corroborations = [],
           tx_succeeded = False, replay_attempt = 0\<rparr>,
        last_updated = 0\<rparr>,
     deposited := [PublishToEthereum 7 (name_as_bytes PublishRoot) [(ascii ''bytes32'', replicate 32 9)] [83]]\<rparr>"

lemma small_start_reachable: "bridge_reachable small_config small_start"
  by (rule bridge_reachable.start [of 60 7 20 small_instance small_avn "()"])
    (simp add: bridge_genesis_def small_start_def)

definition publish_root_action :: "unit bridge_action" where
  "publish_root_action = Publish (name_as_bytes PublishRoot) [(ascii ''bytes32'', replicate 32 9)] [83]"

lemmas small_defs = small_config_def small_start_def small_avn_def small_instance_def validator_no_def

lemma decimals: "decimal 60 = [54, 48]" "decimal 7 = [55]"
  by (simp_all add: decimal.simps [of 60] decimal.simps [of 6] decimal.simps [of 7])

lemma publish_root_method: "method_try_from (ascii ''publishRoot'') = Some PublishRoot"
  using method_round_trip [of PublishRoot] by simp

lemma root_hash:
  "confirmation_struct (ascii ''publishRoot'')
     [(ascii ''bytes32'', replicate 32 9), (UINT256, [54, 48]), (UINT32, [55])] =
   Inr (SolPublishRoot (from_be_bytes (replicate 32 9)) 60 7)"
  using extract_appended [of 60 7 "[(ascii ''bytes32'', replicate 32 9)]" UINT256 UINT32]
  by (simp add: confirmation_struct_def publish_root_method word_from_slice_def decimals u64_max_def u32_max_def)

lemma bound_each_id: "bound_each ps = Inr qs \<Longrightarrow> qs = ps"
  by (induction ps arbitrary: qs rule: bound_each.induct) (auto split: if_splits)

lemma bound_params_id: "bound_params ps = Inr qs \<Longrightarrow> qs = ps \<and> length ps \<le> ParamsLimit"
  by (auto simp: bound_params_def dest: bound_each_id split: if_splits)

lemma root_request_set_up:
  "set_up_active_tx small_config root_request None (small_start\<lparr>next_tx_id := 8\<rparr>) = Inr (published\<lparr>deposited := []\<rparr>)"
proof -
  have "extend_params root_request 60 =
      Inr [(ascii ''bytes32'', replicate 32 9), (UINT256, [54, 48]), (UINT32, [55])]"
    by (simp add: extend_params_def root_request_def bound_params_def decimals TypeLimit_def ValueLimit_def
        ParamsLimit_def ascii_def UINT256_def UINT32_def)
  moreover have "advance_primary_validator_for_sending small_avn = Inr (2, small_avn\<lparr>primary_collator_index := 1\<rparr>)"
    by (simp add: advance_primary_validator_for_sending_def small_avn_def validator_no_def)
  ultimately show ?thesis
    using root_hash
    by (simp add: set_up_active_tx_def assign_sender_def create_function_confirmation_hash_def published_def
        small_config_def small_start_def wrapping_add64_def root_request_def)
qed

lemma published_eq: "bridge_do small_config publish_root_action small_start = published"
proof -
  have "utf8_valid (ascii ''publishRoot'')" "length (ascii ''publishRoot'') = 11"
    by (simp_all add: ascii_def)
  moreover have "bound_params [(ascii ''bytes32'', replicate 32 9)] = Inr [(ascii ''bytes32'', replicate 32 9)]"
    by (simp add: bound_params_def TypeLimit_def ValueLimit_def ParamsLimit_def ascii_def)
  ultimately show ?thesis
    using root_request_set_up
    by (simp add: publish_root_action_def publish_def add_new_send_request_def use_next_tx_id_def
        small_start_def root_request_def published_def wrapping_add32_def FunctionLimit_def CallerIdLimit_def
        bridge_event_deposit_def ascii_def)
qed

lemma published_reachable: "bridge_reachable small_config published"
  using bridge_reachable.step [OF small_start_reachable, of publish_root_action] by (simp add: published_eq)

section \<open>Requests\<close>

text \<open>C28: The bridge is a queue: over any run, the requests it has announced to the other pallets
  are, in their order, those it has answered, then the one in hand, then those that wait. So no
  accepted request is lost, answered twice, or overtaken by a later one.\<close>

theorem bridge_is_a_queue:
  assumes "bridge_reachable C s"
  shows "asked s = answered s @ in_hand s @ waiting s"
  using bridge_reachable_fifo [OF assms] by (simp add: fifo_def)

theorem bridge_is_a_queue_witness:
  "asked published = [(True, 7, [83])] \<and> asked published = answered published @ in_hand published @ waiting published"
proof -
  have "asked published = [(True, 7, [83])]"
    by (simp add: asked_def published_def map_filter_single)
  then show ?thesis
    using bridge_is_a_queue [OF published_reachable] by simp
qed

text \<open>C29: The bridge reports a success only when it is decided: a step that reports one is the
  report of a validator that, with the reports already in, makes a quorum of pairwise different
  accounts, none of which is the sender of the transaction.\<close>

theorem success_needs_quorum:
  assumes "bridge_reachable C s" "successes (bridge_do C act s) \<noteq> successes s"
  shows "\<exists>author result. successes (bridge_do C act s) = successes s @ [result] \<and>
    is_validator (bridge_validators s) (v_account author) \<and> decided_by s result author"
  using bridge_do_respects [OF bridge_reachable_respects [OF assms(1)], of C act] assms(2)
  by (auto simp: vote_step_def bridge_signed_def signature_is_valid_def split: if_splits)

definition report_success :: "unit bridge_action" where
  "report_success = SubmitUnsigned (AddCorroboration 7 True False (validator_no 3) 0 3)"

lemma reported_success: "successes (bridge_do small_config report_success published) = [(7, [83])]"
  by (simp add: report_success_def kept_or_def bridge_signed_def signature_is_valid_def is_validator_def
      bridge_validators_def published_def small_defs add_corroboration_def is_active_request_def root_request_def
      requires_corroboration_def record_corroboration_def try_push_def MAX_CONFIRMATIONS_def
      has_enough_corroborations_def matching_corroborations_def quorum_exact as_active_tx_def finalize_state_def
      complete_transaction_def notify_result_def report_dissent_def process_next_request.simps
      dequeue_request_def successes_def List.map_filter_def wrapping_sub32_def)

theorem success_needs_quorum_witness:
  "\<exists>author. is_validator (bridge_validators published) (v_account author) \<and> decided_by published (7, [83]) author"
proof -
  have none: "successes published = []"
    by (simp add: successes_def published_def small_start_def List.map_filter_def)
  then have "successes (bridge_do small_config report_success published) \<noteq> successes published"
    by (simp add: reported_success)
  from success_needs_quorum [OF published_reachable this] show ?thesis
    by (auto simp: reported_success none)
qed

text \<open>C31: The hash the validators sign for a root is the hash of exactly what was asked for: the
  root, the expiry computed when the request became active, and the identifier of the request,
  which go through decimal text and back.\<close>

theorem root_hash_commits:
  assumes "set_up_active_tx C req m s = Inr s'"
    and "function_name req = name_as_bytes PublishRoot" "send_params req = [(t, root)]"
    and "tx_id req \<le> u32_max"
  shows "\<exists>r. active_request s' = Some r \<and> msg_hash (active_conf r) =
    eip712_hash C (SolPublishRoot (from_be_bytes root)
      (wrapping_add64 (bridge_time s) (eth_tx_lifetime_secs s)) (tx_id req)) (into_domain (the_instance s))"
proof -
  let ?e = "wrapping_add64 (bridge_time s) (eth_tx_lifetime_secs s)"
  let ?ps = "[(t, root), (UINT256, decimal ?e), (UINT32, decimal (tx_id req))]"
  obtain ps where ps: "extend_params req ?e = Inr ps"
    using assms(1) by (auto simp: set_up_active_tx_def Let_def)
  then have ps_eq: "ps = ?ps"
    using assms(3) bound_params_id by (fastforce simp: extend_params_def)
  have "?e \<le> u64_max"
    by (simp add: wrapping_add64_def u64_max_def less_Suc_eq_le [symmetric])
  then have "extract_tx_id_and_expiry ?ps = Inr (tx_id req, ?e)"
    using extract_appended [of ?e "tx_id req" "[(t, root)]" UINT256 UINT32] assms(4) by simp
  moreover have "method_try_from (function_name req) = Some PublishRoot"
    using method_round_trip [of PublishRoot] assms(2) by simp
  ultimately show ?thesis
    using assms(1) ps ps_eq
    by (auto simp: set_up_active_tx_def Let_def create_function_confirmation_hash_def
        confirmation_struct_def word_from_slice_def assign_sender_def split: if_splits)
qed

theorem root_hash_commits_witness:
  "\<exists>r. active_request published = Some r \<and> msg_hash (active_conf r) =
     eip712_hash small_config (SolPublishRoot (from_be_bytes (replicate 32 9)) 60 7) (into_domain small_instance)"
proof -
  have "function_name root_request = name_as_bytes PublishRoot"
    "send_params root_request = [(ascii ''bytes32'', replicate 32 9)]" "tx_id root_request \<le> u32_max"
    "bridge_time (small_start\<lparr>next_tx_id := 8\<rparr>) = 0" "eth_tx_lifetime_secs (small_start\<lparr>next_tx_id := 8\<rparr>) = 60"
    "the_instance (small_start\<lparr>next_tx_id := 8\<rparr>) = small_instance" "tx_id root_request = 7"
    by (simp_all add: root_request_def u32_max_def small_start_def)
  then show ?thesis
    using root_hash_commits [OF root_request_set_up, of "ascii ''bytes32''" "replicate 32 9"]
    by (simp add: wrapping_add64_def)
qed

text \<open>C32: A confirmation the worker of a validator submits is one the pallet takes: it passes the
  check of the transaction pool, and the call adds it to the confirmations of the transaction
  in hand. The hypotheses are that the validator's service signs with its registered keys and
  that the vector of confirmations has room.\<close>

theorem worker_confirmation_counts:
  assumes "process_active_request C S author fin s = Inr (Some (AddConfirmation i c who sig))"
    and "honest_service C S author s"
    and "active_request s = Some r" "active_req r = Send req"
    and "length (confirmations (active_conf r)) < MAX_CONFIRMATIONS"
  shows "bridge_validate_unsigned C (AddConfirmation i c who sig) s = ValidWith (AddConfirmation i c who sig) \<and>
    (\<exists>s' r'. bridge_dispatch C Unsigned (AddConfirmation i c who sig) s = Inr s' \<and> active_request s' = Some r' \<and>
       confirmations (active_conf r') = confirmations (active_conf r) @ [c])"
proof -
  have w: "is_active_request i s" "who = author" "\<not> has_enough_confirmations r s" "\<not> sent_by author r"
    "sign_msg_hash S author (msg_hash (active_conf r)) = Some c" "c \<notin> set (confirmations (active_conf r))"
    using worker_confirms [OF assms(1)] assms(3) by auto
  have "bridge_dispatch C Unsigned (AddConfirmation i c who sig) s = Inr (save_active_request_to_storage
      (r\<lparr>active_conf := (active_conf r)\<lparr>confirmations := confirmations (active_conf r) @ [c]\<rparr>\<rparr>) s)"
    using w assms(3-5) signed_hash_verifies [OF w(5) assms(2)]
    by (simp add: add_confirmation_def try_push_def)
  then show ?thesis
    using process_active_request_valid [OF assms(1,2)] by (simp add: save_active_request_to_storage_def)
qed

definition small_service :: bridge_service where
  "small_service = \<lparr>encode_input = (\<lambda>_ _ _. None), sign_msg_hash = (\<lambda>v _. Some [v_account v, 0]),
     send_transaction = (\<lambda>_ _. None), call_corroborate_method = (\<lambda>_ _. None),
     get_transaction_call_data = (\<lambda>_ _. None), sign_payload = (\<lambda>v _. Some (v_key v)),
     send_lock_free = (\<lambda>_. True)\<rparr>"

text \<open>With seven validators a transaction needs two confirmations besides its sender.\<close>

definition seven :: "unit bridge" where
  "seven = published\<lparr>bridge_avn := small_avn\<lparr>avn_validators := map validator_no [1, 2, 3, 4, 5, 6, 7],
     primary_collator_index := 1\<rparr>\<rparr>"

lemma seven_facts:
  "\<not> has_enough_confirmations (the (active_request seven)) seven"
  "is_validator (bridge_validators seven) 3"
  by (simp_all add: seven_def has_enough_confirmations_def has_sender_and_confirmations_def get_quorum_def
      bridge_validators_def quorum_exact published_def wrapping_add32_def is_validator_def validator_no_def)

theorem worker_confirmation_counts_witness:
  "\<exists>s' r'. bridge_dispatch small_config Unsigned (AddConfirmation 7 [3, 0] (validator_no 3) 3) seven = Inr s' \<and>
     active_request s' = Some r' \<and> confirmations (active_conf r') = [[3, 0]]"
proof -
  obtain r where r: "active_request seven = Some r" "active_req r = Send root_request"
    "confirmations (active_conf r) = []" "last_updated r = 0"
    and enough: "\<not> has_enough_confirmations r seven"
    and d: "\<exists>d. active_tx_data r = Some d \<and> eth_sender d = 2"
    using seven_facts(1) by (auto simp: seven_def published_def)
  have "process_active_request small_config small_service (validator_no 3) 0 seven =
      Inr (Some (AddConfirmation 7 [3, 0] (validator_no 3) 3))"
    using r enough d
    by (auto simp: process_active_request_def as_active_tx_def small_service_def submit_confirmation_def
        validator_no_def root_request_def)
  moreover have "honest_service small_config small_service (validator_no 3) seven"
    using seven_facts(2) by (simp add: honest_service_def small_service_def small_config_def validator_no_def)
  ultimately show ?thesis
    using worker_confirmation_counts [OF _ _ r(1,2)] r(3) by (simp add: MAX_CONFIRMATIONS_def)
qed

lemma confirmation_added:
  assumes "active_request s = Some r" "active_req r = Send req" "\<not> sent_by author r"
    and "eth_signature_is_valid C (msg_hash (active_conf r)) author c s" "c \<notin> set (confirmations (active_conf r))"
    and "length (confirmations (active_conf r)) < MAX_CONFIRMATIONS"
    "Suc (length (confirmations (active_conf r))) < get_quorum (bridge_validators s)"
  shows "add_confirmation C Unsigned (tx_id req) c author s = Inr (save_active_request_to_storage
    (r\<lparr>active_conf := (active_conf r)\<lparr>confirmations := confirmations (active_conf r) @ [c]\<rparr>\<rparr>) s)"
proof -
  have "\<not> has_enough_confirmations r s"
    using assms(2,6,7) by (simp add: has_enough_confirmations_def has_sender_and_confirmations_def
        wrapping_add32_def MAX_CONFIRMATIONS_def)
  then show ?thesis
    using assms by (simp add: add_confirmation_def is_active_request_def verify_eth_signature_def try_push_def)
qed

lemma confirmations_added:
  assumes "active_request s = Some r" "active_req r = Send req" "\<not> sent_by author r"
    and "\<forall>c\<in>set cs. eth_signature_is_valid C (msg_hash (active_conf r)) author c s"
    and "distinct (confirmations (active_conf r) @ cs)"
    and "length (confirmations (active_conf r)) + length cs \<le> MAX_CONFIRMATIONS"
    "length (confirmations (active_conf r)) + length cs < get_quorum (bridge_validators s)"
  shows "\<exists>s' r'. try_fold (\<lambda>c. add_confirmation C Unsigned (tx_id req) c author) cs s = Inr s' \<and>
    active_request s' = Some r' \<and> active_req r' = Send req \<and>
    confirmations (active_conf r') = confirmations (active_conf r) @ cs \<and>
    bridge_validators s' = bridge_validators s"
  using assms
proof (induction cs arbitrary: s r)
  case (Cons c cs)
  let ?r = "r\<lparr>active_conf := (active_conf r)\<lparr>confirmations := confirmations (active_conf r) @ [c]\<rparr>\<rparr>"
  let ?s = "save_active_request_to_storage ?r s"
  have added: "add_confirmation C Unsigned (tx_id req) c author s = Inr ?s"
    using Cons.prems by (intro confirmation_added) auto
  have act: "active_request ?s = Some (?r\<lparr>last_updated := bridge_block s\<rparr>)" "bridge_validators ?s = bridge_validators s"
    by (simp_all add: save_active_request_to_storage_def bridge_validators_def)
  have "\<exists>s' r'. try_fold (\<lambda>c. add_confirmation C Unsigned (tx_id req) c author) cs ?s = Inr s' \<and>
      active_request s' = Some r' \<and> active_req r' = Send req \<and>
      confirmations (active_conf r') = confirmations (active_conf (?r\<lparr>last_updated := bridge_block s\<rparr>)) @ cs \<and>
      bridge_validators s' = bridge_validators ?s"
    using Cons.prems by (intro Cons.IH [OF act(1)]) (auto simp: act(2) sent_by_def eth_signature_is_valid_def)
  then show ?case
    using added act(2) by simp
qed simp

text \<open>C36: The bridge counts signatures, not signers, so one validator alone can bring a transaction
  to the confirmations it needs. Let \<open>cs\<close> be different signatures that all recover to the key of
  one validator, of which ECDSA has many, and none of them stored yet. If they are as many as the
  request in hand is short of its quorum, and the validator is not its sender, then submitting them
  one after the other is accepted each time and the request has enough confirmations.\<close>

theorem one_author_confirms_alone:
  assumes "active_request s = Some r" "active_req r = Send req" "\<not> sent_by author r"
    and "\<forall>c\<in>set cs. eth_signature_is_valid C (msg_hash (active_conf r)) author c s"
    and "distinct (confirmations (active_conf r) @ cs)"
    and "length (confirmations (active_conf r)) + length cs + 1 = get_quorum (bridge_validators s)"
    and "length (bridge_validators s) \<le> MaximumValidatorsBound"
  shows "\<exists>s' r'. try_fold (\<lambda>c. add_confirmation C Unsigned (tx_id req) c author) cs s = Inr s' \<and>
    active_request s' = Some r' \<and> confirmations (active_conf r') = confirmations (active_conf r) @ cs \<and>
    has_enough_confirmations r' s'"
proof -
  have few: "length (confirmations (active_conf r)) + length cs \<le> MAX_CONFIRMATIONS"
    using assms(6,7) by (simp add: get_quorum_def quorum_exact MaximumValidatorsBound_def MAX_CONFIRMATIONS_def)
  then obtain s' r' where s': "try_fold (\<lambda>c. add_confirmation C Unsigned (tx_id req) c author) cs s = Inr s'"
    "active_request s' = Some r'" "active_req r' = Send req"
    "confirmations (active_conf r') = confirmations (active_conf r) @ cs" "bridge_validators s' = bridge_validators s"
    using confirmations_added [OF assms(1-5)] assms(6) by auto
  then have "has_enough_confirmations r' s'"
    using assms(6) few by (simp add: has_enough_confirmations_def has_sender_and_confirmations_def
        wrapping_add32_def MAX_CONFIRMATIONS_def)
  then show ?thesis
    using s' by blast
qed

theorem one_author_confirms_alone_witness:
  "\<exists>s' r'. try_fold (\<lambda>c. add_confirmation small_config Unsigned 7 c (validator_no 3)) [[3, 0], [3, 1]] seven = Inr s' \<and>
     active_request s' = Some r' \<and> confirmations (active_conf r') = [[3, 0], [3, 1]] \<and> has_enough_confirmations r' s'"
proof -
  obtain r where r: "active_request seven = Some r" "active_req r = Send root_request"
    "confirmations (active_conf r) = []" "\<not> sent_by (validator_no 3) r"
    by (simp add: seven_def published_def sent_by_def validator_no_def)
  moreover have "eth_signature_is_valid small_config h (validator_no 3) [3, n] seven" for h n
    using seven_facts(2) by (simp add: eth_signature_is_valid_def small_config_def validator_no_def)
  moreover have "get_quorum (bridge_validators seven) = 3" "length (bridge_validators seven) \<le> MaximumValidatorsBound"
    by (simp_all add: seven_def get_quorum_def bridge_validators_def quorum_exact MaximumValidatorsBound_def)
  ultimately show ?thesis
    using one_author_confirms_alone [OF r(1,2,4), of "[[3, 0], [3, 1]]" small_config] by (simp add: root_request_def)
qed

text \<open>C40: A lower proof needs the confirmations of two thirds of the validators, but a request
  holds at most 100: with 152 validators or more no confirmation ever completes one, although
  the chain allows 256 validators.\<close>

theorem lower_proof_never_complete:
  assumes "active_request s = Some r" "active_req r = LowerProof req"
    and "152 \<le> length (bridge_validators s)" "length (bridge_validators s) \<le> MaximumValidatorsBound"
    and "add_confirmation C Unsigned i c author s = Inr s'"
  shows "answered s' = answered s"
proof -
  have sup: "100 < get_supermajority_quorum (bridge_validators s)"
    using assms(3,4) by (simp add: get_supermajority_quorum_def quorum_exact MaximumValidatorsBound_def)
  have "\<not> has_enough_confirmations (r\<lparr>active_conf := a\<rparr>) s" if "length (confirmations a) \<le> MAX_CONFIRMATIONS" for a
    using sup that assms(2)
    by (simp add: has_enough_confirmations_def has_supermajority_confirmations_def MAX_CONFIRMATIONS_def)
  then have "same_queue s s'"
    using assms(1,2,5)
    by (auto simp: add_confirmation_def Let_def try_push_def split: if_splits
        intro!: save_same_queue [OF assms(1)])
  then show ?thesis
    by (simp add: same_queue_def)
qed

definition crowded :: "unit bridge" where
  "crowded = small_start\<lparr>bridge_avn := \<lparr>avn_validators = replicate 152 (validator_no 3),
     primary_collator_index = 0, bridge_contract_address = 9\<rparr>,
     active_request := Some
       \<lparr>active_req = LowerProof \<lparr>lower_id = 4, proof_params = [], proof_caller_id = []\<rparr>,
        active_conf = \<lparr>msg_hash = 7, confirmations = map (\<lambda>n. [3, n]) [0..<99]\<rparr>,
        active_tx_data = None, last_updated = 0\<rparr>\<rparr>"

lemma crowded_confirmed: "is_ok (add_confirmation small_config Unsigned 4 [3, 99] (validator_no 3) crowded)"
proof -
  have v: "bridge_validators crowded = replicate 152 (validator_no 3)"
    by (simp add: crowded_def bridge_validators_def)
  have few: "\<not> has_enough_confirmations \<lparr>active_req = LowerProof req, active_conf = a, active_tx_data = t, last_updated = u\<rparr>
      crowded" if "length (confirmations a) \<le> 100" for req a t u
    using that by (simp add: has_enough_confirmations_def has_supermajority_confirmations_def v
        get_supermajority_quorum_def quorum_exact)
  have valid: "eth_signature_is_valid small_config h (validator_no 3) [3, 99] crowded" for h
    by (simp add: eth_signature_is_valid_def v is_validator_def small_config_def validator_no_def list_ex_iff)
  have act: "active_request crowded = Some
       \<lparr>active_req = LowerProof \<lparr>lower_id = 4, proof_params = [], proof_caller_id = []\<rparr>,
        active_conf = \<lparr>msg_hash = 7, confirmations = map (\<lambda>n. [3, n]) [0..<99]\<rparr>,
        active_tx_data = None, last_updated = 0\<rparr>"
    by (simp add: crowded_def del: upt_eq_Cons_conv)
  show ?thesis
    unfolding add_confirmation_def act
    by (simp add: is_active_request_def act few valid verify_eth_signature_def sent_by_def try_push_def
        MAX_CONFIRMATIONS_def image_iff del: upt_rec_numeral)
qed

theorem lower_proof_never_complete_witness:
  "\<exists>s'. add_confirmation small_config Unsigned 4 [3, 99] (validator_no 3) crowded = Inr s' \<and>
     answered s' = answered crowded"
proof -
  obtain s' where s': "add_confirmation small_config Unsigned 4 [3, 99] (validator_no 3) crowded = Inr s'"
    using crowded_confirmed by (auto simp: is_ok_iff)
  obtain r req where "active_request crowded = Some r" "active_req r = LowerProof req"
    by (simp add: crowded_def)
  then show ?thesis
    using lower_proof_never_complete [OF _ _ _ _ s'] s'
    by (simp add: crowded_def bridge_validators_def MaximumValidatorsBound_def)
qed

section \<open>Events\<close>

text \<open>C30: Over any run, a transaction of Ethereum is handed to the pallets at most once, whatever
  ranges, partitions and additional transactions the validators vote for, and also when the
  instance of the bridge is changed.\<close>

theorem events_handed_over_once:
  assumes "bridge_reachable C s"
  shows "distinct (handed_over s)"
  using bridge_reachable_respects [OF assms] by (simp add: votes_respected_def once_def)

definition lift_event :: eth_event where
  "lift_event = \<lparr>event_id = \<lparr>id_signature = event_signature Lifted, transaction_hash = 77\<rparr>,
     event_data_of = LogLifted (new_lifted_data 5 6 7)\<rparr>"

definition two_lifts :: events_partition where
  "two_lifts = \<lparr>part_range = \<lparr>start_block = 0, range_length = 20\<rparr>, part_index = 0, part_is_last = True,
     part_events = [\<lparr>discovered = lift_event, in_block = 3\<rparr>, \<lparr>discovered = lift_event, in_block = 4\<rparr>]\<rparr>"

definition block_vote :: "nat \<Rightarrow> unit bridge_action" where
  "block_vote n = SubmitUnsigned (SubmitLatestEthereumBlock (validator_no n) 0 n)"

definition events_vote :: "nat \<Rightarrow> unit bridge_action" where
  "events_vote n = SubmitUnsigned (SubmitEthereumEvents (validator_no n) two_lifts n)"

definition after_votes :: "unit bridge" where
  "after_votes = fold (bridge_do small_config) [block_vote 2, block_vote 3, events_vote 2, events_vote 3] small_start"

lemma after_votes_reachable: "bridge_reachable small_config after_votes"
  unfolding after_votes_def by (simp add: bridge_reachable.step small_start_reachable)

definition four :: "validator list" where
  "four = map validator_no [1, 2, 3, 4]"

lemma four_facts:
  "get_quorum four = 2" "get_supermajority_quorum four = 2" "is_validator four 2" "is_validator four 3"
  by (simp_all add: four_def get_quorum_def get_supermajority_quorum_def quorum_exact is_validator_def
      validator_no_def)

lemma small_fields:
  "active_ethereum_range small_start = None" "submitted_eth_blocks small_start = []"
  "ethereum_events small_start = []" "instance_is_valid (the_instance small_start)"
  "network (the_instance small_start) = Sepolia" "bridge_avn small_start = small_avn"
  "avn_validators small_avn = four" "eth_block_range_size small_start = 20"
  "additional_ethereum_events_queue small_start = []" "processed_ethereum_events small_start = []"
  "notified small_start = []" "processed_events_handler small_config = [Lifted]"
  "verify_key small_config k d sig = (sig = k)" "on_incoming_event_processed small_config e w = (None, w)"
  by (simp_all add: small_start_def small_config_def small_instance_def small_avn_def four_def
      instance_is_valid_def)

lemmas vote_calls = kept_or_def bridge_signed_def signature_is_valid_def bridge_validators_def four_facts
  small_fields set_try_insert_def votes_on_def MaximumValidatorsBound_def

definition small_range :: active_eth_range where
  "small_range = \<lparr>ar_range = \<lparr>start_block = 0, range_length = 20\<rparr>, ar_partition = 0,
     event_types_filter = [Lifted], additional_transactions = []\<rparr>"

lemma block_vote_2:
  "bridge_do small_config (block_vote 2) small_start = small_start\<lparr>submitted_eth_blocks := [(0, [2])]\<rparr>"
  by (simp add: block_vote_def vote_calls submit_latest_ethereum_block_def validator_no_def Let_def
      author_has_submitted_latest_block_def compute_start_block_from_finalised_block_number_def)

lemma block_vote_3:
  "bridge_do small_config (block_vote 3) (small_start\<lparr>submitted_eth_blocks := [(0, [2])]\<rparr>) =
     small_start\<lparr>active_ethereum_range := Some small_range\<rparr>"
  by (simp add: block_vote_def vote_calls submit_latest_ethereum_block_def validator_no_def Let_def
      author_has_submitted_latest_block_def compute_start_block_from_finalised_block_number_def
      small_range_def)

lemma events_vote_2:
  "bridge_do small_config (events_vote 2) (small_start\<lparr>active_ethereum_range := Some small_range\<rparr>) =
     small_start\<lparr>active_ethereum_range := Some small_range, ethereum_events := [(two_lifts, [2])]\<rparr>"
  by (simp add: events_vote_def vote_calls submit_ethereum_events_def validator_no_def small_range_def
      author_has_cast_event_vote_def does_range_matches_active_def two_lifts_def)

lemma two_lifts_handed_over:
  assumes "processed_ethereum_events s = []" "notified s = []" "the_instance s = the_instance small_start"
  shows "handed_over (fold (process_discovered_event small_config Sepolia small_range) (part_events two_lifts) s) = [77]"
proof -
  have sig: "valid_event_try_from (event_signature Lifted) = Inr Lifted"
    using valid_event_round_trip by simp
  have leg: "\<not> List.member LEGACY_LIFT_SIGNATURE (event_signature Lifted)"
    by (simp add: LEGACY_LIFT_SIGNATURE_def)
  show ?thesis
    using sig leg assms
    by (simp add: two_lifts_def process_discovered_event_def lift_event_def small_range_def small_fields
        end_block_def sat_add32_def u32_max_def process_ethereum_event_def network_processed_event_exists_def
        processed_event_exists_def network_add_processed_event_def add_processed_event_def Let_def
        ethereum_event_has_already_been_accepted_def notify_event_def bridge_event_deposit_def
        handed_over_def map_filter_single del: event_signature.simps)
qed

lemma handed_over_frame:
  "handed_over (s\<lparr>ethereum_events := m\<rparr>) = handed_over s"
  "handed_over (advance_partition C rng part s) = handed_over s"
  by (simp_all add: handed_over_def advance_partition_def)

lemma process_ethereum_event_keeps_votes:
  "process_ethereum_event C net ev s = Inr s' \<Longrightarrow> ethereum_events s' = ethereum_events s"
  by (drule process_ethereum_event_effect) (auto simp: bridge_event_deposit_def notify_event_def split_beta)

lemma discovered_keeps_votes: "ethereum_events (process_discovered_event C net rng e s) = ethereum_events s"
  by (auto simp: process_discovered_event_def bridge_event_deposit_def split: sum.splits
      dest: process_ethereum_event_keeps_votes)

lemma fold_discovered_keeps_votes:
  "ethereum_events (fold (process_discovered_event C net rng) es s) = ethereum_events s"
  by (induction es arbitrary: s) (simp_all add: discovered_keeps_votes)

lemma handed_over_after_votes: "handed_over after_votes = [77]"
proof -
  let ?s = "small_start\<lparr>active_ethereum_range := Some small_range, ethereum_events := [(two_lifts, [2])]\<rparr>"
  let ?s1 = "?s\<lparr>ethereum_events := []\<rparr>"
  let ?s2 = "fold (process_discovered_event small_config Sepolia small_range) (part_events two_lifts) ?s1"
  have range: "part_range two_lifts = ar_range small_range" "part_index two_lifts = ar_partition small_range"
    by (simp_all add: two_lifts_def small_range_def)
  have "ethereum_events ?s2 = []"
    by (simp add: fold_discovered_keeps_votes)
  then have "handed_over (bridge_do small_config (events_vote 3) ?s) = handed_over ?s2"
    by (simp add: events_vote_def vote_calls submit_ethereum_events_def validator_no_def range
        author_has_cast_event_vote_def does_range_matches_active_def process_ethereum_events_partition_def
        alist_remove_def Let_def handed_over_frame)
  then show ?thesis
    by (simp add: after_votes_def block_vote_2 block_vote_3 events_vote_2 two_lifts_handed_over small_fields)
qed

theorem events_handed_over_once_witness: "handed_over after_votes = [77] \<and> distinct (handed_over after_votes)"
  using events_handed_over_once [OF after_votes_reachable] handed_over_after_votes by simp

text \<open>The first range of blocks starts at a block some validator submitted; enough votes are
  for it or for an earlier one that fewer than a quorum of a supermajority is left above it, and
  it is the lowest such block: the votes for earlier blocks alone would leave a quorum.\<close>

theorem first_range_chosen:
  assumes "submit_latest_ethereum_block C origin author latest s = Inr s'"
    and "active_ethereum_range s' = Some rng" "0 < get_quorum (bridge_validators s)"
  shows "\<exists>block votes. let m = alist_insert block votes (submitted_eth_blocks s); start = start_block (ar_range rng) in
    compute_start_block_from_finalised_block_number latest (eth_block_range_size s) = Inr block \<and>
    set votes = insert (v_account author) (set (votes_on block (submitted_eth_blocks s))) \<and>
    get_supermajority_quorum (bridge_validators s) \<le> sum_list (map snd (vote_counts m)) \<and>
    start \<in> fst ` set m \<and>
    get_supermajority_quorum (bridge_validators s) <
      votes_upto start (vote_counts m) + get_quorum (bridge_validators s) \<and>
    (votes_below start (vote_counts m) = 0 \<or>
     votes_below start (vote_counts m) + get_quorum (bridge_validators s)
       \<le> get_supermajority_quorum (bridge_validators s))"
  using first_range_from [OF assms] .

theorem first_range_chosen_witness:
  "\<exists>block votes. set votes = {2, 3} \<and> block = 0 \<and>
     2 < votes_upto 0 (vote_counts (alist_insert block votes [(0, [2])])) + (2::nat)"
proof -
  let ?s = "small_start\<lparr>submitted_eth_blocks := [(0, [2])]\<rparr>"
  have "submit_latest_ethereum_block small_config Unsigned (validator_no 3) 0 ?s =
      Inr (small_start\<lparr>active_ethereum_range := Some small_range\<rparr>)"
    by (simp add: vote_calls submit_latest_ethereum_block_def validator_no_def Let_def
        author_has_submitted_latest_block_def compute_start_block_from_finalised_block_number_def
        small_range_def)
  from first_range_chosen [OF this] show ?thesis
    by (auto simp: vote_calls Let_def small_range_def validator_no_def insert_commute
        compute_start_block_from_finalised_block_number_def)
qed

text \<open>C33: Cutting the events of a range into partitions loses and adds none of them; every partition
  holds at most 32 events, they are numbered in order, and exactly the last one is marked as
  the last.\<close>

theorem partitions_keep_events:
  "let ps = create_partitions r es in
     (\<Union>p\<in>set ps. set (part_events p)) = set es \<and>
     (\<forall>k<length ps. part_range (ps ! k) = r \<and> part_index (ps ! k) = k mod 2 ^ 16 \<and>
        part_is_last (ps ! k) = (Suc k = length ps) \<and> length (part_events (ps ! k)) \<le> 32)"
proof (cases "es = []")
  case True
  then show ?thesis
    by (simp add: create_partitions_def new_events_partition_def)
next
  case False
  let ?cs = "event_chunks_of es"
  have "length (collect_events (?cs ! k)) \<le> 32" if "k < length ?cs" for k
    using le_trans [OF length_collect_events] chunk_bounds [OF nth_mem [OF that]]
    by (simp add: MAX_INCOMING_EVENTS_BATCH_SIZE_def)
  moreover have "(\<Union>k<length ?cs. set (?cs ! k)) = set es"
    unfolding set_chunks [of es] by (force simp: in_set_conv_nth)
  ultimately show ?thesis
    by (auto simp: create_partitions_eq [OF False] Let_def new_events_partition_def atLeast0LessThan)
qed

definition three_events :: "discovered_event list" where
  "three_events = map (\<lambda>b. \<lparr>discovered = lift_event, in_block = b\<rparr>) [9, 4, 6]"

theorem partitions_keep_events_witness:
  "(\<Union>p\<in>set (create_partitions \<lparr>start_block = 0, range_length = 20\<rparr> three_events). set (part_events p)) =
     set three_events"
  using partitions_keep_events [of "\<lparr>start_block = 0, range_length = 20\<rparr>" three_events]
  by (simp add: Let_def)

text \<open>Reading the log of a lift gives back the token, the receiver and the amount that were
  logged, as long as the amount fits in 128 bits; a larger one is refused as an overflow.\<close>

theorem lift_log_parsed:
  assumes "token < 2 ^ 160" "receiver < 2 ^ 256" "amt < 2 ^ 256"
  shows "parse_lifted (Some (abi_word amt)) [sig, abi_word token, abi_word receiver] =
    (if amt < 2 ^ 128 then Inr (new_lifted_data token receiver amt) else Inl LiftedEventDataOverflow)"
proof -
  obtain high where high: "slice 0 HALF_WORD_LENGTH (abi_word amt) = Inr high"
    by (simp add: slice_def word_lengths)
  have "any_byte high \<longleftrightarrow> 2 ^ 128 \<le> amt"
    using any_byte_abi [OF _ _ high] assms(3) by (simp add: word_lengths)
  moreover have "x < 2 ^ (8 * n) \<Longrightarrow> from_be_bytes (to_be_bytes n x) = x" for n x
    by (simp add: from_to_be_bytes power_mult)
  then have "from_be_bytes (to_be_bytes 20 token) = token" "from_be_bytes (abi_word receiver) = receiver"
    "amt < 2 ^ 128 \<Longrightarrow> from_be_bytes (to_be_bytes 16 amt) = amt"
    using assms(1,2) by (simp_all add: abi_word_def word_lengths del: to_be_bytes.simps)
  moreover have "slice DISCARDED_ZERO_BYTES WORD_LENGTH (abi_word token) = Inr (to_be_bytes 20 token)"
    "slice HALF_WORD_LENGTH WORD_LENGTH (abi_word amt) = Inr (to_be_bytes 16 amt)"
    using slice_abi [of DISCARDED_ZERO_BYTES token] slice_abi [of HALF_WORD_LENGTH amt]
    by (simp_all add: word_lengths del: to_be_bytes.simps)
  ultimately show ?thesis
    using high
    by (simp add: parse_lifted_def new_lifted_data_def topic_slice_def at_index_def from_slice_def to_array_def
        not_less numeral_2_eq_2 del: to_be_bytes.simps) (simp add: word_lengths)
qed

theorem lift_log_parsed_witness:
  "parse_lifted (Some (abi_word 7)) [[], abi_word 5, abi_word 6] = Inr (new_lifted_data 5 6 7)"
  using lift_log_parsed [of 5 6 7 "[]"] by simp

text \<open>C35: No parser of a log panics, whatever the bytes, except one: a log that cancels an NFT
  listing panics when its third topic is shorter than 24 bytes, or has only zeros there and is
  shorter than 32, because the length of that topic is not checked before it is sliced.\<close>

theorem only_cancel_listing_panics:
  "parse_added_validator data topics \<noteq> Inl ParsePanic \<and> parse_lifted data topics \<noteq> Inl ParsePanic \<and>
   from_erc_20_contract_transfer_bytes data topics \<noteq> Inl ParsePanic \<and>
   parse_nft_mint data topics \<noteq> Inl ParsePanic \<and> parse_nft_transfer_to data topics \<noteq> Inl ParsePanic \<and>
   parse_nft_end_batch_listing data topics \<noteq> Inl ParsePanic \<and>
   parse_avt_growth_lifted data topics \<noteq> Inl ParsePanic \<and>
   parse_avt_lower_claimed data topics \<noteq> Inl ParsePanic \<and> parse_lower_reverted data topics \<noteq> Inl ParsePanic \<and>
   parse_total_supply_updated data topics \<noteq> Inl ParsePanic \<and>
   (parse_nft_cancel_listing data topics = Inl ParsePanic) =
     (data = None \<and> length topics = 3 \<and> length (topics ! 1) = 32 \<and>
      (length (topics ! 2) < 24 \<or> length (topics ! 2) < 32 \<and> \<not> any_byte (take 24 (topics ! 2))))"
  using parsers_never_panic [of data topics] parse_cancel_panics [of data topics] by (simp add: no_panic_def)

section \<open>Lower parameters\<close>

text \<open>C34: Unpacking the parameters of a lower gives back what was packed, for values in the range
  of their types.\<close>

theorem lower_params_round_trip:
  assumes "t < 2 ^ 160" "a < 2 ^ 128" "r < 2 ^ 160" "i < 2 ^ 32" "s < 2 ^ 256" "ts < 2 ^ 64"
  shows "lower_data_try_from (concat_lower_data i t a r s ts) =
    Inr \<lparr>lower_token = t, lower_amount = a, lower_recipient = r, lowerId = i, t2Sender = s,
      t2Timestamp = ts\<rparr>"
  using lower_data_round_trip [OF assms] .

theorem lower_params_round_trip_witness:
  "lower_data_try_from (concat_lower_data 4 3 1000 2 5 6) =
     Inr \<lparr>lower_token = 3, lower_amount = 1000, lower_recipient = 2, lowerId = 4, t2Sender = 5, t2Timestamp = 6\<rparr>"
  using lower_params_round_trip [of 3 1000 2 4 5 6] by simp

end
