(* ===== verification/Eth_Bridge_Migration.thy ===== *)
theory Eth_Bridge_Migration
  imports Eth_Bridge_Votes
begin

text \<open>
  Moving the record of processed events from one instance of the bridge to another
  (\<open>pallets/eth-bridge/src/lib.rs\<close>): the source hands out its entries in batches and forgets
  them, the target records them and returns those it cannot take. No known transaction is
  forgotten by both. A batch is the first entries of the map in the order of the model; the
  weight the hook reports is left out. The runtime \<open>avn\<close> configures no source (only the runtime
  \<open>test\<close> does), so that the steps of \<open>bridge_do\<close> leave this out.
\<close>

definition ProcessingBatchBound :: nat where
  "ProcessingBatchBound = 64"

definition get_network :: "'w bridge \<Rightarrow> ethereum_network option" where
  "get_network s = (if \<not> instance_is_valid (the_instance s) then None else Some (network (the_instance s)))"

text \<open>An entry of a batch: the event and whether it was accepted.\<close>

type_synonym event_migration = "eth_event_id \<times> bool"

definition migration_batch :: "'w bridge \<Rightarrow> event_migration list" where
  "migration_batch s = map (\<lambda>(hash, ev).
     (\<lparr>id_signature = event_signature (processed_id ev), transaction_hash = hash\<rparr>, processed_accepted ev))
     (take ProcessingBatchBound (processed_ethereum_events s))"

definition get_events_to_migrate ::
  "ethereum_network \<Rightarrow> 'w bridge \<Rightarrow> event_migration list option \<times> 'w bridge" where
  "get_events_to_migrate net s =
     (if \<not> instance_is_valid (the_instance s) \<or> network (the_instance s) \<noteq> net then (None, s)
      else if migration_batch s = [] then (None, s)
      else (Some (migration_batch s), s\<lparr>processed_ethereum_events :=
             fold (\<lambda>(eid, _). alist_remove (transaction_hash eid)) (migration_batch s)
               (processed_ethereum_events s)\<rparr>))"

text \<open>\<open>return_entry\<close>: an entry with an unknown signature is dropped.\<close>

definition return_entry :: "event_migration \<Rightarrow> 'w bridge \<Rightarrow> 'w bridge" where
  "return_entry entry s =
     (case valid_event_try_from (id_signature (fst entry)) of
        Inl _ \<Rightarrow> s
      | Inr kind \<Rightarrow> s\<lparr>processed_ethereum_events := alist_insert (transaction_hash (fst entry))
                       \<lparr>processed_id = kind, processed_accepted = snd entry\<rparr> (processed_ethereum_events s)\<rparr>)"

definition migrate_entry ::
  "ethereum_network \<Rightarrow> event_migration \<Rightarrow> 'v bridge \<times> 'w bridge \<Rightarrow> 'v bridge \<times> 'w bridge" where
  "migrate_entry net entry st =
     (case network_add_processed_event net (fst entry) (snd entry) (snd st) of
        Inr target \<Rightarrow> (fst st, bridge_event_deposit (EventMigrated (fst entry) (snd entry)) target)
      | Inl _ \<Rightarrow> (return_entry entry (fst st), snd st))"

definition migrate_events_batch ::
  "ethereum_network \<Rightarrow> event_migration list \<Rightarrow> 'v bridge \<times> 'w bridge \<Rightarrow> 'v bridge \<times> 'w bridge" where
  "migrate_events_batch net batch st = fold (migrate_entry net) batch st"

text \<open>The hook of the target, with weights as parameters; the state is the source and the target.\<close>

definition bridge_on_idle ::
  "nat \<Rightarrow> nat \<Rightarrow> nat \<Rightarrow> 'v bridge \<times> 'w bridge \<Rightarrow> 'v bridge \<times> 'w bridge" where
  "bridge_on_idle base_weight batch_weight remaining st =
     (if remaining < base_weight + batch_weight then st
      else let inst = the_instance (snd st) in
        case get_network (fst st) of
          None \<Rightarrow> st
        | Some net \<Rightarrow>
            if network inst = net \<and> instance_is_valid inst then
              (case get_events_to_migrate net (fst st) of
                 (None, source) \<Rightarrow> (source, snd st)
               | (Some batch, source) \<Rightarrow> migrate_events_batch net batch (source, snd st))
            else st)"

section \<open>Nothing is forgotten\<close>

definition known :: "'w bridge \<Rightarrow> nat set" where
  "known s = fst ` set (processed_ethereum_events s)"

lemma known_frame [simp]: "known (bridge_event_deposit e s) = known s"
  by (simp add: known_def bridge_event_deposit_def)

lemma migrate_entry_known:
  assumes "id_signature (fst entry) \<in> range event_signature"
  shows "known (fst (migrate_entry net entry st)) \<union> known (snd (migrate_entry net entry st)) =
    insert (transaction_hash (fst entry)) (known (fst st) \<union> known (snd st))"
proof (cases "network_add_processed_event net (fst entry) (snd entry) (snd st)")
  case (Inr target)
  then have "known target = insert (transaction_hash (fst entry)) (known (snd st))"
    using add_processed_event_effect [OF Inr] by (elim exE) (simp add: known_def alist_insert_keys)
  then show ?thesis
    using Inr by (simp add: migrate_entry_def)
next
  case (Inl e)
  obtain kind where "id_signature (fst entry) = event_signature kind"
    using assms by blast
  then have "valid_event_try_from (id_signature (fst entry)) = Inr kind"
    by (simp add: valid_event_round_trip)
  then show ?thesis
    using Inl by (simp add: migrate_entry_def return_entry_def known_def alist_insert_keys)
qed

lemma migrate_batch_known:
  assumes "\<forall>entry\<in>set batch. id_signature (fst entry) \<in> range event_signature"
  shows "known (fst (migrate_events_batch net batch st)) \<union> known (snd (migrate_events_batch net batch st)) =
    transaction_hash ` fst ` set batch \<union> known (fst st) \<union> known (snd st)"
  using assms unfolding migrate_events_batch_def
proof (induction batch arbitrary: st)
  case (Cons entry batch)
  then show ?case
    using migrate_entry_known [of entry net st] by (simp add: Un_assoc)
qed simp

lemma alist_remove_keys: "fst ` set (alist_remove k xs) = fst ` set xs - {k}"
  by (auto simp: alist_remove_def)

lemma fold_remove_keys:
  "fst ` set (fold (\<lambda>(eid, _). alist_remove (transaction_hash eid)) batch m) =
     fst ` set m - transaction_hash ` fst ` set batch" for batch :: "event_migration list"
proof (induction batch arbitrary: m)
  case (Cons entry batch)
  then show ?case
    by (simp add: case_prod_beta alist_remove_keys) blast
qed simp

lemma migration_batch_hashes: "transaction_hash ` fst ` set (migration_batch s) \<subseteq> known s"
  by (simp add: migration_batch_def known_def image_image case_prod_beta image_mono set_take_subset)

lemma migration_batch_signed: "\<forall>entry\<in>set (migration_batch s). id_signature (fst entry) \<in> range event_signature"
  by (auto simp: migration_batch_def)

lemma handed_out:
  assumes "get_events_to_migrate net s = (Some batch, s')"
  shows "batch = migration_batch s" and "known s' \<union> transaction_hash ` fst ` set batch = known s"
proof -
  show batch: "batch = migration_batch s"
    using assms by (simp add: get_events_to_migrate_def split: if_split_asm)
  have "processed_ethereum_events s' = fold (\<lambda>(eid, _). alist_remove (transaction_hash eid))
    (migration_batch s) (processed_ethereum_events s)"
    using assms by (auto simp: get_events_to_migrate_def split: if_split_asm)
  then have "known s' = known s - transaction_hash ` fst ` set (migration_batch s)"
    by (simp add: known_def fold_remove_keys)
  then show "known s' \<union> transaction_hash ` fst ` set batch = known s"
    using migration_batch_hashes [of s] batch by blast
qed

lemma not_handed_out: "get_events_to_migrate net s = (None, s') \<Longrightarrow> s' = s"
  by (simp add: get_events_to_migrate_def split: if_split_asm)

lemma migrated_known:
  assumes "get_events_to_migrate net (fst st) = (Some batch, source)"
  shows "known (fst (migrate_events_batch net batch (source, snd st))) \<union>
      known (snd (migrate_events_batch net batch (source, snd st))) = known (fst st) \<union> known (snd st)"
proof -
  have "\<forall>entry\<in>set batch. id_signature (fst entry) \<in> range event_signature"
    using handed_out(1) [OF assms] migration_batch_signed by simp
  from migrate_batch_known [OF this, of net "(source, snd st)"] handed_out(2) [OF assms]
  show ?thesis
    by (simp add: Un_commute)
qed

lemma migration_forgets_nothing:
  "known (fst (bridge_on_idle base_weight batch_weight remaining st)) \<union>
   known (snd (bridge_on_idle base_weight batch_weight remaining st)) = known (fst st) \<union> known (snd st)"
proof (cases "get_events_to_migrate (network (the_instance (snd st))) (fst st)")
  case (Pair found source)
  then show ?thesis
  proof (cases found)
    case None
    then have "source = fst st"
      using Pair not_handed_out by auto
    then show ?thesis
      using Pair None by (simp add: bridge_on_idle_def Let_def split: option.split)
  next
    case (Some batch)
    then show ?thesis
      using Pair migrated_known [of "network (the_instance (snd st))" st batch source]
      by (simp add: bridge_on_idle_def Let_def split: option.split)
  qed
qed

end
