(* ===== verification/Eth_Bridge_Client.thy ===== *)
theory Eth_Bridge_Client
  imports Eth_Bridge_Queue
begin

text \<open>
  The bridge as its clients see it. A client pallet has a view of the rest of the runtime and
  reacts to the notifications of the bridge. The interface \<open>bridge_client\<close> says that nothing
  else the bridge does reaches the view; then after any step of the bridge the view has gone
  through the reactions to the notifications of that step, in their order, and the bridge has
  announced no lower request of its own accord.
\<close>

fun reacts :: "(notification \<Rightarrow> 'v \<Rightarrow> 'v \<Rightarrow> bool) \<Rightarrow> notification list \<Rightarrow> 'v \<Rightarrow> 'v \<Rightarrow> bool" where
  "reacts react [] v v' \<longleftrightarrow> v' = v"
| "reacts react (n # ns) v v' \<longleftrightarrow> (\<exists>u. react n v u \<and> reacts react ns u v')"

lemma reacts_append:
  "reacts react ns v u \<Longrightarrow> reacts react ms u v' \<Longrightarrow> reacts react (ns @ ms) v v'"
  by (induction ns arbitrary: v) auto

fun lower_request :: "bridge_event \<Rightarrow> bool" where
  "lower_request (LowerProofRequested i p caller) = True"
| "lower_request _ = False"

definition follows :: "('w \<Rightarrow> 'v) \<Rightarrow> (notification \<Rightarrow> 'v \<Rightarrow> 'v \<Rightarrow> bool) \<Rightarrow> 'w bridge \<Rightarrow> 'w bridge \<Rightarrow> bool" where
  "follows view react s s' \<longleftrightarrow> (\<exists>ns ds. notified s' = notified s @ ns \<and> deposited s' = deposited s @ ds \<and>
     (\<forall>d\<in>set ds. \<not> lower_request d) \<and> reacts react ns (view (bridge_world s)) (view (bridge_world s')))"

lemma follows_same:
  "notified s' = notified s \<Longrightarrow> deposited s' = deposited s \<Longrightarrow> bridge_world s' = bridge_world s \<Longrightarrow>
   follows view react s s'"
  by (auto simp: follows_def intro!: exI [of _ "[]"])

lemma follows_refl [simp]: "follows view react s s"
  by (rule follows_same) simp_all

lemma follows_trans:
  assumes "follows view react s s'" "follows view react s' s''"
  shows "follows view react s s''"
proof -
  obtain ns ds where 1: "notified s' = notified s @ ns" "deposited s' = deposited s @ ds"
    "\<forall>d\<in>set ds. \<not> lower_request d" "reacts react ns (view (bridge_world s)) (view (bridge_world s'))"
    using assms(1) by (auto simp: follows_def)
  obtain ms es where 2: "notified s'' = notified s' @ ms" "deposited s'' = deposited s' @ es"
    "\<forall>d\<in>set es. \<not> lower_request d" "reacts react ms (view (bridge_world s')) (view (bridge_world s''))"
    using assms(2) by (auto simp: follows_def)
  show ?thesis
    unfolding follows_def
    by (rule exI [of _ "ns @ ms"], rule exI [of _ "ds @ es"]) (use 1 2 reacts_append in auto)
qed

lemma follows_deposit: "\<not> lower_request e \<Longrightarrow> follows view react s (bridge_event_deposit e s)"
  by (auto simp: follows_def bridge_event_deposit_def intro!: exI [of _ "[]"])

lemma follows_set_up_lower: "set_up_active_lower_proof C req s = Inr s' \<Longrightarrow> follows view react s s'"
  by (rule follows_same) (auto simp: set_up_active_lower_proof_def)

lemma follows_set_up_tx: "set_up_active_tx C req m s = Inr s' \<Longrightarrow> follows view react s s'"
  by (rule follows_same) (auto simp: set_up_active_tx_def Let_def assign_sender_def split: prod.splits)

lemma follows_dequeue: "dequeue_request (s\<lparr>active_request := None\<rparr>) = (mr, s1) \<Longrightarrow> follows view react s s1"
  by (rule follows_same) (auto simp: dequeue_request_def Let_def split: option.splits list.splits if_splits)

lemma follows_queue: "queue_request C req s = Inr s' \<Longrightarrow> follows view react s s'"
  by (rule follows_same) (auto simp: queue_request_def Let_def split: if_splits)

lemma follows_fold:
  assumes "\<And>x s. follows view react s (f x s)"
  shows "follows view react s (fold f xs s)"
proof (induction xs arbitrary: s)
  case (Cons x xs)
  show ?case
    using follows_trans [OF assms [of s x] Cons [of "f x s"]] by simp
qed simp

locale bridge_client =
  fixes C :: "'w bridge_config" and view :: "'w \<Rightarrow> 'v" and react :: "notification \<Rightarrow> 'v \<Rightarrow> 'v \<Rightarrow> bool"
  assumes on_result: "react (ResultOf i caller ok) (view w) (view (snd (process_result C i caller ok w)))"
    and on_lower_proof:
      "react (LowerProofOf i caller p) (view w) (view (snd (process_lower_proof_result C i caller p w)))"
    and on_incoming: "react (Incoming ev) (view w) (view (snd (on_incoming_event_processed C ev w)))"
    and on_offence: "view (report_offence C reporters offence w) = view w"
begin

lemma chain:
  "follows view react s s' \<Longrightarrow> follows view react s' s'' \<Longrightarrow> follows view react s s''"
  "follows view react s s' \<Longrightarrow> \<not> lower_request e \<Longrightarrow> follows view react s (bridge_event_deposit e s')"
  "follows view react s s' \<Longrightarrow> set_up_active_tx C req m s' = Inr s'' \<Longrightarrow> follows view react s s''"
  "follows view react s s' \<Longrightarrow> queue_request C r s' = Inr s'' \<Longrightarrow> follows view react s s''"
  by (blast intro: follows_trans follows_deposit follows_set_up_tx follows_queue)+

lemma follows_notify:
  "follows view react s (snd (notify_result C i caller ok s))"
  "follows view react s (snd (notify_lower_proof C i caller p s))"
  "follows view react s (snd (notify_event C ev s))"
  unfolding follows_def
  by (rule exI [of _ "[ResultOf i caller ok]"],
      use on_result in \<open>force simp: notify_result_def split_beta\<close>)
    (rule exI [of _ "[LowerProofOf i caller p]"],
      use on_lower_proof in \<open>force simp: notify_lower_proof_def split_beta\<close>,
     rule exI [of _ "[Incoming ev]"],
      use on_incoming in \<open>force simp: notify_event_def split_beta\<close>)

lemma follows_offence: "follows view react s (create_and_report_bridge_offence C who accounts kind s)"
  by (auto simp: create_and_report_bridge_offence_def Let_def follows_def bridge_event_deposit_def on_offence
      intro!: exI [of _ "[]"])

lemma follows_dissent: "follows view react s (report_dissent C success d s)"
  by (simp add: report_dissent_def follows_offence)

lemma follows_next:
  assumes "process_next_request C s = Inr s'"
  shows "follows view react s s'"
  using assms
proof (induction "length (queued s)" arbitrary: s rule: less_induct)
  case less
  obtain mr s1 where deq: "dequeue_request (s\<lparr>active_request := None\<rparr>) = (mr, s1)"
    by (cases "dequeue_request (s\<lparr>active_request := None\<rparr>)")
  note s1 = follows_dequeue [OF deq, of view react]
  have shorter: "length (queued s1) < length (queued s)" if "mr \<noteq> None"
    using that dequeue_shorter deq by fastforce
  show ?case
  proof (cases mr)
    case None
    then show ?thesis
      using less.prems deq s1 by (simp add: process_next_request.simps [of C s])
  next
    case (Some r)
    have again: "follows view react s s'"
      if "process_next_request C s2 = Inr s'" "follows view react s1 s2" "queued s2 = queued s1" for s2
      using follows_trans [OF s1 follows_trans [OF that(2) less.hyps [OF _ that(1)]]] that(3) shorter Some by simp
    show ?thesis
    proof (cases r)
      case (Send req)
      then show ?thesis
        using less.prems deq Some follows_trans [OF s1 follows_set_up_tx]
          again [OF _ follows_notify(1) queued_frame(2)]
        by (auto simp: process_next_request.simps [of C s] split: sum.splits if_splits)
    next
      case (LowerProof req)
      then show ?thesis
        using less.prems deq Some follows_trans [OF s1 follows_set_up_lower]
          again [OF _ follows_notify(2) queued_frame(3)]
        by (auto simp: process_next_request.simps [of C s] split: sum.splits)
    qed
  qed
qed

lemma follows_complete_lower:
  assumes "complete_lower_proof_request C req cs s = Inr s'"
  shows "follows view react s s'"
  using assms follows_trans [OF follows_notify(2) follows_next]
  by (simp add: complete_lower_proof_request_def split_beta)

lemma follows_complete_transaction:
  assumes "complete_transaction C tx success s = Inr s'"
  shows "follows view react s s'"
proof -
  let ?s1 = "snd (notify_result C (tx_id (atx_request tx)) (send_caller_id (atx_request tx)) success s)"
  let ?s2 = "report_dissent C success (atx_data tx) ?s1"
  obtain m where nxt: "process_next_request C (?s2\<lparr>settled_transactions := m\<rparr>) = Inr s'"
    using assms by (auto simp: complete_transaction_def Let_def split_beta)
  have "follows view react ?s2 (?s2\<lparr>settled_transactions := m\<rparr>)"
    by (rule follows_same) simp_all
  from follows_trans [OF follows_notify(1) follows_trans [OF follows_dissent follows_trans [OF this follows_next [OF nxt]]]]
  show ?thesis .
qed

lemma follows_replay:
  assumes "replay_send_request C tx s = Inr s'"
  shows "follows view react s s'"
proof -
  let ?e = "ActiveRequestRetried (function_name (atx_request tx)) (send_params (atx_request tx))
    (send_caller_id (atx_request tx))"
  have "follows view react (bridge_event_deposit ?e s) s'"
    by (rule follows_set_up_tx) (use assms in \<open>simp add: replay_send_request_def Let_def\<close>)
  moreover have "follows view react s (bridge_event_deposit ?e s)"
    by (simp add: chain(2))
  ultimately show ?thesis
    using chain(1) by blast
qed

lemma follows_finalize:
  assumes "finalize_state C tx success s = Inr s'"
  shows "follows view react s s'"
  using assms follows_complete_transaction follows_replay
  by (auto simp: finalize_state_def split: if_splits)

lemma follows_answer_next:
  "process_next_request C (snd (notify_result C i caller ok s)) = Inr s2 \<Longrightarrow> follows view react s s2"
  "process_next_request C (snd (notify_lower_proof C i caller p s)) = Inr s2 \<Longrightarrow> follows view react s s2"
  using follows_trans [OF follows_notify(1) follows_next] follows_trans [OF follows_notify(2) follows_next]
  by blast+

lemma follows_remove_active:
  assumes "remove_active_request_impl C s = Inr s'"
  shows "follows view react s s'"
proof -
  obtain i s2 where "follows view react s s2" "s' = bridge_event_deposit (ActiveRequestRemoved i) s2"
    using assms
    by (auto simp: remove_active_request_impl_def split: option.splits request.splits
        dest!: follows_answer_next)
  then show ?thesis
    by (simp add: chain(2))
qed

lemma follows_save: "follows view react s (save_active_request_to_storage r s)"
  by (rule follows_same) (simp_all add: save_active_request_to_storage_def)

lemma follows_add_confirmation:
  assumes "add_confirmation C origin i c author s = Inr s'"
  shows "follows view react s s'"
proof (cases "active_request s")
  case (Some r)
  then show ?thesis
    using assms
    by (cases "active_req r")
      (auto simp: add_confirmation_def Let_def follows_save dest: follows_complete_lower split: if_splits)
qed (use assms in \<open>auto simp: add_confirmation_def\<close>)

lemma follows_add_eth_tx_hash:
  assumes "add_eth_tx_hash origin i h author s = Inr s'"
  shows "follows view react s s'"
  using assms follows_save by (auto simp: add_eth_tx_hash_def split: option.splits if_splits)

lemma follows_add_corroboration:
  assumes "add_corroboration C origin i ok valid author n s = Inr s'"
  shows "follows view react s s'"
  using assms follows_save follows_finalize
  by (auto simp: add_corroboration_def Let_def split: option.splits if_splits)

lemma follows_event:
  assumes "process_ethereum_event C net ev s = Inr s'"
  shows "follows view react s s'"
proof -
  obtain s1 where s1: "network_add_processed_event net (event_id ev) True s = Inr s1"
    and s': "s' = bridge_event_deposit (EventAccepted (event_id ev)) (snd (notify_event C ev s1)) \<or>
      (\<exists>err. s' = bridge_event_deposit (EventRejected (event_id ev) err) (snd (notify_event C ev s1)))"
    using assms by (auto simp: process_ethereum_event_def split_beta split: option.splits)
  have "follows view react s s1"
    using add_processed_event_effect [OF s1] by (elim exE) (rule follows_same, simp_all)
  then have "follows view react s (snd (notify_event C ev s1))"
    using chain(1) follows_notify(3) by blast
  then show ?thesis
    using s' by (auto intro: chain(2))
qed

lemma follows_discovered: "follows view react s (process_discovered_event C net rng e s)"
  using follows_event
  by (auto simp: process_discovered_event_def follows_deposit split: sum.splits)

lemma follows_partition: "follows view react s (process_ethereum_events_partition C net rng part author s)"
proof -
  let ?s1 = "s\<lparr>ethereum_events := alist_remove part (ethereum_events s)\<rparr>"
  let ?s2 = "fold (process_discovered_event C net rng) (part_events part) ?s1"
  have 1: "follows view react s ?s1" and 3: "follows view react ?s2 (?s2\<lparr>ethereum_events := []\<rparr>)"
    by (rule follows_same, simp_all)+
  have 2: "follows view react ?s1 ?s2"
    by (rule follows_fold) (rule follows_discovered)
  have 4: "follows view react t (fold (\<lambda>(_, votes).
      create_and_report_bridge_offence C (v_account author) votes InvalidEthereumRangeData) xs t)" for t xs
    by (rule follows_fold) (simp add: follows_offence split: prod.splits)
  show ?thesis
    unfolding process_ethereum_events_partition_def Let_def
    by (rule follows_trans [OF 1 follows_trans [OF 2 follows_trans [OF 3 4]]])
qed

lemma follows_submit_events:
  assumes "submit_ethereum_events C origin author part s = Inr s'"
  shows "follows view react s s'"
proof -
  have "follows view react s (s\<lparr>ethereum_events := m\<rparr>)" for m
    by (rule follows_same) simp_all
  moreover have "follows view react t (advance_partition C a part t)" for a t
    by (rule follows_same) (simp_all add: advance_partition_def)
  then have "follows view react s (advance_partition C a part
      (process_ethereum_events_partition C net a part author s))" for a net
    using chain(1) [OF follows_partition] by blast
  ultimately show ?thesis
    using assms by (auto simp: submit_ethereum_events_def split: if_splits)
qed

lemma follows_submit_block:
  assumes "submit_latest_ethereum_block C origin author latest s = Inr s'"
  shows "follows view react s s'"
  by (rule follows_same) (use assms in \<open>auto simp: submit_latest_ethereum_block_def Let_def split: if_splits\<close>)

lemma follows_setting:
  assumes "bridge_set_admin_setting C origin setting s = Inr s'"
  shows "follows view react s s'"
proof (cases setting)
  case RemoveActiveRequest
  then show ?thesis
    using assms follows_remove_active by (auto simp: bridge_set_admin_setting_def)
next
  case (SetEthBridgeInstance i)
  have "follows view react s (s\<lparr>ethereum_events := m, the_instance := i\<rparr>)" for m
    by (rule follows_same) simp_all
  then show ?thesis
    using assms SetEthBridgeInstance
    by (auto simp: bridge_set_admin_setting_def Let_def split: option.splits request.splits intro: chain(3))
qed (use assms in \<open>auto simp: bridge_set_admin_setting_def intro!: chain(2) intro: follows_same\<close>)

lemma follows_dispatch:
  assumes "bridge_dispatch C origin call s = Inr s'"
  shows "follows view react s s'"
  using assms
  by (cases call) (simp_all add: follows_add_confirmation follows_add_eth_tx_hash follows_add_corroboration
      follows_submit_events follows_submit_block follows_setting)

lemma follows_publish: "follows view react s (snd (publish C name params caller s))"
proof -
  have "follows view react s (snd (add_new_send_request C name params caller s))"
  proof (cases "\<exists>i. fst (add_new_send_request C name params caller s) = Inr i")
    case True
    let ?s1 = "s\<lparr>next_tx_id := wrapping_add32 (next_tx_id s) 1\<rparr>"
    have "follows view react s ?s1"
      by (rule follows_same) simp_all
    from chain(3,4) [OF this] True
    show ?thesis
      by (auto simp: add_new_send_request_def use_next_tx_id_def Let_def simp del: One_nat_def
          split: if_splits sum.splits)
  next
    case False
    then show ?thesis
      by (intro follows_same)
        (auto simp: add_new_send_request_def use_next_tx_id_def Let_def split: if_splits sum.splits)
  qed
  then show ?thesis
    by (auto simp: publish_def split_beta split: sum.splits intro: chain(2))
qed

text \<open>The steps in which the bridge acts for others than the clients that ask for lower proofs.\<close>

lemma follows_step:
  assumes "\<And>i params caller. act \<noteq> GenerateLowerProof i params caller" "\<And>w. act \<noteq> OthersAct w"
  shows "follows view react s (bridge_do C act s)"
proof (cases act)
  case (Publish name params caller)
  then show ?thesis
    using follows_publish [of s name params caller]
    by (auto split: sum.splits prod.splits)
next
  case (TimePasses block time)
  then show ?thesis
    by (simp add: follows_same)
next
  case (ValidatorsChange a)
  then show ?thesis
    by (simp add: follows_same)
qed (use assms follows_dispatch follows_setting in \<open>auto simp: kept_or_def split: sum.splits\<close>)

end

end
