(* ===== verification/Token_Manager.thy ===== *)
theory Token_Manager
  imports Avn_Signature Eth_Codec Eth_Events
begin

text \<open>
  The token manager (\<open>pallets/token-manager/src/lib.rs\<close>, \<open>utils.rs\<close>): balances of the tokens
  lifted from Ethereum, transfers, and lowering tokens back. A token the asset registry knows
  is kept by the asset manager, any other in the pallet's own map.

  The asset manager, the registry, the currency, the scheduler, the bridge, the staking
  pallet's growth handler, signatures and hashes are fields of the configuration; the state of
  these pallets is the type \<open>'w\<close>. A dispatchable returns its error with every write rolled
  back. The handlers of Ethereum events and of lower proofs are called by the bridge, which
  does not roll back: they return their error beside the state they leave.
\<close>

section \<open>Data\<close>

datatype token_error =
    NoTier1EventForLogLifted
  | NoTier1EventForLogLowerClaimed
  | NoTier1EventForLogLowerReverted
  | AmountOverflow
  | DepositFailed
  | AmountIsZero
  | InsufficientSenderBalance
  | TransactionNotSupported
  | SenderNotValid
  | UnauthorizedProxyTransaction
  | UnauthorizedSignedTransferTransaction
  | UnauthorizedSignedLowerTransaction
  | ErrorConvertingAccountId
  | NoTier1EventForLogAvtGrowthLifted
  | InvalidLowerCall
  | LowerDataLimitExceeded
  | InvalidLowerId
  | LoweringIsDisabled
  | InvalidLiftRequest
  | InvalidEthAddress
  | NativeTokenNotRegistered

type_synonym token_failure = "token_error dispatch_error"

datatype token_event =
    AVTLifted account nat nat
  | TokenLifted nat account nat nat
  | TokenTransferred nat account account nat
  | CallDispatched account nat
  | TokenLowered nat account account nat nat nat
  | AvtLowered account account nat nat nat
  | AVTLowerReverted account nat nat nat nat
  | TokenLowerReverted nat account nat nat nat nat
  | AvtTransferredFromTreasury account nat
  | AVTGrowthLifted nat nat nat
  | LowerRequested nat account nat nat "nat option" nat nat
  | LowerReadyToClaim nat
  | AvtLowerClaimed nat
  | FailedToGenerateLowerProof nat
  | RegeneratingLowerProof nat account
  | RegeneratingFailedLowerProof nat account
  | LowerSchedulePeriodUpdated nat
  | LoweringEnabled
  | LoweringDisabled
  | TokensDeposited nat account nat
  | NativeTokenEthAddressUpdated nat nat

record lower_proof_data =
  lpd_params :: lower_params
  encoded_lower_data :: bytes

text \<open>The arguments of \<open>execute_lower\<close>, the call that is scheduled.\<close>

record lower_call =
  lc_from :: account
  lc_to :: account
  lc_token :: nat
  lc_amount :: nat
  lc_recipient :: nat
  lc_lower_id :: nat

datatype token_call =
    Proxy token_call
  | SignedTransfer signed_proof account account nat nat
  | TransferFromTreasury account nat
  | ExecuteLower lower_call
  | ScheduleDirectLower account nat nat nat
  | ScheduleSignedLower signed_proof account nat nat nat
  | RegenerateLowerProof nat
  | SetLowerSchedulePeriod nat
  | ToggleLowering bool
  | SetNativeTokenEthAddress nat
  | Transfer account nat nat
  | OtherPalletCall nat

text \<open>What an account signs: the relayer, the arguments and the nonce.\<close>

datatype token_payload =
    TransferPayload account account account nat nat nat
  | LowerPayload account account nat nat nat nat

record 'w token_config =
  asset_id :: "nat \<Rightarrow> 'w \<Rightarrow> nat option"
  asset_transfer :: "nat \<Rightarrow> account \<Rightarrow> account \<Rightarrow> nat \<Rightarrow> 'w \<Rightarrow> string + 'w"
  asset_deposit :: "nat \<Rightarrow> account \<Rightarrow> nat \<Rightarrow> 'w \<Rightarrow> string + 'w"
  asset_withdraw :: "nat \<Rightarrow> account \<Rightarrow> nat \<Rightarrow> 'w \<Rightarrow> string + 'w"
  currency_transfer :: "account \<Rightarrow> account \<Rightarrow> nat \<Rightarrow> 'w \<Rightarrow> string + 'w"
  currency_deposit :: "account \<Rightarrow> nat \<Rightarrow> 'w \<Rightarrow> string + 'w"
  currency_free :: "account \<Rightarrow> 'w \<Rightarrow> nat"
  currency_minimum :: nat
  event_exists :: "eth_event_id \<Rightarrow> 'w \<Rightarrow> bool"
  decode_account :: "nat \<Rightarrow> account option"
  account_bytes :: "account \<Rightarrow> nat"
  verify_token_signature :: "signed_proof \<Rightarrow> token_payload \<Rightarrow> bool"
  treasury_account :: account
  treasury_growth_share :: "nat \<Rightarrow> nat"
  growth_handler :: "nat \<Rightarrow> nat \<Rightarrow> 'w \<Rightarrow> string option \<times> 'w"
  schedule_name_of :: "nat \<Rightarrow> nat"
  bound_preimage :: "lower_call \<Rightarrow> 'w \<Rightarrow> 'w option"
  schedule_named :: "nat \<Rightarrow> nat \<Rightarrow> lower_call \<Rightarrow> 'w \<Rightarrow> string + 'w"
  request_lower_proof :: "nat \<Rightarrow> lower_params \<Rightarrow> bytes \<Rightarrow> 'w \<Rightarrow> string + 'w"
  now_secs :: "'w \<Rightarrow> nat"
  hash_of_call :: "token_call \<Rightarrow> nat"

record 'w tokens =
  tok_balances :: "((nat \<times> account) \<times> nat) list"
  tok_nonces :: "account \<Rightarrow> nat"
  lower_account_id :: nat
  avt_token_contract :: nat
  lowers_ready_to_claim :: "(nat \<times> lower_proof_data) list"
  lowers_pending_proof :: "(nat \<times> lower_params) list"
  failed_lower_proofs :: "(nat \<times> lower_params) list"
  lower_nonce :: nat
  lower_schedule_period :: nat
  lowers_disabled :: bool
  tok_world :: 'w
  tok_events :: "token_event list"

definition LowerDataLimit :: nat where "LowerDataLimit = 10000"

text \<open>\<open>PALLET_ID\<close> is \<open>b"token_manager"\<close>.\<close>

definition TOKEN_PALLET_ID :: bytes where
  "TOKEN_PALLET_ID = map of_char ''token_manager''"

definition token_event_deposit :: "token_event \<Rightarrow> 'w tokens \<Rightarrow> 'w tokens" where
  "token_event_deposit e s = s\<lparr>tok_events := tok_events s @ [e]\<rparr>"

definition tok_balance :: "nat \<Rightarrow> account \<Rightarrow> 'w tokens \<Rightarrow> nat" where
  "tok_balance t a s = (case alist_get (t, a) (tok_balances s) of None \<Rightarrow> 0 | Some v \<Rightarrow> v)"

definition set_tok_balance :: "nat \<Rightarrow> account \<Rightarrow> nat \<Rightarrow> 'w tokens \<Rightarrow> 'w tokens" where
  "set_tok_balance t a v s = s\<lparr>tok_balances := alist_insert (t, a) v (tok_balances s)\<rparr>"

text \<open>A call of another pallet that rolls its own writes back when it fails.\<close>

definition with_world :: "('w \<Rightarrow> string + 'w) \<Rightarrow> 'w tokens \<Rightarrow> token_failure + 'w tokens" where
  "with_world f s = and_then (map_err_with OtherErr (f (tok_world s))) (\<lambda>w. Inr (s\<lparr>tok_world := w\<rparr>))"

section \<open>Crediting and debiting\<close>

definition u128_to_balance :: "nat \<Rightarrow> token_failure + nat" where
  "u128_to_balance amt = (if amt \<le> u128_max then Inr amt else Inl (PalletErr AmountOverflow))"

text \<open>\<open>TokenBalance\<close> and \<open>BalanceOf\<close> are both \<open>u128\<close>.\<close>

definition u128_to_token_balance :: "nat \<Rightarrow> token_failure + nat" where
  "u128_to_token_balance amt = (if amt \<le> u128_max then Inr amt else Inl (PalletErr AmountOverflow))"

definition is_native_token :: "nat \<Rightarrow> 'w tokens \<Rightarrow> bool" where
  "is_native_token t s \<longleftrightarrow> t = avt_token_contract s"

definition mint_known_token ::
  "'w token_config \<Rightarrow> nat \<Rightarrow> account \<Rightarrow> nat \<Rightarrow> 'w tokens \<Rightarrow> token_failure + nat \<times> 'w tokens" where
  "mint_known_token C asset who raw s =
     and_then (u128_to_balance raw) (\<lambda>amt.
     and_then (map_err (PalletErr DepositFailed) (asset_deposit C asset who amt (tok_world s))) (\<lambda>w.
       Inr (amt, s\<lparr>tok_world := w\<rparr>)))"

definition mint_unknown_token :: "nat \<Rightarrow> account \<Rightarrow> nat \<Rightarrow> 'w tokens \<Rightarrow> token_failure + nat \<times> 'w tokens" where
  "mint_unknown_token t who raw s =
     and_then (ensure (\<not> is_native_token t s) (PalletErr NativeTokenNotRegistered)) (\<lambda>_.
     and_then (u128_to_token_balance raw) (\<lambda>amt.
     and_then (ok_or (checked_add128 (tok_balance t who s) amt) (PalletErr AmountOverflow)) (\<lambda>v.
       Inr (amt, set_tok_balance t who v s))))"

definition credit_user_balance ::
  "'w token_config \<Rightarrow> nat \<Rightarrow> account \<Rightarrow> nat \<Rightarrow> 'w tokens \<Rightarrow> token_failure + nat \<times> 'w tokens" where
  "credit_user_balance C t who raw s =
     (case asset_id C t (tok_world s) of
        Some asset \<Rightarrow> mint_known_token C asset who raw s
      | None \<Rightarrow> mint_unknown_token t who raw s)"

definition burn_known_token ::
  "'w token_config \<Rightarrow> nat \<Rightarrow> account \<Rightarrow> nat \<Rightarrow> 'w tokens \<Rightarrow> token_failure + 'w tokens" where
  "burn_known_token C asset who raw s =
     and_then (u128_to_balance raw) (\<lambda>amt.
     and_then (map_err (PalletErr InsufficientSenderBalance) (asset_withdraw C asset who amt (tok_world s))) (\<lambda>w.
       Inr (s\<lparr>tok_world := w\<rparr>)))"

definition burn_unknown_token :: "nat \<Rightarrow> account \<Rightarrow> nat \<Rightarrow> 'w tokens \<Rightarrow> token_failure + 'w tokens" where
  "burn_unknown_token t who raw s =
     and_then (ensure (\<not> is_native_token t s) (PalletErr NativeTokenNotRegistered)) (\<lambda>_.
     and_then (u128_to_token_balance raw) (\<lambda>amt.
     and_then (ok_or (checked_sub128 (tok_balance t who s) amt) (PalletErr InsufficientSenderBalance)) (\<lambda>v.
       Inr (set_tok_balance t who v s))))"

definition debit_user_balance ::
  "'w token_config \<Rightarrow> nat \<Rightarrow> account \<Rightarrow> nat \<Rightarrow> 'w tokens \<Rightarrow> token_failure + 'w tokens" where
  "debit_user_balance C t who raw s =
     (case asset_id C t (tok_world s) of
        Some asset \<Rightarrow> burn_known_token C asset who raw s
      | None \<Rightarrow> burn_unknown_token t who raw s)"

definition treasury_balance :: "'w token_config \<Rightarrow> 'w tokens \<Rightarrow> nat" where
  "treasury_balance C s = currency_free C (treasury_account C) (tok_world s) - currency_minimum C"

definition get_token_balance :: "account \<Rightarrow> nat \<Rightarrow> 'w tokens \<Rightarrow> nat option" where
  "get_token_balance who t s = alist_get (t, who) (tok_balances s)"

section \<open>Transfers\<close>

definition settle_transfer ::
  "'w token_config \<Rightarrow> nat \<Rightarrow> account \<Rightarrow> account \<Rightarrow> nat \<Rightarrow> 'w tokens \<Rightarrow> token_failure + 'w tokens" where
  "settle_transfer C t src dst amt s =
     (if amt = 0 \<or> src = dst then Inr s
      else case asset_id C t (tok_world s) of
        Some asset \<Rightarrow> with_world (asset_transfer C asset src dst amt) s
      | None \<Rightarrow>
          and_then (ensure (\<not> is_native_token t s) (PalletErr NativeTokenNotRegistered)) (\<lambda>_.
          and_then (ok_or (checked_sub128 (tok_balance t src s) amt) (PalletErr InsufficientSenderBalance)) (\<lambda>v.
            let s1 = set_tok_balance t src v s in
          and_then (ok_or (checked_add128 (tok_balance t dst s1) amt) (PalletErr AmountOverflow)) (\<lambda>v'.
            Inr (token_event_deposit (TokenTransferred t src dst amt) (set_tok_balance t dst v' s1))))))"

definition bump_nonce :: "account \<Rightarrow> 'w tokens \<Rightarrow> 'w tokens" where
  "bump_nonce who s = s\<lparr>tok_nonces := (tok_nonces s)(who := (tok_nonces s who + 1) mod 2 ^ 64)\<rparr>"

definition encode_signed_transfer_params :: "signed_proof \<Rightarrow> account \<Rightarrow> account \<Rightarrow> nat \<Rightarrow> nat \<Rightarrow> nat \<Rightarrow> token_payload" where
  "encode_signed_transfer_params pf src dst t amt n = TransferPayload (proof_relayer pf) src dst t amt n"

definition encode_signed_lower_params :: "signed_proof \<Rightarrow> account \<Rightarrow> nat \<Rightarrow> nat \<Rightarrow> nat \<Rightarrow> nat \<Rightarrow> token_payload" where
  "encode_signed_lower_params pf src t amt t1 n = LowerPayload (proof_relayer pf) src t amt t1 n"

text \<open>\<open>verify_signature\<close> checks the signature of the proof's signer.\<close>

definition signed_transfer ::
  "'w token_config \<Rightarrow> origin \<Rightarrow> signed_proof \<Rightarrow> account \<Rightarrow> account \<Rightarrow> nat \<Rightarrow> nat \<Rightarrow> 'w tokens \<Rightarrow>
     token_failure + 'w tokens" where
  "signed_transfer C origin pf src dst t amt s =
     and_then (signed_only origin) (\<lambda>sender.
     and_then (ensure (sender = src) (PalletErr SenderNotValid)) (\<lambda>_.
     and_then (ensure (verify_token_signature C pf
         (encode_signed_transfer_params pf src dst t amt (tok_nonces s sender)))
         (PalletErr UnauthorizedSignedTransferTransaction)) (\<lambda>_.
     and_then (settle_transfer C t src dst amt s) (\<lambda>s1. Inr (bump_nonce src s1)))))"

definition transfer_from_treasury ::
  "'w token_config \<Rightarrow> origin \<Rightarrow> account \<Rightarrow> nat \<Rightarrow> 'w tokens \<Rightarrow> token_failure + 'w tokens" where
  "transfer_from_treasury C origin dst amt s =
     and_then (root_only origin) (\<lambda>_.
     and_then (ensure (amt \<noteq> 0) (PalletErr AmountIsZero)) (\<lambda>_.
     and_then (with_world (currency_transfer C (treasury_account C) dst amt) s) (\<lambda>s1.
       Inr (token_event_deposit (AvtTransferredFromTreasury dst amt) s1))))"

definition transfer ::
  "'w token_config \<Rightarrow> origin \<Rightarrow> account \<Rightarrow> nat \<Rightarrow> nat \<Rightarrow> 'w tokens \<Rightarrow> token_failure + 'w tokens" where
  "transfer C origin dst t amt s =
     and_then (signed_only origin) (\<lambda>src. settle_transfer C t src dst amt s)"

definition pay_recipient ::
  "'w token_config \<Rightarrow> nat \<Rightarrow> nat \<Rightarrow> account \<Rightarrow> account \<Rightarrow> 'w tokens \<Rightarrow> token_failure + 'w tokens" where
  "pay_recipient C t amt payer recipient s = settle_transfer C t payer recipient amt s"

definition pay_treasury ::
  "'w token_config \<Rightarrow> nat \<Rightarrow> account \<Rightarrow> 'w tokens \<Rightarrow> token_failure + 'w tokens" where
  "pay_treasury C amt payer s =
     settle_transfer C (avt_token_contract s) payer (treasury_account C) amt s"

text \<open>The treasury keeps what the currency refuses to deposit out of existence: nothing happens then.\<close>

definition handle_dust :: "'w token_config \<Rightarrow> nat \<Rightarrow> 'w tokens \<Rightarrow> 'w tokens" where
  "handle_dust C imbalance s =
     (case currency_deposit C (treasury_account C) imbalance (tok_world s) of
        Inl _ \<Rightarrow> s
      | Inr w \<Rightarrow> s\<lparr>tok_world := w\<rparr>)"

section \<open>Lowering\<close>

definition settle_lower ::
  "'w token_config \<Rightarrow> nat \<Rightarrow> account \<Rightarrow> account \<Rightarrow> nat \<Rightarrow> nat \<Rightarrow> nat \<Rightarrow> 'w tokens \<Rightarrow> token_failure + 'w tokens" where
  "settle_lower C t src dst raw t1 i s =
     and_then (debit_user_balance C t src raw s) (\<lambda>s1.
       let s2 = token_event_deposit (if is_native_token t s1 then AvtLowered src dst raw t1 i
                                     else TokenLowered t src dst raw t1 i) s1;
           params = concat_lower_data i t raw t1 (account_bytes C src) (now_secs C (tok_world s2));
           s3 = s2\<lparr>lowers_pending_proof := alist_insert i params (lowers_pending_proof s2)\<rparr>
       in with_world (request_lower_proof C i params TOKEN_PALLET_ID) s3)"

definition execute_lower ::
  "'w token_config \<Rightarrow> origin \<Rightarrow> lower_call \<Rightarrow> 'w tokens \<Rightarrow> token_failure + 'w tokens" where
  "execute_lower C origin c s =
     and_then (root_only origin) (\<lambda>_.
     and_then (ensure (\<not> lowers_disabled s) (PalletErr LoweringIsDisabled)) (\<lambda>_.
       settle_lower C (lc_token c) (lc_from c) (lc_to c) (lc_amount c) (lc_recipient c) (lc_lower_id c) s))"

definition schedule_lower ::
  "'w token_config \<Rightarrow> account \<Rightarrow> account \<Rightarrow> nat \<Rightarrow> nat \<Rightarrow> nat \<Rightarrow> nat option \<Rightarrow> 'w tokens \<Rightarrow>
     token_failure + 'w tokens" where
  "schedule_lower C src dst t amt t1 nonce s =
     (let i = lower_nonce s;
          name = schedule_name_of C i;
          call = \<lparr>lc_from = src, lc_to = dst, lc_token = t, lc_amount = amt, lc_recipient = t1, lc_lower_id = i\<rparr>
      in and_then (ok_or (bound_preimage C call (tok_world s)) (PalletErr InvalidLowerCall)) (\<lambda>w.
         and_then (with_world (schedule_named C name (lower_schedule_period s) call) (s\<lparr>tok_world := w\<rparr>)) (\<lambda>s1.
           Inr (token_event_deposit (LowerRequested t src amt t1 nonce i name)
                  (s1\<lparr>lower_nonce := wrapping_add32 (lower_nonce s1) 1\<rparr>)))))"

definition decode_recipient :: "'w token_config \<Rightarrow> nat \<Rightarrow> token_failure + account" where
  "decode_recipient C addr = ok_or (decode_account C addr) (PalletErr ErrorConvertingAccountId)"

definition schedule_direct_lower ::
  "'w token_config \<Rightarrow> origin \<Rightarrow> account \<Rightarrow> nat \<Rightarrow> nat \<Rightarrow> nat \<Rightarrow> 'w tokens \<Rightarrow> token_failure + 'w tokens" where
  "schedule_direct_lower C origin src t amt t1 s =
     and_then (signed_only origin) (\<lambda>sender.
     and_then (ensure (sender = src) (PalletErr SenderNotValid)) (\<lambda>_.
     and_then (ensure (\<not> lowers_disabled s) (PalletErr LoweringIsDisabled)) (\<lambda>_.
     and_then (ensure (amt \<noteq> 0) (PalletErr AmountIsZero)) (\<lambda>_.
     and_then (decode_recipient C (lower_account_id s)) (\<lambda>dst.
       schedule_lower C src dst t amt t1 None s)))))"

definition schedule_signed_lower ::
  "'w token_config \<Rightarrow> origin \<Rightarrow> signed_proof \<Rightarrow> account \<Rightarrow> nat \<Rightarrow> nat \<Rightarrow> nat \<Rightarrow> 'w tokens \<Rightarrow>
     token_failure + 'w tokens" where
  "schedule_signed_lower C origin pf src t amt t1 s =
     and_then (signed_only origin) (\<lambda>sender.
     and_then (ensure (sender = src) (PalletErr SenderNotValid)) (\<lambda>_.
     and_then (ensure (\<not> lowers_disabled s) (PalletErr LoweringIsDisabled)) (\<lambda>_.
     and_then (ensure (amt \<noteq> 0) (PalletErr AmountIsZero)) (\<lambda>_.
     and_then (ensure (verify_token_signature C pf
         (encode_signed_lower_params pf src t amt t1 (tok_nonces s sender)))
         (PalletErr UnauthorizedSignedLowerTransaction)) (\<lambda>_.
     and_then (decode_recipient C (lower_account_id s)) (\<lambda>dst.
     and_then (schedule_lower C src dst t amt t1 (Some (tok_nonces s sender)) s) (\<lambda>s1.
       Inr (bump_nonce src s1))))))))"

definition regenerate_proof ::
  "'w token_config \<Rightarrow> nat \<Rightarrow> lower_params \<Rightarrow> 'w tokens \<Rightarrow> token_failure + 'w tokens" where
  "regenerate_proof C i params s =
     with_world (request_lower_proof C i params TOKEN_PALLET_ID)
       (s\<lparr>lowers_pending_proof := alist_insert i params (lowers_pending_proof s)\<rparr>)"

definition regenerate_lower_proof ::
  "'w token_config \<Rightarrow> origin \<Rightarrow> nat \<Rightarrow> 'w tokens \<Rightarrow> token_failure + 'w tokens" where
  "regenerate_lower_proof C origin i s =
     and_then (signed_only origin) (\<lambda>requester.
     and_then (ensure (\<not> lowers_disabled s) (PalletErr LoweringIsDisabled)) (\<lambda>_.
       case alist_get i (lowers_ready_to_claim s) of
         Some lower \<Rightarrow>
           and_then (regenerate_proof C i (lpd_params lower)
             (s\<lparr>lowers_ready_to_claim := alist_remove i (lowers_ready_to_claim s)\<rparr>)) (\<lambda>s1.
             Inr (token_event_deposit (RegeneratingLowerProof i requester) s1))
       | None \<Rightarrow>
           (case alist_get i (failed_lower_proofs s) of
              Some params \<Rightarrow>
                and_then (regenerate_proof C i params
                  (s\<lparr>failed_lower_proofs := alist_remove i (failed_lower_proofs s)\<rparr>)) (\<lambda>s1.
                  Inr (token_event_deposit (RegeneratingFailedLowerProof i requester) s1))
            | None \<Rightarrow> Inl (PalletErr InvalidLowerId))))"

section \<open>Settings\<close>

definition set_lower_schedule_period :: "origin \<Rightarrow> nat \<Rightarrow> 'w tokens \<Rightarrow> token_failure + 'w tokens" where
  "set_lower_schedule_period origin p s =
     and_then (root_only origin) (\<lambda>_.
       Inr (token_event_deposit (LowerSchedulePeriodUpdated p) (s\<lparr>lower_schedule_period := p\<rparr>)))"

definition toggle_lowering :: "origin \<Rightarrow> bool \<Rightarrow> 'w tokens \<Rightarrow> token_failure + 'w tokens" where
  "toggle_lowering origin enabled s =
     and_then (root_only origin) (\<lambda>_.
       Inr (token_event_deposit (if enabled then LoweringEnabled else LoweringDisabled)
              (s\<lparr>lowers_disabled := \<not> enabled\<rparr>)))"

definition set_native_token_eth_address :: "origin \<Rightarrow> nat \<Rightarrow> 'w tokens \<Rightarrow> token_failure + 'w tokens" where
  "set_native_token_eth_address origin new s =
     and_then (root_only origin) (\<lambda>_.
     and_then (ensure (new \<noteq> 0) (PalletErr InvalidEthAddress)) (\<lambda>_.
       Inr (token_event_deposit (NativeTokenEthAddressUpdated (avt_token_contract s) new)
              (s\<lparr>avt_token_contract := new\<rparr>))))"

section \<open>Ethereum events\<close>

type_synonym 'w handled = "token_failure option \<times> 'w tokens"

text \<open>A handler that fails before its first write.\<close>

definition handled_by :: "'w tokens \<Rightarrow> token_failure + 'w tokens \<Rightarrow> 'w handled" where
  "handled_by s r = (case r of Inl e \<Rightarrow> (Some e, s) | Inr s' \<Rightarrow> (None, s'))"

definition process_lift :: "'w token_config \<Rightarrow> eth_event \<Rightarrow> lifted_data \<Rightarrow> 'w tokens \<Rightarrow> token_failure + 'w tokens" where
  "process_lift C ev d s =
     and_then (ensure (event_exists C (event_id ev) (tok_world s)) (PalletErr NoTier1EventForLogLifted)) (\<lambda>_.
     and_then (ensure (lift_amount d \<noteq> 0) (PalletErr AmountIsZero)) (\<lambda>_.
     and_then (decode_recipient C (receiver_address d)) (\<lambda>who.
     and_then (credit_user_balance C (token_contract d) who (lift_amount d) s) (\<lambda>(amt, s1).
       Inr (token_event_deposit
         (if is_native_token (token_contract d) s1 then AVTLifted who amt (transaction_hash (event_id ev))
          else TokenLifted (token_contract d) who amt (transaction_hash (event_id ev))) s1)))))"

text \<open>A failing growth handler does not take the share of the treasury back.\<close>

definition process_avt_growth_lift ::
  "'w token_config \<Rightarrow> eth_event \<Rightarrow> avt_growth_lifted_data \<Rightarrow> 'w tokens \<Rightarrow> 'w handled" where
  "process_avt_growth_lift C ev d s =
     (if \<not> event_exists C (event_id ev) (tok_world s) then (Some (PalletErr NoTier1EventForLogAvtGrowthLifted), s)
      else if growth_amount d = 0 then (Some (PalletErr AmountIsZero), s)
      else let share = treasury_growth_share C (growth_amount d) in
        case credit_user_balance C (avt_token_contract s) (treasury_account C) share s of
          Inl e \<Rightarrow> (Some e, s)
        | Inr (treasury_amount, s1) \<Rightarrow>
            (case and_then (ok_or (checked_sub128 (growth_amount d) share) (PalletErr AmountOverflow)) u128_to_balance of
               Inl e \<Rightarrow> (Some e, s1)
             | Inr remaining \<Rightarrow>
                 let s2 = token_event_deposit
                            (AVTGrowthLifted treasury_amount remaining (transaction_hash (event_id ev))) s1;
                     (err, w) = growth_handler C remaining (growth_period d) (tok_world s2)
                 in (map_option OtherErr err, s2\<lparr>tok_world := w\<rparr>)))"

definition remove_used_lower :: "nat \<Rightarrow> 'w tokens \<Rightarrow> token_failure + 'w tokens" where
  "remove_used_lower i s =
     and_then (ensure (alist_get i (lowers_ready_to_claim s) \<noteq> None) (PalletErr InvalidLowerId)) (\<lambda>_.
       Inr (s\<lparr>lowers_ready_to_claim := alist_remove i (lowers_ready_to_claim s)\<rparr>))"

definition process_lower_claim ::
  "'w token_config \<Rightarrow> eth_event \<Rightarrow> avt_lower_claimed_data \<Rightarrow> 'w tokens \<Rightarrow> token_failure + 'w tokens" where
  "process_lower_claim C ev d s =
     and_then (ensure (event_exists C (event_id ev) (tok_world s)) (PalletErr NoTier1EventForLogLowerClaimed)) (\<lambda>_.
     and_then (remove_used_lower (claimed_lower_id d) s) (\<lambda>s1.
       Inr (token_event_deposit (AvtLowerClaimed (claimed_lower_id d)) s1)))"

text \<open>The lower is removed before its sender is credited.\<close>

definition process_lower_reverted ::
  "'w token_config \<Rightarrow> eth_event \<Rightarrow> lower_reverted_data \<Rightarrow> 'w tokens \<Rightarrow> 'w handled" where
  "process_lower_reverted C ev d s =
     (if \<not> event_exists C (event_id ev) (tok_world s) then (Some (PalletErr NoTier1EventForLogLowerReverted), s)
      else if reverted_amount d = 0 then (Some (PalletErr AmountIsZero), s)
      else case decode_recipient C (reverted_receiver d) of
        Inl e \<Rightarrow> (Some e, s)
      | Inr who \<Rightarrow>
          (case remove_used_lower (reverted_lower_id d) s of
             Inl e \<Rightarrow> (Some e, s)
           | Inr s1 \<Rightarrow>
               (case credit_user_balance C (reverted_token d) who (reverted_amount d) s1 of
                  Inl e \<Rightarrow> (Some e, s1)
                | Inr (amt, s2) \<Rightarrow>
                    (None, token_event_deposit
                      (if is_native_token (reverted_token d) s2
                       then AVTLowerReverted who amt (transaction_hash (event_id ev)) (reverted_lower_id d)
                              (reverted_t1_recipient d)
                       else TokenLowerReverted (reverted_token d) who amt (transaction_hash (event_id ev))
                              (reverted_lower_id d) (reverted_t1_recipient d)) s2))))"

definition processed_event_handler :: "'w token_config \<Rightarrow> eth_event \<Rightarrow> 'w tokens \<Rightarrow> 'w handled" where
  "processed_event_handler C ev s =
     (case event_data_of ev of
        LogLifted d \<Rightarrow> handled_by s (process_lift C ev d s)
      | LogAvtGrowthLifted d \<Rightarrow> process_avt_growth_lift C ev d s
      | LogLowerClaimed d \<Rightarrow> handled_by s (process_lower_claim C ev d s)
      | LogLowerReverted d \<Rightarrow> process_lower_reverted C ev d s
      | _ \<Rightarrow> (None, s))"

text \<open>\<open>TokenInterface\<close>: lifts that other pallets pass on, and deposits of theirs.\<close>

definition lift_for_pallet :: "'w token_config \<Rightarrow> eth_event \<Rightarrow> 'w tokens \<Rightarrow> token_failure + 'w tokens" where
  "lift_for_pallet C ev s =
     (case event_data_of ev of
        LogLiftedToPredictionMarket d \<Rightarrow>
          process_lift C ev (new_lifted_data (token_contract d) (receiver_address d) (lift_amount d)) s
      | LogErc20Transfer d \<Rightarrow>
          process_lift C ev (new_lifted_data (token_contract d) (receiver_address d) (lift_amount d)) s
      | _ \<Rightarrow> Inl (PalletErr InvalidLiftRequest))"

definition process_token_deposit ::
  "'w token_config \<Rightarrow> nat \<Rightarrow> account \<Rightarrow> nat \<Rightarrow> 'w tokens \<Rightarrow> token_failure + 'w tokens" where
  "process_token_deposit C t who raw s =
     and_then (credit_user_balance C t who raw s) (\<lambda>(amt, s1).
       Inr (token_event_deposit (TokensDeposited t who amt) s1))"

text \<open>
  The answer of the bridge to a request for a lower proof. The pending lower is taken out
  before the length of the proof is checked.
\<close>

definition token_lower_proof_result :: "nat \<Rightarrow> bytes \<Rightarrow> unit + bytes \<Rightarrow> 'w tokens \<Rightarrow> 'w handled" where
  "token_lower_proof_result i caller data s =
     (case alist_get i (lowers_pending_proof s) of
        None \<Rightarrow> (None, s)
      | Some params \<Rightarrow>
          if caller \<noteq> TOKEN_PALLET_ID then (None, s)
          else let s1 = s\<lparr>lowers_pending_proof := alist_remove i (lowers_pending_proof s)\<rparr> in
            case data of
              Inr encoded \<Rightarrow>
                if LowerDataLimit < length encoded then (Some (PalletErr LowerDataLimitExceeded), s1)
                else (None, token_event_deposit (LowerReadyToClaim i)
                        (s1\<lparr>lowers_ready_to_claim := alist_insert i
                           \<lparr>lpd_params = params, encoded_lower_data = encoded\<rparr> (lowers_ready_to_claim s1)\<rparr>))
            | Inl _ \<Rightarrow>
                (None, token_event_deposit (FailedToGenerateLowerProof i)
                   (s1\<lparr>failed_lower_proofs := alist_insert i params (failed_lower_proofs s1)\<rparr>)))"

section \<open>Calls\<close>

fun get_proof :: "token_call \<Rightarrow> token_failure + signed_proof" where
  "get_proof (SignedTransfer pf src dst t amt) = Inr pf"
| "get_proof (ScheduleSignedLower pf src t amt t1) = Inr pf"
| "get_proof _ = Inl (PalletErr TransactionNotSupported)"

fun get_encoded_call_param :: "token_call \<Rightarrow> 'w tokens \<Rightarrow> (signed_proof \<times> token_payload) option" where
  "get_encoded_call_param (SignedTransfer pf src dst t amt) s =
     Some (pf, encode_signed_transfer_params pf src dst t amt (tok_nonces s (proof_signer pf)))"
| "get_encoded_call_param (ScheduleSignedLower pf src t amt t1) s =
     Some (pf, encode_signed_lower_params pf src t amt t1 (tok_nonces s (proof_signer pf)))"
| "get_encoded_call_param _ s = None"

definition inner_signature_is_valid :: "'w token_config \<Rightarrow> token_call \<Rightarrow> 'w tokens \<Rightarrow> bool" where
  "inner_signature_is_valid C call s =
     (case get_encoded_call_param call s of
        Some (pf, payload) \<Rightarrow> verify_token_signature C pf payload
      | None \<Rightarrow> False)"

text \<open>A call of another pallet does not reach this one.\<close>

fun token_dispatch :: "'w token_config \<Rightarrow> origin \<Rightarrow> token_call \<Rightarrow> 'w tokens \<Rightarrow> token_failure + 'w tokens" where
  "token_dispatch C origin (Proxy call) s =
     and_then (signed_only origin) (\<lambda>relayer.
     and_then (get_proof call) (\<lambda>pf.
     and_then (ensure (relayer = proof_relayer pf) (PalletErr UnauthorizedProxyTransaction)) (\<lambda>_.
     and_then (token_dispatch C (Signed (proof_signer pf)) call s) (\<lambda>s1.
       Inr (token_event_deposit (CallDispatched relayer (hash_of_call C call)) s1)))))"
| "token_dispatch C origin (SignedTransfer pf src dst t amt) s = signed_transfer C origin pf src dst t amt s"
| "token_dispatch C origin (TransferFromTreasury dst amt) s = transfer_from_treasury C origin dst amt s"
| "token_dispatch C origin (ExecuteLower c) s = execute_lower C origin c s"
| "token_dispatch C origin (ScheduleDirectLower src t amt t1) s = schedule_direct_lower C origin src t amt t1 s"
| "token_dispatch C origin (ScheduleSignedLower pf src t amt t1) s =
     schedule_signed_lower C origin pf src t amt t1 s"
| "token_dispatch C origin (RegenerateLowerProof i) s = regenerate_lower_proof C origin i s"
| "token_dispatch C origin (SetLowerSchedulePeriod p) s = set_lower_schedule_period origin p s"
| "token_dispatch C origin (ToggleLowering enabled) s = toggle_lowering origin enabled s"
| "token_dispatch C origin (SetNativeTokenEthAddress a) s = set_native_token_eth_address origin a s"
| "token_dispatch C origin (Transfer dst t amt) s = transfer C origin dst t amt s"
| "token_dispatch C origin (OtherPalletCall k) s = Inl (PalletErr TransactionNotSupported)"

text \<open>A genesis balance that is not a \<open>u128\<close> counts as 0.\<close>

definition token_genesis ::
  "nat \<Rightarrow> nat \<Rightarrow> nat \<Rightarrow> (nat \<times> account \<times> nat) list \<Rightarrow> 'w \<Rightarrow> 'w tokens" where
  "token_genesis lower_account avt period bs w =
     \<lparr>tok_balances = fold (\<lambda>(t, who, amt).
        alist_insert (t, who) (case u128_to_token_balance amt of Inl _ \<Rightarrow> 0 | Inr v \<Rightarrow> v)) bs [],
      tok_nonces = (\<lambda>_. 0), lower_account_id = lower_account, avt_token_contract = avt,
      lowers_ready_to_claim = [], lowers_pending_proof = [], failed_lower_proofs = [],
      lower_nonce = 0, lower_schedule_period = period, lowers_disabled = False,
      tok_world = w, tok_events = []\<rparr>"

end
