(* ===== verification/Token_Ledger.thy ===== *)
theory Token_Ledger
  imports Token_Manager
begin

text \<open>
  The token manager along its runs: the steps of the pallet, the supply of a token it keeps
  itself, the number of times a lower is settled, and the nonces of signed calls.
\<close>

section \<open>Steps\<close>

text \<open>
  A step is a dispatched call, a notification of the bridge, a call of another pallet, or a
  change of the rest of the runtime. Pallets that pay or deposit through the token manager
  pass its errors on, so that a failing call leaves no trace; the node manager ignores an error
  of \<open>pay_treasury\<close>, which is raised before the token manager has written anything, because the
  payment is in the native token.
\<close>

datatype 'w token_action =
    TokenCall origin token_call
  | EthereumEvent eth_event
  | LowerProofAnswer nat bytes "unit + bytes"
  | PayRecipient nat nat account account
  | PayTreasury nat account
  | LiftFor eth_event
  | DepositFor nat account nat
  | Dust nat
  | OtherPallets 'w

definition done_or :: "'w tokens \<Rightarrow> token_failure + 'w tokens \<Rightarrow> 'w tokens" where
  "done_or s r = (case r of Inl _ \<Rightarrow> s | Inr s' \<Rightarrow> s')"

fun token_do :: "'w token_config \<Rightarrow> 'w token_action \<Rightarrow> 'w tokens \<Rightarrow> 'w tokens" where
  "token_do C (TokenCall origin call) s = done_or s (token_dispatch C origin call s)"
| "token_do C (EthereumEvent ev) s = snd (processed_event_handler C ev s)"
| "token_do C (LowerProofAnswer i caller data) s = snd (token_lower_proof_result i caller data s)"
| "token_do C (PayRecipient t amt payer recipient) s = done_or s (pay_recipient C t amt payer recipient s)"
| "token_do C (PayTreasury amt payer) s = done_or s (pay_treasury C amt payer s)"
| "token_do C (LiftFor ev) s = done_or s (lift_for_pallet C ev s)"
| "token_do C (DepositFor t who amt) s = done_or s (process_token_deposit C t who amt s)"
| "token_do C (Dust amt) s = handle_dust C amt s"
| "token_do C (OtherPallets w) s = s\<lparr>tok_world := w\<rparr>"

text \<open>The states of a run that starts in \<open>s0\<close>.\<close>

inductive token_run :: "'w token_config \<Rightarrow> 'w tokens \<Rightarrow> 'w tokens \<Rightarrow> bool" for C s0 where
  start: "token_run C s0 s0"
| step: "token_run C s0 s \<Longrightarrow> token_run C s0 (token_do C act s)"

section \<open>The balance of the books\<close>

definition supply_of :: "nat \<Rightarrow> 'w tokens \<Rightarrow> nat" where
  "supply_of t s = sum_list (map (\<lambda>((t', _), v). if t' = t then v else 0) (tok_balances s))"

text \<open>What an event says has been created or destroyed of a token.\<close>

fun minted_by :: "nat \<Rightarrow> token_event \<Rightarrow> nat" where
  "minted_by t (TokenLifted t' who amt hash) = (if t' = t then amt else 0)"
| "minted_by t (TokensDeposited t' who amt) = (if t' = t then amt else 0)"
| "minted_by t (TokenLowerReverted t' who amt hash i t1) = (if t' = t then amt else 0)"
| "minted_by t _ = 0"

fun burned_by :: "nat \<Rightarrow> token_event \<Rightarrow> nat" where
  "burned_by t (TokenLowered t' src dst amt t1 i) = (if t' = t then amt else 0)"
| "burned_by t _ = 0"

definition minted :: "nat \<Rightarrow> 'w tokens \<Rightarrow> nat" where
  "minted t s = sum_list (map (minted_by t) (tok_events s))"

definition burned :: "nat \<Rightarrow> 'w tokens \<Rightarrow> nat" where
  "burned t s = sum_list (map (burned_by t) (tok_events s))"

definition net :: "nat \<Rightarrow> 'w tokens \<Rightarrow> int" where
  "net t s = int (supply_of t s) - int (minted t s) + int (burned t s)"

lemma net_deposit [simp]:
  "net t (token_event_deposit e s) = net t s - int (minted_by t e) + int (burned_by t e)"
  by (simp add: net_def supply_of_def minted_def burned_def token_event_deposit_def)

lemma net_frame [simp]:
  "net t (s\<lparr>tok_nonces := x1\<rparr>) = net t s" "net t (s\<lparr>avt_token_contract := x2\<rparr>) = net t s"
  "net t (s\<lparr>lowers_ready_to_claim := x3\<rparr>) = net t s" "net t (s\<lparr>lowers_pending_proof := x4\<rparr>) = net t s"
  "net t (s\<lparr>failed_lower_proofs := x5\<rparr>) = net t s" "net t (s\<lparr>lower_nonce := x6\<rparr>) = net t s"
  "net t (s\<lparr>lower_schedule_period := x7\<rparr>) = net t s" "net t (s\<lparr>lowers_disabled := x8\<rparr>) = net t s"
  "net t (s\<lparr>tok_world := x9\<rparr>) = net t s" "net t (bump_nonce who s) = net t s"
  by (simp_all add: net_def supply_of_def minted_def burned_def bump_nonce_def)

lemma sum_alist_insert:
  "sum_list (map (\<lambda>((t', _), v). if t' = t then v else 0) (alist_insert (u, a) v m)) +
     (if u = t then case alist_get (u, a) m of None \<Rightarrow> 0 | Some old \<Rightarrow> old else 0) =
   sum_list (map (\<lambda>((t', _), v). if t' = t then v else 0) m) + (if u = t then v else (0::nat))"
  by (induction m) (auto simp: algebra_simps)

lemma net_set_balance:
  "net t (set_tok_balance u a v s) = net t s + (if u = t then int v - int (tok_balance u a s) else 0)"
proof -
  have "supply_of t (set_tok_balance u a v s) + (if u = t then tok_balance u a s else 0) =
      supply_of t s + (if u = t then v else 0)"
    using sum_alist_insert [of t u a v "tok_balances s"]
    by (cases "u = t") (simp_all add: supply_of_def set_tok_balance_def tok_balance_def)
  then have "int (supply_of t (set_tok_balance u a v s)) = int (supply_of t s) +
      (if u = t then int v - int (tok_balance u a s) else 0)"
    by (cases "u = t") auto
  then show ?thesis
    by (simp add: net_def minted_def burned_def set_tok_balance_def)
qed

lemma token_event_fields [simp]:
  "tok_world (token_event_deposit e s) = tok_world s"
  "is_native_token t (token_event_deposit e s) = is_native_token t s"
  "is_native_token t (set_tok_balance u a v s) = is_native_token t s"
  "is_native_token t (s\<lparr>tok_world := w\<rparr>) = is_native_token t s"
  "is_native_token t (s\<lparr>lowers_ready_to_claim := r\<rparr>) = is_native_token t s"
  "tok_balance t b (set_tok_balance u a v s) = (if t = u \<and> b = a then v else tok_balance t b s)"
  by (simp_all add: token_event_deposit_def is_native_token_def set_tok_balance_def tok_balance_def alist_get_insert)

text \<open>The token \<open>t\<close> is one that the registry never knows.\<close>

definition unregistered :: "'w token_config \<Rightarrow> nat \<Rightarrow> bool" where
  "unregistered C t \<longleftrightarrow> (\<forall>w. asset_id C t w = None)"

lemma credit_net:
  assumes "credit_user_balance C u who raw s = Inr (amt, s')" and "unregistered C t"
  shows "amt = raw \<and> net t s' = net t s + (if u = t then int raw else 0) \<and>
    (\<forall>v. is_native_token v s' = is_native_token v s) \<and> (u = t \<longrightarrow> \<not> is_native_token u s)"
  using assms
  by (auto simp: credit_user_balance_def mint_known_token_def mint_unknown_token_def net_set_balance
      u128_to_balance_def u128_to_token_balance_def checked_add128_def unregistered_def
      split: option.splits if_splits)

lemma debit_net:
  assumes "debit_user_balance C u who raw s = Inr s'" and "unregistered C t"
  shows "net t s' = net t s - (if u = t then int raw else 0) \<and>
    (\<forall>v. is_native_token v s' = is_native_token v s) \<and> (u = t \<longrightarrow> \<not> is_native_token u s)"
  using assms
  by (auto simp: debit_user_balance_def burn_known_token_def burn_unknown_token_def net_set_balance
      u128_to_balance_def u128_to_token_balance_def checked_sub128_def unregistered_def
      split: option.splits if_splits)

lemma with_world_net: "with_world f s = Inr s' \<Longrightarrow> net t s' = net t s"
  by (auto simp: with_world_def)

lemma settle_transfer_net: "settle_transfer C u src dst amt s = Inr s' \<Longrightarrow> net t s' = net t s"
  by (auto simp: settle_transfer_def Let_def net_set_balance checked_sub128_def checked_add128_def
      with_world_net split: option.splits if_splits)

lemma settle_lower_net:
  assumes "settle_lower C u src dst raw t1 i s = Inr s'" "unregistered C t"
  shows "net t s' = net t s"
proof -
  obtain s1 where s1: "debit_user_balance C u src raw s = Inr s1"
    using assms(1) by (auto simp: settle_lower_def)
  show ?thesis
    using assms(1) s1 debit_net [OF s1 assms(2)]
    by (auto simp: settle_lower_def Let_def dest!: with_world_net [where t = t] split: if_splits)
qed

lemma schedule_lower_net: "schedule_lower C src dst u amt t1 n s = Inr s' \<Longrightarrow> net t s' = net t s"
  by (auto simp: schedule_lower_def Let_def dest!: with_world_net)

lemma regenerate_net: "regenerate_lower_proof C origin i s = Inr s' \<Longrightarrow> net t s' = net t s"
  by (auto simp: regenerate_lower_proof_def regenerate_proof_def dest!: with_world_net split: option.splits)

lemmas call_defs = signed_transfer_def transfer_from_treasury_def execute_lower_def schedule_direct_lower_def
  schedule_signed_lower_def set_lower_schedule_period_def toggle_lowering_def
  set_native_token_eth_address_def transfer_def

lemma token_dispatch_net:
  assumes "token_dispatch C origin call s = Inr s'" "unregistered C t"
  shows "net t s' = net t s"
  using assms(1)
proof (induction call arbitrary: origin s')
  case (Proxy call)
  then show ?case by auto
qed (auto simp: call_defs dest: settle_transfer_net settle_lower_net [OF _ assms(2)] schedule_lower_net
      regenerate_net with_world_net)

lemma process_lift_net:
  assumes "process_lift C ev d s = Inr s'" "unregistered C t"
  shows "net t s' = net t s"
  using assms(1) by (auto simp: process_lift_def dest!: credit_net [OF _ assms(2)])

lemma process_token_deposit_net:
  assumes "process_token_deposit C u who raw s = Inr s'" "unregistered C t"
  shows "net t s' = net t s"
  using assms(1) by (auto simp: process_token_deposit_def dest!: credit_net [OF _ assms(2)])

lemma growth_net:
  assumes "unregistered C t"
  shows "net t (snd (process_avt_growth_lift C ev d s)) = net t s"
proof (cases "credit_user_balance C (avt_token_contract s) (treasury_account C)
    (treasury_growth_share C (growth_amount d)) s")
  case (Inr p)
  then have "net t (snd p) = net t s"
    using credit_net [OF _ assms, of "avt_token_contract s" _ _ s "fst p" "snd p"]
    by (auto simp: is_native_token_def)
  then show ?thesis
    using Inr by (auto simp: process_avt_growth_lift_def Let_def split: prod.splits sum.splits)
qed (simp add: process_avt_growth_lift_def Let_def)

lemma reverted_net:
  assumes "unregistered C t"
  shows "net t (snd (process_lower_reverted C ev d s)) = net t s"
  by (auto simp: process_lower_reverted_def remove_used_lower_def ensure_def
      dest!: credit_net [OF _ assms] split: sum.splits)

lemma event_net:
  assumes "unregistered C t"
  shows "net t (snd (processed_event_handler C ev s)) = net t s"
  using growth_net [OF assms] reverted_net [OF assms]
  by (auto simp: processed_event_handler_def handled_by_def process_lower_claim_def remove_used_lower_def
      ensure_def dest!: process_lift_net [OF _ assms] split: event_data.split sum.splits if_splits)

lemma token_do_net:
  assumes "unregistered C t"
  shows "net t (token_do C act s) = net t s"
proof (cases act)
  case (LiftFor ev)
  then show ?thesis
    by (auto simp: done_or_def lift_for_pallet_def dest!: process_lift_net [OF _ assms]
        split: sum.splits event_data.splits)
next
  case (LowerProofAnswer i caller data)
  then show ?thesis
    by (auto simp: token_lower_proof_result_def Let_def split: option.split sum.split)
qed (auto simp: done_or_def event_net [OF assms] pay_recipient_def pay_treasury_def handle_dust_def
      dest!: token_dispatch_net [OF _ assms] settle_transfer_net [where t = t]
        process_token_deposit_net [OF _ assms] split: sum.splits)

lemma token_run_net:
  assumes "token_run C s0 s" "unregistered C t"
  shows "net t s = net t s0"
  using assms(1) by induction (simp_all add: token_do_net [OF assms(2)])

section \<open>Lowers\<close>

text \<open>
  A lower is held while its proof is pending, ready to claim or failed. The slack of a lower is
  how often it has been executed more than it is held or has been settled.
\<close>

definition held :: "nat \<Rightarrow> 'w tokens \<Rightarrow> nat" where
  "held i s = of_bool (alist_get i (lowers_pending_proof s) \<noteq> None) +
     of_bool (alist_get i (lowers_ready_to_claim s) \<noteq> None) + of_bool (alist_get i (failed_lower_proofs s) \<noteq> None)"

fun lowered_by :: "nat \<Rightarrow> token_event \<Rightarrow> nat" where
  "lowered_by i (TokenLowered t src dst amt t1 j) = of_bool (j = i)"
| "lowered_by i (AvtLowered src dst amt t1 j) = of_bool (j = i)"
| "lowered_by i _ = 0"

fun settled_by :: "nat \<Rightarrow> token_event \<Rightarrow> nat" where
  "settled_by i (AvtLowerClaimed j) = of_bool (j = i)"
| "settled_by i (AVTLowerReverted who amt hash j t1) = of_bool (j = i)"
| "settled_by i (TokenLowerReverted t who amt hash j t1) = of_bool (j = i)"
| "settled_by i _ = 0"

definition times_lowered :: "nat \<Rightarrow> 'w tokens \<Rightarrow> nat" where
  "times_lowered i s = sum_list (map (lowered_by i) (tok_events s))"

definition times_settled :: "nat \<Rightarrow> 'w tokens \<Rightarrow> nat" where
  "times_settled i s = sum_list (map (settled_by i) (tok_events s))"

definition slack :: "nat \<Rightarrow> 'w tokens \<Rightarrow> int" where
  "slack i s = int (times_lowered i s) - int (times_settled i s) - int (held i s)"

lemma slack_deposit [simp]:
  "slack i (token_event_deposit e s) = slack i s + int (lowered_by i e) - int (settled_by i e)"
  by (simp add: slack_def times_lowered_def times_settled_def held_def token_event_deposit_def)

lemma slack_frame [simp]:
  "slack i (s\<lparr>tok_nonces := x1\<rparr>) = slack i s" "slack i (s\<lparr>avt_token_contract := x2\<rparr>) = slack i s"
  "slack i (s\<lparr>tok_balances := x3\<rparr>) = slack i s" "slack i (s\<lparr>lower_nonce := x6\<rparr>) = slack i s"
  "slack i (s\<lparr>lower_schedule_period := x7\<rparr>) = slack i s" "slack i (s\<lparr>lowers_disabled := x8\<rparr>) = slack i s"
  "slack i (s\<lparr>tok_world := x9\<rparr>) = slack i s" "slack i (bump_nonce who s) = slack i s"
  "slack i (set_tok_balance u a v s) = slack i s"
  by (simp_all add: slack_def times_lowered_def times_settled_def held_def bump_nonce_def set_tok_balance_def)

lemma slack_maps:
  "slack i (s\<lparr>lowers_pending_proof := alist_insert j p (lowers_pending_proof s)\<rparr>) =
     slack i s - of_bool (i = j \<and> alist_get j (lowers_pending_proof s) = None)"
  "slack i (s\<lparr>lowers_pending_proof := alist_remove j (lowers_pending_proof s)\<rparr>) =
     slack i s + of_bool (i = j \<and> alist_get j (lowers_pending_proof s) \<noteq> None)"
  "slack i (s\<lparr>lowers_ready_to_claim := alist_insert j d (lowers_ready_to_claim s)\<rparr>) =
     slack i s - of_bool (i = j \<and> alist_get j (lowers_ready_to_claim s) = None)"
  "slack i (s\<lparr>lowers_ready_to_claim := alist_remove j (lowers_ready_to_claim s)\<rparr>) =
     slack i s + of_bool (i = j \<and> alist_get j (lowers_ready_to_claim s) \<noteq> None)"
  "slack i (s\<lparr>failed_lower_proofs := alist_insert j p (failed_lower_proofs s)\<rparr>) =
     slack i s - of_bool (i = j \<and> alist_get j (failed_lower_proofs s) = None)"
  "slack i (s\<lparr>failed_lower_proofs := alist_remove j (failed_lower_proofs s)\<rparr>) =
     slack i s + of_bool (i = j \<and> alist_get j (failed_lower_proofs s) \<noteq> None)"
  by (auto simp: slack_def times_lowered_def times_settled_def held_def alist_get_insert alist_get_remove)

lemma slack_moves:
  "alist_get j (lowers_ready_to_claim s) \<noteq> None \<Longrightarrow> slack i s \<le> slack i
     (s\<lparr>lowers_ready_to_claim := alist_remove j (lowers_ready_to_claim s),
        lowers_pending_proof := alist_insert j p (lowers_pending_proof s)\<rparr>)"
  "alist_get j (failed_lower_proofs s) \<noteq> None \<Longrightarrow> slack i s \<le> slack i
     (s\<lparr>failed_lower_proofs := alist_remove j (failed_lower_proofs s),
        lowers_pending_proof := alist_insert j p (lowers_pending_proof s)\<rparr>)"
  "alist_get j (lowers_pending_proof s) \<noteq> None \<Longrightarrow> slack i s \<le> slack i
     (s\<lparr>lowers_pending_proof := alist_remove j (lowers_pending_proof s),
        failed_lower_proofs := alist_insert j p (failed_lower_proofs s)\<rparr>)"
  "alist_get j (lowers_pending_proof s) \<noteq> None \<Longrightarrow> slack i s \<le> slack i
     (s\<lparr>lowers_pending_proof := alist_remove j (lowers_pending_proof s),
        lowers_ready_to_claim := alist_insert j d (lowers_ready_to_claim s)\<rparr>)"
  by (auto simp: slack_def times_lowered_def times_settled_def held_def alist_get_insert alist_get_remove)

lemma credit_slack: "credit_user_balance C u who raw s = Inr (amt, s') \<Longrightarrow> slack i s' = slack i s"
  by (auto simp: credit_user_balance_def mint_known_token_def mint_unknown_token_def split: option.splits)

lemma debit_slack: "debit_user_balance C u who raw s = Inr s' \<Longrightarrow> slack i s' = slack i s"
  by (auto simp: debit_user_balance_def burn_known_token_def burn_unknown_token_def split: option.splits)

lemma with_world_slack: "with_world f s = Inr s' \<Longrightarrow> slack i s' = slack i s"
  by (auto simp: with_world_def)

lemma settle_transfer_slack: "settle_transfer C u src dst amt s = Inr s' \<Longrightarrow> slack i s' = slack i s"
  by (auto simp: settle_transfer_def Let_def with_world_slack split: option.splits if_splits)

lemma settle_lower_slack:
  assumes "settle_lower C u src dst raw t1 j s = Inr s'"
  shows "slack i s \<le> slack i s'"
proof -
  obtain s1 where s1: "debit_user_balance C u src raw s = Inr s1"
    using assms by (auto simp: settle_lower_def)
  let ?e = "if is_native_token u s1 then AvtLowered src dst raw t1 j else TokenLowered u src dst raw t1 j"
  let ?s2 = "token_event_deposit ?e s1"
  obtain p where "slack i s' = slack i (?s2\<lparr>lowers_pending_proof := alist_insert j p (lowers_pending_proof ?s2)\<rparr>)"
    using assms s1 with_world_slack [where i = i] by (auto simp: settle_lower_def Let_def)
  moreover have "slack i ?s2 = slack i s1 + of_bool (i = j)"
    by simp
  ultimately show ?thesis
    using debit_slack [OF s1, of i] unfolding slack_maps by (auto split: if_splits)
qed

lemma schedule_lower_slack: "schedule_lower C src dst u amt t1 n s = Inr s' \<Longrightarrow> slack i s' = slack i s"
  by (auto simp: schedule_lower_def Let_def dest!: with_world_slack [where i = i])

text \<open>A lower whose proof is made again moves from ready or failed to pending.\<close>

lemma regenerate_slack: "regenerate_lower_proof C origin j s = Inr s' \<Longrightarrow> slack i s \<le> slack i s'"
  by (cases "alist_get j (lowers_ready_to_claim s)"; cases "alist_get j (failed_lower_proofs s)")
    (auto simp: regenerate_lower_proof_def regenerate_proof_def slack_moves dest!: with_world_slack [where i = i])

lemma token_dispatch_slack: "token_dispatch C origin call s = Inr s' \<Longrightarrow> slack i s \<le> slack i s'"
proof (induction call arbitrary: origin s')
  case (Proxy call)
  then show ?case by auto
qed (auto simp: call_defs regenerate_slack settle_lower_slack dest!: settle_transfer_slack [where i = i]
      schedule_lower_slack [where i = i] with_world_slack [where i = i])

lemma process_lift_slack: "process_lift C ev d s = Inr s' \<Longrightarrow> slack i s' = slack i s"
  by (auto simp: process_lift_def dest!: credit_slack [where i = i])

lemma growth_slack: "slack i (snd (process_avt_growth_lift C ev d s)) = slack i s"
  by (auto simp: process_avt_growth_lift_def Let_def dest!: credit_slack [where i = i] split: prod.splits sum.splits)

lemma claim_slack: "process_lower_claim C ev d s = Inr s' \<Longrightarrow> slack i s' = slack i s"
  by (auto simp: process_lower_claim_def remove_used_lower_def slack_maps)

lemma reverted_slack: "slack i s \<le> slack i (snd (process_lower_reverted C ev d s))"
  by (auto simp: process_lower_reverted_def remove_used_lower_def ensure_def slack_maps
      dest!: credit_slack [where i = i] split: sum.splits if_splits)

lemma event_slack: "slack i s \<le> slack i (snd (processed_event_handler C ev s))"
  using reverted_slack
  by (auto simp: processed_event_handler_def handled_by_def growth_slack
      dest!: process_lift_slack [where i = i] claim_slack [where i = i] split: event_data.split sum.splits)

lemma answer_slack: "slack i s \<le> slack i (snd (token_lower_proof_result j caller data s))"
  by (auto simp: token_lower_proof_result_def Let_def slack_maps(2) slack_moves split: option.split sum.split)

lemma token_do_slack: "slack i s \<le> slack i (token_do C act s)"
proof (cases act)
  case (LiftFor ev)
  then show ?thesis
    by (auto simp: done_or_def lift_for_pallet_def dest!: process_lift_slack [where i = i]
        split: sum.splits event_data.splits)
next
  case (DepositFor t who amt)
  then show ?thesis
    by (auto simp: done_or_def process_token_deposit_def dest!: credit_slack [where i = i] split: sum.splits)
qed (auto simp: done_or_def event_slack answer_slack token_dispatch_slack pay_recipient_def pay_treasury_def
      handle_dust_def dest!: settle_transfer_slack [where i = i] split: sum.splits)

lemma token_run_slack: "token_run C s0 s \<Longrightarrow> slack i s0 \<le> slack i s"
  by (induction rule: token_run.induct) (auto intro: order_trans [OF _ token_do_slack])

section \<open>Signed calls\<close>

fun token_proof :: "token_call \<Rightarrow> (signed_proof \<times> account \<times> (nat \<Rightarrow> token_payload)) option" where
  "token_proof (SignedTransfer pf src dst t amt) = Some (pf, src, encode_signed_transfer_params pf src dst t amt)"
| "token_proof (ScheduleSignedLower pf src t amt t1) = Some (pf, src, encode_signed_lower_params pf src t amt t1)"
| "token_proof _ = None"

lemma settle_transfer_nonces: "settle_transfer C t src dst amt s = Inr s' \<Longrightarrow> tok_nonces s' = tok_nonces s"
  by (auto simp: settle_transfer_def Let_def with_world_def token_event_deposit_def set_tok_balance_def
      split: option.splits if_splits)

lemma schedule_lower_nonces: "schedule_lower C src dst u amt t1 n s = Inr s' \<Longrightarrow> tok_nonces s' = tok_nonces s"
  by (auto simp: schedule_lower_def Let_def with_world_def token_event_deposit_def)

interpretation token_signed:
  signed_calls "verify_token_signature C" tok_nonces "token_dispatch C" token_proof for C
proof
  fix k pf who and payload :: "nat \<Rightarrow> token_payload"
  assume "token_proof k = Some (pf, who, payload)"
  then show "inj payload"
    by (cases k) (auto simp: encode_signed_transfer_params_def encode_signed_lower_params_def intro!: injI)
next
  fix k pf who payload origin s s'
  assume "token_proof k = Some (pf, who, payload)" "token_dispatch C origin k s = Inr s'"
  then show "origin = Signed who \<and> verify_token_signature C pf (payload (tok_nonces s who)) \<and>
      tok_nonces s' = (tok_nonces s)(who := (tok_nonces s who + 1) mod 2 ^ 64)"
    by (cases k) (auto simp: signed_transfer_def schedule_signed_lower_def bump_nonce_def
        dest!: settle_transfer_nonces schedule_lower_nonces)
qed

end
