(* ===== verification/Eth_Lowering.thy ===== *)
theory Eth_Lowering
  imports Eth_Bridge_Client Token_Ledger
begin

text \<open>
  The token manager and the bridge together, as the runtime wires them: the token manager asks
  the bridge for lower proofs and is told the results and the Ethereum events; the scheduler
  runs the lowers that were scheduled. Along every run each lower is in one place only, and the
  lowers whose proof is pending are exactly those the bridge still owes an answer.
\<close>

section \<open>The runtime\<close>

text \<open>
  The world of the token manager: the scheduler's agenda of lowers, the requests for lower
  proofs made in the current call, and the other pallets.
\<close>

record 'v lower_world =
  agenda :: "lower_call list"
  outbox :: "(nat \<times> lower_params \<times> bytes) list"
  rest_of :: 'v

definition wire :: "('v \<Rightarrow> string + 'v) \<Rightarrow> 'v lower_world \<Rightarrow> string + 'v lower_world" where
  "wire f w = and_then (f (rest_of w)) (\<lambda>v. Inr (w\<lparr>rest_of := v\<rparr>))"

text \<open>
  The scheduler keeps what it accepts. A request to the bridge is the last thing a call does, so
  it is put down and made when the call returns. The bridge records an event before it hands it
  over, so the event is known to the token manager's check.
\<close>

definition wired_tokens :: "'v token_config \<Rightarrow> 'v lower_world token_config" where
  "wired_tokens T =
     \<lparr>asset_id = (\<lambda>t w. asset_id T t (rest_of w)),
      asset_transfer = (\<lambda>a src dst n. wire (asset_transfer T a src dst n)),
      asset_deposit = (\<lambda>a who n. wire (asset_deposit T a who n)),
      asset_withdraw = (\<lambda>a who n. wire (asset_withdraw T a who n)),
      currency_transfer = (\<lambda>src dst n. wire (currency_transfer T src dst n)),
      currency_deposit = (\<lambda>who n. wire (currency_deposit T who n)),
      currency_free = (\<lambda>who w. currency_free T who (rest_of w)),
      currency_minimum = currency_minimum T,
      event_exists = (\<lambda>_ _. True),
      decode_account = decode_account T, account_bytes = account_bytes T,
      verify_token_signature = verify_token_signature T, treasury_account = treasury_account T,
      treasury_growth_share = treasury_growth_share T,
      growth_handler = (\<lambda>n p w. let (e, v) = growth_handler T n p (rest_of w) in (e, w\<lparr>rest_of := v\<rparr>)),
      schedule_name_of = schedule_name_of T,
      bound_preimage = (\<lambda>c w. map_option (\<lambda>v. w\<lparr>rest_of := v\<rparr>) (bound_preimage T c (rest_of w))),
      schedule_named = (\<lambda>name p c w. and_then (schedule_named T name p c (rest_of w)) (\<lambda>v.
        Inr (w\<lparr>rest_of := v, agenda := agenda w @ [c]\<rparr>))),
      request_lower_proof = (\<lambda>i p caller w. Inr (w\<lparr>outbox := outbox w @ [(i, p, caller)]\<rparr>)),
      now_secs = (\<lambda>w. now_secs T (rest_of w)), hash_of_call = hash_of_call T\<rparr>"

definition put_rest :: "'v \<Rightarrow> 'v lower_world tokens \<Rightarrow> 'v lower_world tokens" where
  "put_rest v w = w\<lparr>tok_world := (tok_world w)\<lparr>rest_of := v\<rparr>\<rparr>"

definition get_rest :: "'v lower_world tokens \<Rightarrow> 'v" where
  "get_rest w = rest_of (tok_world w)"

text \<open>
  The notifications go through the pallets in order and stop at the first error; \<open>B\<close> has the
  handlers of those before the token manager, \<open>later\<close> of those behind it. No other pallet
  handles lower proofs.
\<close>

definition incoming_in_order ::
  "'v bridge_config \<Rightarrow> (eth_event \<Rightarrow> 'v \<Rightarrow> string option \<times> 'v) \<Rightarrow> (token_failure \<Rightarrow> string) \<Rightarrow> 'v token_config \<Rightarrow>
     eth_event \<Rightarrow> 'v lower_world tokens \<Rightarrow> string option \<times> 'v lower_world tokens" where
  "incoming_in_order B later tell T ev w =
     (case on_incoming_event_processed B ev (get_rest w) of
        (Some e, v) \<Rightarrow> (Some e, put_rest v w)
      | (None, v) \<Rightarrow>
          (case processed_event_handler (wired_tokens T) ev (put_rest v w) of
             (Some e, w1) \<Rightarrow> (Some (tell e), w1)
           | (None, w1) \<Rightarrow> (let (e, v1) = later ev (get_rest w1) in (e, put_rest v1 w1))))"

definition token_bridge ::
  "'v bridge_config \<Rightarrow> (eth_event \<Rightarrow> 'v \<Rightarrow> string option \<times> 'v) \<Rightarrow> (token_failure \<Rightarrow> string) \<Rightarrow> 'v token_config \<Rightarrow>
     'v lower_world tokens bridge_config" where
  "token_bridge B later tell T =
     \<lparr>process_result = (\<lambda>i caller ok w.
        let (b, v) = process_result B i caller ok (get_rest w) in (b, put_rest v w)),
      process_lower_proof_result = (\<lambda>i caller p w.
        let (e, w1) = token_lower_proof_result i caller p w in (e = None, w1)),
      on_incoming_event_processed = incoming_in_order B later tell T,
      max_queued_tx_requests = max_queued_tx_requests B,
      min_eth_block_confirmation = min_eth_block_confirmation B,
      processed_events_handler = processed_events_handler B,
      eip712_hash = eip712_hash B, instance_hash = instance_hash B,
      recover_ecdsa_key = recover_ecdsa_key B,
      validator_for_eth_public_key = validator_for_eth_public_key B,
      verify_key = verify_key B, validator_id_of = validator_id_of B,
      full_identification_of = full_identification_of B,
      is_known_offence = (\<lambda>ids n w. is_known_offence B ids n (get_rest w)),
      report_offence = (\<lambda>who offence w. put_rest (report_offence B who offence (get_rest w)) w),
      current_session = (\<lambda>w. current_session B (get_rest w))\<rparr>"

section \<open>Runs\<close>

text \<open>A call of the token manager takes effect when the bridge has accepted its requests.\<close>

definition commit ::
  "'v lower_world tokens bridge_config \<Rightarrow> 'v lower_world tokens \<Rightarrow> 'v lower_world tokens bridge \<Rightarrow>
     bridge_error + 'v lower_world tokens bridge" where
  "commit C w s =
     try_fold (\<lambda>(i, p, caller). generate_lower_proof C i p caller) (outbox (tok_world w))
       (s\<lparr>bridge_world := w\<lparr>tok_world := (tok_world w)\<lparr>outbox := []\<rparr>\<rparr>\<rparr>)"

definition committed ::
  "'v lower_world tokens bridge_config \<Rightarrow> token_failure + 'v lower_world tokens \<Rightarrow>
     'v lower_world tokens bridge \<Rightarrow> 'v lower_world tokens bridge" where
  "committed C r s = (case r of Inl _ \<Rightarrow> s | Inr w \<Rightarrow> kept_or (commit C w s) s)"

datatype 'v runtime_action =
    BridgeStep "'v lower_world tokens bridge_action"
  | TokenTx origin token_call
  | RunScheduled nat
  | TokenService "'v lower_world token_action"
  | OthersDo 'v

text \<open>The scheduler takes a lower off its agenda and dispatches it, once.\<close>

definition run_scheduled ::
  "'v lower_world tokens bridge_config \<Rightarrow> 'v token_config \<Rightarrow> nat \<Rightarrow> 'v lower_world tokens bridge \<Rightarrow>
     'v lower_world tokens bridge" where
  "run_scheduled C T k s =
     (let w = bridge_world s; calls = agenda (tok_world w) in
      if length calls \<le> k then s
      else let w1 = w\<lparr>tok_world := (tok_world w)\<lparr>agenda := remove_at k calls\<rparr>\<rparr>;
               s1 = s\<lparr>bridge_world := w1\<rparr>
           in committed C (execute_lower (wired_tokens T) Root (calls ! k) w1) s1)"

fun runtime_do ::
  "'v lower_world tokens bridge_config \<Rightarrow> 'v token_config \<Rightarrow> 'v runtime_action \<Rightarrow>
     'v lower_world tokens bridge \<Rightarrow> 'v lower_world tokens bridge" where
  "runtime_do C T (BridgeStep act) s = bridge_do C act s"
| "runtime_do C T (TokenTx origin call) s =
     committed C (token_dispatch (wired_tokens T) origin call (bridge_world s)) s"
| "runtime_do C T (RunScheduled k) s = run_scheduled C T k s"
| "runtime_do C T (TokenService act) s =
     s\<lparr>bridge_world := token_do (wired_tokens T) act (bridge_world s)\<rparr>"
| "runtime_do C T (OthersDo v) s = s\<lparr>bridge_world := put_rest v (bridge_world s)\<rparr>"

text \<open>
  Only the token manager asks for lower proofs, its notifications come from the bridge, and the
  other pallets use it for payments and deposits.
\<close>

fun wired_step :: "'v runtime_action \<Rightarrow> bool" where
  "wired_step (BridgeStep (GenerateLowerProof i p caller)) = False"
| "wired_step (BridgeStep (OthersAct w)) = False"
| "wired_step (TokenService (PayRecipient t n payer who)) = True"
| "wired_step (TokenService (PayTreasury n payer)) = True"
| "wired_step (TokenService (DepositFor t who n)) = True"
| "wired_step (TokenService (Dust n)) = True"
| "wired_step (TokenService act) = False"
| "wired_step act = True"

text \<open>
  A run starts with an empty bridge and no lowers. It is followed while the \<open>u32\<close> that numbers the
  lowers has not been used up. \<open>Q\<close> restricts the steps further, with the state they start in.
\<close>

inductive runtime_run ::
  "'v lower_world tokens bridge_config \<Rightarrow> 'v token_config \<Rightarrow>
     ('v runtime_action \<Rightarrow> 'v lower_world tokens bridge \<Rightarrow> bool) \<Rightarrow> 'v lower_world tokens bridge \<Rightarrow> bool"
  for C T Q where
  start: "bridge_genesis lifetime first_id rsize inst a
      (token_genesis lower_account avt period bs \<lparr>agenda = [], outbox = [], rest_of = v\<rparr>) = Inr s \<Longrightarrow>
    runtime_run C T Q s"
| step: "runtime_run C T Q s \<Longrightarrow> wired_step act \<Longrightarrow> Q act s \<Longrightarrow> lower_nonce (bridge_world s) < u32_max \<Longrightarrow>
    runtime_run C T Q (runtime_do C T act s)"

section \<open>Where the lowers are\<close>

record lower_view =
  lv_pending :: "nat set"
  lv_ready :: "nat set"
  lv_failed :: "nat set"
  lv_agenda :: "nat list"
  lv_nonce :: nat
  lv_outbox :: "(nat \<times> lower_params \<times> bytes) list"

definition lowers_view :: "'v lower_world tokens \<Rightarrow> lower_view" where
  "lowers_view w =
     \<lparr>lv_pending = fst ` set (lowers_pending_proof w), lv_ready = fst ` set (lowers_ready_to_claim w),
      lv_failed = fst ` set (failed_lower_proofs w), lv_agenda = map lc_lower_id (agenda (tok_world w)),
      lv_nonce = lower_nonce w, lv_outbox = outbox (tok_world w)\<rparr>"

text \<open>The numbers of the lowers among requests: those the token manager has made.\<close>

definition mine :: "(bool \<times> nat \<times> bytes) list \<Rightarrow> nat list" where
  "mine ks = map (\<lambda>(_, i, _). i) (filter (\<lambda>(k, _, caller). \<not> k \<and> caller = TOKEN_PALLET_ID) ks)"

definition owed :: "'w bridge \<Rightarrow> nat list" where
  "owed s = mine (in_hand s @ waiting s)"

text \<open>
  The lowers \<open>asking\<close> for a proof are those that are pending; a lower is on the agenda or in one of
  the three maps, and its number has been given out.
\<close>

definition apart :: "nat list \<Rightarrow> nat set \<Rightarrow> nat set \<Rightarrow> nat set \<Rightarrow> nat list \<Rightarrow> nat \<Rightarrow> bool" where
  "apart asking P R F A n \<longleftrightarrow> distinct asking \<and> P = set asking \<and> P \<inter> R = {} \<and> P \<inter> F = {} \<and> R \<inter> F = {} \<and>
     distinct A \<and> set A \<inter> (P \<union> R \<union> F) = {} \<and> (\<forall>i\<in>set A \<union> P \<union> R \<union> F. i < n)"

definition lowers_ok :: "nat list \<Rightarrow> lower_view \<Rightarrow> bool" where
  "lowers_ok us v \<longleftrightarrow>
     apart (us @ map fst (lv_outbox v)) (lv_pending v) (lv_ready v) (lv_failed v) (lv_agenda v) (lv_nonce v) \<and>
     (\<forall>(i, p, caller)\<in>set (lv_outbox v). caller = TOKEN_PALLET_ID)"

text \<open>
  Lowers are executed by the scheduler, but Root can call \<open>execute_lower\<close> as well, with any number.
  \<open>keeps_numbers\<close> allows this for a number that has been given out and belongs to no lower that is
  still scheduled, pending, ready or failed.
\<close>

definition free_number :: "lower_view \<Rightarrow> nat \<Rightarrow> bool" where
  "free_number v i \<longleftrightarrow>
     i < lv_nonce v \<and> i \<notin> set (lv_agenda v) \<and> i \<notin> lv_pending v \<and> i \<notin> lv_ready v \<and> i \<notin> lv_failed v"

fun keeps_numbers :: "'v runtime_action \<Rightarrow> 'v lower_world tokens bridge \<Rightarrow> bool" where
  "keeps_numbers (TokenTx Root (ExecuteLower c)) s =
     free_number (lowers_view (bridge_world s)) (lc_lower_id c)"
| "keeps_numbers act s = True"

text \<open>What a notification may do to the view.\<close>

fun lower_react :: "notification \<Rightarrow> lower_view \<Rightarrow> lower_view \<Rightarrow> bool" where
  "lower_react (ResultOf i caller ok) v v' \<longleftrightarrow> v' = v"
| "lower_react (LowerProofOf i caller p) v v' \<longleftrightarrow>
     (if caller = TOKEN_PALLET_ID \<and> i \<in> lv_pending v
      then v' \<in> {v\<lparr>lv_pending := lv_pending v - {i}\<rparr>,
                  v\<lparr>lv_pending := lv_pending v - {i}, lv_ready := insert i (lv_ready v)\<rparr>,
                  v\<lparr>lv_pending := lv_pending v - {i}, lv_failed := insert i (lv_failed v)\<rparr>}
      else v' = v)"
| "lower_react (Incoming ev) v v' \<longleftrightarrow> (\<exists>r \<subseteq> lv_ready v. v' = v\<lparr>lv_ready := r\<rparr>)"

section \<open>The bridge and the view\<close>

lemma mine_append [simp]: "mine (xs @ ys) = mine xs @ mine ys"
  by (simp add: mine_def)

lemma mine_simps [simp]:
  "mine [] = []" "mine ((k, i, caller) # ks) = (if \<not> k \<and> caller = TOKEN_PALLET_ID then i # mine ks else mine ks)"
  by (simp_all add: mine_def)

lemma map_filter_Cons:
  "List.map_filter f (x # xs) = (case f x of None \<Rightarrow> List.map_filter f xs | Some y \<Rightarrow> y # List.map_filter f xs)"
  by (simp add: List.map_filter_def split: option.splits)

lemma apart_answered:
  assumes "apart (i # xs) P R F A n"
  shows "i \<in> P" "apart xs (P - {i}) R F A n" "apart xs (P - {i}) (insert i R) F A n"
    "apart xs (P - {i}) R (insert i F) A n"
  using assms by (auto simp: apart_def)

lemma apart_settled: "apart xs P R F A n \<Longrightarrow> R' \<subseteq> R \<Longrightarrow> apart xs P R' F A n"
  by (auto simp: apart_def)

lemma lower_react_ok:
  assumes "lower_react n v u" "lowers_ok (mine (List.map_filter answers [n]) @ us) v"
  shows "lowers_ok us u"
proof (cases n)
  case (LowerProofOf i caller p)
  show ?thesis
  proof (cases "caller = TOKEN_PALLET_ID")
    case True
    then have "apart (i # us @ map fst (lv_outbox v)) (lv_pending v) (lv_ready v) (lv_failed v) (lv_agenda v) (lv_nonce v)"
      using assms(2) LowerProofOf by (simp add: lowers_ok_def map_filter_single)
    from apart_answered [OF this] show ?thesis
      using assms LowerProofOf True by (auto simp: lowers_ok_def)
  qed (use assms LowerProofOf in \<open>simp add: map_filter_single\<close>)
qed (use assms apart_settled in \<open>auto simp: lowers_ok_def map_filter_single\<close>)

lemma reacts_ok:
  assumes "reacts lower_react ns v u" "lowers_ok (mine (List.map_filter answers ns) @ us) v"
  shows "lowers_ok us u"
  using assms
proof (induction ns arbitrary: v)
  case (Cons n ns)
  obtain v1 where v1: "lower_react n v v1" "reacts lower_react ns v1 u"
    using Cons.prems(1) by auto
  have "lowers_ok (mine (List.map_filter answers [n]) @ mine (List.map_filter answers ns) @ us) v"
    using Cons.prems(2) map_filter_append [of answers "[n]" ns] by simp
  from lower_react_ok [OF v1(1) this] show ?case
    using Cons.IH v1(2) by blast
qed (simp add: List.map_filter_def)

lemma reacts_outbox:
  assumes "reacts lower_react ns v u"
  shows "lv_outbox u = lv_outbox v"
  using assms
proof (induction ns arbitrary: v)
  case (Cons n ns)
  then obtain v1 where "lower_react n v v1" "lv_outbox u = lv_outbox v1"
    by auto
  then show ?case
    by (cases n) (auto split: if_splits)
qed simp

lemma no_lower_announced: "\<forall>d\<in>set ds. \<not> lower_request d \<Longrightarrow> mine (List.map_filter announces ds) = []"
proof (induction ds)
  case (Cons d ds)
  then show ?case
    by (cases d) (auto simp: map_filter_Cons)
qed (simp add: List.map_filter_def)

lemma follows_ok:
  assumes "follows lowers_view lower_react s s'" "fifo s" "fifo s'" "lowers_ok (owed s) (lowers_view (bridge_world s))"
  shows "lowers_ok (owed s') (lowers_view (bridge_world s'))"
    "lv_outbox (lowers_view (bridge_world s')) = lv_outbox (lowers_view (bridge_world s))"
proof -
  obtain ns ds where ns: "notified s' = notified s @ ns" "deposited s' = deposited s @ ds"
    "\<forall>d\<in>set ds. \<not> lower_request d"
    "reacts lower_react ns (lowers_view (bridge_world s)) (lowers_view (bridge_world s'))"
    using assms(1) by (auto simp: follows_def)
  have "asked s' = asked s @ List.map_filter announces ds" "answered s' = answered s @ List.map_filter answers ns"
    by (simp_all add: asked_def answered_def ns map_filter_append)
  then have "in_hand s @ waiting s @ List.map_filter announces ds =
      List.map_filter answers ns @ in_hand s' @ waiting s'"
    using assms(2,3) by (simp add: fifo_def)
  from arg_cong [OF this, of mine] have "owed s = mine (List.map_filter answers ns) @ owed s'"
    by (simp add: owed_def no_lower_announced [OF ns(3)])
  then show "lowers_ok (owed s') (lowers_view (bridge_world s'))"
    using reacts_ok [OF ns(4)] assms(4) by simp
  show "lv_outbox (lowers_view (bridge_world s')) = lv_outbox (lowers_view (bridge_world s))"
    using reacts_outbox [OF ns(4)] .
qed

section \<open>What the handlers do to the view\<close>

lemma view_frame [simp]:
  "lowers_view (put_rest v w) = lowers_view w"
  "lowers_view (token_event_deposit e w) = lowers_view w"
  "lowers_view (set_tok_balance t a n w) = lowers_view w"
  "lowers_view (bump_nonce who w) = lowers_view w"
  "lowers_view (w\<lparr>lower_schedule_period := x1\<rparr>) = lowers_view w"
  "lowers_view (w\<lparr>lowers_disabled := x2\<rparr>) = lowers_view w"
  "lowers_view (w\<lparr>avt_token_contract := x3\<rparr>) = lowers_view w"
  "lowers_view (w\<lparr>tok_world := (tok_world w)\<lparr>rest_of := x4\<rparr>\<rparr>) = lowers_view w"
  by (simp_all add: lowers_view_def put_rest_def token_event_deposit_def set_tok_balance_def bump_nonce_def)

lemma wire_Inr: "wire f w = Inr w' \<longleftrightarrow> (\<exists>v. f (rest_of w) = Inr v \<and> w' = w\<lparr>rest_of := v\<rparr>)"
  by (auto simp: wire_def)

lemma with_wire_view: "with_world (wire f) w = Inr w' \<Longrightarrow> lowers_view w' = lowers_view w"
  by (auto simp: with_world_def wire_Inr)

lemma credit_view:
  "credit_user_balance (wired_tokens T) t who raw w = Inr (n, w') \<Longrightarrow> lowers_view w' = lowers_view w"
  by (auto simp: credit_user_balance_def mint_known_token_def mint_unknown_token_def wired_tokens_def wire_Inr
      split: option.splits)

lemma debit_view: "debit_user_balance (wired_tokens T) t who raw w = Inr w' \<Longrightarrow> lowers_view w' = lowers_view w"
  by (auto simp: debit_user_balance_def burn_known_token_def burn_unknown_token_def wired_tokens_def wire_Inr
      split: option.splits)

lemma settle_transfer_view:
  "settle_transfer (wired_tokens T) t src dst n w = Inr w' \<Longrightarrow> lowers_view w' = lowers_view w"
  by (auto simp: settle_transfer_def Let_def wired_tokens_def dest: with_wire_view split: option.splits if_splits)

lemma process_lift_view:
  "process_lift (wired_tokens T) ev d w = Inr w' \<Longrightarrow> lowers_view w' = lowers_view w"
  by (auto simp: process_lift_def dest!: credit_view)

lemma growth_view: "lowers_view (snd (process_avt_growth_lift (wired_tokens T) ev d w)) = lowers_view w"
proof -
  have "lowers_view (token_event_deposit e w1\<lparr>tok_world := snd (growth_handler (wired_tokens T) n p (tok_world w1))\<rparr>) =
      lowers_view w1" for e n p w1
    by (simp add: wired_tokens_def split_beta lowers_view_def token_event_deposit_def)
  then show ?thesis
    by (auto simp: process_avt_growth_lift_def Let_def split_beta dest!: credit_view split: sum.splits prod.splits)
qed

lemma alist_remove_keys_of: "fst ` set (alist_remove k xs) = fst ` set xs - {k}"
  by (auto simp: alist_remove_def)

lemma removed_view:
  "lowers_view (w\<lparr>lowers_ready_to_claim := alist_remove i (lowers_ready_to_claim w)\<rparr>) =
     (lowers_view w)\<lparr>lv_ready := lv_ready (lowers_view w) - {i}\<rparr>"
  "lowers_view (w\<lparr>lowers_pending_proof := alist_remove i (lowers_pending_proof w)\<rparr>) =
     (lowers_view w)\<lparr>lv_pending := lv_pending (lowers_view w) - {i}\<rparr>"
  "lowers_view (w\<lparr>lowers_pending_proof := alist_remove i (lowers_pending_proof w),
       lowers_ready_to_claim := alist_insert i d (lowers_ready_to_claim w)\<rparr>) =
     (lowers_view w)\<lparr>lv_pending := lv_pending (lowers_view w) - {i}, lv_ready := insert i (lv_ready (lowers_view w))\<rparr>"
  "lowers_view (w\<lparr>lowers_pending_proof := alist_remove i (lowers_pending_proof w),
       failed_lower_proofs := alist_insert i p (failed_lower_proofs w)\<rparr>) =
     (lowers_view w)\<lparr>lv_pending := lv_pending (lowers_view w) - {i}, lv_failed := insert i (lv_failed (lowers_view w))\<rparr>"
  by (simp_all add: lowers_view_def alist_remove_keys_of alist_insert_keys)

lemma less_ready: "lower_react (Incoming ev) v (v\<lparr>lv_ready := lv_ready v - {i}\<rparr>)"
  by auto

lemma claim_view:
  assumes "process_lower_claim (wired_tokens T) ev d w = Inr w'"
  shows "lower_react (Incoming ev) (lowers_view w) (lowers_view w')"
  using assms less_ready [of ev "lowers_view w" "claimed_lower_id d"]
  by (auto simp: process_lower_claim_def remove_used_lower_def removed_view simp del: lower_react.simps)

lemma no_reaction: "lower_react (Incoming ev) v v"
  by (auto intro!: exI [of _ "lv_ready v"])

lemma reverted_view:
  "lower_react (Incoming ev) (lowers_view w) (lowers_view (snd (process_lower_reverted (wired_tokens T) ev d w)))"
  using no_reaction [of ev "lowers_view w"] less_ready [of ev "lowers_view w" "reverted_lower_id d"]
  by (auto simp: process_lower_reverted_def remove_used_lower_def ensure_def removed_view
      simp del: lower_react.simps dest!: credit_view split: sum.splits)

lemma handler_view:
  "lower_react (Incoming ev) (lowers_view w) (lowers_view (snd (processed_event_handler (wired_tokens T) ev w)))"
proof (cases "event_data_of ev")
  case (LogLowerClaimed d)
  then show ?thesis
    using claim_view [of T ev d w] no_reaction [of ev "lowers_view w"]
    by (simp add: processed_event_handler_def handled_by_def split: sum.splits del: lower_react.simps)
next
  case (LogLowerReverted d)
  then show ?thesis
    using reverted_view by (simp add: processed_event_handler_def del: lower_react.simps)
next
  case (LogLifted d)
  then have "lowers_view (snd (processed_event_handler (wired_tokens T) ev w)) = lowers_view w"
    by (auto simp: processed_event_handler_def handled_by_def dest: process_lift_view split: sum.splits)
  then show ?thesis
    using no_reaction by simp
next
  case (LogAvtGrowthLifted d)
  then have "lowers_view (snd (processed_event_handler (wired_tokens T) ev w)) = lowers_view w"
    by (simp add: processed_event_handler_def growth_view)
  then show ?thesis
    using no_reaction by simp
qed (use no_reaction in \<open>simp_all add: processed_event_handler_def del: lower_react.simps\<close>)

lemma answer_view:
  "lower_react (LowerProofOf i caller p) (lowers_view w) (lowers_view (snd (token_lower_proof_result i caller p w)))"
proof (cases "alist_get i (lowers_pending_proof w)")
  case None
  then have "i \<notin> lv_pending (lowers_view w)"
    by (simp add: lowers_view_def alist_get_None)
  then show ?thesis
    using None by (simp add: token_lower_proof_result_def)
next
  case (Some params)
  then have "i \<in> lv_pending (lowers_view w)"
    using alist_get_mem by (force simp: lowers_view_def)
  then show ?thesis
    using Some by (simp add: token_lower_proof_result_def Let_def removed_view split: sum.split)
qed

interpretation token_client: bridge_client "token_bridge B later tell T" lowers_view lower_react for B later tell T
proof
  show "lower_react (ResultOf i caller ok) (lowers_view w)
      (lowers_view (snd (process_result (token_bridge B later tell T) i caller ok w)))" for i caller ok w
    by (simp add: token_bridge_def split_beta)
  show "lower_react (LowerProofOf i caller p) (lowers_view w)
      (lowers_view (snd (process_lower_proof_result (token_bridge B later tell T) i caller p w)))" for i caller p w
    using answer_view by (simp add: token_bridge_def split_beta del: lower_react.simps)
  show "lower_react (Incoming ev) (lowers_view w)
      (lowers_view (snd (on_incoming_event_processed (token_bridge B later tell T) ev w)))" for ev w
    using handler_view [of ev "put_rest (snd (on_incoming_event_processed B ev (get_rest w))) w" T]
      no_reaction [of ev "lowers_view w"]
    by (simp add: token_bridge_def incoming_in_order_def split_beta del: lower_react.simps split: option.split)
  show "lowers_view (report_offence (token_bridge B later tell T) who offence w) = lowers_view w" for who offence w
    by (simp add: token_bridge_def)
qed

section \<open>What the calls do to the view\<close>

lemma apart_moves:
  assumes "apart xs P R F A n"
  shows "apart xs P R F (A @ [n]) (Suc n)"
    "i \<in> R \<Longrightarrow> apart (xs @ [i]) (insert i P) (R - {i}) F A n"
    "i \<in> F \<Longrightarrow> apart (xs @ [i]) (insert i P) R (F - {i}) A n"
    "i < n \<Longrightarrow> i \<notin> set A \<union> P \<union> R \<union> F \<Longrightarrow> apart (xs @ [i]) (insert i P) R F A n"
  using assms by (auto simp: apart_def less_Suc_eq)

lemma apart_taken:
  assumes "apart xs P R F A n" "k < length A"
  shows "apart xs P R F (remove_at k A) n" "apart (xs @ [A ! k]) (insert (A ! k) P) R F (remove_at k A) n"
proof -
  have split: "A = take k A @ A ! k # drop (Suc k) A"
    using assms(2) by (rule remove_at_split)
  have rem: "remove_at k A = take k A @ drop (Suc k) A"
    by (simp add: remove_at_def)
  have set: "set A = insert (A ! k) (set (remove_at k A))"
    unfolding rem by (subst split) auto
  have dist: "distinct A = (distinct (remove_at k A) \<and> A ! k \<notin> set (remove_at k A))"
    unfolding rem by (subst split) auto
  show "apart xs P R F (remove_at k A) n" "apart (xs @ [A ! k]) (insert (A ! k) P) R F (remove_at k A) n"
    using assms(1) unfolding apart_def set dist by auto
qed

lemma asked_view:
  "with_world (request_lower_proof (wired_tokens T) i p TOKEN_PALLET_ID) w = Inr w' \<longleftrightarrow>
     w' = w\<lparr>tok_world := (tok_world w)\<lparr>outbox := outbox (tok_world w) @ [(i, p, TOKEN_PALLET_ID)]\<rparr>\<rparr>"
  by (auto simp: with_world_def wired_tokens_def)

lemma request_view:
  "lowers_view (w\<lparr>lowers_pending_proof := alist_insert i p (lowers_pending_proof w),
       tok_world := (tok_world w)\<lparr>outbox := outbox (tok_world w) @ [x]\<rparr>\<rparr>) =
     (lowers_view w)\<lparr>lv_pending := insert i (lv_pending (lowers_view w)), lv_outbox := lv_outbox (lowers_view w) @ [x]\<rparr>"
  "lowers_view (w\<lparr>failed_lower_proofs := alist_remove i (failed_lower_proofs w)\<rparr>) =
     (lowers_view w)\<lparr>lv_failed := lv_failed (lowers_view w) - {i}\<rparr>"
  by (simp_all add: lowers_view_def alist_insert_keys alist_remove_keys_of)

lemma schedule_lower_view:
  assumes "schedule_lower (wired_tokens T) src dst t n t1 nonce w = Inr w'" "lower_nonce w < u32_max"
  shows "lowers_view w' = (lowers_view w)\<lparr>lv_agenda := lv_agenda (lowers_view w) @ [lv_nonce (lowers_view w)],
    lv_nonce := Suc (lv_nonce (lowers_view w))\<rparr>"
  using assms wrapping_add32_exact [of "lower_nonce w" 1]
  by (auto simp: schedule_lower_def Let_def with_world_def wired_tokens_def lowers_view_def token_event_deposit_def)

lemma schedule_lower_ok:
  assumes "schedule_lower (wired_tokens T) src dst t n t1 nonce w = Inr w'" "lower_nonce w < u32_max"
    "lowers_ok us (lowers_view w)"
  shows "lowers_ok us (lowers_view w')"
  using schedule_lower_view [OF assms(1,2)] assms(3) apart_moves(1) by (auto simp: lowers_ok_def)

lemma settle_lower_view:
  assumes "settle_lower (wired_tokens T) t src dst n t1 i w = Inr w'"
  shows "\<exists>p. lowers_view w' = (lowers_view w)\<lparr>lv_pending := insert i (lv_pending (lowers_view w)),
    lv_outbox := lv_outbox (lowers_view w) @ [(i, p, TOKEN_PALLET_ID)]\<rparr>"
proof -
  obtain w1 p e where w1: "debit_user_balance (wired_tokens T) t src n w = Inr w1"
    and w': "with_world (request_lower_proof (wired_tokens T) i p TOKEN_PALLET_ID)
      (token_event_deposit e w1\<lparr>lowers_pending_proof := alist_insert i p (lowers_pending_proof (token_event_deposit e w1))\<rparr>) =
      Inr w'"
    using assms unfolding settle_lower_def Let_def by auto
  have "lowers_view w' = (lowers_view w1)\<lparr>lv_pending := insert i (lv_pending (lowers_view w1)),
      lv_outbox := lv_outbox (lowers_view w1) @ [(i, p, TOKEN_PALLET_ID)]\<rparr>"
    using w' request_view(1) [where w = "token_event_deposit e w1" and i = i and p = p] unfolding asked_view by simp
  then show ?thesis
    using debit_view [OF w1] by auto
qed

lemma regenerate_proof_view:
  assumes "regenerate_proof (wired_tokens T) i p w = Inr w'"
  shows "lowers_view w' = (lowers_view w)\<lparr>lv_pending := insert i (lv_pending (lowers_view w)),
    lv_outbox := lv_outbox (lowers_view w) @ [(i, p, TOKEN_PALLET_ID)]\<rparr>"
  using assms request_view(1) [where w = w and i = i and p = p] unfolding regenerate_proof_def asked_view by simp

lemma alist_get_key: "alist_get k xs = Some v \<Longrightarrow> k \<in> fst ` set xs"
  using alist_get_None [of k xs] by simp

lemma regenerate_lower_proof_ok:
  assumes "regenerate_lower_proof (wired_tokens T) origin i w = Inr w'" "lowers_ok us (lowers_view w)"
  shows "lowers_ok us (lowers_view w')"
proof (cases "alist_get i (lowers_ready_to_claim w)")
  case (Some d)
  let ?w0 = "w\<lparr>lowers_ready_to_claim := alist_remove i (lowers_ready_to_claim w)\<rparr>"
  obtain w1 e where w1: "regenerate_proof (wired_tokens T) i (lpd_params d) ?w0 = Inr w1"
    "w' = token_event_deposit e w1"
    using assms(1) Some by (auto simp: regenerate_lower_proof_def)
  have "i \<in> lv_ready (lowers_view w)"
    using alist_get_key [OF Some] by (simp add: lowers_view_def)
  then show ?thesis
    using assms(2) regenerate_proof_view [OF w1(1)] apart_moves(2) [of "us @ map fst (lv_outbox (lowers_view w))"]
    by (auto simp: w1(2) lowers_ok_def removed_view)
next
  case None
  obtain p where p: "alist_get i (failed_lower_proofs w) = Some p"
    using assms(1) None by (cases "alist_get i (failed_lower_proofs w)") (auto simp: regenerate_lower_proof_def)
  let ?w0 = "w\<lparr>failed_lower_proofs := alist_remove i (failed_lower_proofs w)\<rparr>"
  obtain w1 e where w1: "regenerate_proof (wired_tokens T) i p ?w0 = Inr w1" "w' = token_event_deposit e w1"
    using assms(1) None p by (auto simp: regenerate_lower_proof_def)
  have "i \<in> lv_failed (lowers_view w)"
    using alist_get_key [OF p] by (simp add: lowers_view_def)
  then show ?thesis
    using assms(2) regenerate_proof_view [OF w1(1)] apart_moves(3) [of "us @ map fst (lv_outbox (lowers_view w))"]
    by (auto simp: w1(2) lowers_ok_def request_view(2))
qed

lemma settle_lower_ok:
  assumes "settle_lower (wired_tokens T) t src dst n t1 i w = Inr w'" "lowers_ok us (lowers_view w)"
    "free_number (lowers_view w) i"
  shows "lowers_ok us (lowers_view w')"
  using settle_lower_view [OF assms(1)] assms(2,3)
    apart_moves(4) [of "us @ map fst (lv_outbox (lowers_view w))"]
  by (auto simp: lowers_ok_def free_number_def)

lemma token_dispatch_ok:
  assumes "token_dispatch (wired_tokens T) origin call w = Inr w'" "lower_nonce w < u32_max"
    "lowers_ok us (lowers_view w)"
    "\<And>c. origin = Root \<Longrightarrow> call = ExecuteLower c \<Longrightarrow> free_number (lowers_view w) (lc_lower_id c)"
  shows "lowers_ok us (lowers_view w')"
  using assms(1,4)
proof (induction call arbitrary: origin w')
  case (Proxy call)
  then obtain w1 signer relayer h where
    "token_dispatch (wired_tokens T) (Signed signer) call w = Inr w1"
    "w' = token_event_deposit (CallDispatched relayer h) w1"
    by auto
  then show ?case
    using Proxy.IH [of "Signed signer" w1] by simp
next
  case (ExecuteLower c)
  then have "origin = Root"
    by (cases origin) (auto simp: execute_lower_def root_only_def)
  then show ?case
    using ExecuteLower settle_lower_ok assms(3) by (auto simp: execute_lower_def)
next
  case (TransferFromTreasury dst n)
  then show ?case
    using assms(3) by (auto simp: transfer_from_treasury_def wired_tokens_def dest!: with_wire_view)
qed (use assms(2,3) in \<open>auto simp: call_defs dest: settle_transfer_view schedule_lower_ok regenerate_lower_proof_ok\<close>)

section \<open>Asking the bridge\<close>

lemma generate_lower_proof_owed:
  assumes "generate_lower_proof C i p TOKEN_PALLET_ID s = Inr s'" "fifo s"
  shows "owed s' = owed s @ [i]" "bridge_world s' = bridge_world s"
proof -
  let ?req = "\<lparr>lower_id = i, proof_params = p, proof_caller_id = TOKEN_PALLET_ID\<rparr>"
  obtain s1 where s1: "(if active_request s \<noteq> None then queue_request C (LowerProof ?req) s
        else set_up_active_lower_proof C ?req s) = Inr s1"
    and s': "s' = bridge_event_deposit (LowerProofRequested i p TOKEN_PALLET_ID) s1"
    using assms(1) by (auto simp: generate_lower_proof_def add_new_lower_proof_request_def Let_def)
  have "accepted_request (ident (LowerProof ?req)) s s1"
    using s1 queued_is_accepted [of C "LowerProof ?req" s s1]
      set_up_active_lower_proof_effect [of C ?req s s1] set_up_is_accepted [of s1 _ "LowerProof ?req" s] assms(2)
    by (fastforce split: if_splits)
  then have "in_hand s1 @ waiting s1 = in_hand s @ waiting s @ [(False, i, TOKEN_PALLET_ID)]"
    by (simp add: accepted_request_def)
  from arg_cong [OF this, of mine] show "owed s' = owed s @ [i]"
    by (simp add: owed_def s' bridge_event_deposit_def in_hand_def waiting_def queued_def)
  show "bridge_world s' = bridge_world s"
    using s1 by (auto simp: s' bridge_event_deposit_def queue_request_def set_up_active_lower_proof_def Let_def
        split: if_splits)
qed

lemma requests_owed:
  assumes "try_fold (\<lambda>(i, p, caller). generate_lower_proof C i p caller) xs s = Inr s'" "fifo s"
    "\<forall>(i, p, caller)\<in>set xs. caller = TOKEN_PALLET_ID"
  shows "fifo s' \<and> owed s' = owed s @ map fst xs \<and> bridge_world s' = bridge_world s"
  using assms
proof (induction xs arbitrary: s)
  case (Cons x xs)
  obtain i p where x: "x = (i, p, TOKEN_PALLET_ID)"
    using Cons.prems(3) by (cases x) auto
  obtain s1 where s1: "generate_lower_proof C i p TOKEN_PALLET_ID s = Inr s1"
    and rest: "try_fold (\<lambda>(i, p, caller). generate_lower_proof C i p caller) xs s1 = Inr s'"
    using Cons.prems(1) x by auto
  show ?case
    using Cons.IH [OF rest generate_lower_proof_fifo [OF s1 Cons.prems(2)]] Cons.prems(3)
      generate_lower_proof_owed [OF s1 Cons.prems(2)] x by simp
qed simp

section \<open>The invariant of the runtime\<close>

definition runtime_ok :: "'v lower_world tokens bridge \<Rightarrow> bool" where
  "runtime_ok s \<longleftrightarrow> fifo s \<and> lowers_ok (owed s) (lowers_view (bridge_world s)) \<and>
     lv_outbox (lowers_view (bridge_world s)) = []"

lemma owed_world [simp]: "owed (s\<lparr>bridge_world := w\<rparr>) = owed s"
  by (simp add: owed_def queue_views)

lemma commit_ok:
  assumes "commit C w s = Inr s'" "fifo s" "lowers_ok (owed s) (lowers_view w)"
  shows "runtime_ok s'"
proof -
  have "\<forall>(i, p, caller)\<in>set (outbox (tok_world w)). caller = TOKEN_PALLET_ID"
    using assms(3) by (simp add: lowers_ok_def lowers_view_def)
  note asked = requests_owed [OF assms(1) [unfolded commit_def] _ this]
  have "lowers_ok (owed s @ map fst (outbox (tok_world w)))
      (lowers_view (w\<lparr>tok_world := (tok_world w)\<lparr>outbox := []\<rparr>\<rparr>))"
    using assms(3) by (simp add: lowers_ok_def lowers_view_def)
  then show ?thesis
    using asked assms(2) by (simp add: runtime_ok_def lowers_view_def)
qed

lemma committed_ok:
  assumes "runtime_ok s" "\<And>w. r = Inr w \<Longrightarrow> lowers_ok (owed s) (lowers_view w)"
  shows "runtime_ok (committed C r s)"
  using assms commit_ok [of C _ s]
  by (auto simp: committed_def kept_or_def runtime_ok_def split: sum.splits)

lemma run_scheduled_ok:
  assumes "runtime_ok s"
  shows "runtime_ok (run_scheduled C T k s)"
proof (cases "k < length (agenda (tok_world (bridge_world s)))")
  case True
  let ?w = "bridge_world s" and ?v = "lowers_view (bridge_world s)"
  let ?calls = "agenda (tok_world ?w)"
  let ?w1 = "?w\<lparr>tok_world := (tok_world ?w)\<lparr>agenda := remove_at k ?calls\<rparr>\<rparr>"
  let ?s1 = "s\<lparr>bridge_world := ?w1\<rparr>"
  have ok: "lowers_ok (owed s) ?v" and out: "lv_outbox ?v = []" and "fifo s"
    using assms by (simp_all add: runtime_ok_def)
  have view1: "lowers_view ?w1 = ?v\<lparr>lv_agenda := remove_at k (lv_agenda ?v)\<rparr>"
    by (simp add: lowers_view_def remove_at_def take_map drop_map)
  have k: "k < length (lv_agenda ?v)" "lv_agenda ?v ! k = lc_lower_id (?calls ! k)"
    using True by (simp_all add: lowers_view_def)
  have taken: "apart (owed s) (lv_pending ?v) (lv_ready ?v) (lv_failed ?v) (lv_agenda ?v) (lv_nonce ?v)"
    using ok out by (simp add: lowers_ok_def)
  have s1: "runtime_ok ?s1"
    using apart_taken(1) [OF taken k(1)] \<open>fifo s\<close> out view1 by (simp add: runtime_ok_def lowers_ok_def)
  have "lowers_ok (owed ?s1) (lowers_view w2)"
    if "execute_lower (wired_tokens T) Root (?calls ! k) ?w1 = Inr w2" for w2
  proof -
    have "settle_lower (wired_tokens T) (lc_token (?calls ! k)) (lc_from (?calls ! k)) (lc_to (?calls ! k))
        (lc_amount (?calls ! k)) (lc_recipient (?calls ! k)) (lc_lower_id (?calls ! k)) ?w1 = Inr w2"
      using that by (simp add: execute_lower_def)
    from settle_lower_view [OF this] show ?thesis
      using apart_taken(2) [OF taken k(1)] out view1 k(2) by (auto simp: lowers_ok_def)
  qed
  from committed_ok [OF s1 this] show ?thesis
    using True by (simp add: run_scheduled_def Let_def)
qed (use assms in \<open>simp add: run_scheduled_def Let_def\<close>)

lemma service_view:
  assumes "wired_step (TokenService act)"
  shows "lowers_view (token_do (wired_tokens T) act w) = lowers_view w"
proof (cases act)
  case (Dust n)
  then show ?thesis
    by (auto simp: handle_dust_def wired_tokens_def wire_Inr split: sum.split)
qed (use assms in \<open>auto simp: done_or_def pay_recipient_def pay_treasury_def process_token_deposit_def
      dest!: settle_transfer_view credit_view split: sum.splits\<close>)

lemma bridge_step_ok:
  assumes "runtime_ok s" "wired_step (BridgeStep act)"
  shows "runtime_ok (bridge_do (token_bridge B later tell T) act s)"
proof -
  have "follows lowers_view lower_react s (bridge_do (token_bridge B later tell T) act s)"
    using assms(2) by (intro token_client.follows_step) auto
  from follows_ok [OF this] bridge_do_fifo assms(1) show ?thesis
    by (auto simp: runtime_ok_def)
qed

lemma runtime_do_ok:
  assumes "runtime_ok s" "wired_step act" "keeps_numbers act s" "lower_nonce (bridge_world s) < u32_max"
  shows "runtime_ok (runtime_do (token_bridge B later tell T) T act s)"
proof (cases act)
  case (TokenTx origin call)
  have "lowers_ok (owed s) (lowers_view w)"
    if "token_dispatch (wired_tokens T) origin call (bridge_world s) = Inr w" for w
    using assms(1,3) TokenTx by (intro token_dispatch_ok [OF that assms(4)]) (auto simp: runtime_ok_def)
  from committed_ok [OF assms(1) this] show ?thesis
    using TokenTx by simp
next
  case (TokenService a)
  then show ?thesis
    using assms service_view [of a T "bridge_world s"] by (simp add: runtime_ok_def)
next
  case (OthersDo v)
  then show ?thesis
    using assms(1) by (simp add: runtime_ok_def)
qed (use assms in \<open>simp_all add: bridge_step_ok run_scheduled_ok\<close>)

lemma runtime_start_ok:
  assumes "bridge_genesis lifetime first_id rsize inst a
      (token_genesis lower_account avt period bs \<lparr>agenda = [], outbox = [], rest_of = v\<rparr>) = Inr s"
  shows "runtime_ok s"
  using genesis_fifo [OF assms] assms
  by (auto simp: runtime_ok_def bridge_genesis_def token_genesis_def lowers_view_def lowers_ok_def apart_def
      owed_def queue_views)

lemma runtime_run_ok: "runtime_run (token_bridge B later tell T) T keeps_numbers s \<Longrightarrow> runtime_ok s"
  by (induction rule: runtime_run.induct) (auto intro: runtime_start_ok runtime_do_ok)

text \<open>The restriction is needed: when Root executes a lower whose number is pending, the bridge owes
  two answers for one entry.\<close>

lemma root_can_ask_twice:
  assumes "runtime_ok s" "i \<in> set (owed s)" "lc_lower_id c = i"
    and "execute_lower (wired_tokens T) Root c (bridge_world s) = Inr w" "commit C w s = Inr s'"
  shows "\<not> distinct (owed s')"
proof -
  have "settle_lower (wired_tokens T) (lc_token c) (lc_from c) (lc_to c) (lc_amount c) (lc_recipient c) i
      (bridge_world s) = Inr w"
    using assms(3,4) by (simp add: execute_lower_def)
  from settle_lower_view [OF this] obtain p where
    "lv_outbox (lowers_view w) = lv_outbox (lowers_view (bridge_world s)) @ [(i, p, TOKEN_PALLET_ID)]"
    by auto
  then have out: "outbox (tok_world w) = [(i, p, TOKEN_PALLET_ID)]"
    using assms(1) by (simp add: runtime_ok_def lowers_view_def)
  have "owed s' = owed s @ [i]"
    using requests_owed [OF assms(5) [unfolded commit_def]] assms(1) by (simp add: out runtime_ok_def)
  then show ?thesis
    using assms(2) by simp
qed

end
