(* ===== verification/Token_Properties.thy ===== *)
theory Token_Properties
  imports Eth_Lowering Eth_Demo
begin

text \<open>
  The properties of the token manager, and of the token manager and the bridge together, with
  witnesses on a small configuration: token 7 is kept by the pallet, token 1 by the asset
  manager, whose deposits fail, and every other service succeeds and does nothing.
\<close>

section \<open>A small configuration\<close>

definition small_tokens :: "unit token_config" where
  "small_tokens =
     \<lparr>asset_id = (\<lambda>t _. if t = 1 then Some 0 else None),
      asset_transfer = (\<lambda>_ _ _ _. Inr), asset_deposit = (\<lambda>_ _ _ _. Inl ''deposit''), asset_withdraw = (\<lambda>_ _ _. Inr),
      currency_transfer = (\<lambda>_ _ _. Inr), currency_deposit = (\<lambda>_ _. Inr),
      currency_free = (\<lambda>_ _. 0), currency_minimum = 0,
      event_exists = (\<lambda>_ _. True), decode_account = Some, account_bytes = id,
      verify_token_signature = (\<lambda>pf p. p = TransferPayload (proof_relayer pf) 10 20 7 5 (proof_signature pf)),
      treasury_account = 99, treasury_growth_share = (\<lambda>n. n div 2), growth_handler = (\<lambda>_ _ w. (None, w)),
      schedule_name_of = id, bound_preimage = (\<lambda>_. Some), schedule_named = (\<lambda>_ _ _. Inr),
      request_lower_proof = (\<lambda>_ _ _. Inr), now_secs = (\<lambda>_. 3), hash_of_call = (\<lambda>_. 0)\<rparr>"

definition small_token_start :: "unit tokens" where
  "small_token_start = token_genesis 0 4 2 [(7, 10, 100)] ()"

definition lift_event :: eth_event where
  "lift_event = \<lparr>event_id = \<lparr>id_signature = 0, transaction_hash = 77\<rparr>,
     event_data_of = LogLifted \<lparr>token_contract = 7, sender_address = 0, receiver_address = 20, lift_amount = 50, lift_nonce = 0\<rparr>\<rparr>"

definition small_lower :: lower_call where
  "small_lower = \<lparr>lc_from = 10, lc_to = 0, lc_token = 7, lc_amount = 30, lc_recipient = 5, lc_lower_id = 0\<rparr>"

definition claim_event :: eth_event where
  "claim_event = \<lparr>event_id = \<lparr>id_signature = 0, transaction_hash = 78\<rparr>,
     event_data_of = LogLowerClaimed \<lparr>claimed_lower_id = 0\<rparr>\<rparr>"

definition after_lower :: "unit tokens" where
  "after_lower = token_do small_tokens (TokenCall Root (ExecuteLower small_lower))
     (token_do small_tokens (EthereumEvent lift_event) small_token_start)"

definition after_claim :: "unit tokens" where
  "after_claim = token_do small_tokens (EthereumEvent claim_event)
     (token_do small_tokens (LowerProofAnswer 0 TOKEN_PALLET_ID (Inr [1, 2])) after_lower)"

text \<open>The states, field by field.\<close>

definition small_params :: lower_params where
  "small_params = concat_lower_data 0 7 30 5 10 3"

lemmas token_eval = small_tokens_def small_token_start_def token_genesis_def u128_to_token_balance_def u128_max_def
  handled_by_def done_or_def credit_user_balance_def debit_user_balance_def mint_unknown_token_def
  burn_unknown_token_def checked_add128_def checked_sub128_def is_native_token_def tok_balance_def
  set_tok_balance_def token_event_deposit_def with_world_def decode_recipient_def

lemma after_lift_eq:
  "token_do small_tokens (EthereumEvent lift_event) small_token_start =
     small_token_start\<lparr>tok_balances := [((7, 10), 100), ((7, 20), 50)], tok_events := [TokenLifted 7 20 50 77]\<rparr>"
  by (simp add: token_eval processed_event_handler_def lift_event_def process_lift_def)

lemma after_lower_eq:
  "after_lower = small_token_start\<lparr>tok_balances := [((7, 10), 70), ((7, 20), 50)],
     lowers_pending_proof := [(0, small_params)], tok_events := [TokenLifted 7 20 50 77, TokenLowered 7 10 0 30 5 0]\<rparr>"
  unfolding after_lower_def after_lift_eq
  by (simp add: token_eval execute_lower_def settle_lower_def small_lower_def small_params_def Let_def)

lemma after_proof_eq:
  "token_do small_tokens (LowerProofAnswer 0 TOKEN_PALLET_ID (Inr [1, 2])) after_lower =
     after_lower\<lparr>lowers_pending_proof := [], lowers_ready_to_claim := [(0, \<lparr>lpd_params = small_params, encoded_lower_data = [1, 2]\<rparr>)],
       tok_events := tok_events after_lower @ [LowerReadyToClaim 0]\<rparr>"
  by (simp add: after_lower_eq token_lower_proof_result_def LowerDataLimit_def alist_remove_def
      small_token_start_def token_genesis_def token_event_deposit_def)

lemma after_claim_eq:
  "after_claim = after_lower\<lparr>lowers_pending_proof := [], lowers_ready_to_claim := [],
     tok_events := tok_events after_lower @ [LowerReadyToClaim 0, AvtLowerClaimed 0]\<rparr>"
  unfolding after_claim_def after_proof_eq
  by (simp add: processed_event_handler_def claim_event_def process_lower_claim_def remove_used_lower_def
      small_tokens_def handled_by_def alist_remove_def token_event_deposit_def)

lemma after_lower_run: "token_run small_tokens small_token_start after_lower"
  unfolding after_lower_def by (intro token_run.intros)

lemma after_claim_run: "token_run small_tokens small_token_start after_claim"
  unfolding after_claim_def by (intro token_run.step after_lower_run)

section \<open>Tokens\<close>

text \<open>C25: no token the pallet keeps itself is created or lost: in every state of a run from genesis,
  the balances of a token that the registry does not know add up to those of the genesis, plus
  what the pallet's events say was lifted, deposited and refunded, minus what they say was
  lowered. Handlers that fail half-way included.\<close>

theorem tokens_conserved:
  assumes "token_run C (token_genesis lower_account avt period bs w) s" "\<forall>w. asset_id C t w = None"
  shows "supply_of t s + burned t s = supply_of t (token_genesis lower_account avt period bs w) + minted t s"
proof -
  let ?g = "token_genesis lower_account avt period bs w"
  have "net t s = net t ?g"
    using token_run_net [OF assms(1)] assms(2) by (simp add: unregistered_def)
  moreover have "minted t ?g = 0" "burned t ?g = 0"
    by (simp_all add: minted_def burned_def token_genesis_def)
  ultimately show ?thesis
    by (simp add: net_def)
qed

theorem tokens_conserved_witness:
  "supply_of 7 after_lower = 120 \<and> minted 7 after_lower = 50 \<and> burned 7 after_lower = 30 \<and>
   supply_of 7 after_lower + burned 7 after_lower = supply_of 7 small_token_start + minted 7 after_lower"
proof -
  have "supply_of 7 after_lower + burned 7 after_lower = supply_of 7 small_token_start + minted 7 after_lower"
    unfolding small_token_start_def
    by (rule tokens_conserved [OF after_lower_run [unfolded small_token_start_def]]) (simp add: small_tokens_def)
  moreover have "supply_of 7 after_lower = 120" "minted 7 after_lower = 50" "burned 7 after_lower = 30"
    by (simp_all add: after_lower_eq supply_of_def minted_def burned_def)
  ultimately show ?thesis
    by simp
qed

text \<open>C26: a lower is claimed or refunded no more often than it was executed, in every run of the
  pallet: what has been settled, and the lower's entries among the pending, the ready and the
  failed proofs, are covered by the events of its execution.\<close>

theorem lower_settled_once:
  assumes "token_run C (token_genesis lower_account avt period bs w) s"
  shows "times_settled i s + held i s \<le> times_lowered i s"
proof -
  have "slack i (token_genesis lower_account avt period bs w) = 0"
    by (simp add: slack_def times_lowered_def times_settled_def held_def token_genesis_def)
  then show ?thesis
    using token_run_slack [OF assms, of i] by (simp add: slack_def)
qed

theorem lower_settled_once_witness:
  "times_settled 0 after_claim = 1 \<and> times_settled 0 after_claim + held 0 after_claim \<le> times_lowered 0 after_claim"
proof
  show "times_settled 0 after_claim = 1"
    by (simp add: after_claim_eq after_lower_eq times_settled_def)
  show "times_settled 0 after_claim + held 0 after_claim \<le> times_lowered 0 after_claim"
    by (rule lower_settled_once [OF after_claim_run [unfolded small_token_start_def]])
qed

text \<open>a signed transfer or a signed lower succeeds only for the account it is taken from, with a
  proof that is good for that account's current nonce, which it moves on by one modulo \<open>2^64\<close>; when a
  proof is good for one payload only, the same call is refused afterwards.\<close>

theorem signed_token_call_once:
  assumes "token_proof k = Some (pf, who, payload)" "token_dispatch C origin k s = Inr s'"
    and "\<And>p q. verify_token_signature C pf p \<Longrightarrow> verify_token_signature C pf q \<Longrightarrow> p = q"
    and "tok_nonces s who < 2 ^ 64"
  shows "origin = Signed who \<and> verify_token_signature C pf (payload (tok_nonces s who)) \<and>
    tok_nonces s' = (tok_nonces s)(who := (tok_nonces s who + 1) mod 2 ^ 64) \<and>
    (\<exists>e. token_dispatch C origin' k s' = Inl e)"
  using token_signed.accepted [OF assms(1,2)] token_signed.not_replayed [OF assms] by blast

theorem signed_token_call_once_witness:
  "let k = SignedTransfer \<lparr>proof_signer = 10, proof_relayer = 3, proof_signature = 0\<rparr> 10 20 7 5 in
   \<exists>s' e. token_dispatch small_tokens (Signed 10) k small_token_start = Inr s' \<and> tok_nonces s' 10 = 1 \<and>
     token_dispatch small_tokens (Signed 10) k s' = Inl e"
proof -
  let ?pf = "\<lparr>proof_signer = 10, proof_relayer = 3, proof_signature = 0\<rparr>"
  let ?k = "SignedTransfer ?pf 10 20 7 5"
  obtain s' where s': "token_dispatch small_tokens (Signed 10) ?k small_token_start = Inr s'"
    by (simp add: signed_transfer_def encode_signed_transfer_params_def settle_transfer_def small_tokens_def
        small_token_start_def token_genesis_def is_native_token_def tok_balance_def set_tok_balance_def
        u128_to_token_balance_def checked_sub128_def checked_add128_def u128_max_def Let_def)
  have "Signed 10 = Signed 10 \<and> verify_token_signature small_tokens ?pf
        (encode_signed_transfer_params ?pf 10 20 7 5 (tok_nonces small_token_start 10)) \<and>
      tok_nonces s' = (tok_nonces small_token_start)(10 := (tok_nonces small_token_start 10 + 1) mod 2 ^ 64) \<and>
      (\<exists>e. token_dispatch small_tokens (Signed 10) ?k s' = Inl e)"
    by (rule signed_token_call_once [OF _ s'])
      (simp_all add: small_tokens_def small_token_start_def token_genesis_def)
  then show ?thesis
    using s' by (auto simp: small_token_start_def token_genesis_def)
qed

section \<open>Refunds\<close>

definition after_proof :: "unit tokens" where
  "after_proof = token_do small_tokens (LowerProofAnswer 0 TOKEN_PALLET_ID (Inr [1, 2])) after_lower"

lemma after_proof_fields:
  "alist_get 0 (lowers_ready_to_claim after_proof) \<noteq> None" "alist_get 0 (failed_lower_proofs after_proof) = None"
  "\<not> lowers_disabled after_proof" "alist_get 0 (lowers_pending_proof after_proof) = None"
  unfolding after_proof_def after_proof_eq
  by (simp_all add: after_lower_eq small_token_start_def token_genesis_def)

text \<open>C39: a refund whose credit fails is lost. When a lower that is ready to claim is reverted on Ethereum
  and the sender cannot be credited, for whatever reason, the handler fails with that error, but the
  lower has been removed all the same: balances, the other pallets and the other lowers are as before,
  and after it the lower can be neither claimed nor refunded by any event, nor can a new proof be
  made for it or stored. (The lower is in none of the other two maps, as holds in every run.)\<close>

theorem failed_refund_is_lost:
  assumes "alist_get i (lowers_ready_to_claim s) \<noteq> None"
    and "alist_get i (failed_lower_proofs s) = None" "alist_get i (lowers_pending_proof s) = None"
    and "event_data_of ev = LogLowerReverted d" "reverted_lower_id d = i" "reverted_amount d \<noteq> 0"
    and "event_exists C (event_id ev) (tok_world s)" "decode_account C (reverted_receiver d) = Some who"
    and "s' = s\<lparr>lowers_ready_to_claim := alist_remove i (lowers_ready_to_claim s)\<rparr>"
    and "credit_user_balance C (reverted_token d) who (reverted_amount d) s' = Inl e"
  shows "processed_event_handler C ev s = (Some e, s') \<and>
    (\<forall>ev' d'. event_data_of ev' = LogLowerClaimed d' \<and> claimed_lower_id d' = i \<longrightarrow>
       fst (processed_event_handler C ev' s') \<noteq> None \<and> snd (processed_event_handler C ev' s') = s') \<and>
    (\<forall>ev' d'. event_data_of ev' = LogLowerReverted d' \<and> reverted_lower_id d' = i \<longrightarrow>
       fst (processed_event_handler C ev' s') \<noteq> None \<and> snd (processed_event_handler C ev' s') = s') \<and>
    (\<forall>origin. \<exists>err. token_dispatch C origin (RegenerateLowerProof i) s' = Inl err) \<and>
    (\<forall>caller proof_data. token_lower_proof_result i caller proof_data s' = (None, s'))"
proof (intro conjI allI impI)
  have gone: "alist_get i (lowers_ready_to_claim s') = None" "alist_get i (failed_lower_proofs s') = None"
    "alist_get i (lowers_pending_proof s') = None"
    using assms(2,3) by (simp_all add: assms(9) alist_get_remove)
  show "processed_event_handler C ev s = (Some e, s')"
    using assms(1,4-8,10)
    by (auto simp: processed_event_handler_def process_lower_reverted_def remove_used_lower_def decode_recipient_def
        simp flip: assms(9))
  show "fst (processed_event_handler C ev' s') \<noteq> None" "snd (processed_event_handler C ev' s') = s'"
    if "event_data_of ev' = LogLowerClaimed d' \<and> claimed_lower_id d' = i" for ev' d'
    using that gone(1) by (simp_all add: processed_event_handler_def process_lower_claim_def remove_used_lower_def
        handled_by_def ensure_def)
  show "fst (processed_event_handler C ev' s') \<noteq> None" "snd (processed_event_handler C ev' s') = s'"
    if "event_data_of ev' = LogLowerReverted d' \<and> reverted_lower_id d' = i" for ev' d'
    using that gone(1) by (simp_all add: processed_event_handler_def process_lower_reverted_def
        remove_used_lower_def split: sum.split)
  show "\<exists>err. token_dispatch C origin (RegenerateLowerProof i) s' = Inl err" for origin
    using gone by (cases origin) (auto simp: regenerate_lower_proof_def signed_only_def ensure_def)
  show "token_lower_proof_result i caller proof_data s' = (None, s')" for caller proof_data
    using gone(3) by (simp add: token_lower_proof_result_def)
qed

definition revert_known_event :: eth_event where
  "revert_known_event = \<lparr>event_id = \<lparr>id_signature = 0, transaction_hash = 80\<rparr>,
     event_data_of = LogLowerReverted \<lparr>reverted_token = 1, reverted_receiver = 10, reverted_t1_recipient = 5,
       reverted_amount = 30, reverted_lower_id = 0\<rparr>\<rparr>"

definition after_failed_refund :: "unit tokens" where
  "after_failed_refund = after_proof\<lparr>lowers_ready_to_claim := alist_remove 0 (lowers_ready_to_claim after_proof)\<rparr>"

theorem failed_refund_is_lost_witness:
  "processed_event_handler small_tokens revert_known_event after_proof = (Some (PalletErr DepositFailed), after_failed_refund) \<and>
   snd (processed_event_handler small_tokens claim_event after_failed_refund) = after_failed_refund \<and>
   (\<exists>err. token_dispatch small_tokens (Signed 10) (RegenerateLowerProof 0) after_failed_refund = Inl err)"
proof -
  have "event_data_of revert_known_event = LogLowerReverted \<lparr>reverted_token = 1, reverted_receiver = 10,
      reverted_t1_recipient = 5, reverted_amount = 30, reverted_lower_id = 0\<rparr>"
    by (simp add: revert_known_event_def)
  note facts = failed_refund_is_lost [OF after_proof_fields(1,2,4) this, where C = small_tokens and who = 10
      and e = "PalletErr DepositFailed" and s' = after_failed_refund]
  show ?thesis
    using facts by (simp add: after_failed_refund_def small_tokens_def credit_user_balance_def mint_known_token_def
        u128_to_balance_def u128_max_def claim_event_def)
qed

section \<open>The token manager and the bridge\<close>

text \<open>C24: in every run of the token manager, the scheduler and the bridge together in which Root does not
  execute a lower under a number that is unused or still in use (\<open>keeps_numbers\<close>), and as long as the numbers
  of lowers have not been used up: the lowers whose proof is pending are, one for one, the token manager's
  requests that the bridge has in hand or in its queue, so none waits for an answer that will not come;
  and a lower is scheduled, pending, ready to claim or failed, never two of them. The condition on Root
  is needed: \<open>execute_lower\<close> does not check the number it is called with.\<close>

theorem pending_lowers_are_owed:
  assumes "runtime_run (token_bridge B later tell T) T keeps_numbers s"
  shows "let w = bridge_world s; pending = fst ` set (lowers_pending_proof w);
           ready = fst ` set (lowers_ready_to_claim w); failed = fst ` set (failed_lower_proofs w);
           scheduled = map lc_lower_id (agenda (tok_world w)) in
    distinct (owed s) \<and> set (owed s) = pending \<and> distinct scheduled \<and>
    pending \<inter> ready = {} \<and> pending \<inter> failed = {} \<and> ready \<inter> failed = {} \<and>
    set scheduled \<inter> (pending \<union> ready \<union> failed) = {}"
proof -
  let ?v = "lowers_view (bridge_world s)"
  have "apart (owed s) (lv_pending ?v) (lv_ready ?v) (lv_failed ?v) (lv_agenda ?v) (lv_nonce ?v)"
    using runtime_run_ok [OF assms] by (auto simp: runtime_ok_def lowers_ok_def)
  then show ?thesis
    unfolding apart_def lowers_view_def Let_def by (elim conjE) simp
qed

definition runtime_start :: "unit lower_world tokens bridge" where
  "runtime_start = \<lparr>next_tx_id = 7, eth_tx_lifetime_secs = 60, request_queue = None,
     settled_transactions = [], active_request = None, active_ethereum_range = None,
     ethereum_events = [], submitted_eth_blocks = [], eth_block_range_size = 20,
     processed_ethereum_events = [], additional_ethereum_events_queue = [],
     the_instance = small_instance, bridge_avn = small_avn, bridge_block = 0, bridge_time = 0,
     bridge_world = token_genesis 0 4 2 [(7, 10, 100)] \<lparr>agenda = [], outbox = [], rest_of = ()\<rparr>,
     notified = [], deposited = []\<rparr>"

definition small_runtime :: "unit lower_world tokens bridge_config" where
  "small_runtime = token_bridge small_config (\<lambda>_ w. (None, w)) (\<lambda>_. ''failed'') small_tokens"

definition lower_asked :: "unit lower_world tokens bridge" where
  "lower_asked = runtime_do small_runtime small_tokens (TokenTx (Signed 10) (ScheduleDirectLower 10 7 30 5)) runtime_start"

lemma runtime_start_run: "runtime_run small_runtime small_tokens keeps_numbers runtime_start"
  by (rule runtime_run.start [of 60 7 20 small_instance small_avn 0 4 2 "[(7, 10, 100)]" "()"])
    (simp add: bridge_genesis_def runtime_start_def)

definition asked_world :: "unit lower_world tokens" where
  "asked_world = (bridge_world runtime_start)\<lparr>lower_nonce := 1,
     tok_world := \<lparr>agenda = [\<lparr>lc_from = 10, lc_to = 0, lc_token = 7, lc_amount = 30, lc_recipient = 5, lc_lower_id = 0\<rparr>],
       outbox = [], rest_of = ()\<rparr>,
     tok_events := [LowerRequested 7 10 30 5 None 0 0]\<rparr>"

lemma lower_asked_eq: "lower_asked = runtime_start\<lparr>bridge_world := asked_world\<rparr>"
  by (simp add: lower_asked_def asked_world_def committed_def commit_def kept_or_def schedule_direct_lower_def
      schedule_lower_def runtime_start_def token_eval wired_tokens_def wrapping_add32_def Let_def)

definition lower_executed :: "unit lower_world tokens bridge" where
  "lower_executed = runtime_do small_runtime small_tokens (RunScheduled 0) lower_asked"

lemma lower_executed_run: "runtime_run small_runtime small_tokens keeps_numbers lower_executed"
proof -
  have "runtime_run small_runtime small_tokens keeps_numbers lower_asked"
    unfolding lower_asked_def
    by (rule runtime_run.step [OF runtime_start_run]) (simp_all add: runtime_start_def token_genesis_def u32_max_def)
  then show ?thesis
    unfolding lower_executed_def
    by (rule runtime_run.step) (simp_all add: lower_asked_eq asked_world_def u32_max_def)
qed

lemma small_hash:
  "create_lower_proof_hash (\<lambda>d. eip712_hash small_runtime (SolLowerData d)) (concat_lower_data i t n r a ts) domain = Inr 7"
  by (simp add: create_lower_proof_hash_def lower_data_try_from_def concat_lower_data_typed small_runtime_def
      token_bridge_def small_config_def)

lemma token_pallet_id_short: "length TOKEN_PALLET_ID \<le> CallerIdLimit"
  by (simp add: TOKEN_PALLET_ID_def CallerIdLimit_def)

lemma lower_executed_fields:
  "owed lower_executed = [0]" "map fst (lowers_pending_proof (bridge_world lower_executed)) = [0]"
  by (simp_all add: lower_executed_def lower_asked_eq asked_world_def run_scheduled_def committed_def commit_def
      kept_or_def execute_lower_def settle_lower_def runtime_start_def token_eval wired_tokens_def remove_at_def
      Let_def generate_lower_proof_def add_new_lower_proof_request_def token_pallet_id_short
      set_up_active_lower_proof_def small_hash bridge_event_deposit_def owed_def in_hand_def waiting_def queued_def)

theorem pending_lowers_are_owed_witness:
  "owed lower_executed = [0] \<and> set (owed lower_executed) = fst ` set (lowers_pending_proof (bridge_world lower_executed))"
  using pending_lowers_are_owed [OF lower_executed_run [unfolded small_runtime_def]] lower_executed_fields(1)
  by (simp add: Let_def)

text \<open>C27: the proof of a lower is never too long to be stored. With at most as many confirmations as the bridge keeps,
  each a signature of 65 bytes, the token manager accepts the encoded proof: the lower leaves the pending
  ones and is ready to claim with its parameters.\<close>

theorem lower_proof_is_stored:
  assumes "alist_get i (lowers_pending_proof w) = Some p" "lower_id req = i" "proof_caller_id req = TOKEN_PALLET_ID"
    "length (proof_params req) = PACKED_LOWER_V2_PARAMS_SIZE" "length cs \<le> MAX_CONFIRMATIONS" "\<forall>c\<in>set cs. length c = 65"
  shows "\<exists>w'. process_lower_proof_result (token_bridge B later tell T) (lower_id req) (proof_caller_id req)
      (Inr (generate_encoded_lower_proof req cs)) w = (True, w') \<and>
    alist_get i (lowers_pending_proof w') = None \<and>
    alist_get i (lowers_ready_to_claim w') =
      Some \<lparr>lpd_params = p, encoded_lower_data = generate_encoded_lower_proof req cs\<rparr>"
proof -
  have "length (concat cs) = 65 * length cs"
    using assms(6) by (induction cs) auto
  then have "length (generate_encoded_lower_proof req cs) \<le> LowerDataLimit"
    using assms(4,5) by (simp add: generate_encoded_lower_proof_def encode_confirmations_def LowerDataLimit_def
        PACKED_LOWER_V2_PARAMS_SIZE_def MAX_CONFIRMATIONS_def)
  then show ?thesis
    using assms(1-3)
    by (simp add: token_bridge_def token_lower_proof_result_def Let_def token_event_deposit_def
        alist_get_remove alist_get_insert)
qed

definition small_request :: lower_proof_request_data where
  "small_request = \<lparr>lower_id = 0, proof_params = small_params, proof_caller_id = TOKEN_PALLET_ID\<rparr>"

definition lower_waiting :: "unit lower_world tokens" where
  "lower_waiting = (bridge_world runtime_start)\<lparr>lowers_pending_proof := [(0, small_params)]\<rparr>"

theorem lower_proof_is_stored_witness:
  "\<exists>w'. process_lower_proof_result small_runtime 0 TOKEN_PALLET_ID
      (Inr (generate_encoded_lower_proof small_request [replicate 65 1])) lower_waiting = (True, w') \<and>
    alist_get 0 (lowers_ready_to_claim w') =
      Some \<lparr>lpd_params = small_params, encoded_lower_data = generate_encoded_lower_proof small_request [replicate 65 1]\<rparr>"
  using lower_proof_is_stored [of 0 lower_waiting small_params small_request "[replicate 65 1]" small_config
      "\<lambda>_ w. (None, w)" "\<lambda>_. ''failed''" small_tokens]
  by (auto simp: small_runtime_def small_request_def lower_waiting_def small_params_def concat_lower_data_typed
      MAX_CONFIRMATIONS_def)

section \<open>Refunds and new proofs\<close>

lemma regenerate_queued:
  assumes "C = token_bridge B later tell T" "bridge_world s = w" "outbox (tok_world w) = []"
    and "alist_get i (lowers_ready_to_claim w) = Some lower" "\<not> lowers_disabled w"
    and "active_request s \<noteq> None" "length (queued s) < max_queued_tx_requests B"
    and "s1 = runtime_do C T (TokenTx (Signed anybody) (RegenerateLowerProof i)) s"
  shows "owed s1 = owed s @ [i]" "tok_balances (bridge_world s1) = tok_balances w"
    "alist_get i (lowers_ready_to_claim (bridge_world s1)) = None"
proof -
  let ?w1 = "w\<lparr>lowers_ready_to_claim := alist_remove i (lowers_ready_to_claim w),
    lowers_pending_proof := alist_insert i (lpd_params lower) (lowers_pending_proof w)\<rparr>"
  let ?w = "token_event_deposit (RegeneratingLowerProof i anybody) ?w1"
  let ?req = "\<lparr>lower_id = i, proof_params = lpd_params lower, proof_caller_id = TOKEN_PALLET_ID\<rparr>"
  have "token_dispatch (wired_tokens T) (Signed anybody) (RegenerateLowerProof i) w =
      Inr (?w\<lparr>tok_world := (tok_world w)\<lparr>outbox := [(i, lpd_params lower, TOKEN_PALLET_ID)]\<rparr>\<rparr>)"
    using assms(3-5) by (simp add: regenerate_lower_proof_def regenerate_proof_def with_world_def wired_tokens_def
        token_event_deposit_def)
  moreover have "(tok_world w)\<lparr>outbox := []\<rparr> = tok_world w"
    using assms(3) by simp
  moreover have "generate_lower_proof C i (lpd_params lower) TOKEN_PALLET_ID (s\<lparr>bridge_world := ?w\<rparr>) =
      Inr (bridge_event_deposit (LowerProofRequested i (lpd_params lower) TOKEN_PALLET_ID)
        (s\<lparr>bridge_world := ?w, request_queue := Some (queued s @ [LowerProof ?req])\<rparr>))"
    using assms(1,6,7) token_pallet_id_short
    by (simp add: generate_lower_proof_def add_new_lower_proof_request_def queue_request_def queued_def token_bridge_def)
  ultimately have s1: "s1 = bridge_event_deposit (LowerProofRequested i (lpd_params lower) TOKEN_PALLET_ID)
        (s\<lparr>bridge_world := ?w, request_queue := Some (queued s @ [LowerProof ?req])\<rparr>)"
    using assms(2,8) by (simp add: committed_def commit_def kept_or_def token_event_deposit_def)
  show "owed s1 = owed s @ [i]"
    using assms(6) by (simp add: s1 owed_def in_hand_def waiting_def queued_def bridge_event_deposit_def)
  show "tok_balances (bridge_world s1) = tok_balances w" "alist_get i (lowers_ready_to_claim (bridge_world s1)) = None"
    by (simp_all add: s1 bridge_event_deposit_def token_event_deposit_def alist_get_remove)
qed

lemma refund_refused:
  assumes "event_data_of ev = LogLowerReverted d" "reverted_lower_id d = i"
    and "alist_get i (lowers_ready_to_claim (bridge_world s)) = None"
    and "process_ethereum_event (token_bridge B later tell T) eth_net ev s = Inr s'"
  shows "tok_balances (bridge_world s') = tok_balances (bridge_world s)"
    "tok_events (bridge_world s') = tok_events (bridge_world s)"
    "process_ethereum_event (token_bridge B later tell T) eth_net ev s' = Inl EventAlreadyProcessed"
proof -
  let ?C = "token_bridge B later tell T"
  have handled: "\<exists>e. processed_event_handler (wired_tokens T) ev (put_rest v (bridge_world s)) =
      (Some e, put_rest v (bridge_world s))" for v
    using assms(1-3) by (auto simp: processed_event_handler_def process_lower_reverted_def remove_used_lower_def
        put_rest_def wired_tokens_def split: sum.split)
  have told: "\<exists>e v. on_incoming_event_processed ?C ev (bridge_world s) = (Some e, put_rest v (bridge_world s))"
    using handled [of "snd (on_incoming_event_processed B ev (get_rest (bridge_world s)))"]
    by (auto simp: token_bridge_def incoming_in_order_def split_beta split: option.split)
  obtain s1 where s1: "network_add_processed_event eth_net (event_id ev) True s = Inr s1"
    using assms(4) by (auto simp: process_ethereum_event_def)
  have "bridge_world s1 = bridge_world s" "the_instance s1 = the_instance s" "instance_is_valid (the_instance s)"
    "network (the_instance s) = eth_net" "alist_get (transaction_hash (event_id ev)) (processed_ethereum_events s1) \<noteq> None"
    using s1 by (auto simp: network_add_processed_event_def add_processed_event_def Let_def alist_get_insert)
  moreover obtain e v where s': "s' = bridge_event_deposit (EventRejected (event_id ev) (HandlerReason e))
      (s1\<lparr>bridge_world := put_rest v (bridge_world s), notified := notified s1 @ [Incoming ev]\<rparr>)"
    using assms(4) s1 told calculation(1) by (auto simp: process_ethereum_event_def notify_event_def)
  ultimately show "tok_balances (bridge_world s') = tok_balances (bridge_world s)"
    "tok_events (bridge_world s') = tok_events (bridge_world s)"
    "process_ethereum_event ?C eth_net ev s' = Inl EventAlreadyProcessed"
    by (simp_all add: put_rest_def bridge_event_deposit_def process_ethereum_event_def
        network_processed_event_exists_def processed_event_exists_def)
qed

text \<open>C38: anybody can keep a lower from being refunded. While the bridge is busy and its queue has room, any
  signed account can have the proof of a lower that is ready to claim made again: the bridge then owes
  a new proof for it. If the event that this lower was reverted on Ethereum comes before the proof, the
  token manager refuses it: no balance changes and no refund is reported. The bridge has recorded the
  event by then and refuses to process it a second time.\<close>

theorem regeneration_blocks_refund:
  assumes "C = token_bridge B later tell T" "outbox (tok_world (bridge_world s)) = []"
    and "alist_get i (lowers_ready_to_claim (bridge_world s)) \<noteq> None" "\<not> lowers_disabled (bridge_world s)"
    and "active_request s \<noteq> None" "length (queued s) < max_queued_tx_requests B"
    and "s1 = runtime_do C T (TokenTx (Signed anybody) (RegenerateLowerProof i)) s"
    and "event_data_of ev = LogLowerReverted d" "reverted_lower_id d = i" "process_ethereum_event C eth_net ev s1 = Inr s2"
  shows "owed s1 = owed s @ [i] \<and> tok_balances (bridge_world s2) = tok_balances (bridge_world s) \<and>
    tok_events (bridge_world s2) = tok_events (bridge_world s1) \<and>
    process_ethereum_event C eth_net ev s2 = Inl EventAlreadyProcessed"
proof -
  obtain lower where lower: "alist_get i (lowers_ready_to_claim (bridge_world s)) = Some lower"
    using assms(3) by blast
  note s1 = regenerate_queued [OF assms(1) refl assms(2) lower assms(4-7)]
  show ?thesis
    using s1(1,2) refund_refused [OF assms(8,9) s1(3) assms(10) [unfolded assms(1)]] by (simp add: assms(1))
qed

text \<open>The small chain with a lower that is ready to claim, while the bridge is busy with another.\<close>

definition busy :: "unit lower_world tokens bridge" where
  "busy = runtime_start\<lparr>bridge_world := (bridge_world runtime_start)
       \<lparr>lowers_ready_to_claim := [(0, \<lparr>lpd_params = small_params, encoded_lower_data = [1, 2]\<rparr>)]\<rparr>,
     active_request := Some \<lparr>active_req = LowerProof \<lparr>lower_id = 1, proof_params = [], proof_caller_id = TOKEN_PALLET_ID\<rparr>,
       active_conf = \<lparr>msg_hash = 7, confirmations = []\<rparr>, active_tx_data = None, last_updated = 0\<rparr>\<rparr>"

definition reverted_event :: eth_event where
  "reverted_event = \<lparr>event_id = \<lparr>id_signature = event_signature LowerReverted, transaction_hash = 79\<rparr>,
     event_data_of = LogLowerReverted \<lparr>reverted_token = 7, reverted_receiver = 10, reverted_t1_recipient = 5,
       reverted_amount = 30, reverted_lower_id = 0\<rparr>\<rparr>"

lemma busy_fields:
  "outbox (tok_world (bridge_world busy)) = []" "alist_get 0 (lowers_ready_to_claim (bridge_world busy)) \<noteq> None"
  "\<not> lowers_disabled (bridge_world busy)" "active_request busy \<noteq> None" "length (queued busy) < max_queued_tx_requests small_config"
  by (simp_all add: busy_def runtime_start_def token_genesis_def queued_def small_config_def)

definition regenerated :: "unit lower_world tokens bridge" where
  "regenerated = runtime_do small_runtime small_tokens (TokenTx (Signed 55) (RegenerateLowerProof 0)) busy"

lemma revert_processed: "\<exists>s2. process_ethereum_event small_runtime Sepolia reverted_event regenerated = Inr s2"
proof -
  have "processed_ethereum_events regenerated = []" "the_instance regenerated = small_instance"
    by (simp_all add: regenerated_def committed_def commit_def kept_or_def busy_def runtime_start_def token_genesis_def
        regenerate_lower_proof_def regenerate_proof_def with_world_def wired_tokens_def token_event_deposit_def
        generate_lower_proof_def add_new_lower_proof_request_def queue_request_def token_pallet_id_short
        small_runtime_def token_bridge_def small_config_def bridge_event_deposit_def)
  moreover have "valid_event_try_from (event_signature LowerReverted) = Inr LowerReverted"
    using valid_event_round_trip by blast
  moreover have "instance_is_valid small_instance" "network small_instance = Sepolia"
    "\<not> List.member LEGACY_LIFT_SIGNATURE (event_signature LowerReverted)"
    by (simp_all add: small_instance_def instance_is_valid_def LEGACY_LIFT_SIGNATURE_def)
  ultimately show ?thesis
    by (simp add: process_ethereum_event_def network_processed_event_exists_def processed_event_exists_def
        network_add_processed_event_def add_processed_event_def ethereum_event_has_already_been_accepted_def
        reverted_event_def notify_event_def split_beta Let_def del: event_signature.simps split: option.split prod.split)
qed

theorem regeneration_blocks_refund_witness:
  "\<exists>s2. process_ethereum_event small_runtime Sepolia reverted_event regenerated = Inr s2 \<and>
     owed regenerated = owed busy @ [0] \<and> tok_balances (bridge_world s2) = tok_balances (bridge_world busy) \<and>
     process_ethereum_event small_runtime Sepolia reverted_event s2 = Inl EventAlreadyProcessed"
proof -
  obtain s2 where s2: "process_ethereum_event small_runtime Sepolia reverted_event regenerated = Inr s2"
    using revert_processed by blast
  have "event_data_of reverted_event = LogLowerReverted \<lparr>reverted_token = 7, reverted_receiver = 10,
      reverted_t1_recipient = 5, reverted_amount = 30, reverted_lower_id = 0\<rparr>"
    by (simp add: reverted_event_def)
  from regeneration_blocks_refund [OF small_runtime_def busy_fields regenerated_def this _ s2] s2 show ?thesis
    by simp
qed

end
