(* ===== verification/Spec2Isabelle.thy ===== *)
theory Spec2Isabelle
  imports Staking_Properties Summary_Properties Eth_Properties Eth_Bridge_Migration Token_Properties
begin

text \<open>
  A verification library for the AvN parachain, a Substrate runtime whose pallets stake and
  reward collators, summarise blocks into roots that are published on Ethereum, and move tokens
  and events between Ethereum and the chain.

  \<^bold>\<open>How the code is modelled.\<close> A pallet's storage is a record with a field per storage item,
  its configuration (the \<open>Config\<close> trait) a record of functions and constants, and every call,
  hook and helper a function of its own, with the name it has in the source where that is
  possible. A dispatchable returns \<open>Inl\<close> of an error or \<open>Inr\<close> of the new storage, since the
  runtime undoes a call that fails; a handler that is not undone returns its error together with
  the storage it leaves. Panics are errors of their own. Integers are natural numbers or
  integers with the saturating, checked or wrapping arithmetic of the source written out at its
  width. Storage maps are functions or association lists. What is not under \<open>src/\<close> (the currency,
  the asset registry, the scheduler, hashing, signature checks, HTTP) is a field of the
  configuration, and what a property needs of it is a hypothesis that its witness discharges.

  \<^bold>\<open>Shared.\<close> \<open>Avn_Prelude\<close> has the arithmetic, results with the \<open>?\<close> operator and vectors;
  \<open>Avn_Runtime\<close> origins, dispatch errors, association lists and unsigned transactions;
  \<open>Avn_Signature\<close> the proof of a signed call and the interface \<open>signed_calls\<close>, whose
  consequence, that a proof is accepted once, is used by the staking pallet and the token
  manager. \<open>Avn_Validators\<close> and \<open>Avn_Vote\<close> are \<open>pallets/avn/src/lib.rs\<close> and \<open>vote.rs\<close>:
  validators, turns, quorums, and the interface \<open>voting_session\<close>.

  \<^bold>\<open>Staking\<close> (\<open>pallets/parachain-staking/src\<close>). \<open>Ordered_Set\<close> is \<open>set.rs\<close> with the interface
  \<open>keyed_set\<close>; \<open>Staking_Types\<close>, \<open>Staking_Nominations\<close>, \<open>Staking_Candidate\<close>,
  \<open>Staking_Nominator\<close> are \<open>types.rs\<close>; \<open>Staking_Requests\<close> is \<open>nomination_requests.rs\<close> with the
  nominator's side of it; \<open>Staking_Rewards\<close> and \<open>Staking_Calls\<close> are \<open>lib.rs\<close> and
  \<open>session_handler.rs\<close>. \<open>Staking_Book\<close> and its two siblings prove that a candidate's two
  vectors stay one ranking; \<open>Staking_Record\<close> does the same for a nominator's record;
  \<open>Staking_Inv\<close> has the invariant of the storage, \<open>Staking_Change\<close> and the \<open>Staking_Keep\<close>
  theories carry it through every call; \<open>Staking_Reach\<close>, \<open>Staking_Always\<close> and \<open>Staking_Hooks\<close>
  through every run. \<open>Staking_Ledger\<close> is the abstract ledger that the calls refine;
  \<open>Staking_Frame\<close>, \<open>Staking_Growth\<close> and \<open>Staking_Effects\<close> have replay protection, growth and
  the effects of single operations. \<open>Staking_Demo\<close> is a small chain, \<open>Staking_Properties\<close> the
  properties.

  \<^bold>\<open>Summaries\<close> (\<open>pallets/summary/src\<close>). \<open>Summary\<close> is the whole pallet, \<open>Summary_Votes\<close> the
  effect of its operations and the interpretation of \<open>voting_session\<close>, \<open>Summary_Steps\<close> the
  transition system, \<open>Summary_Inv\<close> the invariant, the life of a root and the tiling of the
  chain by the approved ranges while the schedule is not changed. \<open>Summary_Properties\<close> has the
  properties.

  \<^bold>\<open>Ethereum\<close> (\<open>primitives/avn-common/src\<close>, \<open>pallets/eth-bridge/src\<close>). \<open>Eth_Codec\<close> and
  \<open>Eth_Messages\<close> are \<open>eth/mod.rs\<close>, \<open>Eth_Events\<close> is \<open>event_types.rs\<close>, whose parsers index, slice and convert
  with operations that panic out of bounds, \<open>Event_Discovery\<close> is
  \<open>event_discovery.rs\<close>. \<open>Eth_Bridge\<close> is the pallet: requests, confirmations, corroborations,
  votes on ranges and events, calls and hooks. \<open>Eth_Bridge_Queue\<close> shows that it answers the
  accepted requests in order and each once, \<open>Eth_Bridge_Votes\<close> what the votes decide,
  \<open>Eth_Bridge_Worker\<close> the decisions of the off-chain worker and that what it submits is
  accepted, \<open>Eth_Bridge_Migration\<close> the migration of processed events. \<open>Eth_Demo\<close> is a small
  bridge, \<open>Eth_Properties\<close> the properties.

  \<^bold>\<open>Tokens\<close> (\<open>pallets/token-manager/src\<close>). \<open>Token_Manager\<close> is the whole pallet: transfers,
  lifts, scheduled and executed lowers, lower proofs and their regeneration, claims and refunds.
  \<open>Token_Ledger\<close> follows a run: the supply of a token the pallet keeps itself, the settlements
  of a lower, the nonces of signed calls.

  \<^bold>\<open>The pallets together.\<close> \<open>Eth_Bridge_Client\<close> is the interface \<open>bridge_client\<close> of a pallet that
  sends requests to the bridge and is notified of their results. \<open>Eth_Lowering\<close> connects the
  token manager, the scheduler and the bridge as \<open>runtime/avn/src/configs/mod.rs\<close> does, with an
  outbox of requests and an agenda of scheduled lowers as the state between them, and interprets
  the interface. \<open>Token_Properties\<close> has the properties of both: along every run in
  which Root does not execute a lower under a number that is unused or still in use, the lowers
  whose proof is pending are the ones the bridge still owes an answer, and the answer it gives
  for a successful one fits the storage bound.

  \<^bold>\<open>Bounds and termination.\<close> The recursion of \<open>process_next_request\<close> is bounded by the length of
  the queue, the binary search by the width of its interval and the walk over equal stakes by
  the length of the vector; other loops are structural; every function of the model is total and no
  function runs on fuel. Runs of the runtime are followed while the counter of lowers has not
  reached its last value. Properties that need no such bound have none.

  \<^bold>\<open>Findings.\<close> Where the code does something other than it means to, a property states what it
  does: the total of the bottom nominations, payouts of growth that
  stop half-way, requests beyond the bound of the list, signed
  executions that need a request for every nomination, a change of
  the schedule while a root is pending, keys that are not compared with the registered ones, a
  turn among 256 validators, an author that confirms twice, lower proofs with more than 150
  validators, a short topic of a cancelled listing, refunds while a proof is made again, and
  refunds that fail.

  \<^bold>\<open>Not modelled.\<close> HTTP and off-chain storage, weights and benchmarks, storage migrations
  between versions of a pallet, the node and the generated runtime. The pallets
  \<open>ethereum-events\<close>, \<open>validators-manager\<close>, \<open>authors-manager\<close>, \<open>node-manager\<close>, \<open>nft-manager\<close>,
  \<open>watchtower\<close>, \<open>summary-watchtower\<close>, \<open>avn-anchor\<close>, \<open>avn-proxy\<close>,
  \<open>avn-transaction-payment\<close>, \<open>cross-chain-voting\<close> and \<open>avn-offence-handler\<close> and the Merkle
  tree of \<open>client/extrinsic-utils\<close> could be modelled in the same way and are outside the scope of
  this library, which follows stakes, summaries and tokens. Where a modelled pallet meets one of
  them (the watchtower validates roots, offences are reported, sessions bring new validators),
  it is a parameter or a step of the run.
\<close>

end
